(* ===== verification/Prelude.thy ===== *)
theory Prelude
  imports Main "HOL-Library.Word"
begin

text \<open>
  Shared vocabulary of the development: the machine types of the Rust sources, the
  \<open>Result\<close> monad as a sum type, the run of a step function over a list of events, and the
  list and word lemmas that several components use.

  \<^item> \<open>u8\<close>, \<open>u64\<close> are words of that width; arithmetic on them wraps around, as the
    release profile of the workspace does (no overflow checks are configured).
  \<^item> \<open>bytes\<close> is \<open>Vec<u8>\<close> or \<open>&[u8]\<close>; \<open>string\<close> is \<open>String\<close>, a list of bytes (UTF-8),
    so \<open>length\<close> is Rust's \<open>len()\<close>.
  \<^item> \<open>'e + 'a\<close> is \<open>Result<'a, 'e>\<close>, with \<open>Inl\<close> for \<open>Err\<close>.
\<close>

section \<open>Machine types\<close>

type_synonym u8 = "8 word"
type_synonym u64 = "64 word"
type_synonym bytes = "u8 list"

named_theorems result_simps \<open>rewriting of the Result monad\<close>
named_theorems inv_simps \<open>unfolding of the component invariants\<close>

section \<open>The Result monad\<close>

text \<open>The question mark operator: the error returns at once, the value goes on.\<close>

definition bind_r :: "'e + 'a \<Rightarrow> ('a \<Rightarrow> 'e + 'b) \<Rightarrow> 'e + 'b" where
  "bind_r r f = (case r of Inl e \<Rightarrow> Inl e | Inr x \<Rightarrow> f x)"

definition map_err :: "('e \<Rightarrow> 'f) \<Rightarrow> 'e + 'a \<Rightarrow> 'f + 'a" where
  "map_err h r = (case r of Inl e \<Rightarrow> Inl (h e) | Inr x \<Rightarrow> Inr x)"

definition ok_or :: "'e \<Rightarrow> 'a option \<Rightarrow> 'e + 'a" where
  "ok_or e x = (case x of None \<Rightarrow> Inl e | Some y \<Rightarrow> Inr y)"

definition result_ok :: "'e + 'a \<Rightarrow> 'a option" where
  "result_ok r = (case r of Inl e \<Rightarrow> None | Inr x \<Rightarrow> Some x)"

text \<open>\<open>Iterator::collect::<Result<Vec<_>, _>>()\<close>: the first error in order, or all values.\<close>

fun collect_r :: "('a \<Rightarrow> 'e + 'b) \<Rightarrow> 'a list \<Rightarrow> 'e + 'b list" where
  "collect_r f [] = Inr []"
| "collect_r f (x # xs) = bind_r (f x) (\<lambda>y. bind_r (collect_r f xs) (\<lambda>ys. Inr (y # ys)))"

lemma bind_r_Inl [simp, result_simps]: "bind_r (Inl e) f = Inl e"
  and bind_r_Inr [simp, result_simps]: "bind_r (Inr x) f = f x"
  by (simp_all add: bind_r_def)

lemma map_err_Inl [simp, result_simps]: "map_err h (Inl e) = Inl (h e)"
  and map_err_Inr [simp, result_simps]: "map_err h (Inr x) = Inr x"
  by (simp_all add: map_err_def)

lemma ok_or_None [simp, result_simps]: "ok_or e None = Inl e"
  and ok_or_Some [simp, result_simps]: "ok_or e (Some x) = Inr x"
  by (simp_all add: ok_or_def)

lemma result_ok_Inl [simp, result_simps]: "result_ok (Inl e) = None"
  and result_ok_Inr [simp, result_simps]: "result_ok (Inr x) = Some x"
  by (simp_all add: result_ok_def)

lemma result_ok_eq_Some [simp, result_simps]: "result_ok r = Some x \<longleftrightarrow> r = Inr x"
  by (auto simp: result_ok_def split: sum.splits)

lemma bind_r_eq_Inr [result_simps]: "bind_r r f = Inr y \<longleftrightarrow> (\<exists>x. r = Inr x \<and> f x = Inr y)"
  by (cases r) auto

lemma bind_r_eq_Inl [result_simps]:
  "bind_r r f = Inl e \<longleftrightarrow> r = Inl e \<or> (\<exists>x. r = Inr x \<and> f x = Inl e)"
  by (cases r) auto

lemma map_err_eq_Inr [result_simps]: "map_err h r = Inr x \<longleftrightarrow> r = Inr x"
  by (cases r) auto

lemma map_err_eq_Inl [result_simps]: "map_err h r = Inl e \<longleftrightarrow> (\<exists>d. r = Inl d \<and> e = h d)"
  by (cases r) auto

lemma ok_or_eq_Inr [result_simps]: "ok_or e x = Inr y \<longleftrightarrow> x = Some y"
  by (cases x) auto

lemma collect_r_Inr_iff:
  "collect_r f xs = Inr ys \<longleftrightarrow> list_all2 (\<lambda>x y. f x = Inr y) xs ys"
  by (induction xs arbitrary: ys) (auto simp: bind_r_eq_Inr list_all2_Cons1)

lemma collect_r_length: "collect_r f xs = Inr ys \<Longrightarrow> length ys = length xs"
  by (simp add: collect_r_Inr_iff list_all2_lengthD)

lemma collect_r_total: "(\<And>x. x \<in> set xs \<Longrightarrow> f x = Inr (g x)) \<Longrightarrow> collect_r f xs = Inr (map g xs)"
  by (induction xs) auto

section \<open>Runs of a deterministic machine\<close>

text \<open>
  A component with mutable state is a step function; a run folds it over the calls. The
  locale below is the interface every stateful component of the development implements: a
  step function, and an invariant its steps keep under the admissible calls.
\<close>

fun run :: "('e \<Rightarrow> 's \<Rightarrow> 's) \<Rightarrow> 'e list \<Rightarrow> 's \<Rightarrow> 's" where
  "run step [] s = s"
| "run step (e # es) s = run step es (step e s)"

lemma run_append: "run step (es @ fs) s = run step fs (run step es s)"
  by (induction es arbitrary: s) auto

text \<open>Every call of the run is admissible in the state it meets.\<close>

fun run_ok :: "('e \<Rightarrow> 's \<Rightarrow> 's) \<Rightarrow> ('e \<Rightarrow> 's \<Rightarrow> bool) \<Rightarrow> 'e list \<Rightarrow> 's \<Rightarrow> bool" where
  "run_ok step ok [] s = True"
| "run_ok step ok (e # es) s = (ok e s \<and> run_ok step ok es (step e s))"

locale machine =
  fixes step :: "'e \<Rightarrow> 's \<Rightarrow> 's"
    and inv :: "'s \<Rightarrow> bool"
    and ok :: "'e \<Rightarrow> 's \<Rightarrow> bool"
  assumes step_inv: "inv s \<Longrightarrow> ok e s \<Longrightarrow> inv (step e s)"
begin

lemma run_inv: "inv s \<Longrightarrow> run_ok step ok es s \<Longrightarrow> inv (run step es s)"
  by (induction es arbitrary: s) (auto intro: step_inv)

end

text \<open>A machine whose steps never undo what a preorder on states records.\<close>

locale monotone_machine = machine step inv ok
  for step :: "'e \<Rightarrow> 's \<Rightarrow> 's" and inv :: "'s \<Rightarrow> bool" and ok :: "'e \<Rightarrow> 's \<Rightarrow> bool" +
  fixes below :: "'s \<Rightarrow> 's \<Rightarrow> bool"
  assumes below_refl: "below s s"
    and below_trans: "below s t \<Longrightarrow> below t u \<Longrightarrow> below s u"
    and step_below: "inv s \<Longrightarrow> ok e s \<Longrightarrow> below s (step e s)"
begin

lemma run_below: "inv s \<Longrightarrow> run_ok step ok es s \<Longrightarrow> below s (run step es s)"
proof (induction es arbitrary: s)
  case Nil
  show ?case by (simp add: below_refl)
next
  case (Cons e es)
  then have "below s (step e s)" and "below (step e s) (run step es (step e s))"
    by (auto intro: step_below step_inv)
  then show ?case by (auto intro: below_trans)
qed

end

section \<open>Lists\<close>

lemma sorted_wrt_dropWhile: "sorted_wrt P xs \<Longrightarrow> sorted_wrt P (dropWhile Q xs)"
  by (simp add: dropWhile_eq_drop)

lemma sorted_wrt_filter [simp]: "sorted_wrt P xs \<Longrightarrow> sorted_wrt P (filter Q xs)"
  by (induction xs) auto

lemma sorted_wrt_map_iff: "sorted_wrt P (map f xs) \<longleftrightarrow> sorted_wrt (\<lambda>x y. P (f x) (f y)) xs"
  by (simp add: sorted_wrt_map)

lemma distinct_map_sorted_wrt:
  "sorted_wrt (\<lambda>x y. f x < (f y :: 'b::order)) xs \<Longrightarrow> distinct (map f xs)"
  by (induction xs) auto

lemma filter_take_last:
  assumes "sorted_wrt (\<lambda>x y. f x < (f y :: 'b::linorder)) xs" and "xs = ys @ zs" and "ys \<noteq> []"
  shows "filter (\<lambda>x. f (last ys) < f x) xs = zs"
proof -
  have "filter (\<lambda>x. f (last ys) < f x) ys = []"
  proof -
    have "f x \<le> f (last ys)" if "x \<in> set ys" for x
      using assms that by (cases ys rule: rev_cases) (auto simp: sorted_wrt_append less_imp_le)
    then show ?thesis by (auto simp: filter_empty_conv not_less)
  qed
  moreover have "filter (\<lambda>x. f (last ys) < f x) zs = zs"
    using assms by (auto simp: sorted_wrt_append intro!: filter_True)
  ultimately show ?thesis using assms(2) by simp
qed

lemma find_Some_in: "find P xs = Some x \<Longrightarrow> x \<in> set xs \<and> P x"
  by (auto simp: find_Some_iff in_set_conv_nth)

lemma find_map_same:
  "(\<And>x. P (f x) \<longleftrightarrow> P x) \<Longrightarrow> find P (map f xs) = map_option f (find P xs)"
  by (induction xs) auto

lemma find_unique:
  assumes "distinct (map f xs)" and "x \<in> set xs"
  shows "find (\<lambda>y. f y = f x) xs = Some x"
  using assms by (induction xs) (auto simp: image_iff)

lemma find_append_None: "find P xs = None \<Longrightarrow> find P (xs @ ys) = find P ys"
  by (induction xs) (auto split: if_splits)

section \<open>Words\<close>

lemma unat_max_u64 [simp]: "unat (- 1 :: u64) = 18446744073709551615"
  by (simp add: unsigned_minus_1_eq_mask mask_eq_exp_minus_1)

lemma unat_Suc_less: "(x :: u64) < y \<Longrightarrow> unat (x + 1) = Suc (unat x)"
  by unat_arith

lemma word_Suc_le_iff: "(x :: u64) < y \<Longrightarrow> x + 1 \<le> z \<longleftrightarrow> x < z"
  by unat_arith

lemma word_less_Suc_iff: "(x :: u64) < y \<Longrightarrow> z < x + 1 \<longleftrightarrow> z \<le> x"
  by unat_arith

end
