(* ===== verification/Rust_Std.thy ===== *)
theory Rust_Std
  imports Prelude
begin

text \<open>
  The parts of the Rust standard library that the sources rely on: saturating subtraction,
  decimal \<open>Display\<close> and \<open>FromStr\<close> of integers, big-endian bytes, \<open>strip_prefix\<close>,
  \<open>strip_suffix\<close>, \<open>contains\<close>, \<open>split\<close> and \<open>trim_start_matches\<close> on strings, and the binary
  search behind \<open>partition_point\<close> and \<open>binary_search_by_key\<close>, with the lemmas the
  components use: round trips of the number formats, and the equivalence of the binary search
  with a linear scan.
\<close>

section \<open>Integers\<close>

definition saturating_sub :: "'a::len word \<Rightarrow> 'a word \<Rightarrow> 'a word" where
  "saturating_sub a b = (if a < b then 0 else a - b)"

lemma unat_saturating_sub: "unat (saturating_sub a b) = unat a - unat b"
  by (simp add: saturating_sub_def unat_sub word_less_nat_alt word_le_nat_alt not_less)

definition to_be_bytes :: "u64 \<Rightarrow> bytes" where
  "to_be_bytes w = map (\<lambda>i. ucast (drop_bit (8 * i) w)) (rev [0 ..< 8])"

definition from_be_bytes :: "bytes \<Rightarrow> u64" where
  "from_be_bytes bs = foldl (\<lambda>acc b. push_bit 8 acc + ucast b) 0 bs"

lemma length_to_be_bytes [simp]: "length (to_be_bytes w) = 8"
  by (simp add: to_be_bytes_def)

text \<open>Reading a byte appends the next eight bits below those read so far.\<close>

lemma read_byte: "push_bit 8 (drop_bit (i + 8) w) + ucast (ucast (drop_bit i w) :: u8) = drop_bit i (w :: u64)"
proof -
  have "drop_bit (i + 8) w = drop_bit 8 (drop_bit i w)" by (simp add: add.commute)
  moreover have "ucast (ucast (drop_bit i w) :: u8) = take_bit 8 (drop_bit i w)"
    by (rule bit_word_eqI) (auto simp: bit_unsigned_iff bit_take_bit_iff)
  ultimately show ?thesis using bits_ident [of 8 "drop_bit i w"] by (simp only:)
qed

lemma be_bytes_roundtrip [simp]: "from_be_bytes (to_be_bytes w) = w"
proof -
  have steps: "push_bit 8 (drop_bit 64 w) + ucast (ucast (drop_bit 56 w) :: u8) = drop_bit 56 w"
    "push_bit 8 (drop_bit 56 w) + ucast (ucast (drop_bit 48 w) :: u8) = drop_bit 48 w"
    "push_bit 8 (drop_bit 48 w) + ucast (ucast (drop_bit 40 w) :: u8) = drop_bit 40 w"
    "push_bit 8 (drop_bit 40 w) + ucast (ucast (drop_bit 32 w) :: u8) = drop_bit 32 w"
    "push_bit 8 (drop_bit 32 w) + ucast (ucast (drop_bit 24 w) :: u8) = drop_bit 24 w"
    "push_bit 8 (drop_bit 24 w) + ucast (ucast (drop_bit 16 w) :: u8) = drop_bit 16 w"
    "push_bit 8 (drop_bit 16 w) + ucast (ucast (drop_bit 8 w) :: u8) = drop_bit 8 w"
    "push_bit 8 (drop_bit 8 w) + ucast (ucast w :: u8) = w"
    using read_byte [of 56 w] read_byte [of 48 w] read_byte [of 40 w] read_byte [of 32 w]
      read_byte [of 24 w] read_byte [of 16 w] read_byte [of 8 w] read_byte [of 0 w] by simp_all
  have top: "drop_bit 64 w = 0" by simp
  have "to_be_bytes w = [ucast (drop_bit 56 w), ucast (drop_bit 48 w), ucast (drop_bit 40 w), ucast (drop_bit 32 w),
      ucast (drop_bit 24 w), ucast (drop_bit 16 w), ucast (drop_bit 8 w), ucast w]"
    by (simp add: to_be_bytes_def upt_rec)
  then show ?thesis using steps [unfolded top] by (simp add: from_be_bytes_def)
qed

section \<open>Decimal numbers\<close>

definition digit_char :: "nat \<Rightarrow> char" where
  "digit_char d = char_of (48 + d)"

definition is_ascii_digit :: "char \<Rightarrow> bool" where
  "is_ascii_digit c \<longleftrightarrow> 48 \<le> (of_char c :: nat) \<and> (of_char c :: nat) \<le> 57"

definition digit_val :: "char \<Rightarrow> nat" where
  "digit_val c = of_char c - 48"

definition is_ascii_hexdigit :: "char \<Rightarrow> bool" where
  "is_ascii_hexdigit c \<longleftrightarrow> is_ascii_digit c
     \<or> (65 \<le> (of_char c :: nat) \<and> (of_char c :: nat) \<le> 70)
     \<or> (97 \<le> (of_char c :: nat) \<and> (of_char c :: nat) \<le> 102)"

fun show_nat :: "nat \<Rightarrow> string" where
  "show_nat n = (if n < 10 then [digit_char n] else show_nat (n div 10) @ [digit_char (n mod 10)])"

declare show_nat.simps [simp del]

definition show_u64 :: "'a::len word \<Rightarrow> string" where
  "show_u64 w = show_nat (unat w)"

definition digits_val :: "string \<Rightarrow> nat" where
  "digits_val cs = foldl (\<lambda>n c. 10 * n + digit_val c) 0 cs"

text \<open>
  \<open>str::parse\<close> for an unsigned type with values below \<open>bound\<close>: an optional plus sign, at least
  one digit, only digits, no overflow.
\<close>

definition parse_nat :: "nat \<Rightarrow> string \<Rightarrow> nat option" where
  "parse_nat bound s =
     (let ds = (case s of c # cs \<Rightarrow> if c = CHR ''+'' then cs else s | [] \<Rightarrow> [])
      in if ds \<noteq> [] \<and> list_all is_ascii_digit ds \<and> digits_val ds < bound
         then Some (digits_val ds) else None)"

definition parse_u64 :: "string \<Rightarrow> u64 option" where
  "parse_u64 s = map_option of_nat (parse_nat (2 ^ 64) s)"

text \<open>\<open>{:012}\<close>: at least twelve characters, padded with zeros on the left.\<close>

definition zero_pad :: "nat \<Rightarrow> string \<Rightarrow> string" where
  "zero_pad k s = replicate (k - length s) (CHR ''0'') @ s"

lemma of_char_digit_char: "d < 10 \<Longrightarrow> (of_char (digit_char d) :: nat) = 48 + d"
  by (simp add: digit_char_def)

lemma digit_val_digit_char [simp]: "d < 10 \<Longrightarrow> digit_val (digit_char d) = d"
  by (simp add: digit_val_def of_char_digit_char)

lemma is_ascii_digit_digit_char [simp]: "d < 10 \<Longrightarrow> is_ascii_digit (digit_char d)"
  by (simp add: is_ascii_digit_def of_char_digit_char)

lemma digits_val_snoc [simp]: "digits_val (cs @ [c]) = 10 * digits_val cs + digit_val c"
  by (simp add: digits_val_def)

lemma digits_val_Nil [simp]: "digits_val [] = 0"
  by (simp add: digits_val_def)

lemma show_nat_nonempty [simp]: "show_nat n \<noteq> []"
  by (subst show_nat.simps) simp

lemma show_nat_digits: "list_all is_ascii_digit (show_nat n)"
proof (induction n rule: show_nat.induct)
  case (1 n)
  then show ?case by (subst show_nat.simps) auto
qed

lemma digits_val_show_nat [simp]: "digits_val (show_nat n) = n"
proof (induction n rule: show_nat.induct)
  case (1 n)
  show ?case
  proof (cases "n < 10")
    case True
    then show ?thesis using digits_val_snoc [of "[]"] by (subst show_nat.simps) simp
  next
    case False
    with 1 show ?thesis by (subst show_nat.simps) (simp add: algebra_simps)
  qed
qed

lemma digits_val_zeros: "digits_val (replicate k (CHR ''0'') @ cs) = digits_val cs"
  by (induction k) (simp_all add: digits_val_def digit_val_def)

lemma list_all_zero_pad: "list_all is_ascii_digit s \<Longrightarrow> list_all is_ascii_digit (zero_pad k s)"
  by (auto simp: zero_pad_def list_all_iff is_ascii_digit_def)

lemma plus_not_digit [simp]: "\<not> is_ascii_digit (CHR ''+'')"
  by (simp add: is_ascii_digit_def)

lemma parse_nat_digits:
  assumes "ds \<noteq> []" and "list_all is_ascii_digit ds"
  shows "parse_nat bound ds = (if digits_val ds < bound then Some (digits_val ds) else None)"
  using assms by (auto simp: parse_nat_def Let_def split: list.splits)

lemma parse_nat_show [simp]: "n < bound \<Longrightarrow> parse_nat bound (show_nat n) = Some n"
  by (simp add: parse_nat_digits show_nat_digits)

lemma zero_pad_nonempty [simp]: "s \<noteq> [] \<Longrightarrow> zero_pad k s \<noteq> []"
  by (simp add: zero_pad_def)

lemma parse_nat_zero_pad [simp]: "n < bound \<Longrightarrow> parse_nat bound (zero_pad k (show_nat n)) = Some n"
  by (simp add: parse_nat_digits list_all_zero_pad show_nat_digits)
     (simp add: zero_pad_def digits_val_zeros)

lemma unat_less_u64: "unat (w :: u64) < 18446744073709551616"
  using unsigned_less [of w, where ?'a = nat] by simp

lemma parse_u64_show [simp]: "parse_u64 (show_u64 (w :: u64)) = Some w"
  by (simp add: parse_u64_def show_u64_def unat_less_u64)

lemma parse_u64_zero_pad [simp]: "parse_u64 (zero_pad k (show_u64 (w :: u64))) = Some w"
  by (simp add: parse_u64_def show_u64_def unat_less_u64)

text \<open>
  The standard library's loop behind \<open>str::parse\<close>, with its errors: a digit that is no digit is
  reported before an overflow that the same character causes.
\<close>

definition empty_int_error :: string where
  "empty_int_error = ''cannot parse integer from empty string''"

definition invalid_digit_error :: string where
  "invalid_digit_error = ''invalid digit found in string''"

definition overflow_error :: string where
  "overflow_error = ''number too large to fit in target type''"

fun parse_digits :: "nat \<Rightarrow> nat \<Rightarrow> string \<Rightarrow> string + nat" where
  "parse_digits bound n [] = Inr n"
| "parse_digits bound n (c # cs) =
     (if \<not> is_ascii_digit c then Inl invalid_digit_error
      else if bound \<le> 10 * n + digit_val c then Inl overflow_error
      else parse_digits bound (10 * n + digit_val c) cs)"

definition parse_int :: "nat \<Rightarrow> string \<Rightarrow> string + nat" where
  "parse_int bound s =
     (case s of
        [] \<Rightarrow> Inl empty_int_error
      | c # cs \<Rightarrow> if cs = [] \<and> (c = CHR ''+'' \<or> c = CHR ''-'') then Inl invalid_digit_error
                  else parse_digits bound 0 (if c = CHR ''+'' then cs else s))"

lemma digits_val_foldl: "foldl (\<lambda>n c. 10 * n + digit_val c) n cs = n * 10 ^ length cs + digits_val cs"
proof (induction cs arbitrary: n rule: rev_induct)
  case (snoc c cs)
  then show ?case by (simp add: algebra_simps)
qed simp

lemma parse_digits_Inr:
  "n < bound \<Longrightarrow> parse_digits bound n cs = Inr m \<longleftrightarrow>
     list_all is_ascii_digit cs \<and> m = foldl (\<lambda>n c. 10 * n + digit_val c) n cs \<and> m < bound"
proof (induction cs arbitrary: n)
  case (Cons c cs)
  have le: "10 * n + digit_val c \<le> foldl (\<lambda>n c. 10 * n + digit_val c) (10 * n + digit_val c) cs"
    unfolding digits_val_foldl by (rule trans_le_add1) simp
  show ?case
  proof (cases "10 * n + digit_val c < bound")
    case True
    then show ?thesis using Cons.IH [of "10 * n + digit_val c"] by auto
  next
    case False
    with le show ?thesis by auto
  qed
qed auto

lemma parse_int_Inr: "0 < bound \<Longrightarrow> parse_int bound s = Inr n \<longleftrightarrow> parse_nat bound s = Some n"
proof (cases s)
  case (Cons c cs)
  assume "0 < bound"
  then have d: "parse_digits bound 0 ds = Inr n \<longleftrightarrow> list_all is_ascii_digit ds \<and> n = digits_val ds \<and> n < bound" for ds
    by (simp add: parse_digits_Inr digits_val_def)
  have "\<not> is_ascii_digit (CHR ''-'')" by (simp add: is_ascii_digit_def)
  then show ?thesis by (auto simp: Cons parse_int_def parse_nat_def d Let_def)
qed (simp add: parse_int_def parse_nat_def)

definition nat_be_bytes :: "nat \<Rightarrow> nat \<Rightarrow> bytes" where
  "nat_be_bytes k n = map (\<lambda>i. of_nat (n div 256 ^ i)) (rev [0 ..< k])"

lemma length_nat_be_bytes [simp]: "length (nat_be_bytes k n) = k"
  by (simp add: nat_be_bytes_def)

section \<open>Strings\<close>

definition str_bytes :: "string \<Rightarrow> bytes" where
  "str_bytes s = map (\<lambda>c. of_nat (of_char c)) s"

fun strip_prefix :: "string \<Rightarrow> string \<Rightarrow> string option" where
  "strip_prefix [] s = Some s"
| "strip_prefix (p # ps) [] = None"
| "strip_prefix (p # ps) (c # cs) = (if p = c then strip_prefix ps cs else None)"

definition strip_suffix :: "string \<Rightarrow> string \<Rightarrow> string option" where
  "strip_suffix p s = map_option rev (strip_prefix (rev p) (rev s))"

definition starts_with :: "string \<Rightarrow> string \<Rightarrow> bool" where
  "starts_with p s \<longleftrightarrow> strip_prefix p s \<noteq> None"

text \<open>\<open>s.strip_prefix("0x").unwrap_or(s)\<close>, the idiom of every hex field.\<close>

definition strip_0x :: "string \<Rightarrow> string" where
  "strip_0x s = (case strip_prefix ''0x'' s of None \<Rightarrow> s | Some t \<Rightarrow> t)"

text \<open>\<open>s.trim_start_matches("0x")\<close> removes the prefix as often as it occurs.\<close>

fun trim_start_0x :: "string \<Rightarrow> string" where
  "trim_start_0x (a # b # s) = (if a = CHR ''0'' \<and> b = CHR ''x'' then trim_start_0x s else a # b # s)"
| "trim_start_0x s = s"

fun str_contains :: "string \<Rightarrow> string \<Rightarrow> bool" where
  "str_contains s pat = (starts_with pat s \<or> (case s of [] \<Rightarrow> False | c # cs \<Rightarrow> str_contains cs pat))"

declare str_contains.simps [simp del]

fun split_on :: "'a \<Rightarrow> 'a list \<Rightarrow> 'a list list" where
  "split_on d [] = [[]]"
| "split_on d (c # cs) =
     (if c = d then [] # split_on d cs
      else (case split_on d cs of [] \<Rightarrow> [[c]] | p # ps \<Rightarrow> (c # p) # ps))"

lemma strip_prefix_append [simp]: "strip_prefix p (p @ s) = Some s"
  by (induction p) auto

lemma strip_prefix_Some: "strip_prefix p s = Some t \<longleftrightarrow> s = p @ t"
  by (induction p s rule: strip_prefix.induct) auto

lemma strip_suffix_append [simp]: "strip_suffix p (s @ p) = Some s"
  by (simp add: strip_suffix_def)

lemma strip_suffix_Some: "strip_suffix p s = Some t \<longleftrightarrow> s = t @ p"
  by (auto simp: strip_suffix_def strip_prefix_Some) (metis rev_append rev_rev_ident)+

lemma strip_0x_prefixed [simp]: "strip_0x (CHR ''0'' # CHR ''x'' # s) = s"
  by (simp add: strip_0x_def)

lemma str_contains_iff: "str_contains s pat \<longleftrightarrow> (\<exists>u v. s = u @ pat @ v)"
proof (induction s)
  case Nil
  show ?case by (subst str_contains.simps) (auto simp: starts_with_def strip_prefix_Some)
next
  case (Cons c cs)
  have "str_contains (c # cs) pat \<longleftrightarrow> (\<exists>v. c # cs = pat @ v) \<or> (\<exists>u v. cs = u @ pat @ v)"
    by (subst str_contains.simps) (auto simp: starts_with_def strip_prefix_Some Cons.IH)
  also have "\<dots> \<longleftrightarrow> (\<exists>u v. c # cs = u @ pat @ v)"
    by (auto simp: Cons_eq_append_conv)
  finally show ?case .
qed

lemma split_on_nonempty [simp]: "split_on d s \<noteq> []"
  by (induction s) (auto split: list.splits)

lemma split_on_no_delim: "d \<notin> set s \<Longrightarrow> split_on d s = [s]"
  by (induction s) auto

lemma split_on_append_delim: "d \<notin> set s \<Longrightarrow> split_on d (s @ d # t) = s # split_on d t"
  by (induction s) auto

lemma split_on_first:
  "split_on d s = takeWhile (\<lambda>c. c \<noteq> d) s # (case dropWhile (\<lambda>c. c \<noteq> d) s of [] \<Rightarrow> [] | c # r \<Rightarrow> split_on d r)"
  by (induction s) (auto split: list.splits)

section \<open>Binary search\<close>

text \<open>
  \<open>slice::binary_search_by\<close> of the standard library: \<open>base\<close> and \<open>sz\<close> shrink while more than
  one candidate is left; \<open>cmp\<close> says whether the probed element is less than, equal to or
  greater than the target. \<open>Inr i\<close> is \<open>Ok(i)\<close>, \<open>Inl i\<close> the insertion point \<open>Err(i)\<close>.
\<close>

datatype ordering = Less | Equal | Greater

function search_loop :: "(nat \<Rightarrow> ordering) \<Rightarrow> nat \<Rightarrow> nat \<Rightarrow> nat" where
  "search_loop f base sz =
     (if sz \<le> 1 then base
      else search_loop f (if f (base + sz div 2) = Greater then base else base + sz div 2)
             (sz - sz div 2))"
  by pat_completeness auto
termination by (relation "measure (\<lambda>(f, base, sz). sz)") auto

declare search_loop.simps [simp del]

definition binary_search_by :: "('a \<Rightarrow> ordering) \<Rightarrow> 'a list \<Rightarrow> nat + nat" where
  "binary_search_by cmp xs =
     (if xs = [] then Inl 0
      else let base = search_loop (\<lambda>i. cmp (xs ! i)) 0 (length xs)
           in case cmp (xs ! base) of
                Equal \<Rightarrow> Inr base
              | Less \<Rightarrow> Inl (base + 1)
              | Greater \<Rightarrow> Inl base)"

definition partition_point :: "('a \<Rightarrow> bool) \<Rightarrow> 'a list \<Rightarrow> nat" where
  "partition_point P xs =
     (case binary_search_by (\<lambda>x. if P x then Less else Greater) xs of Inr i \<Rightarrow> i | Inl i \<Rightarrow> i)"

text \<open>The list is partitioned: no element that satisfies \<open>P\<close> follows one that does not.\<close>

definition partitioned :: "('a \<Rightarrow> bool) \<Rightarrow> 'a list \<Rightarrow> bool" where
  "partitioned P xs \<longleftrightarrow> sorted_wrt (\<lambda>x y. P y \<longrightarrow> P x) xs"

lemma partitioned_nth: "partitioned P xs \<Longrightarrow> i \<le> j \<Longrightarrow> j < length xs \<Longrightarrow> P (xs ! j) \<Longrightarrow> P (xs ! i)"
  by (metis partitioned_def sorted_wrt_nth_less le_neq_implies_less)

lemma search_loop_range:
  "0 < sz \<Longrightarrow> base \<le> search_loop f base sz \<and> search_loop f base sz < base + sz"
proof (induction f base sz rule: search_loop.induct)
  case (1 f base sz)
  show ?case
  proof (cases "sz \<le> 1")
    case True
    with 1 show ?thesis by (simp add: search_loop.simps [of f base sz])
  next
    case False
    let ?base = "if f (base + sz div 2) = Greater then base else base + sz div 2"
    have "?base \<le> search_loop f ?base (sz - sz div 2)
        \<and> search_loop f ?base (sz - sz div 2) < ?base + (sz - sz div 2)"
      using 1 False by simp
    moreover have "base \<le> ?base" and "?base + (sz - sz div 2) \<le> base + sz" by auto
    ultimately have "base \<le> search_loop f ?base (sz - sz div 2)
        \<and> search_loop f ?base (sz - sz div 2) < base + sz" by linarith
    with False show ?thesis by (simp add: search_loop.simps [of f base sz])
  qed
qed

text \<open>
  The loop keeps the boundary in its window: everything before \<open>base\<close> is not greater, and
  everything from \<open>base + sz\<close> on is.
\<close>

lemma search_loop_boundary:
  assumes "0 < sz" and "base = 0 \<or> f base \<noteq> Greater"
    and "\<And>i. base + sz \<le> i \<Longrightarrow> i < n \<Longrightarrow> f i = Greater"
    and "\<And>i j. i \<le> j \<Longrightarrow> j < n \<Longrightarrow> f i = Greater \<Longrightarrow> f j = Greater"
    and "base + sz \<le> n"
  shows "let r = search_loop f base sz
         in (r = 0 \<or> f r \<noteq> Greater) \<and> (\<forall>i. r < i \<and> i < n \<longrightarrow> f i = Greater)"
  using assms
proof (induction f base sz rule: search_loop.induct)
  case (1 f base sz)
  show ?case
  proof (cases "sz \<le> 1")
    case True
    with 1 show ?thesis by (auto simp: search_loop.simps [of f base sz] Let_def)
  next
    case False
    let ?mid = "base + sz div 2"
    let ?base = "if f ?mid = Greater then base else ?mid"
    have "let r = search_loop f ?base (sz - sz div 2)
          in (r = 0 \<or> f r \<noteq> Greater) \<and> (\<forall>i. r < i \<and> i < n \<longrightarrow> f i = Greater)"
    proof (rule "1.IH" [OF False])
      show "0 < sz - sz div 2" using False by simp
      show "?base = 0 \<or> f ?base \<noteq> Greater" using "1.prems"(2) by simp
      show "?base + (sz - sz div 2) \<le> n" using "1.prems"(5) False by auto
      fix i assume i: "?base + (sz - sz div 2) \<le> i" "i < n"
      show "f i = Greater"
      proof (cases "f ?mid = Greater")
        case True
        with i have "?mid \<le> i" by simp
        with True i(2) show ?thesis using "1.prems"(4) by blast
      next
        case False
        with i have "base + sz \<le> i" by simp
        with i(2) show ?thesis using "1.prems"(3) by blast
      qed
    qed (use "1.prems"(4) in blast)
    with False show ?thesis by (simp add: search_loop.simps [of f base sz])
  qed
qed

theorem partition_point_takeWhile:
  assumes "partitioned P xs"
  shows "partition_point P xs = length (takeWhile P xs)"
proof (cases "xs = []")
  case True
  then show ?thesis by (simp add: partition_point_def binary_search_by_def)
next
  case False
  let ?f = "\<lambda>i. if P (xs ! i) then Less else Greater"
  let ?r = "search_loop ?f 0 (length xs)"
  have len: "?r < length xs" using search_loop_range [of "length xs" 0 ?f] False by simp
  have "let r = ?r in (r = 0 \<or> ?f r \<noteq> Greater) \<and> (\<forall>i. r < i \<and> i < length xs \<longrightarrow> ?f i = Greater)"
    by (rule search_loop_boundary)
       (use False in \<open>auto split: if_splits dest: partitioned_nth [OF assms]\<close>)
  then have low: "?r = 0 \<or> P (xs ! ?r)" and high: "\<And>i. ?r < i \<Longrightarrow> i < length xs \<Longrightarrow> \<not> P (xs ! i)"
    by (auto simp: Let_def split: if_splits)
  have "takeWhile P xs = take (if P (xs ! ?r) then ?r + 1 else ?r) xs"
    by (rule takeWhile_eq_take_P_nth)
       (use low high len partitioned_nth [OF assms] in \<open>auto split: if_splits simp: less_Suc_eq_le\<close>)
  with len have "length (takeWhile P xs) = (if P (xs ! ?r) then ?r + 1 else ?r)" by simp
  then show ?thesis
    using False by (simp add: partition_point_def binary_search_by_def Let_def)
qed

end
