(* ===== verification/Message_Queue.thy ===== *)
theory Message_Queue
  imports Rust_Std
begin

text \<open>
  The sequencer's inbound message queue, \<open>crates/synddb-sequencer/src/messages/queue.rs\<close>.

  \<open>message_queue\<close> is the struct \<open>MessageQueue\<close>: the configuration, the \<open>VecDeque\<close> with its
  front at the head of the list, and the id counter (an atomic \<open>u64\<close>, so it wraps). The
  operations that read the clock take the values read as arguments. The lemmas show the
  queue's invariant (ids strictly increasing, below the counter, bounded length), that every
  operation keeps it, and how acknowledgement, expiry and eviction treat the messages.
\<close>

section \<open>Data\<close>

record message_queue_config =
  max_size :: nat
  retention_secs :: u64

definition default_queue_config :: message_queue_config where
  "default_queue_config = \<lparr>max_size = 10000, retention_secs = 24 * 60 * 60\<rparr>"

record inbound_message =
  im_id :: u64
  im_message_id :: string
  im_message_type :: string
  im_payload :: string
  im_sender :: string
  im_tx_hash :: string
  im_block_number :: u64
  im_confirmations :: u64
  im_timestamp :: u64
  im_acknowledged :: bool
  im_acknowledged_at :: "u64 option"

record message_queue =
  mq_config :: message_queue_config
  mq_messages :: "inbound_message list"
  mq_next_id :: u64

record queue_stats =
  qs_total :: nat
  qs_pending :: nat
  qs_acknowledged :: nat
  qs_max_size :: nat

section \<open>Operations\<close>

definition with_config :: "message_queue_config \<Rightarrow> message_queue" where
  "with_config config = \<lparr>mq_config = config, mq_messages = [], mq_next_id = 1\<rparr>"

definition new_queue :: message_queue where
  "new_queue = with_config default_queue_config"

text \<open>The loop that pops the front while the queue is longer than its maximum.\<close>

fun evict_oldest :: "nat \<Rightarrow> inbound_message list \<Rightarrow> inbound_message list" where
  "evict_oldest m [] = []"
| "evict_oldest m (x # xs) = (if m < length (x # xs) then evict_oldest m xs else x # xs)"

text \<open>The loop that pops acknowledged messages older than the cutoff, up to the first other.\<close>

fun pop_expired :: "u64 \<Rightarrow> inbound_message list \<Rightarrow> inbound_message list" where
  "pop_expired cutoff [] = []"
| "pop_expired cutoff (front # rest) =
     (if im_acknowledged front \<and> im_timestamp front < cutoff then pop_expired cutoff rest
      else front # rest)"

definition cleanup_expired :: "u64 \<Rightarrow> message_queue \<Rightarrow> message_queue" where
  "cleanup_expired now q =
     q\<lparr>mq_messages := pop_expired (saturating_sub now (retention_secs (mq_config q))) (mq_messages q)\<rparr>"

definition add_message ::
  "u64 \<Rightarrow> u64 \<Rightarrow> string \<Rightarrow> string \<Rightarrow> string \<Rightarrow> string \<Rightarrow> string \<Rightarrow> u64 \<Rightarrow> u64
   \<Rightarrow> message_queue \<Rightarrow> message_queue \<times> u64" where
  "add_message now now' message_id message_type payload sender tx_hash block_number confirmations q =
     (let i = mq_next_id q;
          message = \<lparr>im_id = i, im_message_id = message_id, im_message_type = message_type,
                     im_payload = payload, im_sender = sender, im_tx_hash = tx_hash,
                     im_block_number = block_number, im_confirmations = confirmations,
                     im_timestamp = now, im_acknowledged = False, im_acknowledged_at = None\<rparr>;
          q1 = q\<lparr>mq_next_id := i + 1,
                 mq_messages := evict_oldest (max_size (mq_config q)) (mq_messages q @ [message])\<rparr>
      in (cleanup_expired now' q1, i))"

definition get_messages_after :: "message_queue \<Rightarrow> u64 \<Rightarrow> nat \<Rightarrow> inbound_message list" where
  "get_messages_after q after_id limit = take limit (filter (\<lambda>m. after_id < im_id m) (mq_messages q))"

definition get_pending_messages :: "message_queue \<Rightarrow> nat \<Rightarrow> inbound_message list" where
  "get_pending_messages q limit = take limit (filter (\<lambda>m. \<not> im_acknowledged m) (mq_messages q))"

definition get_pending_by_type :: "message_queue \<Rightarrow> string \<Rightarrow> nat \<Rightarrow> inbound_message list" where
  "get_pending_by_type q message_type limit =
     take limit (filter (\<lambda>m. \<not> im_acknowledged m \<and> im_message_type m = message_type) (mq_messages q))"

text \<open>
  \<open>iter_mut().find\<close> gives a mutable reference to the first message with the id; only that
  element is written.
\<close>

fun ack_first :: "u64 \<Rightarrow> u64 \<Rightarrow> inbound_message list \<Rightarrow> inbound_message list \<times> bool" where
  "ack_first now i [] = ([], False)"
| "ack_first now i (m # ms) =
     (if im_id m = i
      then if \<not> im_acknowledged m
           then (m\<lparr>im_acknowledged := True, im_acknowledged_at := Some now\<rparr> # ms, True)
           else (m # ms, False)
      else (let (ms', b) = ack_first now i ms in (m # ms', b)))"

definition acknowledge :: "u64 \<Rightarrow> u64 \<Rightarrow> message_queue \<Rightarrow> message_queue \<times> bool" where
  "acknowledge now i q = (let (ms, b) = ack_first now i (mq_messages q) in (q\<lparr>mq_messages := ms\<rparr>, b))"

definition get_by_id :: "message_queue \<Rightarrow> u64 \<Rightarrow> inbound_message option" where
  "get_by_id q i = find (\<lambda>m. im_id m = i) (mq_messages q)"

definition latest_id :: "message_queue \<Rightarrow> u64" where
  "latest_id q = (if mq_messages q = [] then 0 else im_id (last (mq_messages q)))"

definition queue_stats_of :: "message_queue \<Rightarrow> queue_stats" where
  "queue_stats_of q =
     (let total = length (mq_messages q);
          pending = length (filter (\<lambda>m. \<not> im_acknowledged m) (mq_messages q))
      in \<lparr>qs_total = total, qs_pending = pending, qs_acknowledged = total - pending,
          qs_max_size = max_size (mq_config q)\<rparr>)"

section \<open>The queue as a machine\<close>

text \<open>
  The calls that change the queue: a push carries its two clock readings and the message
  fields, an acknowledgement its clock reading and the id.
\<close>

datatype queue_call =
    Push u64 u64 string string string string string u64 u64
  | Ack u64 u64

fun queue_step :: "queue_call \<Rightarrow> message_queue \<Rightarrow> message_queue" where
  "queue_step (Push now now' mid mtype p s tx bn cf) q = fst (add_message now now' mid mtype p s tx bn cf q)"
| "queue_step (Ack now i) q = fst (acknowledge now i q)"

text \<open>A push is admissible while the id counter has not reached its last value.\<close>

fun queue_call_ok :: "queue_call \<Rightarrow> message_queue \<Rightarrow> bool" where
  "queue_call_ok (Push now now' mid mtype p s tx bn cf) q = (mq_next_id q < - 1)"
| "queue_call_ok (Ack now i) q = True"

definition queue_inv :: "message_queue \<Rightarrow> bool" where
  "queue_inv q \<longleftrightarrow>
     sorted_wrt (\<lambda>m m'. im_id m < im_id m') (mq_messages q)
     \<and> (\<forall>m \<in> set (mq_messages q). 0 < im_id m \<and> im_id m < mq_next_id q)
     \<and> 0 < mq_next_id q
     \<and> length (mq_messages q) \<le> max_size (mq_config q)"

section \<open>Eviction and expiry\<close>

lemma evict_oldest_drop: "evict_oldest m xs = drop (length xs - m) xs"
  by (induction xs) (auto simp: Suc_diff_le not_less)

lemma length_evict_oldest [simp]: "length (evict_oldest m xs) = min m (length xs)"
  by (simp add: evict_oldest_drop)

lemma set_evict_oldest: "set (evict_oldest m xs) \<subseteq> set xs"
  by (simp add: evict_oldest_drop set_drop_subset)

lemma pop_expired_dropWhile:
  "pop_expired c xs = dropWhile (\<lambda>m. im_acknowledged m \<and> im_timestamp m < c) xs"
  by (induction xs) auto

lemma set_pop_expired: "set (pop_expired c xs) \<subseteq> set xs"
  by (auto simp: pop_expired_dropWhile dest: set_dropWhileD)

lemma length_pop_expired: "length (pop_expired c xs) \<le> length xs"
  by (simp add: pop_expired_dropWhile length_dropWhile_le)

lemma pop_expired_keeps_pending:
  "filter (\<lambda>m. \<not> im_acknowledged m) (pop_expired c xs) = filter (\<lambda>m. \<not> im_acknowledged m) xs"
  by (induction xs) auto

lemma mq_config_cleanup [simp]: "mq_config (cleanup_expired now q) = mq_config q"
  and mq_next_id_cleanup [simp]: "mq_next_id (cleanup_expired now q) = mq_next_id q"
  by (simp_all add: cleanup_expired_def)

lemma queue_inv_cleanup: "queue_inv q \<Longrightarrow> queue_inv (cleanup_expired now q)"
  using set_pop_expired length_pop_expired
  by (fastforce simp: queue_inv_def cleanup_expired_def pop_expired_dropWhile
        intro: sorted_wrt_dropWhile order_trans [OF length_dropWhile_le] dest: set_dropWhileD)

section \<open>Acknowledgement\<close>

definition mark_acked :: "u64 \<Rightarrow> inbound_message \<Rightarrow> inbound_message" where
  "mark_acked now m = m\<lparr>im_acknowledged := True, im_acknowledged_at := Some now\<rparr>"

lemma mark_acked_id [simp]: "im_id (mark_acked now m) = im_id m"
  by (simp add: mark_acked_def)

lemma mark_acked_acknowledged [simp]: "im_acknowledged (mark_acked now m)"
  by (simp add: mark_acked_def)

lemma map_im_id_ack_first [simp]: "map im_id (fst (ack_first now i ms)) = map im_id ms"
  by (induction ms) (auto split: prod.splits)

lemma length_ack_first [simp]: "length (fst (ack_first now i ms)) = length ms"
  using map_im_id_ack_first [of now i ms] by (metis length_map)

lemma ack_first_result:
  "snd (ack_first now i ms) = (case find (\<lambda>m. im_id m = i) ms of
     None \<Rightarrow> False | Some m \<Rightarrow> \<not> im_acknowledged m)"
  by (induction ms) (auto split: prod.splits)

lemma ack_first_map:
  assumes "distinct (map im_id ms)"
  shows "fst (ack_first now i ms) =
    map (\<lambda>m. if im_id m = i \<and> \<not> im_acknowledged m then mark_acked now m else m) ms"
  using assms
proof (induction ms)
  case Nil
  show ?case by simp
next
  case (Cons m ms)
  then show ?case
    by (auto simp: mark_acked_def image_iff split: prod.splits intro!: map_idI [symmetric])
qed

lemma queue_inv_distinct: "queue_inv q \<Longrightarrow> distinct (map im_id (mq_messages q))"
  by (auto simp: queue_inv_def intro: distinct_map_sorted_wrt)

lemma mq_messages_acknowledge:
  "queue_inv q \<Longrightarrow> mq_messages (fst (acknowledge now i q)) =
     map (\<lambda>m. if im_id m = i \<and> \<not> im_acknowledged m then mark_acked now m else m) (mq_messages q)"
  by (simp add: acknowledge_def queue_inv_distinct ack_first_map [symmetric] split: prod.splits)

lemma mq_config_acknowledge [simp]: "mq_config (fst (acknowledge now i q)) = mq_config q"
  and mq_next_id_acknowledge [simp]: "mq_next_id (fst (acknowledge now i q)) = mq_next_id q"
  by (simp_all add: acknowledge_def split: prod.splits)

lemma queue_inv_acknowledge: "queue_inv q \<Longrightarrow> queue_inv (fst (acknowledge now i q))"
  by (frule mq_messages_acknowledge [of q now i])
     (auto simp: queue_inv_def sorted_wrt_map_iff elim!: sorted_wrt_mono_rel [rotated])

lemma get_by_id_acknowledge:
  "queue_inv q \<Longrightarrow> get_by_id (fst (acknowledge now i q)) j =
     map_option (\<lambda>m. if im_id m = i \<and> \<not> im_acknowledged m then mark_acked now m else m) (get_by_id q j)"
  by (simp add: get_by_id_def mq_messages_acknowledge find_map_same)

lemma snd_acknowledge:
  "snd (acknowledge now i q) = (case get_by_id q i of None \<Rightarrow> False | Some m \<Rightarrow> \<not> im_acknowledged m)"
  unfolding get_by_id_def ack_first_result [of now i "mq_messages q", symmetric]
  by (simp add: acknowledge_def split: prod.splits)

lemma get_by_id_Some: "get_by_id q i = Some m \<Longrightarrow> m \<in> set (mq_messages q) \<and> im_id m = i"
  unfolding get_by_id_def by (drule find_Some_in) simp

lemma acknowledge_acked:
  assumes "queue_inv q" and "\<And>m. m \<in> set (mq_messages q) \<Longrightarrow> im_id m = i \<Longrightarrow> im_acknowledged m"
  shows "acknowledge now i q = (q, False)"
proof (rule prod_eqI)
  have "mq_messages (fst (acknowledge now i q)) = mq_messages q"
    using assms by (auto simp: mq_messages_acknowledge intro!: map_idI)
  then show "fst (acknowledge now i q) = fst (q, False)" by simp
  show "snd (acknowledge now i q) = snd (q, False)"
    using assms by (auto simp: snd_acknowledge dest: get_by_id_Some split: option.splits)
qed

lemma acked_after_acknowledge:
  assumes "queue_inv q" and "x \<in> set (mq_messages (fst (acknowledge now i q)))" and "im_id x = i"
  shows "im_acknowledged x"
proof -
  from assms(2) obtain m
    where m: "x = (if im_id m = i \<and> \<not> im_acknowledged m then mark_acked now m else m)"
    unfolding mq_messages_acknowledge [OF assms(1)] set_map by (elim imageE) blast
  show ?thesis using assms(3) unfolding m by (simp split: if_splits)
qed

section \<open>Pushing\<close>

lemma mq_next_id_add_message [simp]:
  "mq_next_id (fst (add_message now now' mid mt p s tx bn cf q)) = mq_next_id q + 1"
  and mq_config_add_message [simp]:
  "mq_config (fst (add_message now now' mid mt p s tx bn cf q)) = mq_config q"
  by (simp_all add: add_message_def Let_def)

lemma add_message_result:
  "add_message now now' mid mt p s tx bn cf q = (q', i) \<Longrightarrow> i = mq_next_id q"
  by (simp add: add_message_def Let_def)

lemma queue_inv_push:
  assumes "queue_inv q" and "mq_next_id q < - 1" and "im_id m = mq_next_id q"
  shows "queue_inv (q\<lparr>mq_next_id := mq_next_id q + 1,
           mq_messages := evict_oldest (max_size (mq_config q)) (mq_messages q @ [m])\<rparr>)"
proof -
  have "sorted_wrt (\<lambda>m m'. im_id m < im_id m') (evict_oldest n (mq_messages q @ [m]))" for n
    using assms unfolding evict_oldest_drop
    by (intro sorted_wrt_drop) (auto simp: queue_inv_def sorted_wrt_append)
  moreover have "0 < im_id x \<and> im_id x < mq_next_id q + 1"
    if "x \<in> set (evict_oldest n (mq_messages q @ [m]))" for n x
  proof -
    have "x = m \<or> x \<in> set (mq_messages q)"
      using that set_evict_oldest [of n "mq_messages q @ [m]"] by auto
    then show ?thesis using assms by (auto simp: queue_inv_def word_less_Suc_iff less_imp_le)
  qed
  moreover have "0 < mq_next_id q + 1"
    using assms(2) by unat_arith
  ultimately show ?thesis by (auto simp: queue_inv_def)
qed

lemma queue_inv_add_message:
  "queue_inv q \<Longrightarrow> mq_next_id q < - 1 \<Longrightarrow> queue_inv (fst (add_message now now' mid mt p s tx bn cf q))"
  by (simp add: add_message_def Let_def queue_inv_cleanup queue_inv_push)

lemma pending_add_message:
  assumes "queue_inv q" and "0 < max_size (mq_config q)"
    and "add_message now now' mid mt p s tx bn cf q = (q', i)"
  shows "filter (\<lambda>m. \<not> im_acknowledged m) (mq_messages q') =
    filter (\<lambda>m. \<not> im_acknowledged m) (if length (mq_messages q) < max_size (mq_config q) then mq_messages q else tl (mq_messages q))
    @ [\<lparr>im_id = mq_next_id q, im_message_id = mid, im_message_type = mt, im_payload = p, im_sender = s,
        im_tx_hash = tx, im_block_number = bn, im_confirmations = cf, im_timestamp = now,
        im_acknowledged = False, im_acknowledged_at = None\<rparr>]"
proof -
  let ?ms = "mq_messages q" and ?n = "max_size (mq_config q)"
  have len: "length ?ms \<le> ?n" using assms(1) by (simp add: queue_inv_def)
  have "evict_oldest ?n (?ms @ [m]) = (if length ?ms < ?n then ?ms else tl ?ms) @ [m]" for m
    using len assms(2) by (cases ?ms) (auto simp: evict_oldest_drop)
  then show ?thesis
    using assms(3)
    by (auto simp: add_message_def Let_def cleanup_expired_def pop_expired_keeps_pending)
qed

interpretation queue: machine queue_step queue_inv queue_call_ok
proof
  fix q e
  assume "queue_inv q" and "queue_call_ok e q"
  then show "queue_inv (queue_step e q)"
    by (cases e) (auto simp: queue_inv_acknowledge queue_inv_add_message)
qed

lemma queue_run_ok:
  "unat (mq_next_id q) + length es < 2 ^ 64 \<Longrightarrow> run_ok queue_step queue_call_ok es q"
proof (induction es arbitrary: q)
  case Nil
  show ?case by simp
next
  case (Cons e es)
  show ?case
  proof (cases e)
    case (Push now now' mid mt p s tx bn cf)
    have less: "mq_next_id q < - 1"
      using Cons.prems by (simp add: word_less_nat_alt)
    then have "unat (mq_next_id q + 1) = Suc (unat (mq_next_id q))"
      by (rule unat_Suc_less)
    with less Cons show ?thesis by (simp add: Push)
  next
    case (Ack now i)
    with Cons show ?thesis by simp
  qed
qed

lemma queue_inv_with_config: "queue_inv (with_config c)"
  by (simp add: queue_inv_def with_config_def)

section \<open>Properties\<close>

text \<open>
  C26: in every state a queue reaches from its construction by fewer than \<open>2 ^ 64 - 1\<close> pushes
  and acknowledgements, the ids are strictly increasing from front to back, positive and
  below the next id, and the queue holds at most \<open>max_size\<close> messages.
\<close>
theorem queue_reachable_inv:
  assumes "length es < 2 ^ 64 - 1"
  shows "queue_inv (run queue_step es (with_config c))"
proof (rule queue.run_inv [OF queue_inv_with_config])
  show "run_ok queue_step queue_call_ok es (with_config c)"
    by (rule queue_run_ok) (use assms in \<open>simp add: with_config_def\<close>)
qed

theorem queue_reachable_inv_witness:
  "queue_inv (run queue_step
     [Push 5 5 ''r1'' ''deposit'' ''1'' ''0xa'' ''0xb'' 7 1, Push 6 6 ''r2'' ''deposit'' ''2'' ''0xa'' ''0xc'' 8 0, Ack 7 1]
     (with_config \<lparr>max_size = 1, retention_secs = 10\<rparr>))"
  by (rule queue_reachable_inv) simp

text \<open>
  acknowledging a pending message succeeds, marks that message and no other, takes it out
  of the pending list, and a second acknowledgement of the same id reports failure and
  changes nothing.
\<close>
theorem acknowledge_once:
  assumes "queue_inv q" and "get_by_id q i = Some m" and "\<not> im_acknowledged m"
    and "acknowledge now i q = (q', b)"
  shows "b \<and> get_by_id q' i = Some (m\<lparr>im_acknowledged := True, im_acknowledged_at := Some now\<rparr>)
    \<and> (\<forall>j. j \<noteq> i \<longrightarrow> get_by_id q' j = get_by_id q j)
    \<and> (\<forall>x \<in> set (get_pending_messages q' n). im_id x \<noteq> i)
    \<and> acknowledge now' i q' = (q', False)"
proof -
  have q': "q' = fst (acknowledge now i q)" and b: "b = snd (acknowledge now i q)"
    using assms(4) by simp_all
  have acked: "im_acknowledged x" if "x \<in> set (mq_messages q')" and "im_id x = i" for x
    using acked_after_acknowledge [OF assms(1)] that unfolding q' by blast
  show ?thesis
  proof (intro conjI allI impI ballI)
    show "b" using assms(2,3) by (simp add: b snd_acknowledge)
    show "get_by_id q' i = Some (m\<lparr>im_acknowledged := True, im_acknowledged_at := Some now\<rparr>)"
      using assms(1-3) get_by_id_Some [OF assms(2)]
      by (simp add: q' get_by_id_acknowledge mark_acked_def)
    show "acknowledge now' i q' = (q', False)"
      using assms(1) acked by (intro acknowledge_acked) (simp_all add: q' queue_inv_acknowledge)
  next
    fix j assume "j \<noteq> i"
    then show "get_by_id q' j = get_by_id q j"
      using assms(1) get_by_id_Some [of q j]
      by (cases "get_by_id q j") (auto simp: q' get_by_id_acknowledge)
  next
    fix x assume "x \<in> set (get_pending_messages q' n)"
    then have "x \<in> set (filter (\<lambda>m. \<not> im_acknowledged m) (mq_messages q'))"
      unfolding get_pending_messages_def by (rule in_set_takeD)
    then show "im_id x \<noteq> i" using acked [of x] by auto
  qed
qed

definition demo_queue :: message_queue where
  "demo_queue = run queue_step
     [Push 5 5 ''r1'' ''deposit'' ''1'' ''0xa'' ''0xb'' 7 1, Push 6 6 ''r2'' ''price'' ''2'' ''0xa'' ''0xc'' 8 0]
     (with_config \<lparr>max_size = 2, retention_secs = 10\<rparr>)"

lemmas queue_eval = demo_queue_def with_config_def add_message_def cleanup_expired_def Let_def
  saturating_sub_def get_by_id_def acknowledge_def queue_inv_def

lemma demo_queue_messages:
  "mq_messages demo_queue =
     [\<lparr>im_id = 1, im_message_id = ''r1'', im_message_type = ''deposit'', im_payload = ''1'', im_sender = ''0xa'',
       im_tx_hash = ''0xb'', im_block_number = 7, im_confirmations = 1, im_timestamp = 5,
       im_acknowledged = False, im_acknowledged_at = None\<rparr>,
      \<lparr>im_id = 2, im_message_id = ''r2'', im_message_type = ''price'', im_payload = ''2'', im_sender = ''0xa'',
       im_tx_hash = ''0xc'', im_block_number = 8, im_confirmations = 0, im_timestamp = 6,
       im_acknowledged = False, im_acknowledged_at = None\<rparr>]"
  by (simp add: queue_eval)

lemma demo_queue_inv: "queue_inv demo_queue"
  by (simp add: queue_eval)

theorem acknowledge_once_witness:
  "\<exists>q'. acknowledge 9 2 demo_queue = (q', True) \<and> acknowledge 10 2 q' = (q', False)
     \<and> get_by_id q' 1 = get_by_id demo_queue 1"
proof -
  obtain m where m: "get_by_id demo_queue 2 = Some m" "\<not> im_acknowledged m"
    by (simp add: queue_eval)
  obtain q' b where a: "acknowledge 9 2 demo_queue = (q', b)" by fastforce
  from acknowledge_once [OF demo_queue_inv m a] show ?thesis
    by (auto simp: a)
qed

text \<open>
  paging by the last id seen is complete and without repetition: a page of
  \<open>get_messages_after\<close> followed by everything after its last id is exactly everything after
  the cursor, in order, and an empty page means that nothing is left.
\<close>
theorem get_messages_after_paging:
  assumes "queue_inv q" and "0 < limit"
  defines "rest \<equiv> \<lambda>a. filter (\<lambda>m. a < im_id m) (mq_messages q)"
  shows "if get_messages_after q a limit = [] then rest a = []
         else rest a = get_messages_after q a limit @ rest (im_id (last (get_messages_after q a limit)))"
proof -
  let ?page = "get_messages_after q a limit"
  have srt: "sorted_wrt (\<lambda>m m'. im_id m < im_id m') (rest a)"
    using assms(1) by (simp add: queue_inv_def rest_def)
  have page: "?page = take limit (rest a)" by (simp add: get_messages_after_def rest_def)
  show ?thesis
  proof (cases "?page = []")
    case True
    with assms(2) show ?thesis by (simp add: page)
  next
    case False
    have "rest (im_id (last ?page)) = filter (\<lambda>m. im_id (last ?page) < im_id m) (rest a)"
    proof -
      have "a < im_id (last ?page)"
        using in_set_takeD [OF last_in_set [OF False, unfolded page]] by (simp add: page rest_def)
      then show ?thesis by (auto simp: rest_def intro!: filter_cong)
    qed
    also have "\<dots> = drop limit (rest a)"
      by (rule filter_take_last [OF srt _ False]) (simp add: page)
    finally show ?thesis using False by (simp add: page)
  qed
qed

theorem get_messages_after_paging_witness:
  "filter (\<lambda>m. 0 < im_id m) (mq_messages demo_queue)
     = get_messages_after demo_queue 0 1 @ filter (\<lambda>m. 1 < im_id m) (mq_messages demo_queue)"
  using get_messages_after_paging [OF demo_queue_inv, of 1 0]
  by (simp add: queue_eval get_messages_after_def)

text \<open>
  a push keeps every pending message while there is room, and appends the new one; when
  the queue is full it drops the oldest message whether acknowledged or not, and expiry never
  removes a pending message.
\<close>
theorem add_message_pending:
  assumes "queue_inv q" and "0 < max_size (mq_config q)"
    and "add_message now now' mid mt p s tx bn cf q = (q', i)"
  defines "pending \<equiv> filter (\<lambda>m. \<not> im_acknowledged m)"
  shows "pending (mq_messages q') =
    pending (if length (mq_messages q) < max_size (mq_config q) then mq_messages q else tl (mq_messages q))
    @ [\<lparr>im_id = mq_next_id q, im_message_id = mid, im_message_type = mt, im_payload = p, im_sender = s,
        im_tx_hash = tx, im_block_number = bn, im_confirmations = cf, im_timestamp = now,
        im_acknowledged = False, im_acknowledged_at = None\<rparr>]"
  unfolding pending_def by (rule pending_add_message [OF assms(1-3)])

theorem add_message_pending_witness:
  "map im_id (filter (\<lambda>m. \<not> im_acknowledged m)
     (mq_messages (fst (add_message 7 7 ''r3'' ''deposit'' ''3'' ''0xa'' ''0xd'' 9 0 demo_queue)))) = [2, 3]"
proof -
  have "0 < max_size (mq_config demo_queue)" by (simp add: queue_eval)
  from add_message_pending [OF demo_queue_inv this surjective_pairing, of 7 7 "''r3''" "''deposit''"
      "''3''" "''0xa''" "''0xd''" 9 0]
  show ?thesis by (simp only:) (simp add: queue_eval)
qed

end
