(* ===== verification/Outbound.thy ===== *)
theory Outbound
  imports Rust_Std "HOL-Library.AList"
begin

text \<open>
  The outbound message monitor of the sequencer,
  \<open>crates/synddb-sequencer/src/messages/outbound.rs\<close>: the tracker (a \<open>HashMap\<close> from message
  id to tracked state, here an association list with distinct keys; nothing depends on the
  iteration order of the hash map) and the monitor that polls the application's
  \<open>message_log\<close> table. The table is an argument: its rows are what the query of
  \<open>poll_once\<close> reads. The lemmas show that tracking is first-write-wins, how each update
  touches one entry, what clean-up removes, and that polling a table to the end tracks every
  pending row.
\<close>

section \<open>Data\<close>

datatype outbound_status = Pending | Queued | Submitting | Submitted | Confirmed | Failed

fun show_outbound_status :: "outbound_status \<Rightarrow> string" where
  "show_outbound_status Pending = ''pending''"
| "show_outbound_status Queued = ''queued''"
| "show_outbound_status Submitting = ''submitting''"
| "show_outbound_status Submitted = ''submitted''"
| "show_outbound_status Confirmed = ''confirmed''"
| "show_outbound_status Failed = ''failed''"

record tracked_outbound_message =
  om_id :: u64
  om_message_type :: string
  om_payload :: string
  om_status :: outbound_status
  om_tx_hash :: "string option"
  om_confirmations :: "u64 option"
  om_error :: "string option"
  om_first_seen_at :: u64
  om_updated_at :: u64

type_synonym outbound_tracker = "(u64 \<times> tracked_outbound_message) list"

record outbound_stats =
  os_total :: nat
  os_pending :: nat
  os_queued :: nat
  os_submitting :: nat
  os_submitted :: nat
  os_confirmed :: nat
  os_failed :: nat

record outbound_monitor_config =
  omc_db_path :: string
  omc_batch_size :: u64

record outbound_monitor =
  mon_config :: outbound_monitor_config
  mon_tracker :: outbound_tracker
  mon_last_seen_id :: u64

section \<open>The tracker\<close>

definition new_tracker :: outbound_tracker where
  "new_tracker = []"

text \<open>\<open>entry(id).or_insert_with(..)\<close>: an existing entry is left alone.\<close>

definition track_message :: "u64 \<Rightarrow> u64 \<Rightarrow> string \<Rightarrow> string \<Rightarrow> outbound_tracker \<Rightarrow> outbound_tracker" where
  "track_message now i message_type payload t =
     (case map_of t i of
        Some _ \<Rightarrow> t
      | None \<Rightarrow> AList.update i \<lparr>om_id = i, om_message_type = message_type, om_payload = payload,
                  om_status = Queued, om_tx_hash = None, om_confirmations = None, om_error = None,
                  om_first_seen_at = now, om_updated_at = now\<rparr> t)"

text \<open>\<open>if let Some(msg) = messages.get_mut(&id)\<close>: the entry is changed in place, if any.\<close>

definition modify_entry ::
  "u64 \<Rightarrow> (tracked_outbound_message \<Rightarrow> tracked_outbound_message) \<Rightarrow> outbound_tracker \<Rightarrow> outbound_tracker" where
  "modify_entry i f t = (case map_of t i of None \<Rightarrow> t | Some msg \<Rightarrow> AList.update i (f msg) t)"

definition update_status :: "u64 \<Rightarrow> u64 \<Rightarrow> outbound_status \<Rightarrow> outbound_tracker \<Rightarrow> outbound_tracker" where
  "update_status now i status = modify_entry i (\<lambda>msg. msg\<lparr>om_status := status, om_updated_at := now\<rparr>)"

definition set_tx_hash :: "u64 \<Rightarrow> u64 \<Rightarrow> string \<Rightarrow> outbound_tracker \<Rightarrow> outbound_tracker" where
  "set_tx_hash now i tx_hash =
     modify_entry i (\<lambda>msg. msg\<lparr>om_tx_hash := Some tx_hash, om_status := Submitted, om_updated_at := now\<rparr>)"

definition set_confirmations :: "u64 \<Rightarrow> u64 \<Rightarrow> u64 \<Rightarrow> outbound_tracker \<Rightarrow> outbound_tracker" where
  "set_confirmations now i confirmations =
     modify_entry i (\<lambda>msg. msg\<lparr>om_confirmations := Some confirmations, om_updated_at := now\<rparr>)"

definition mark_confirmed :: "u64 \<Rightarrow> u64 \<Rightarrow> outbound_tracker \<Rightarrow> outbound_tracker" where
  "mark_confirmed now i = update_status now i Confirmed"

definition mark_failed :: "u64 \<Rightarrow> u64 \<Rightarrow> string \<Rightarrow> outbound_tracker \<Rightarrow> outbound_tracker" where
  "mark_failed now i err =
     modify_entry i (\<lambda>msg. msg\<lparr>om_status := Failed, om_error := Some err, om_updated_at := now\<rparr>)"

definition get_status :: "outbound_tracker \<Rightarrow> u64 \<Rightarrow> tracked_outbound_message option" where
  "get_status t i = map_of t i"

definition get_all_outbound :: "outbound_tracker \<Rightarrow> tracked_outbound_message list" where
  "get_all_outbound t = map snd t"

definition empty_outbound_stats :: outbound_stats where
  "empty_outbound_stats = \<lparr>os_total = 0, os_pending = 0, os_queued = 0, os_submitting = 0,
     os_submitted = 0, os_confirmed = 0, os_failed = 0\<rparr>"

fun count_status :: "outbound_status \<Rightarrow> outbound_stats \<Rightarrow> outbound_stats" where
  "count_status Pending s = s\<lparr>os_total := os_total s + 1, os_pending := os_pending s + 1\<rparr>"
| "count_status Queued s = s\<lparr>os_total := os_total s + 1, os_queued := os_queued s + 1\<rparr>"
| "count_status Submitting s = s\<lparr>os_total := os_total s + 1, os_submitting := os_submitting s + 1\<rparr>"
| "count_status Submitted s = s\<lparr>os_total := os_total s + 1, os_submitted := os_submitted s + 1\<rparr>"
| "count_status Confirmed s = s\<lparr>os_total := os_total s + 1, os_confirmed := os_confirmed s + 1\<rparr>"
| "count_status Failed s = s\<lparr>os_total := os_total s + 1, os_failed := os_failed s + 1\<rparr>"

definition outbound_stats_of :: "outbound_tracker \<Rightarrow> outbound_stats" where
  "outbound_stats_of t = fold (\<lambda>(_, msg). count_status (om_status msg)) t empty_outbound_stats"

definition is_terminal :: "outbound_status \<Rightarrow> bool" where
  "is_terminal s \<longleftrightarrow> s = Confirmed \<or> s = Failed"

definition cleanup_old_messages :: "u64 \<Rightarrow> u64 \<Rightarrow> outbound_tracker \<Rightarrow> outbound_tracker" where
  "cleanup_old_messages now max_age_secs t =
     filter (\<lambda>(_, msg). \<not> is_terminal (om_status msg) \<or> saturating_sub now max_age_secs < om_updated_at msg) t"

section \<open>The monitor\<close>

text \<open>
  A row of \<open>message_log\<close>: the integer id, and the columns read as strings; \<open>None\<close> is a value
  that \<open>row.get\<close> cannot convert, so that \<open>filter_map(|r| r.ok())\<close> drops the row.
\<close>

record message_log_row =
  log_id :: int
  log_type :: "string option"
  log_payload :: "string option"
  log_status :: string

text \<open>
  What one poll finds: the database cannot be opened, or the table is absent, or the query
  fails, or the table has these rows.
\<close>

datatype app_db =
    OpenFails string
  | NoTable
  | PrepareFails string
  | QueryFails string
  | Rows "message_log_row list"

text \<open>
  \<open>SELECT .. WHERE status = 'pending' AND id > ? ORDER BY id ASC LIMIT ?\<close>; both parameters
  are cast to \<open>i64\<close>, and a negative limit is no limit.
\<close>

definition pending_query :: "u64 \<Rightarrow> u64 \<Rightarrow> message_log_row list \<Rightarrow> message_log_row list" where
  "pending_query last_seen limit rows =
     (let hits = sort_key log_id (filter (\<lambda>r. log_status r = ''pending'' \<and> sint last_seen < log_id r) rows)
      in if sint limit < 0 then hits else take (nat (sint limit)) hits)"

fun read_row :: "message_log_row \<Rightarrow> (u64 \<times> string \<times> string) option" where
  "read_row r = (if log_id r < 0 then None
     else case (log_type r, log_payload r) of
            (Some ty, Some pl) \<Rightarrow> Some (word_of_int (log_id r), ty, pl)
          | _ \<Rightarrow> None)"

fun track_rows :: "u64 \<Rightarrow> (u64 \<times> string \<times> string) list \<Rightarrow> outbound_monitor \<Rightarrow> outbound_monitor" where
  "track_rows now [] mon = mon"
| "track_rows now ((i, ty, pl) # rows) mon =
     track_rows now rows
       (mon\<lparr>mon_tracker := track_message now i ty pl (mon_tracker mon),
            mon_last_seen_id := max (mon_last_seen_id mon) i\<rparr>)"

definition new_monitor :: "outbound_monitor_config \<Rightarrow> outbound_monitor" where
  "new_monitor config = \<lparr>mon_config = config, mon_tracker = new_tracker, mon_last_seen_id = 0\<rparr>"

definition poll_once :: "u64 \<Rightarrow> app_db \<Rightarrow> outbound_monitor \<Rightarrow> outbound_monitor \<times> (string + nat)" where
  "poll_once now db mon =
     (if omc_db_path (mon_config mon) = '''' then (mon, Inr 0)
      else case db of
        OpenFails e \<Rightarrow> (mon, Inl (''Failed to open database: '' @ e))
      | NoTable \<Rightarrow> (mon, Inr 0)
      | PrepareFails e \<Rightarrow> (mon, Inl (''Failed to prepare statement: '' @ e))
      | QueryFails e \<Rightarrow> (mon, Inl (''Failed to query messages: '' @ e))
      | Rows rows \<Rightarrow>
          (let messages = List.map_filter read_row
                 (pending_query (mon_last_seen_id mon) (omc_batch_size (mon_config mon)) rows)
           in (track_rows now messages mon, Inr (length messages))))"

text \<open>One tick of the monitor loop: poll, whatever the result, then clean up (one hour).\<close>

definition monitor_tick :: "u64 \<Rightarrow> app_db \<Rightarrow> outbound_monitor \<Rightarrow> outbound_monitor" where
  "monitor_tick now db mon =
     (let mon' = fst (poll_once now db mon)
      in mon'\<lparr>mon_tracker := cleanup_old_messages now 3600 (mon_tracker mon')\<rparr>)"

section \<open>Tracker lemmas\<close>

lemma map_of_track_message:
  "map_of (track_message now i ty pl t) j =
     (if j = i \<and> map_of t i = None
      then Some \<lparr>om_id = i, om_message_type = ty, om_payload = pl, om_status = Queued, om_tx_hash = None,
             om_confirmations = None, om_error = None, om_first_seen_at = now, om_updated_at = now\<rparr>
      else map_of t j)"
  by (auto simp: track_message_def update_conv' split: option.splits)

lemma track_message_keeps: "map_of t i = Some x \<Longrightarrow> map_of (track_message now j ty pl t) i = Some x"
  by (auto simp: map_of_track_message)

lemma map_of_modify_entry:
  "map_of (modify_entry i f t) j = (if j = i then map_option f (map_of t i) else map_of t j)"
  by (auto simp: modify_entry_def update_conv' split: option.splits)

lemma dom_track_message: "dom (map_of (track_message now i ty pl t)) = insert i (dom (map_of t))"
  by (auto simp: dom_def map_of_track_message)

lemma dom_modify_entry: "dom (map_of (modify_entry i f t)) = dom (map_of t)"
  by (auto simp: dom_def map_of_modify_entry)

lemma distinct_track_message: "distinct (map fst t) \<Longrightarrow> distinct (map fst (track_message now i ty pl t))"
  by (auto simp: track_message_def distinct_update split: option.splits)

lemma distinct_modify_entry: "distinct (map fst t) \<Longrightarrow> distinct (map fst (modify_entry i f t))"
  by (auto simp: modify_entry_def distinct_update split: option.splits)

lemma distinct_cleanup: "distinct (map fst t) \<Longrightarrow> distinct (map fst (cleanup_old_messages now a t))"
  by (simp add: cleanup_old_messages_def distinct_map_filter)

lemmas tracker_updates = update_status_def set_tx_hash_def set_confirmations_def mark_confirmed_def mark_failed_def

section \<open>Polling\<close>

lemma sint_word_of_int_u64: "0 \<le> i \<Longrightarrow> i < 2 ^ 63 \<Longrightarrow> sint (word_of_int i :: u64) = i"
  by (simp add: signed_of_int signed_take_bit_int_eq_self)

lemma word_of_int_less_u64:
  "0 \<le> i \<Longrightarrow> i < j \<Longrightarrow> j < 2 ^ 63 \<Longrightarrow> (word_of_int i :: u64) < word_of_int j"
  by (simp add: word_less_def unsigned_of_int take_bit_int_eq_self)

text \<open>The rows a later poll can still see, in the order of the query.\<close>

definition eligible :: "message_log_row list \<Rightarrow> u64 \<Rightarrow> message_log_row list" where
  "eligible rows last_seen =
     sort_key log_id (filter (\<lambda>r. log_status r = ''pending'' \<and> sint last_seen < log_id r) rows)"

text \<open>A table as the schema of the application declares it: unique positive ids, no nulls.\<close>

definition log_ok :: "message_log_row list \<Rightarrow> bool" where
  "log_ok rows \<longleftrightarrow> distinct (map log_id rows)
     \<and> (\<forall>r \<in> set rows. 0 < log_id r \<and> log_id r < 2 ^ 63 \<and> log_type r \<noteq> None \<and> log_payload r \<noteq> None)"

definition row_key :: "message_log_row \<Rightarrow> u64" where
  "row_key r = word_of_int (log_id r)"

definition row_msg :: "message_log_row \<Rightarrow> u64 \<times> string \<times> string" where
  "row_msg r = (row_key r, the (log_type r), the (log_payload r))"

lemma fst_row_msg [simp]: "fst (row_msg r) = row_key r" "fst \<circ> row_msg = row_key"
  by (simp_all add: row_msg_def comp_def)

lemma read_row_ok: "log_ok rows \<Longrightarrow> r \<in> set rows \<Longrightarrow> read_row r = Some (row_msg r)"
  by (auto simp: log_ok_def row_msg_def row_key_def)

declare read_row.simps [simp del]

lemma map_filter_read_row:
  "log_ok rows \<Longrightarrow> set xs \<subseteq> set rows \<Longrightarrow> List.map_filter read_row xs = map row_msg xs"
  by (induction xs) (auto simp: List.map_filter_def read_row_ok row_msg_def)

lemma set_eligible: "set (eligible rows s) = {r \<in> set rows. log_status r = ''pending'' \<and> sint s < log_id r}"
  by (auto simp: eligible_def)

lemma eligible_sorted: "log_ok rows \<Longrightarrow> sorted_wrt (\<lambda>r r'. log_id r < log_id r') (eligible rows s)"
proof -
  assume ok: "log_ok rows"
  have "sorted (map log_id (eligible rows s))" by (simp add: eligible_def)
  moreover have "distinct (map log_id (eligible rows s))"
    using ok by (simp add: eligible_def log_ok_def distinct_map_filter distinct_map inj_on_def)
  ultimately show ?thesis by (simp add: sorted_wrt_map_iff [symmetric] strict_sorted_iff)
qed

lemma track_rows_config [simp]: "mon_config (track_rows now ms mon) = mon_config mon"
  by (induction now ms mon rule: track_rows.induct) auto

lemma track_rows_last_seen:
  "sorted_wrt (<) (mon_last_seen_id mon # map fst ms) \<Longrightarrow>
   mon_last_seen_id (track_rows now ms mon) = last (mon_last_seen_id mon # map fst ms)"
  by (induction now ms mon rule: track_rows.induct) (auto simp: max_def)

lemma track_rows_dom:
  "dom (map_of (mon_tracker (track_rows now ms mon))) = dom (map_of (mon_tracker mon)) \<union> fst ` set ms"
  by (induction now ms mon rule: track_rows.induct) (auto simp: dom_track_message)

lemma track_rows_keeps:
  "map_of (mon_tracker mon) i = Some x \<Longrightarrow> map_of (mon_tracker (track_rows now ms mon)) i = Some x"
  by (induction now ms mon rule: track_rows.induct) (auto intro: track_message_keeps)

lemma track_rows_entry:
  assumes "distinct (map fst ms)" and "(i, ty, pl) \<in> set ms" and "map_of (mon_tracker mon) i = None"
  shows "\<exists>x. map_of (mon_tracker (track_rows now ms mon)) i = Some x
           \<and> om_message_type x = ty \<and> om_payload x = pl \<and> om_status x = Queued"
  using assms
proof (induction now ms mon rule: track_rows.induct)
  case (1 now mon)
  then show ?case by simp
next
  case (2 now j ty' pl' rows mon)
  show ?case
  proof (cases "i = j")
    case True
    with 2 have "ty = ty'" "pl = pl'" by (auto simp: image_iff)
    with True 2 show ?thesis
      by (simp, intro exI conjI, intro track_rows_keeps) (auto simp: map_of_track_message)
  next
    case False
    with 2 show ?thesis by (simp add: map_of_track_message)
  qed
qed

text \<open>One poll of a well-formed table takes the next batch and moves past it.\<close>

definition polling :: "message_log_row list \<Rightarrow> outbound_monitor \<Rightarrow> bool" where
  "polling rows mon \<longleftrightarrow> log_ok rows \<and> omc_db_path (mon_config mon) \<noteq> ''''
     \<and> 0 < sint (omc_batch_size (mon_config mon)) \<and> 0 \<le> sint (mon_last_seen_id mon)"

definition page_of :: "message_log_row list \<Rightarrow> outbound_monitor \<Rightarrow> message_log_row list" where
  "page_of rows mon = take (nat (sint (omc_batch_size (mon_config mon)))) (eligible rows (mon_last_seen_id mon))"

lemma poll_once_page:
  assumes "polling rows mon"
  shows "poll_once now (Rows rows) mon
    = (track_rows now (map row_msg (page_of rows mon)) mon, Inr (length (page_of rows mon)))"
proof -
  have "set (page_of rows mon) \<subseteq> set rows"
    by (auto simp: page_of_def set_eligible dest: in_set_takeD)
  moreover have "pending_query (mon_last_seen_id mon) (omc_batch_size (mon_config mon)) rows = page_of rows mon"
    using assms by (simp add: pending_query_def page_of_def eligible_def Let_def polling_def)
  moreover have "List.map_filter read_row (page_of rows mon) = map row_msg (page_of rows mon)"
    using assms calculation(1) by (intro map_filter_read_row) (auto simp: polling_def)
  ultimately show ?thesis
    using assms by (simp add: poll_once_def polling_def Let_def)
qed

lemma page_sorted:
  assumes "polling rows mon"
  shows "sorted_wrt (<) (mon_last_seen_id mon # map row_key (page_of rows mon))"
proof -
  have srt: "sorted_wrt (\<lambda>r r'. log_id r < log_id r') (page_of rows mon)"
    using eligible_sorted assms unfolding page_of_def polling_def by (intro sorted_wrt_take) auto
  have rng: "sint (mon_last_seen_id mon) < log_id r \<and> 0 < log_id r \<and> log_id r < 2 ^ 63"
    if "r \<in> set (page_of rows mon)" for r
    using that assms by (auto simp: page_of_def polling_def log_ok_def set_eligible dest!: in_set_takeD)
  have last: "mon_last_seen_id mon = word_of_int (sint (mon_last_seen_id mon))" by simp
  have "row_key r < row_key r'"
    if "r \<in> set (page_of rows mon)" "r' \<in> set (page_of rows mon)" "log_id r < log_id r'" for r r'
    unfolding row_key_def using that rng [of r] rng [of r'] by (intro word_of_int_less_u64) auto
  moreover have "mon_last_seen_id mon < row_key r" if "r \<in> set (page_of rows mon)" for r
    unfolding row_key_def using rng [OF that] assms
    by (subst last, intro word_of_int_less_u64) (auto simp: polling_def)
  ultimately show ?thesis
    using srt by (auto simp: sorted_wrt_map_iff intro: sorted_wrt_mono_rel [rotated])
qed

lemma eligible_narrow:
  "sint s \<le> sint s' \<Longrightarrow> eligible rows s' = filter (\<lambda>r. sint s' < log_id r) (eligible rows s)"
  by (auto simp: eligible_def filter_sort conj_commute intro!: arg_cong [of _ _ "sort_key log_id"] filter_cong)

lemma poll_step:
  fixes now :: u64
  assumes "polling rows mon"
  defines "mon' \<equiv> fst (poll_once now (Rows rows) mon)"
  shows "polling rows mon'"
    and "eligible rows (mon_last_seen_id mon') =
      drop (nat (sint (omc_batch_size (mon_config mon)))) (eligible rows (mon_last_seen_id mon))"
proof -
  let ?page = "page_of rows mon"
  have mon': "mon' = track_rows now (map row_msg ?page) mon"
    using assms by (simp add: poll_once_page)
  have last: "mon_last_seen_id mon' = last (mon_last_seen_id mon # map row_key ?page)"
    unfolding mon' using track_rows_last_seen [of mon "map row_msg ?page" now] page_sorted [OF assms(1)]
    by simp
  have narrow: "sint (mon_last_seen_id mon') = log_id (last ?page)
      \<and> sint (mon_last_seen_id mon) < log_id (last ?page)" if "?page \<noteq> []"
  proof -
    have "last ?page \<in> set (eligible rows (mon_last_seen_id mon))"
      using last_in_set [OF that] unfolding page_of_def by (rule in_set_takeD)
    then have "0 < log_id (last ?page) \<and> log_id (last ?page) < 2 ^ 63
        \<and> sint (mon_last_seen_id mon) < log_id (last ?page)"
      using assms(1) by (auto simp: set_eligible polling_def log_ok_def)
    then show ?thesis using that by (simp add: last last_map row_key_def sint_word_of_int_u64)
  qed
  show "polling rows mon'"
    using assms(1) narrow last by (cases "?page = []") (auto simp: polling_def mon')
  show "eligible rows (mon_last_seen_id mon') =
      drop (nat (sint (omc_batch_size (mon_config mon)))) (eligible rows (mon_last_seen_id mon))"
  proof (cases "?page = []")
    case True
    then show ?thesis using assms(1) last by (auto simp: page_of_def polling_def)
  next
    case False
    have "eligible rows (mon_last_seen_id mon')
        = filter (\<lambda>r. log_id (last ?page) < log_id r) (eligible rows (mon_last_seen_id mon))"
      using narrow [OF False] eligible_narrow [of "mon_last_seen_id mon" "mon_last_seen_id mon'" rows] by simp
    also have "\<dots> = drop (nat (sint (omc_batch_size (mon_config mon)))) (eligible rows (mon_last_seen_id mon))"
      by (rule filter_take_last [OF eligible_sorted _ False])
         (use assms(1) in \<open>simp_all add: page_of_def polling_def\<close>)
    finally show ?thesis .
  qed
qed

text \<open>A sequence of polls of the same table, one per clock reading.\<close>

abbreviation polls :: "message_log_row list \<Rightarrow> u64 list \<Rightarrow> outbound_monitor \<Rightarrow> outbound_monitor" where
  "polls rows \<equiv> run (\<lambda>now mon. fst (poll_once now (Rows rows) mon))"

interpretation poll: monotone_machine "\<lambda>now mon. fst (poll_once now (Rows rows) mon)"
  "polling rows" "\<lambda>_ _. True" "\<lambda>mon mon'. map_of (mon_tracker mon) \<subseteq>\<^sub>m map_of (mon_tracker mon')"
  for rows
proof
  fix mon now
  assume p: "polling rows mon"
  then show "polling rows (fst (poll_once now (Rows rows) mon))" by (rule poll_step)
  show "map_of (mon_tracker mon) \<subseteq>\<^sub>m map_of (mon_tracker (fst (poll_once now (Rows rows) mon)))"
    using p by (auto simp: poll_once_page map_le_def track_rows_keeps)
qed (auto intro: map_le_trans)

lemma polls_run_ok [simp]: "run_ok step (\<lambda>_ _. True) es s"
  by (induction es arbitrary: s) auto

lemma polls_eligible:
  "polling rows mon \<Longrightarrow> length (eligible rows (mon_last_seen_id mon)) \<le> length nows \<Longrightarrow>
   eligible rows (mon_last_seen_id (polls rows nows mon)) = []"
proof (induction nows arbitrary: mon)
  case Nil
  then show ?case by simp
next
  case (Cons now nows)
  have "0 < nat (sint (omc_batch_size (mon_config mon)))"
    using Cons.prems(1) by (simp add: polling_def)
  with Cons show ?case by (auto simp: poll_step)
qed

lemma row_key_inj:
  "log_ok rows \<Longrightarrow> r \<in> set rows \<Longrightarrow> r' \<in> set rows \<Longrightarrow> row_key r = row_key r' \<Longrightarrow> r = r'"
proof -
  assume ok: "log_ok rows" and r: "r \<in> set rows" "r' \<in> set rows" and k: "row_key r = row_key r'"
  have "sint (row_key x) = log_id x" if "x \<in> set rows" for x
    using ok that unfolding row_key_def by (intro sint_word_of_int_u64) (auto simp: log_ok_def)
  with r k have "log_id r = log_id r'" by metis
  with ok r show "r = r'" by (auto simp: log_ok_def distinct_map inj_on_def)
qed

lemma polls_track:
  assumes "polling rows mon" and "r \<in> set (eligible rows (mon_last_seen_id mon))"
    and "map_of (mon_tracker mon) (row_key r) = None"
    and "length (eligible rows (mon_last_seen_id mon)) \<le> length nows"
  shows "\<exists>x. map_of (mon_tracker (polls rows nows mon)) (row_key r) = Some x
    \<and> Some (om_message_type x) = log_type r \<and> Some (om_payload x) = log_payload r \<and> om_status x = Queued"
  using assms
proof (induction nows arbitrary: mon)
  case Nil
  then show ?case by simp
next
  case (Cons now nows)
  let ?mon = "fst (poll_once now (Rows rows) mon)" and ?page = "page_of rows mon"
  let ?b = "nat (sint (omc_batch_size (mon_config mon)))"
  have ok: "log_ok rows" and b: "0 < ?b" using Cons.prems(1) by (simp_all add: polling_def)
  have mon': "?mon = track_rows now (map row_msg ?page) mon" using Cons.prems(1) by (simp add: poll_once_page)
  have page: "?page = take ?b (eligible rows (mon_last_seen_id mon))" by (simp add: page_of_def)
  have r: "r \<in> set rows" using Cons.prems(2) by (simp add: set_eligible)
  show ?case
  proof (cases "r \<in> set ?page")
    case True
    have "distinct (map fst (map row_msg ?page))"
      using page_sorted [OF Cons.prems(1)] by (simp add: strict_sorted_iff)
    moreover have "(row_key r, the (log_type r), the (log_payload r)) \<in> set (map row_msg ?page)"
      using True by (force simp: row_msg_def)
    ultimately obtain x where "map_of (mon_tracker ?mon) (row_key r) = Some x"
      and "om_message_type x = the (log_type r)" "om_payload x = the (log_payload r)" "om_status x = Queued"
      using track_rows_entry Cons.prems(3) unfolding mon' by blast
    moreover have "map_of (mon_tracker ?mon) \<subseteq>\<^sub>m map_of (mon_tracker (polls rows nows ?mon))"
      by (rule poll.run_below) (simp_all add: poll_step Cons.prems(1))
    ultimately show ?thesis using ok r by (auto simp: map_le_def log_ok_def dom_def)
  next
    case False
    with Cons.prems(2) have "r \<in> set (drop ?b (eligible rows (mon_last_seen_id mon)))"
      unfolding page by (metis append_take_drop_id Un_iff set_append)
    moreover have "map_of (mon_tracker ?mon) (row_key r) = None"
    proof -
      have "row_key r \<notin> fst ` set (map row_msg ?page)"
      proof
        assume "row_key r \<in> fst ` set (map row_msg ?page)"
        then obtain r' where r': "r' \<in> set ?page" "row_key r = row_key r'" by (auto simp: row_msg_def)
        then have "r' \<in> set rows" unfolding page by (auto simp: set_eligible dest: in_set_takeD)
        with r' False row_key_inj [OF ok r] show False by blast
      qed
      then show ?thesis using track_rows_dom [of now "map row_msg ?page" mon] Cons.prems(3)
        unfolding mon' by blast
    qed
    ultimately show ?thesis
      using Cons.IH [of ?mon] Cons.prems b by (simp add: poll_step)
  qed
qed

section \<open>Properties\<close>

text \<open>
  C28: polling a well-formed \<open>message_log\<close> table as often as it has pending rows tracks every
  pending row, with the row's type and payload and in status queued, whatever the batch size;
  a further poll then finds nothing.
\<close>
theorem polls_track_all:
  assumes "log_ok rows" and "omc_db_path config \<noteq> ''''" and "0 < sint (omc_batch_size config)"
    and "length (filter (\<lambda>r. log_status r = ''pending'') rows) \<le> length nows"
  defines "mon \<equiv> polls rows nows (new_monitor config)"
  shows "snd (poll_once now (Rows rows) mon) = Inr 0
    \<and> (\<forall>r \<in> set rows. log_status r = ''pending'' \<longrightarrow>
         (\<exists>x. get_status (mon_tracker mon) (word_of_int (log_id r)) = Some x
            \<and> Some (om_message_type x) = log_type r \<and> Some (om_payload x) = log_payload r
            \<and> om_status x = Queued))"
proof (intro conjI ballI impI)
  let ?m = "new_monitor config"
  have p: "polling rows ?m" using assms(1-3) by (simp add: polling_def new_monitor_def)
  have el: "eligible rows (mon_last_seen_id ?m) = sort_key log_id (filter (\<lambda>r. log_status r = ''pending'') rows)"
    using assms(1) unfolding eligible_def
    by (auto simp: new_monitor_def log_ok_def intro!: arg_cong [of _ _ "sort_key log_id"] filter_cong)
  have len: "length (eligible rows (mon_last_seen_id ?m)) \<le> length nows" using assms(4) by (simp add: el)
  have "polling rows mon" unfolding mon_def by (rule poll.run_inv [OF p]) simp
  with polls_eligible [OF p len] show "snd (poll_once now (Rows rows) mon) = Inr 0"
    by (simp add: poll_once_page page_of_def mon_def)
  fix r assume "r \<in> set rows" and "log_status r = ''pending''"
  then have "r \<in> set (eligible rows (mon_last_seen_id ?m))" by (simp add: el)
  from polls_track [OF p this _ len] show "\<exists>x. get_status (mon_tracker mon) (word_of_int (log_id r)) = Some x
            \<and> Some (om_message_type x) = log_type r \<and> Some (om_payload x) = log_payload r
            \<and> om_status x = Queued"
    by (simp add: get_status_def mon_def row_key_def new_monitor_def new_tracker_def)
qed

definition demo_log :: "message_log_row list" where
  "demo_log = [\<lparr>log_id = 3, log_type = Some ''price'', log_payload = Some ''{}'', log_status = ''pending''\<rparr>,
     \<lparr>log_id = 1, log_type = Some ''price'', log_payload = Some ''[]'', log_status = ''pending''\<rparr>]"

theorem polls_track_all_witness:
  "\<exists>x. get_status (mon_tracker (polls demo_log [10, 20] (new_monitor \<lparr>omc_db_path = ''app.db'', omc_batch_size = 1\<rparr>))) 3
     = Some x \<and> Some (om_message_type x) = Some ''price'' \<and> Some (om_payload x) = Some ''{}'' \<and> om_status x = Queued"
proof -
  have "log_ok demo_log" by (simp add: log_ok_def demo_log_def)
  from polls_track_all [OF this, of "\<lparr>omc_db_path = ''app.db'', omc_batch_size = 1\<rparr>" "[10, 20]" 30]
  show ?thesis by (simp add: demo_log_def)
qed

text \<open>
  clean-up removes exactly the confirmed and failed messages whose last update is at or
  before the cutoff \<open>now - max_age\<close> (zero if the age exceeds the clock), and leaves every other
  entry as it was: a message still in flight is never forgotten.
\<close>
theorem cleanup_old_messages_exact:
  assumes "distinct (map fst t)"
  shows "get_status (cleanup_old_messages now max_age t) i =
    (case get_status t i of
       None \<Rightarrow> None
     | Some m \<Rightarrow> if (om_status m = Confirmed \<or> om_status m = Failed)
                  \<and> unat (om_updated_at m) \<le> unat now - unat max_age then None else Some m)"
proof -
  have "map_of (filter P t) i = (case map_of t i of None \<Rightarrow> None | Some m \<Rightarrow> if P (i, m) then Some m else None)" for P
    using assms by (induction t) (auto simp: map_of_eq_None_iff image_iff split: option.splits)
  then show ?thesis
    by (auto simp: get_status_def cleanup_old_messages_def is_terminal_def word_less_nat_alt
          unat_saturating_sub split: option.splits)
qed

theorem cleanup_old_messages_exact_witness:
  "get_status (cleanup_old_messages 100 10 (mark_confirmed 50 1 (track_message 40 1 ''price'' ''{}'' []))) 1 = None
   \<and> get_status (cleanup_old_messages 100 10 (track_message 40 1 ''price'' ''{}'' [])) 1 \<noteq> None"
proof -
  let ?t = "track_message 40 1 ''price'' ''{}'' []"
  have d: "distinct (map fst ?t)" "distinct (map fst (mark_confirmed 50 1 ?t))"
    by (simp_all add: track_message_def tracker_updates modify_entry_def)
  show ?thesis
    unfolding cleanup_old_messages_exact [OF d(1)] cleanup_old_messages_exact [OF d(2)]
    by (simp add: get_status_def track_message_def tracker_updates modify_entry_def)
qed

end
