(* ===== verification/Message_Api.thy ===== *)
theory Message_Api
  imports Message_Queue Outbound
begin

text \<open>
  The HTTP handlers of the sequencer's message API,
  \<open>crates/synddb-sequencer/src/messages/api.rs\<close>, over the queue of \<open>Message_Queue\<close> and the
  tracker of \<open>Outbound\<close>. JSON parsing and printing (\<open>serde_json\<close>) are the argument
  \<open>json_lib\<close>; a poisoned lock is a field of the state, with the text of its error. A handler
  that writes returns the new state with its response. Errors are a status code and a body.
\<close>

section \<open>Data\<close>

record 'j json_lib =
  json_from_str :: "string \<Rightarrow> 'j option"
  json_value_string :: "string \<Rightarrow> 'j"
  json_to_string :: "'j \<Rightarrow> string + string"

type_synonym http_err = "nat \<times> string"

record message_api_state =
  mas_queue :: message_queue
  mas_poisoned :: "string option"
  mas_outbound :: "outbound_tracker option"

definition api_state_with_queue :: "message_queue \<Rightarrow> message_api_state" where
  "api_state_with_queue q = \<lparr>mas_queue = q, mas_poisoned = None, mas_outbound = None\<rparr>"

definition api_state_new :: message_api_state where
  "api_state_new = \<lparr>mas_queue = new_queue, mas_poisoned = None, mas_outbound = None\<rparr>"

definition api_with_outbound :: "outbound_tracker \<Rightarrow> message_api_state \<Rightarrow> message_api_state" where
  "api_with_outbound handle st = st\<lparr>mas_outbound := Some handle\<rparr>"

record get_messages_query =
  gq_after_id :: u64
  gq_limit :: nat
  gq_message_type :: "string option"
  gq_pending_only :: bool

definition default_limit :: nat where
  "default_limit = 100"

definition default_pending_only :: bool where
  "default_pending_only = True"

record 'j inbound_message_response =
  ir_id :: u64
  ir_message_id :: string
  ir_message_type :: string
  ir_payload :: 'j
  ir_sender :: string
  ir_tx_hash :: string
  ir_block_number :: u64
  ir_confirmations :: u64
  ir_timestamp :: u64
  ir_acknowledged :: bool

record 'j get_messages_response =
  gr_messages :: "'j inbound_message_response list"
  gr_has_more :: bool
  gr_latest_id :: u64

record ack_response =
  ar_acknowledged :: bool
  ar_message_id :: u64

record outbound_status_response =
  osr_id :: u64
  osr_message_type :: string
  osr_status :: string
  osr_tx_hash :: "string option"
  osr_confirmations :: "u64 option"
  osr_error :: "string option"
  osr_first_seen_at :: u64
  osr_updated_at :: u64

record outbound_stats_response = outbound_stats +
  osr_monitor_active :: bool

record 'j push_inbound_request =
  pr_message_id :: string
  pr_message_type :: string
  pr_payload :: 'j
  pr_sender :: string
  pr_tx_hash :: string
  pr_block_number :: u64
  pr_confirmations :: u64

record push_inbound_response =
  pir_id :: u64
  pir_message_id :: string

section \<open>Conversions\<close>

definition inbound_response_from :: "'j json_lib \<Rightarrow> inbound_message \<Rightarrow> 'j inbound_message_response" where
  "inbound_response_from js msg =
     \<lparr>ir_id = im_id msg, ir_message_id = im_message_id msg, ir_message_type = im_message_type msg,
      ir_payload = (case json_from_str js (im_payload msg) of
                      Some v \<Rightarrow> v | None \<Rightarrow> json_value_string js (im_payload msg)),
      ir_sender = im_sender msg, ir_tx_hash = im_tx_hash msg, ir_block_number = im_block_number msg,
      ir_confirmations = im_confirmations msg, ir_timestamp = im_timestamp msg,
      ir_acknowledged = im_acknowledged msg\<rparr>"

definition outbound_status_response_from :: "tracked_outbound_message \<Rightarrow> outbound_status_response" where
  "outbound_status_response_from msg =
     \<lparr>osr_id = om_id msg, osr_message_type = om_message_type msg,
      osr_status = show_outbound_status (om_status msg), osr_tx_hash = om_tx_hash msg,
      osr_confirmations = om_confirmations msg, osr_error = om_error msg,
      osr_first_seen_at = om_first_seen_at msg, osr_updated_at = om_updated_at msg\<rparr>"

definition outbound_stats_response_from :: "outbound_stats \<Rightarrow> outbound_stats_response" where
  "outbound_stats_response_from s =
     \<lparr>os_total = os_total s, os_pending = os_pending s, os_queued = os_queued s,
      os_submitting = os_submitting s, os_submitted = os_submitted s, os_confirmed = os_confirmed s,
      os_failed = os_failed s, osr_monitor_active = True\<rparr>"

section \<open>Handlers\<close>

definition lock_queue :: "message_api_state \<Rightarrow> http_err + message_queue" where
  "lock_queue st = (case mas_poisoned st of
     Some e \<Rightarrow> Inl (500, ''Lock error: '' @ e) | None \<Rightarrow> Inr (mas_queue st))"

text \<open>The three ways the handler selects the messages of a page.\<close>

definition select_messages :: "'j json_lib \<Rightarrow> message_queue \<Rightarrow> get_messages_query \<Rightarrow> nat
  \<Rightarrow> 'j inbound_message_response list" where
  "select_messages js q query limit =
     (if gq_pending_only query then
        (case gq_message_type query of
           None \<Rightarrow> map (inbound_response_from js) (take limit
             (filter (\<lambda>m. gq_after_id query < im_id m) (get_pending_messages q (limit + 1))))
         | Some msg_type \<Rightarrow> map (inbound_response_from js)
             (filter (\<lambda>m. gq_after_id query < im_id m) (get_pending_by_type q msg_type limit)))
      else map (inbound_response_from js) (take limit
        (filter (\<lambda>m. case gq_message_type query of None \<Rightarrow> True | Some t \<Rightarrow> im_message_type m = t)
          (get_messages_after q (gq_after_id query) (limit + 1)))))"

definition get_inbound_messages :: "'j json_lib \<Rightarrow> message_api_state \<Rightarrow> get_messages_query
  \<Rightarrow> http_err + 'j get_messages_response" where
  "get_inbound_messages js st query =
     (let limit = min (gq_limit query) 1000
      in bind_r (lock_queue st) (\<lambda>q.
        (let messages = select_messages js q query limit;
             has_more = limit < length messages
         in Inr \<lparr>gr_messages = take limit messages, gr_has_more = has_more, gr_latest_id = latest_id q\<rparr>)))"

definition get_message_by_id :: "'j json_lib \<Rightarrow> message_api_state \<Rightarrow> u64
  \<Rightarrow> http_err + 'j inbound_message_response" where
  "get_message_by_id js st i =
     bind_r (lock_queue st) (\<lambda>q.
       ok_or (404, ''Message '' @ show_u64 i @ '' not found'')
         (map_option (inbound_response_from js) (get_by_id q i)))"

definition acknowledge_message :: "u64 \<Rightarrow> message_api_state \<Rightarrow> u64
  \<Rightarrow> message_api_state \<times> (http_err + ack_response)" where
  "acknowledge_message now st i =
     (case lock_queue st of
        Inl e \<Rightarrow> (st, Inl e)
      | Inr q \<Rightarrow> (let (q', acked) = acknowledge now i q
                  in (st\<lparr>mas_queue := q'\<rparr>, Inr \<lparr>ar_acknowledged = acked, ar_message_id = i\<rparr>)))"

definition get_queue_stats :: "message_api_state \<Rightarrow> http_err + queue_stats" where
  "get_queue_stats st = bind_r (lock_queue st) (\<lambda>q. Inr (queue_stats_of q))"

definition push_inbound_message :: "'j json_lib \<Rightarrow> u64 \<Rightarrow> u64 \<Rightarrow> message_api_state
  \<Rightarrow> 'j push_inbound_request \<Rightarrow> message_api_state \<times> (http_err + push_inbound_response)" where
  "push_inbound_message js now now' st request =
     (case map_err (\<lambda>e. (400, ''Invalid payload JSON: '' @ e)) (json_to_string js (pr_payload request)) of
        Inl e \<Rightarrow> (st, Inl e)
      | Inr payload_str \<Rightarrow>
          (case lock_queue st of
             Inl e \<Rightarrow> (st, Inl e)
           | Inr q \<Rightarrow>
               (let (q', i) = add_message now now' (pr_message_id request) (pr_message_type request)
                      payload_str (pr_sender request) (pr_tx_hash request) (pr_block_number request)
                      (pr_confirmations request) q
                in (st\<lparr>mas_queue := q'\<rparr>, Inr \<lparr>pir_id = i, pir_message_id = pr_message_id request\<rparr>))))"

definition get_outbound_status :: "u64 \<Rightarrow> message_api_state \<Rightarrow> u64 \<Rightarrow> http_err + outbound_status_response" where
  "get_outbound_status now st i =
     (case Option.bind (mas_outbound st) (\<lambda>t. get_status t i) of
        Some msg \<Rightarrow> Inr (outbound_status_response_from msg)
      | None \<Rightarrow> Inr \<lparr>osr_id = i, osr_message_type = ''unknown'', osr_status = ''unknown'', osr_tx_hash = None,
          osr_confirmations = None,
          osr_error = (if mas_outbound st = None then Some ''Outbound monitor not configured''
                       else Some ''Message not found''),
          osr_first_seen_at = 0, osr_updated_at = now\<rparr>)"

definition get_outbound_stats :: "message_api_state \<Rightarrow> http_err + outbound_stats_response" where
  "get_outbound_stats st =
     (case mas_outbound st of
        None \<Rightarrow> Inr \<lparr>os_total = 0, os_pending = 0, os_queued = 0, os_submitting = 0, os_submitted = 0,
                  os_confirmed = 0, os_failed = 0, osr_monitor_active = False\<rparr>
      | Some t \<Rightarrow> Inr (outbound_stats_response_from (outbound_stats_of t)))"

section \<open>Lemmas\<close>

lemma length_select_messages: "length (select_messages js q query limit) \<le> limit"
  unfolding select_messages_def get_pending_by_type_def
  by (simp split: option.splits) (metis (no_types) length_filter_le length_take min.bounded_iff)

lemma select_pending:
  assumes "gq_pending_only query" and "gq_message_type query = None"
  shows "select_messages js q query limit = map (inbound_response_from js) (take limit
    (filter (\<lambda>m. gq_after_id query < im_id m) (take (limit + 1) (filter (\<lambda>m. \<not> im_acknowledged m) (mq_messages q)))))"
  using assms by (simp add: select_messages_def get_pending_messages_def)

text \<open>In a queue that keeps its invariant the ids of a prefix are the smallest.\<close>

lemma take_sorted_small:
  assumes "sorted_wrt (\<lambda>m m'. f m < (f m' :: 'b::linorder)) xs" and "n < length (filter (\<lambda>m. f m \<le> a) xs)"
    and "x \<in> set (take (Suc n) xs)"
  shows "f x \<le> a"
proof (rule ccontr)
  assume big: "\<not> f x \<le> a"
  obtain i where i: "i < length xs" "i \<le> n" "x = xs ! i"
    using assms(3) by (auto simp: in_set_conv_nth less_Suc_eq_le)
  have "\<not> f (xs ! j) \<le> a" if "i \<le> j" "j < length xs" for j
  proof (cases "i = j")
    case False
    with that sorted_wrt_nth_less [OF assms(1), of i j] big i(3) show ?thesis by force
  qed (use big i in simp)
  then have "{j. j < length xs \<and> f (xs ! j) \<le> a} \<subseteq> {..<i}" by (auto simp: not_le [symmetric])
  then have "length (filter (\<lambda>m. f m \<le> a) xs) \<le> i"
    unfolding length_filter_conv_card using card_mono [of "{..<i}"] by simp
  with assms(2) i(2) show False by simp
qed

section \<open>Properties\<close>

text \<open>
  the page handler never reports that there are more messages, however many the queue
  holds; and a page has at most \<open>limit\<close> and at most a thousand messages.
\<close>
theorem get_inbound_messages_has_more:
  assumes "get_inbound_messages js st query = Inr r"
  shows "\<not> gr_has_more r \<and> length (gr_messages r) \<le> gq_limit query \<and> length (gr_messages r) \<le> 1000"
proof -
  have "length (select_messages js q query (min (gq_limit query) 1000)) \<le> min (gq_limit query) 1000" for q
    by (rule length_select_messages)
  moreover from assms obtain q where "r = \<lparr>gr_messages = take (min (gq_limit query) 1000)
        (select_messages js q query (min (gq_limit query) 1000)),
      gr_has_more = min (gq_limit query) 1000 < length (select_messages js q query (min (gq_limit query) 1000)),
      gr_latest_id = latest_id q\<rparr>"
    by (auto simp: get_inbound_messages_def Let_def bind_r_eq_Inr)
  ultimately show ?thesis by (simp add: not_less)
qed

definition demo_json :: "string json_lib" where
  "demo_json = \<lparr>json_from_str = Some, json_value_string = id, json_to_string = Inr\<rparr>"

theorem get_inbound_messages_has_more_witness:
  "\<exists>r. get_inbound_messages demo_json (api_state_with_queue demo_queue)
         \<lparr>gq_after_id = 0, gq_limit = 1, gq_message_type = None, gq_pending_only = True\<rparr> = Inr r
     \<and> \<not> gr_has_more r \<and> map ir_id (gr_messages r) = [1]"
proof -
  let ?query = "\<lparr>gq_after_id = 0, gq_limit = 1, gq_message_type = None, gq_pending_only = True\<rparr>"
  have "map ir_id (select_messages demo_json demo_queue ?query 1) = [1]"
    by (simp add: select_pending demo_queue_messages inbound_response_from_def)
  then obtain r where r: "get_inbound_messages demo_json (api_state_with_queue demo_queue) ?query = Inr r"
      "map ir_id (gr_messages r) = [1]"
    by (auto simp: get_inbound_messages_def api_state_with_queue_def lock_queue_def)
  then show ?thesis using get_inbound_messages_has_more [OF r(1)] by simp
qed

text \<open>
  with \<open>pending_only\<close> the cursor is applied after the limit: once more than \<open>limit\<close>
  pending messages lie at or below \<open>after_id\<close>, the page is empty, whatever is pending beyond
  the cursor.
\<close>
theorem pending_page_starves:
  assumes "queue_inv q" and "gq_pending_only query" and "gq_message_type query = None"
    and "min (gq_limit query) 1000
      < length (filter (\<lambda>m. \<not> im_acknowledged m \<and> im_id m \<le> gq_after_id query) (mq_messages q))"
    and "get_inbound_messages js (api_state_with_queue q) query = Inr r"
  shows "gr_messages r = []"
proof -
  let ?p = "filter (\<lambda>m. \<not> im_acknowledged m) (mq_messages q)" and ?n = "min (gq_limit query) 1000"
  have srt: "sorted_wrt (\<lambda>m m'. im_id m < im_id m') ?p" using assms(1) by (simp add: queue_inv_def)
  have "?n < length (filter (\<lambda>m. im_id m \<le> gq_after_id query) ?p)"
    using assms(4) by (simp add: conj_commute)
  then have "filter (\<lambda>m. gq_after_id query < im_id m) (take (Suc ?n) ?p) = []"
    unfolding filter_empty_conv not_less using take_sorted_small [OF srt] by blast
  then show ?thesis
    using assms(2,3,5) select_pending [OF assms(2,3), of js q ?n]
    by (auto simp: get_inbound_messages_def api_state_with_queue_def lock_queue_def Let_def)
qed

theorem pending_page_starves_witness:
  "length (filter (\<lambda>m. \<not> im_acknowledged m \<and> 1 < im_id m) (mq_messages demo_queue)) = 1
   \<and> gr_messages (projr (get_inbound_messages demo_json (api_state_with_queue demo_queue)
        \<lparr>gq_after_id = 1, gq_limit = 0, gq_message_type = None, gq_pending_only = True\<rparr>)) = []"
proof -
  let ?query = "\<lparr>gq_after_id = 1, gq_limit = 0, gq_message_type = None, gq_pending_only = True\<rparr>"
  obtain r where r: "get_inbound_messages demo_json (api_state_with_queue demo_queue) ?query = Inr r"
    by (simp add: get_inbound_messages_def api_state_with_queue_def lock_queue_def Let_def)
  have "gr_messages r = []"
    by (rule pending_page_starves [OF demo_queue_inv _ _ _ r]) (simp_all add: demo_queue_messages)
  then show ?thesis by (simp add: r) (simp add: demo_queue_messages)
qed

text \<open>
  a message pushed over HTTP can be read back by the id the push returned, with the JSON
  value it was pushed with, as long as JSON printing and parsing are inverse.
\<close>
theorem push_then_get:
  assumes "queue_inv q" and "mq_next_id q < - 1" and "0 < max_size (mq_config q)"
    and "\<And>v s. json_to_string js v = Inr s \<Longrightarrow> json_from_str js s = Some v"
    and "push_inbound_message js now now' (api_state_with_queue q) req = (st', Inr resp)"
  shows "get_message_by_id js st' (pir_id resp) = Inr
    \<lparr>ir_id = pir_id resp, ir_message_id = pr_message_id req, ir_message_type = pr_message_type req,
     ir_payload = pr_payload req, ir_sender = pr_sender req, ir_tx_hash = pr_tx_hash req,
     ir_block_number = pr_block_number req, ir_confirmations = pr_confirmations req,
     ir_timestamp = now, ir_acknowledged = False\<rparr>"
proof -
  from assms(5) obtain s where s: "json_to_string js (pr_payload req) = Inr s"
    by (auto simp: push_inbound_message_def map_err_eq_Inr split: sum.splits)
  let ?m = "\<lparr>im_id = mq_next_id q, im_message_id = pr_message_id req, im_message_type = pr_message_type req,
     im_payload = s, im_sender = pr_sender req, im_tx_hash = pr_tx_hash req,
     im_block_number = pr_block_number req, im_confirmations = pr_confirmations req,
     im_timestamp = now, im_acknowledged = False, im_acknowledged_at = None\<rparr>"
  obtain q' where q': "add_message now now' (pr_message_id req) (pr_message_type req) s (pr_sender req)
      (pr_tx_hash req) (pr_block_number req) (pr_confirmations req) q = (q', mq_next_id q)"
    by (metis add_message_result surj_pair)
  have st': "st' = (api_state_with_queue q)\<lparr>mas_queue := q'\<rparr>" and i: "pir_id resp = mq_next_id q"
    using assms(5) by (auto simp: push_inbound_message_def s lock_queue_def api_state_with_queue_def q')
  have "?m \<in> set (filter (\<lambda>m. \<not> im_acknowledged m) (mq_messages q'))"
    unfolding pending_add_message [OF assms(1,3) q'] by simp
  moreover have "queue_inv q'"
    using queue_inv_add_message [OF assms(1,2), of now now' "pr_message_id req" "pr_message_type req" s
        "pr_sender req" "pr_tx_hash req" "pr_block_number req" "pr_confirmations req"]
    by (simp add: q')
  ultimately have "get_by_id q' (mq_next_id q) = Some ?m"
    using find_unique [OF queue_inv_distinct, of q' ?m] by (simp add: get_by_id_def)
  then show ?thesis
    using assms(4) [OF s] i
    by (simp add: get_message_by_id_def st' api_state_with_queue_def lock_queue_def inbound_response_from_def)
qed

theorem push_then_get_witness:
  "\<exists>st' resp. push_inbound_message demo_json 7 7 (api_state_with_queue demo_queue)
      \<lparr>pr_message_id = ''r3'', pr_message_type = ''deposit'', pr_payload = ''3'', pr_sender = ''0xa'',
       pr_tx_hash = ''0xd'', pr_block_number = 9, pr_confirmations = 0\<rparr> = (st', Inr resp)
    \<and> map_sum id ir_payload (get_message_by_id demo_json st' (pir_id resp)) = Inr ''3''"
proof -
  let ?req = "\<lparr>pr_message_id = ''r3'', pr_message_type = ''deposit'', pr_payload = ''3'', pr_sender = ''0xa'',
       pr_tx_hash = ''0xd'', pr_block_number = 9, pr_confirmations = 0\<rparr>"
  have q: "mq_next_id demo_queue < - 1" "0 < max_size (mq_config demo_queue)" by (simp_all add: queue_eval)
  obtain st' resp where p: "push_inbound_message demo_json 7 7 (api_state_with_queue demo_queue) ?req = (st', Inr resp)"
    by (cases "add_message 7 7 ''r3'' ''deposit'' ''3'' ''0xa'' ''0xd'' 9 0 demo_queue")
       (simp add: push_inbound_message_def demo_json_def lock_queue_def api_state_with_queue_def)
  have "\<And>v s. json_to_string demo_json v = Inr s \<Longrightarrow> json_from_str demo_json s = Some v"
    by (simp add: demo_json_def)
  from push_then_get [OF demo_queue_inv q this p] p show ?thesis by auto
qed

end
