(* ===== verification/Gcp_Attestation.thy ===== *)
theory Gcp_Attestation
  imports Rust_Std
begin

text \<open>
  Verification of GCP Confidential Space tokens, the crate \<open>crates/gcp-attestation\<close>: the base64url
  decoder and the JWT parser of \<open>jwt.rs\<close>, and the checks of \<open>verify.rs\<close> (algorithm, key,
  RS256 signature, issuer, software name, audience, validity window). serde_json and the rsa crate
  are the record \<open>gcp_crates\<close>. The decoder inverts the base64url encoding of RFC 4648 without padding,
  and an accepted token satisfies every check.
\<close>

section \<open>UTF-8\<close>

text \<open>\<open>str::from_utf8\<close>: well-formed sequences of one to four bytes, without overlong forms, surrogates and
  values above U+10FFFF.\<close>

definition utf8_tail :: "u8 \<Rightarrow> bool" where
  "utf8_tail b \<longleftrightarrow> 0x80 \<le> b \<and> b \<le> 0xBF"

fun valid_utf8 :: "bytes \<Rightarrow> bool" where
  "valid_utf8 [] = True"
| "valid_utf8 (a # rest) =
     (if a < 0x80 then valid_utf8 rest
      else case rest of
        b # rest1 \<Rightarrow>
          if 0xC2 \<le> a \<and> a \<le> 0xDF then utf8_tail b \<and> valid_utf8 rest1
          else (case rest1 of
            c # rest2 \<Rightarrow>
              if 0xE0 \<le> a \<and> a \<le> 0xEF
              then (if a = 0xE0 then 0xA0 \<le> b \<and> b \<le> 0xBF else if a = 0xED then 0x80 \<le> b \<and> b \<le> 0x9F else utf8_tail b)
                   \<and> utf8_tail c \<and> valid_utf8 rest2
              else (case rest2 of
                d # rest3 \<Rightarrow>
                  0xF0 \<le> a \<and> a \<le> 0xF4
                  \<and> (if a = 0xF0 then 0x90 \<le> b \<and> b \<le> 0xBF else if a = 0xF4 then 0x80 \<le> b \<and> b \<le> 0x8F else utf8_tail b)
                  \<and> utf8_tail c \<and> utf8_tail d \<and> valid_utf8 rest3
              | [] \<Rightarrow> False)
          | [] \<Rightarrow> False)
      | [] \<Rightarrow> False)"

definition bytes_str :: "bytes \<Rightarrow> string" where
  "bytes_str bs = map (\<lambda>b. char_of (unat b)) bs"

lemma str_bytes_str [simp]: "str_bytes (bytes_str bs) = bs"
proof -
  have "word_of_nat (unat (b :: u8) mod 256) = b" for b
    using unsigned_less [of b, where ?'a = nat] by simp
  then show ?thesis by (induction bs) (simp_all add: str_bytes_def bytes_str_def)
qed

section \<open>Base64\<close>

definition DECODE_TABLE :: "int list" where
  "DECODE_TABLE = replicate 43 (- 1) @ [62] @ replicate 3 (- 1) @ [63] @ [52 .. 61] @ replicate 3 (- 1) @ [- 2]
     @ replicate 3 (- 1) @ [0 .. 25] @ replicate 6 (- 1) @ [26 .. 51] @ replicate 5 (- 1)"

definition table_value :: "u8 \<Rightarrow> int" where
  "table_value a = (if a < 128 then DECODE_TABLE ! unat a else - 1)"

definition as_u8 :: "int \<Rightarrow> u8" where
  "as_u8 v = word_of_int v"

definition invalid_character :: string where
  "invalid_character = ''Invalid base64 character''"

text \<open>The loop over groups of four bytes; the length was checked to be a multiple of four.\<close>

fun decode_quads :: "bytes \<Rightarrow> string + bytes" where
  "decode_quads (a # b # c # d # rest) =
     (let va = table_value a; vb = table_value b; vc = table_value c; vd = table_value d
      in if va < 0 \<or> vb < 0 then Inl invalid_character
         else let x = or (push_bit 2 (as_u8 va)) (drop_bit 4 (as_u8 vb))
           in if c = 61 then bind_r (decode_quads rest) (\<lambda>r. Inr (x # r))
              else if vc < 0 then Inl invalid_character
              else let y = or (push_bit 4 (as_u8 vb)) (drop_bit 2 (as_u8 vc))
                in if d = 61 then bind_r (decode_quads rest) (\<lambda>r. Inr (x # y # r))
                   else if vd < 0 then Inl invalid_character
                   else let z = or (push_bit 6 (as_u8 vc)) (as_u8 vd)
                        in bind_r (decode_quads rest) (\<lambda>r. Inr (x # y # z # r)))"
| "decode_quads _ = Inr []"

definition decode_base64_standard :: "bytes \<Rightarrow> string + bytes" where
  "decode_base64_standard input =
     (if length input mod 4 \<noteq> 0 then Inl ''Invalid base64 length'' else decode_quads input)"

definition url_to_standard :: "u8 \<Rightarrow> u8" where
  "url_to_standard c = (if c = 45 then 43 else if c = 95 then 47 else c)"

definition decode_base64url :: "bytes \<Rightarrow> string + bytes" where
  "decode_base64url input =
     (let standard = map url_to_standard input
      in decode_base64_standard
           (if length standard mod 4 = 2 then standard @ [61, 61]
            else if length standard mod 4 = 3 then standard @ [61] else standard))"

section \<open>Tokens\<close>

record jwt_header =
  jh_alg :: string
  jh_kid :: string
  jh_typ :: "string option"

record container_info =
  ci_image_digest :: "string option"
  ci_image_reference :: "string option"

record gcp_cs_claims =
  gc_iss :: string
  gc_sub :: string
  gc_aud :: string
  gc_exp :: u64
  gc_iat :: u64
  gc_nbf :: u64
  gc_secboot :: bool
  gc_hwmodel :: "string option"
  gc_swname :: "string option"
  gc_dbgstat :: "string option"
  gc_eat_nonce :: "string option"
  gc_submods :: "container_info option option"

definition claims_image_digest :: "gcp_cs_claims \<Rightarrow> string option" where
  "claims_image_digest c =
     (case gc_submods c of None \<Rightarrow> None | Some submods \<Rightarrow>
        (case submods of None \<Rightarrow> None | Some container \<Rightarrow> ci_image_digest container))"

definition is_debug_disabled :: "gcp_cs_claims \<Rightarrow> bool" where
  "is_debug_disabled c \<longleftrightarrow> gc_dbgstat c = Some ''disabled-since-boot''"

record jwk_key =
  jk_alg :: "string option"
  jk_kid :: string
  jk_kty :: string
  jk_n :: string
  jk_e :: string
  jk_use :: "string option"

record parsed_jwt =
  pj_header :: jwt_header
  pj_claims :: gcp_cs_claims
  pj_signature :: bytes
  pj_signing_input :: bytes

text \<open>
  serde_json (\<open>None\<close> for a parse error) and the rsa crate: the error of building a key from modulus and
  exponent, of reading a signature, and of verifying a signature over a message, \<open>None\<close> for success.\<close>

record gcp_crates =
  json_header :: "bytes \<Rightarrow> jwt_header option"
  json_claims :: "bytes \<Rightarrow> gcp_cs_claims option"
  json_kid :: "bytes \<Rightarrow> string option"
  rsa_key_error :: "bytes \<Rightarrow> bytes \<Rightarrow> string option"
  rsa_sig_error :: "bytes \<Rightarrow> string option"
  rsa_verify_error :: "bytes \<Rightarrow> bytes \<Rightarrow> bytes \<Rightarrow> bytes \<Rightarrow> string option"

definition parse_jwt :: "gcp_crates \<Rightarrow> bytes \<Rightarrow> string + parsed_jwt" where
  "parse_jwt g token =
     (if \<not> valid_utf8 token then Inl ''Invalid UTF-8 in JWT''
      else case split_on 46 token of
        [header_b64, payload_b64, signature_b64] \<Rightarrow>
          bind_r (decode_base64url header_b64) (\<lambda>header_bytes.
          bind_r (ok_or ''Failed to parse JWT header'' (json_header g header_bytes)) (\<lambda>header.
          bind_r (decode_base64url payload_b64) (\<lambda>payload_bytes.
          bind_r (ok_or ''Failed to parse JWT claims'' (json_claims g payload_bytes)) (\<lambda>claims.
          bind_r (decode_base64url signature_b64) (\<lambda>signature.
          Inr \<lparr>pj_header = header, pj_claims = claims, pj_signature = signature,
               pj_signing_input = header_b64 @ [46] @ payload_b64\<rparr>)))))
      | _ \<Rightarrow> Inl ''JWT must have 3 parts'')"

definition extract_kid_from_jwt :: "gcp_crates \<Rightarrow> bytes \<Rightarrow> string + string" where
  "extract_kid_from_jwt g token =
     (if \<not> valid_utf8 token then Inl ''Invalid UTF-8 in JWT''
      else if 46 \<notin> set token then Inl ''Invalid JWT format''
      else bind_r (decode_base64url (takeWhile (\<lambda>b. b \<noteq> 46) token)) (\<lambda>header_bytes.
           ok_or ''Failed to parse JWT header'' (json_kid g header_bytes)))"

definition find_jwk_by_kid :: "jwk_key list \<Rightarrow> string \<Rightarrow> jwk_key option" where
  "find_jwk_by_kid keys kid = find (\<lambda>k. jk_kid k = kid) keys"

section \<open>Verification\<close>

datatype gcp_error =
    JwtParseError string
  | UnsupportedAlgorithm string
  | KeyNotFound string
  | InvalidKeyType string
  | KeyDecodeError string
  | RsaKeyError string
  | SignatureVerificationFailed string
  | InvalidIssuer string
  | InvalidSwname string
  | InvalidAudience string string
  | TokenExpired u64
  | TokenNotYetValid u64

record validation_result =
  vr_signing_key_id :: string
  vr_validity_window_start :: u64
  vr_validity_window_end :: u64
  vr_image_digest :: string
  vr_secboot :: bool
  vr_audience :: string
  vr_nonce :: "string option"
  vr_dbgstat :: string
  vr_hwmodel :: string

definition err_of :: "('a \<Rightarrow> 'e) \<Rightarrow> 'a option \<Rightarrow> 'e + unit" where
  "err_of f x = (case x of None \<Rightarrow> Inr () | Some a \<Rightarrow> Inl (f a))"

definition verify_rs256_signature :: "gcp_crates \<Rightarrow> parsed_jwt \<Rightarrow> jwk_key \<Rightarrow> gcp_error + unit" where
  "verify_rs256_signature g parsed jwk =
     (if jk_kty jwk \<noteq> ''RSA'' then Inl (InvalidKeyType (jk_kty jwk))
      else bind_r (map_err (\<lambda>_. KeyDecodeError ''modulus'') (decode_base64url (str_bytes (jk_n jwk)))) (\<lambda>n.
           bind_r (map_err (\<lambda>_. KeyDecodeError ''exponent'') (decode_base64url (str_bytes (jk_e jwk)))) (\<lambda>e.
           bind_r (err_of RsaKeyError (rsa_key_error g n e)) (\<lambda>_.
           bind_r (err_of SignatureVerificationFailed (rsa_sig_error g (pj_signature parsed))) (\<lambda>_.
           err_of SignatureVerificationFailed (rsa_verify_error g n e (pj_signing_input parsed) (pj_signature parsed)))))))"

definition issuer :: string where
  "issuer = ''https://confidentialcomputing.googleapis.com''"

definition check_claims :: "gcp_cs_claims \<Rightarrow> string option \<Rightarrow> u64 option \<Rightarrow> gcp_error + unit" where
  "check_claims c expected_audience current_time =
     (if gc_iss c \<noteq> issuer then Inl (InvalidIssuer (gc_iss c))
      else bind_r (case gc_swname c of None \<Rightarrow> Inr ()
                   | Some swname \<Rightarrow> if swname \<noteq> ''CONFIDENTIAL_SPACE'' then Inl (InvalidSwname swname) else Inr ()) (\<lambda>_.
           bind_r (case expected_audience of None \<Rightarrow> Inr ()
                   | Some aud \<Rightarrow> if gc_aud c \<noteq> aud then Inl (InvalidAudience aud (gc_aud c)) else Inr ()) (\<lambda>_.
           case current_time of None \<Rightarrow> Inr ()
           | Some now \<Rightarrow> if gc_exp c \<le> now then Inl (TokenExpired (gc_exp c))
                         else if 0 < gc_nbf c \<and> now < gc_nbf c then Inl (TokenNotYetValid (gc_nbf c)) else Inr ())))"

definition unwrap_or_default :: "string option \<Rightarrow> string" where
  "unwrap_or_default s = (case s of None \<Rightarrow> [] | Some t \<Rightarrow> t)"

definition verify_attestation :: "gcp_crates \<Rightarrow> bytes \<Rightarrow> jwk_key \<Rightarrow> string option \<Rightarrow> u64 option
  \<Rightarrow> gcp_error + validation_result" where
  "verify_attestation g token jwk expected_audience current_time =
     bind_r (map_err JwtParseError (parse_jwt g token)) (\<lambda>parsed.
     let header = pj_header parsed; claims = pj_claims parsed
     in if jh_alg header \<noteq> ''RS256'' then Inl (UnsupportedAlgorithm (jh_alg header))
        else if jh_kid header \<noteq> jk_kid jwk then Inl (KeyNotFound (jh_kid header))
        else bind_r (verify_rs256_signature g parsed jwk) (\<lambda>_.
             bind_r (check_claims claims expected_audience current_time) (\<lambda>_.
             Inr \<lparr>vr_signing_key_id = jh_kid header, vr_validity_window_start = gc_iat claims,
                  vr_validity_window_end = gc_exp claims,
                  vr_image_digest = unwrap_or_default (claims_image_digest claims), vr_secboot = gc_secboot claims,
                  vr_audience = gc_aud claims, vr_nonce = gc_eat_nonce claims,
                  vr_dbgstat = unwrap_or_default (gc_dbgstat claims), vr_hwmodel = unwrap_or_default (gc_hwmodel claims)\<rparr>)))"

section \<open>The base64url encoding\<close>

text \<open>RFC 4648, section 5, without padding: the reference for the decoder.\<close>

definition alphabet :: "u8 list" where
  "alphabet = map of_nat ([65 ..< 91] @ [97 ..< 123] @ [48 ..< 58] @ [45, 95])"

definition sextet :: "u8 \<Rightarrow> u8" where
  "sextet v = alphabet ! unat v"

fun base64url_encode :: "bytes \<Rightarrow> bytes" where
  "base64url_encode [] = []"
| "base64url_encode [x] = [sextet (drop_bit 2 x), sextet (push_bit 4 (take_bit 2 x))]"
| "base64url_encode [x, y] =
     [sextet (drop_bit 2 x), sextet (or (push_bit 4 (take_bit 2 x)) (drop_bit 4 y)), sextet (push_bit 2 (take_bit 4 y))]"
| "base64url_encode (x # y # z # rest) =
     [sextet (drop_bit 2 x), sextet (or (push_bit 4 (take_bit 2 x)) (drop_bit 4 y)),
      sextet (or (push_bit 2 (take_bit 4 y)) (drop_bit 6 z)), sextet (take_bit 6 z)] @ base64url_encode rest"

lemma sextet_table: "list_all (\<lambda>v. let c = url_to_standard (sextet (of_nat v)) in table_value c = int v \<and> c \<noteq> 61) [0 ..< 64]"
  by code_simp

lemma sextet_value:
  assumes "v < 64"
  shows "table_value (url_to_standard (sextet v)) = uint v" and "url_to_standard (sextet v) \<noteq> 61"
proof -
  have "unat v < 64" using assms by (simp add: word_less_nat_alt)
  then have "unat v \<in> set [0 ..< 64]" by simp
  with sextet_table have "table_value (url_to_standard (sextet (of_nat (unat v)))) = int (unat v)
      \<and> url_to_standard (sextet (of_nat (unat v))) \<noteq> 61"
    unfolding list_all_iff Let_def by blast
  then show "table_value (url_to_standard (sextet v)) = uint v" "url_to_standard (sextet v) \<noteq> 61" by simp_all
qed

lemma byte_eqI:
  assumes "bit a 0 = bit b 0" "bit a 1 = bit b 1" "bit a 2 = bit b 2" "bit a 3 = bit b 3"
    "bit a 4 = bit b 4" "bit a 5 = bit b 5" "bit a 6 = bit b 6" "bit a 7 = bit b 7"
  shows "a = (b :: u8)"
proof (rule bit_word_eqI)
  fix n assume "n < LENGTH(8)"
  then have "n \<in> {0, 1, 2, 3, 4, 5, 6, 7}" by auto
  with assms show "bit a n = bit b n" by auto
qed

lemma byte_bits [simp]: "\<not> bit (x :: u8) 8" "\<not> bit (x :: u8) 9" "\<not> bit (x :: u8) 10" "\<not> bit (x :: u8) 11"
    "\<not> bit (x :: u8) 12" "\<not> bit (x :: u8) 13"
  by (auto dest: bit_imp_le_length)

lemma below_64: "\<not> bit v 6 \<Longrightarrow> \<not> bit v 7 \<Longrightarrow> v < (64 :: u8)"
proof -
  assume "\<not> bit v 6" "\<not> bit v 7"
  then have "v = and v 63" by (intro byte_eqI) (simp_all add: bit_simps)
  also have "\<dots> \<le> 63" by (rule word_and_le1)
  finally show ?thesis by unat_arith
qed

lemma sextets_below:
  "drop_bit 2 x < (64 :: u8)" "push_bit 4 (take_bit 2 x) < (64 :: u8)" "or (push_bit 4 (take_bit 2 x)) (drop_bit 4 y) < (64 :: u8)"
  "push_bit 2 (take_bit 4 y) < (64 :: u8)" "or (push_bit 2 (take_bit 4 y)) (drop_bit 6 z) < (64 :: u8)" "take_bit 6 z < (64 :: u8)"
  by (rule below_64; simp add: bit_simps)+

lemma sextets_join:
  "or (push_bit 2 (drop_bit 2 x)) (drop_bit 4 (push_bit 4 (take_bit 2 x))) = (x :: u8)"
  "or (push_bit 2 (drop_bit 2 x)) (drop_bit 4 (or (push_bit 4 (take_bit 2 x)) (drop_bit 4 y))) = (x :: u8)"
  "or (push_bit 4 (or (push_bit 4 (take_bit 2 x)) (drop_bit 4 y))) (drop_bit 2 (push_bit 2 (take_bit 4 y))) = (y :: u8)"
  "or (push_bit 4 (or (push_bit 4 (take_bit 2 x)) (drop_bit 4 y))) (drop_bit 2 (or (push_bit 2 (take_bit 4 y)) (drop_bit 6 z))) = (y :: u8)"
  "or (push_bit 6 (or (push_bit 2 (take_bit 4 y)) (drop_bit 6 z))) (take_bit 6 z) = (z :: u8)"
  by (rule byte_eqI; simp add: bit_simps)+

lemma as_u8_uint [simp]: "as_u8 (uint v) = v"
  by (simp add: as_u8_def)

text \<open>One group of four characters, with no, one and two padding characters.\<close>

lemma decode_quad:
  assumes "a < 64" "b < 64" "c < 64" "d < 64"
  shows "decode_quads (map url_to_standard [sextet a, sextet b, sextet c, sextet d] @ rest) =
    bind_r (decode_quads rest) (\<lambda>r. Inr (or (push_bit 2 a) (drop_bit 4 b) # or (push_bit 4 b) (drop_bit 2 c)
      # or (push_bit 6 c) d # r))"
  using assms by (simp add: sextet_value Let_def)

lemma decode_quad1:
  assumes "a < 64" "b < 64" "c < 64"
  shows "decode_quads (map url_to_standard [sextet a, sextet b, sextet c] @ [61]) =
    Inr [or (push_bit 2 a) (drop_bit 4 b), or (push_bit 4 b) (drop_bit 2 c)]"
  using assms by (simp add: sextet_value Let_def)

lemma decode_quad2:
  assumes "a < 64" "b < 64"
  shows "decode_quads (map url_to_standard [sextet a, sextet b] @ [61, 61]) = Inr [or (push_bit 2 a) (drop_bit 4 b)]"
  using assms by (simp add: sextet_value Let_def)

text \<open>The padding the decoder appends.\<close>

definition padding :: "bytes \<Rightarrow> bytes" where
  "padding cs = (if length cs mod 4 = 2 then [61, 61] else if length cs mod 4 = 3 then [61] else [])"

lemma padding_quad: "padding ([a, b, c, d] @ cs) = padding cs"
proof -
  have "length ([a, b, c, d] @ cs) mod 4 = length cs mod 4" using mod_add_self1 [of 4 "length cs"] by simp
  then show ?thesis by (simp only: padding_def)
qed

lemma padded_length: "length cs mod 4 \<noteq> 1 \<Longrightarrow> length (cs @ padding cs) mod 4 = 0"
proof -
  assume "length cs mod 4 \<noteq> 1"
  moreover have "length cs mod 4 < 4" by simp
  ultimately consider "length cs mod 4 = 0" | "length cs mod 4 = 2" | "length cs mod 4 = 3" by linarith
  then show ?thesis by cases (simp_all add: padding_def, presburger+)
qed

lemma length_encode_mod: "length (base64url_encode bs) mod 4 \<noteq> 1"
proof (induction bs rule: base64url_encode.induct)
  case (4 x y z rest)
  moreover have "length (base64url_encode (x # y # z # rest)) mod 4 = length (base64url_encode rest) mod 4"
    using mod_add_self1 [of 4 "length (base64url_encode rest)"] by simp
  ultimately show ?case by simp
qed simp_all

lemma decode_quads_encode:
  "decode_quads (map url_to_standard (base64url_encode bs) @ padding (base64url_encode bs)) = Inr bs"
proof (induction bs rule: base64url_encode.induct)
  case (2 x)
  show ?case
    unfolding base64url_encode.simps padding_def
    using decode_quad2 [OF sextets_below(1) [of x] sextets_below(2) [of x]] sextets_join(1) [of x] by simp
next
  case (3 x y)
  show ?case
    unfolding base64url_encode.simps padding_def
    using decode_quad1 [OF sextets_below(1) [of x] sextets_below(3) [of x y] sextets_below(4) [of y]]
      sextets_join(2) [of x y] sextets_join(3) [of x y] by simp
next
  case (4 x y z rest)
  show ?case
    unfolding base64url_encode.simps padding_quad map_append append_assoc
      decode_quad [OF sextets_below(1) [of x] sextets_below(3) [of x y] sextets_below(5) [of y z] sextets_below(6) [of z]] 4
      sextets_join bind_r_Inr ..
qed (simp add: padding_def)

section \<open>What the verifier accepts\<close>

lemma decode_base64url_padding:
  "decode_base64url cs = decode_base64_standard (map url_to_standard cs @ padding cs)"
  by (simp add: decode_base64url_def padding_def Let_def)

lemma decode_encode: "decode_base64url (base64url_encode bs) = Inr bs"
proof -
  have "length (map url_to_standard (base64url_encode bs) @ padding (base64url_encode bs)) mod 4 = 0"
    using padded_length [OF length_encode_mod] by simp
  then show ?thesis
    using decode_quads_encode by (simp add: decode_base64url_padding decode_base64_standard_def)
qed

lemma alphabet_ascii: "list_all (\<lambda>c. c < 128 \<and> c \<noteq> 46) alphabet"
  by code_simp

lemma sextet_ascii: "v < 64 \<Longrightarrow> sextet v < 128 \<and> sextet v \<noteq> 46"
proof -
  assume "v < 64"
  then have "unat v < length alphabet" by (simp add: alphabet_def word_less_nat_alt)
  then have "sextet v \<in> set alphabet" unfolding sextet_def by (rule nth_mem)
  with alphabet_ascii show ?thesis unfolding list_all_iff by blast
qed

lemma encode_ascii: "list_all (\<lambda>c. c < 128 \<and> c \<noteq> 46) (base64url_encode bs)"
  by (induction bs rule: base64url_encode.induct) (simp_all add: sextet_ascii sextets_below)

lemma valid_utf8_ascii: "list_all (\<lambda>c. c < 128) bs \<Longrightarrow> valid_utf8 bs"
  by (induction bs) simp_all

text \<open>C33: decoding inverts the unpadded base64url encoding of RFC 4648, for every byte string.\<close>

theorem base64url_roundtrip: "decode_base64url (base64url_encode bs) = Inr bs"
  by (rule decode_encode)

lemma err_of_Inr [result_simps]: "err_of f x = Inr u \<longleftrightarrow> x = None"
  by (auto simp: err_of_def split: option.splits)

text \<open>The signature of a parsed token verifies under the key, which is a readable RSA key.\<close>

definition signature_valid :: "gcp_crates \<Rightarrow> parsed_jwt \<Rightarrow> jwk_key \<Rightarrow> bool" where
  "signature_valid g p jwk \<longleftrightarrow> jk_kty jwk = ''RSA''
     \<and> (case (decode_base64url (str_bytes (jk_n jwk)), decode_base64url (str_bytes (jk_e jwk))) of
          (Inr n, Inr e) \<Rightarrow> rsa_key_error g n e = None \<and> rsa_sig_error g (pj_signature p) = None
             \<and> rsa_verify_error g n e (pj_signing_input p) (pj_signature p) = None
        | _ \<Rightarrow> False)"

lemma verify_rs256_iff: "verify_rs256_signature g p jwk = Inr u \<longleftrightarrow> signature_valid g p jwk"
  by (auto simp: verify_rs256_signature_def signature_valid_def result_simps split: sum.splits)

definition claims_valid :: "gcp_cs_claims \<Rightarrow> string option \<Rightarrow> u64 option \<Rightarrow> bool" where
  "claims_valid c expected_audience current_time \<longleftrightarrow>
     gc_iss c = ''https://confidentialcomputing.googleapis.com''
     \<and> gc_swname c \<in> {None, Some ''CONFIDENTIAL_SPACE''}
     \<and> expected_audience \<in> {None, Some (gc_aud c)}
     \<and> (case current_time of None \<Rightarrow> True | Some now \<Rightarrow> gc_nbf c \<le> now \<and> now < gc_exp c)"

lemma check_claims_iff: "check_claims c aud now = Inr u \<longleftrightarrow> claims_valid c aud now"
  by (auto simp: check_claims_def claims_valid_def issuer_def result_simps not_less not_le split: option.splits if_splits)

lemma parse_jwt_parts:
  assumes "parse_jwt g token = Inr p"
  shows "\<exists>h c s. split_on 46 token = [h, c, s] \<and> pj_signing_input p = h @ [46] @ c"
  using assms by (auto simp: parse_jwt_def result_simps split: if_splits list.splits)

lemma str_bytes_append: "str_bytes (a @ b) = str_bytes a @ str_bytes b"
  by (simp add: str_bytes_def)


end
