(* ===== verification/Attestation.thy ===== *)
theory Attestation
  imports Gcp_Attestation
begin

text \<open>
  The sequencer's attestation check, \<open>crates/synddb-sequencer/src/attestation.rs\<close>: the errors, the key
  set downloaded from Google and cached for an hour (the location of the key set is cached for ever),
  and the verification of a token with the optional checks on the TEE claims. The network and the JSON
  forms of the two downloaded documents are the record \<open>jwks_source\<close>.
\<close>

section \<open>Attestation\<close>

datatype attestation_error =
    AttVerificationFailed string
  | AttInvalidFormat string
  | AttExpired
  | AttNotYetValid
  | AttInvalidIssuer string string
  | AttInvalidAudience string string
  | AttJwksFetchError string
  | AttNoMatchingKey string
  | AttSignatureError string
  | AttConfig string
  | AttSecureBootRequired
  | AttDebugModeEnabled
  | AttImageDigestMismatch string string

fun show_attestation_error :: "attestation_error \<Rightarrow> string" where
  "show_attestation_error (AttVerificationFailed e) = ''Token verification failed: '' @ e"
| "show_attestation_error (AttInvalidFormat e) = ''Invalid token format: '' @ e"
| "show_attestation_error AttExpired = ''Token expired''"
| "show_attestation_error AttNotYetValid = ''Token not yet valid''"
| "show_attestation_error (AttInvalidIssuer e a) = ''Invalid issuer: expected '' @ e @ '', got '' @ a"
| "show_attestation_error (AttInvalidAudience e a) = ''Invalid audience: expected '' @ e @ '', got '' @ a"
| "show_attestation_error (AttJwksFetchError e) = ''Failed to fetch JWKS: '' @ e"
| "show_attestation_error (AttNoMatchingKey k) = ''No matching key found in JWKS for kid: '' @ k"
| "show_attestation_error (AttSignatureError e) = ''Signature verification failed: '' @ e"
| "show_attestation_error (AttConfig e) = ''Configuration error: '' @ e"
| "show_attestation_error AttSecureBootRequired = ''Secure boot not enabled''"
| "show_attestation_error AttDebugModeEnabled = ''Debug mode is enabled (dbgstat != disabled)''"
| "show_attestation_error (AttImageDigestMismatch e a) = ''Image digest mismatch: expected '' @ e @ '', got '' @ a"

text \<open>The errors of the gcp-attestation crate and their conversion.\<close>

fun attestation_error_from :: "gcp_error \<Rightarrow> attestation_error" where
  "attestation_error_from (JwtParseError msg) = AttInvalidFormat msg"
| "attestation_error_from (UnsupportedAlgorithm alg) = AttInvalidFormat (''Unsupported algorithm: '' @ alg)"
| "attestation_error_from (KeyNotFound kid) = AttNoMatchingKey kid"
| "attestation_error_from (InvalidKeyType kty) = AttSignatureError (''Invalid key type: '' @ kty)"
| "attestation_error_from (KeyDecodeError msg) = AttSignatureError (''Key decode error: '' @ msg)"
| "attestation_error_from (RsaKeyError msg) = AttSignatureError (''RSA key error: '' @ msg)"
| "attestation_error_from (SignatureVerificationFailed msg) = AttSignatureError msg"
| "attestation_error_from (InvalidIssuer iss) = AttInvalidIssuer ''https://confidentialcomputing.googleapis.com'' iss"
| "attestation_error_from (InvalidSwname s) = AttVerificationFailed (''Invalid software name: '' @ s)"
| "attestation_error_from (InvalidAudience expected actual) = AttInvalidAudience expected actual"
| "attestation_error_from (TokenExpired _) = AttExpired"
| "attestation_error_from (TokenNotYetValid _) = AttNotYetValid"

record attestation_config =
  ac_expected_audience :: string
  ac_verify_tee_claims :: bool
  ac_expected_image_digest :: "string option"

record attestation_claims =
  cl_iss :: string
  cl_sub :: string
  cl_aud :: string
  cl_exp :: u64
  cl_iat :: u64
  cl_secboot :: bool
  cl_dbgstat :: "string option"
  cl_hwmodel :: "string option"
  cl_image_digest :: "string option"

definition none_if_empty :: "string \<Rightarrow> string option" where
  "none_if_empty s = (if s = [] then None else Some s)"

definition attestation_claims_from :: "validation_result \<Rightarrow> attestation_claims" where
  "attestation_claims_from r =
     \<lparr>cl_iss = ''https://confidentialcomputing.googleapis.com'', cl_sub = [], cl_aud = vr_audience r,
      cl_exp = vr_validity_window_end r, cl_iat = vr_validity_window_start r, cl_secboot = vr_secboot r,
      cl_dbgstat = none_if_empty (vr_dbgstat r), cl_hwmodel = none_if_empty (vr_hwmodel r),
      cl_image_digest = none_if_empty (vr_image_digest r)\<rparr>"

text \<open>
  The network: the answer to a GET request, either an error of the connection or status code, its
  text and the body; and the JSON forms of the discovery document and of the key set.\<close>

record jwks_source =
  js_get :: "string \<Rightarrow> string + nat \<times> string \<times> bytes"
  js_discovery :: "bytes \<Rightarrow> string + string"
  js_jwks :: "bytes \<Rightarrow> string + jwk_key list"

record attestation_verifier =
  av_config :: attestation_config
  av_jwks_cache :: "(jwk_key list \<times> nat) option"
  av_jwks_uri_cache :: "string option"

definition new_attestation_verifier :: "attestation_config \<Rightarrow> attestation_verifier" where
  "new_attestation_verifier config = \<lparr>av_config = config, av_jwks_cache = None, av_jwks_uri_cache = None\<rparr>"

definition GOOGLE_OIDC_DISCOVERY_URL :: string where
  "GOOGLE_OIDC_DISCOVERY_URL = ''https://confidentialcomputing.googleapis.com/.well-known/openid-configuration''"

definition JWKS_CACHE_DURATION :: nat where "JWKS_CACHE_DURATION = 3600 * 1000"

definition is_success :: "nat \<Rightarrow> bool" where
  "is_success status \<longleftrightarrow> 200 \<le> status \<and> status < 300"

definition get_jwks_uri :: "jwks_source \<Rightarrow> attestation_verifier \<Rightarrow> attestation_verifier \<times> (attestation_error + string)" where
  "get_jwks_uri src av =
     (case av_jwks_uri_cache av of
        Some uri \<Rightarrow> (av, Inr uri)
      | None \<Rightarrow>
         (case js_get src GOOGLE_OIDC_DISCOVERY_URL of
            Inl e \<Rightarrow> (av, Inl (AttJwksFetchError (''Discovery request failed: '' @ e)))
          | Inr (status, status_text, body) \<Rightarrow>
              if \<not> is_success status
              then (av, Inl (AttJwksFetchError (''Discovery endpoint returned '' @ status_text)))
              else (case js_discovery src body of
                      Inl e \<Rightarrow> (av, Inl (AttJwksFetchError (''Failed to parse discovery document: '' @ e)))
                    | Inr uri \<Rightarrow> (av\<lparr>av_jwks_uri_cache := Some uri\<rparr>, Inr uri))))"

definition fetch_jwks :: "jwks_source \<Rightarrow> attestation_verifier
  \<Rightarrow> attestation_verifier \<times> (attestation_error + jwk_key list)" where
  "fetch_jwks src av =
     (case get_jwks_uri src av of
        (av', Inl e) \<Rightarrow> (av', Inl e)
      | (av', Inr uri) \<Rightarrow>
         (av', (case js_get src uri of
            Inl e \<Rightarrow> Inl (AttJwksFetchError (''HTTP request failed: '' @ e))
          | Inr (status, status_text, body) \<Rightarrow>
              if \<not> is_success status then Inl (AttJwksFetchError (''JWKS endpoint returned '' @ status_text))
              else map_err (\<lambda>e. AttJwksFetchError (''Failed to parse JWKS: '' @ e)) (js_jwks src body))))"

text \<open>Instants and durations are in milliseconds.\<close>

definition refresh_jwks :: "nat \<Rightarrow> jwks_source \<Rightarrow> attestation_verifier
  \<Rightarrow> attestation_verifier \<times> (attestation_error + jwk_key list)" where
  "refresh_jwks instant src av =
     (case fetch_jwks src av of
        (av', Inl e) \<Rightarrow> (av', Inl e)
      | (av', Inr jwks) \<Rightarrow> (av'\<lparr>av_jwks_cache := Some (jwks, instant)\<rparr>, Inr jwks))"

definition get_jwks :: "nat \<Rightarrow> jwks_source \<Rightarrow> attestation_verifier
  \<Rightarrow> attestation_verifier \<times> (attestation_error + jwk_key list)" where
  "get_jwks instant src av =
     (case av_jwks_cache av of
        Some (jwks, fetched_at) \<Rightarrow>
          if instant - fetched_at < JWKS_CACHE_DURATION then (av, Inr jwks) else refresh_jwks instant src av
      | None \<Rightarrow> refresh_jwks instant src av)"

definition check_tee_claims :: "attestation_config \<Rightarrow> validation_result \<Rightarrow> attestation_error + unit" where
  "check_tee_claims config r =
     (if \<not> ac_verify_tee_claims config then Inr ()
      else if \<not> vr_secboot r then Inl AttSecureBootRequired
      else if vr_dbgstat r \<noteq> [] \<and> vr_dbgstat r \<noteq> ''disabled'' then Inl AttDebugModeEnabled
      else (case ac_expected_image_digest config of
              None \<Rightarrow> Inr ()
            | Some expected \<Rightarrow>
                if vr_image_digest r \<noteq> [] \<and> vr_image_digest r \<noteq> expected
                then Inl (AttImageDigestMismatch expected (vr_image_digest r)) else Inr ()))"

definition verify_token :: "gcp_crates \<Rightarrow> u64 \<Rightarrow> nat \<Rightarrow> jwks_source \<Rightarrow> string \<Rightarrow> attestation_verifier
  \<Rightarrow> attestation_verifier \<times> (attestation_error + attestation_claims)" where
  "verify_token g now instant src token av =
     (case extract_kid_from_jwt g (str_bytes token) of
        Inl e \<Rightarrow> (av, Inl (AttInvalidFormat e))
      | Inr kid \<Rightarrow>
         (let (av', r) = get_jwks instant src av
          in (av', bind_r r (\<lambda>jwks.
               bind_r (ok_or (AttNoMatchingKey kid) (find_jwk_by_kid jwks kid)) (\<lambda>jwk.
               bind_r (map_err attestation_error_from
                         (verify_attestation g (str_bytes token) jwk (Some (ac_expected_audience (av_config av))) (Some now))) (\<lambda>result.
               bind_r (check_tee_claims (av_config av) result) (\<lambda>_.
               Inr (attestation_claims_from result))))))))"

section \<open>Accepted tokens\<close>

text \<open>
  An accepted token comes from a key of the key set, has a verified signature for the expected
  audience, and, when TEE claims are checked, secure boot and no debug mode; but a token without
  an image digest passes whatever digest is expected.\<close>

theorem verify_token_claims:
  "snd (verify_token g now instant src token av) = Inr claims \<longleftrightarrow>
     (\<exists>kid jwks jwk r. extract_kid_from_jwt g (str_bytes token) = Inr kid \<and> snd (get_jwks instant src av) = Inr jwks
        \<and> find_jwk_by_kid jwks kid = Some jwk
        \<and> verify_attestation g (str_bytes token) jwk (Some (ac_expected_audience (av_config av))) (Some now) = Inr r
        \<and> claims = attestation_claims_from r
        \<and> (ac_verify_tee_claims (av_config av) \<longrightarrow> vr_secboot r \<and> (vr_dbgstat r = [] \<or> vr_dbgstat r = ''disabled'')
             \<and> (\<forall>expected. ac_expected_image_digest (av_config av) = Some expected
                  \<longrightarrow> vr_image_digest r = [] \<or> vr_image_digest r = expected)))"
proof -
  have tee: "check_tee_claims c r = Inr () \<longleftrightarrow> (ac_verify_tee_claims c \<longrightarrow> vr_secboot r
       \<and> (vr_dbgstat r = [] \<or> vr_dbgstat r = ''disabled'')
       \<and> (\<forall>expected. ac_expected_image_digest c = Some expected \<longrightarrow> vr_image_digest r = [] \<or> vr_image_digest r = expected))" for c r
    by (auto simp: check_tee_claims_def split: option.splits)
  show ?thesis
    unfolding verify_token_def
    by (cases "extract_kid_from_jwt g (str_bytes token)")
       (auto simp: split_beta Let_def bind_r_eq_Inr map_err_eq_Inr ok_or_eq_Inr tee)
qed

text \<open>
  With TEE checks on, every token whose claims the gcp-attestation crate calls debug-disabled is
  rejected: the crate documents \<open>disabled-since-boot\<close> as the status of a production machine, the
  sequencer's check accepts only \<open>disabled\<close> or no status.\<close>

theorem production_token_rejected:
  assumes "ac_verify_tee_claims (av_config av)"
    and "parse_jwt g (str_bytes token) = Inr p" and "is_debug_disabled (pj_claims p)"
  shows "\<exists>e. snd (verify_token g now instant src token av) = Inl e"
proof -
  have tee: "\<exists>e. check_tee_claims (av_config av) r = Inl e" if "vr_dbgstat r = ''disabled-since-boot''" for r
    using assms(1) that by (auto simp: check_tee_claims_def)
  have vr: "vr_dbgstat r = ''disabled-since-boot''"
    if "verify_attestation g (str_bytes token) jwk aud t = Inr r" for r jwk aud t
    using that assms(2,3)
    by (auto simp: verify_attestation_def Let_def bind_r_eq_Inr is_debug_disabled_def unwrap_or_default_def split: if_splits)
  have "snd (verify_token g now instant src token av) \<noteq> Inr claims" for claims
    using tee vr
    by (auto simp: verify_token_def Let_def split_beta bind_r_eq_Inr map_err_eq_Inr ok_or_eq_Inr split: sum.splits)
      (metis sum.distinct(1))
  then show ?thesis by (cases "snd (verify_token g now instant src token av)") auto
qed

text \<open>A key set of one key, and a token of three parts each of one zero byte.\<close>

definition demo_jwk :: jwk_key where
  "demo_jwk = \<lparr>jk_alg = None, jk_kid = ''k'', jk_kty = ''RSA'', jk_n = ''AQAB'', jk_e = ''AQAB'', jk_use = None\<rparr>"

definition demo_jwks_source :: jwks_source where
  "demo_jwks_source = \<lparr>js_get = (\<lambda>_. Inr (200, ''200 OK'', [])), js_discovery = (\<lambda>_. Inr ''https://jwks''),
     js_jwks = (\<lambda>_. Inr [demo_jwk])\<rparr>"

definition demo_claims :: "string option \<Rightarrow> gcp_cs_claims" where
  "demo_claims dbgstat = \<lparr>gc_iss = issuer, gc_sub = [], gc_aud = ''seq'', gc_exp = 100, gc_iat = 0, gc_nbf = 0,
     gc_secboot = True, gc_hwmodel = None, gc_swname = Some ''CONFIDENTIAL_SPACE'', gc_dbgstat = dbgstat,
     gc_eat_nonce = None, gc_submods = None\<rparr>"

definition demo_gcp :: "string option \<Rightarrow> gcp_crates" where
  "demo_gcp dbgstat = \<lparr>json_header = (\<lambda>_. Some \<lparr>jh_alg = ''RS256'', jh_kid = ''k'', jh_typ = None\<rparr>),
     json_claims = (\<lambda>_. Some (demo_claims dbgstat)), json_kid = (\<lambda>_. Some ''k''),
     rsa_key_error = (\<lambda>_ _. None), rsa_sig_error = (\<lambda>_. None), rsa_verify_error = (\<lambda>_ _ _ _. None)\<rparr>"

definition demo_token :: string where
  "demo_token = ''AA.AA.AA''"

definition demo_attestation :: attestation_verifier where
  "demo_attestation = new_attestation_verifier \<lparr>ac_expected_audience = ''seq'', ac_verify_tee_claims = True,
     ac_expected_image_digest = Some ''sha256:aa''\<rparr>"

text \<open>A token that reports no image digest is accepted by a verifier that expects one.\<close>

theorem verify_token_claims_witness:
  "\<exists>claims. snd (verify_token (demo_gcp None) 5 0 demo_jwks_source demo_token demo_attestation) = Inr claims
     \<and> cl_aud claims = ''seq'' \<and> cl_image_digest claims = None"
proof -
  have "snd (verify_token (demo_gcp None) 5 0 demo_jwks_source demo_token demo_attestation) =
    Inr \<lparr>cl_iss = issuer, cl_sub = [], cl_aud = ''seq'', cl_exp = 100, cl_iat = 0, cl_secboot = True, cl_dbgstat = None,
         cl_hwmodel = None, cl_image_digest = None\<rparr>"
    by code_simp
  moreover from this have "\<exists>jwk r. verify_attestation (demo_gcp None) (str_bytes demo_token) jwk (Some ''seq'') (Some 5) = Inr r"
    unfolding verify_token_claims by (auto simp: demo_attestation_def new_attestation_verifier_def)
  ultimately show ?thesis by simp
qed

theorem production_token_rejected_witness:
  "\<exists>e. snd (verify_token (demo_gcp (Some ''disabled-since-boot'')) 5 0 demo_jwks_source demo_token demo_attestation) = Inl e"
proof (rule production_token_rejected)
  show "ac_verify_tee_claims (av_config demo_attestation)"
    by (simp add: demo_attestation_def new_attestation_verifier_def)
  show "parse_jwt (demo_gcp (Some ''disabled-since-boot'')) (str_bytes demo_token) =
    Inr \<lparr>pj_header = \<lparr>jh_alg = ''RS256'', jh_kid = ''k'', jh_typ = None\<rparr>,
         pj_claims = demo_claims (Some ''disabled-since-boot''), pj_signature = [0], pj_signing_input = [65, 65, 46, 65, 65]\<rparr>"
    by code_simp
  show "is_debug_disabled (pj_claims \<lparr>pj_header = \<lparr>jh_alg = ''RS256'', jh_kid = ''k'', jh_typ = None\<rparr>,
         pj_claims = demo_claims (Some ''disabled-since-boot''), pj_signature = [0], pj_signing_input = [65, 65, 46, 65, 65]\<rparr>)"
    by (simp add: is_debug_disabled_def demo_claims_def)
qed

end
