(* ===== verification/Crates.thy ===== *)
theory Crates
  imports Rust_Std
begin

text \<open>
  What the sources use of third-party crates. Their functions are the fields of the record
  \<open>ext\<close>, the argument of every definition that calls one: \<open>keccak256\<close> (alloy, sha3), SHA-256
  (sha2), the secp256k1 keys and signatures of k256 (types \<open>'vk\<close> and \<open>'sg\<close>), hex, coset,
  ciborium (a CBOR value, and the wire structure of a batch through serde) and zstd. The data
  structures of coset and ciborium are the parts that the sources build and read. No property of
  these functions is assumed here; theorems that need one name it.
\<close>

section \<open>The structures of coset and ciborium that the code builds and reads\<close>

datatype cbor_value =
    VInteger int
  | VBytes bytes
  | VText string
  | VArray "cbor_value list"
  | VMap "(cbor_value \<times> cbor_value) list"
  | VOther

datatype label = LInt int | LText string

datatype cose_alg = ES256K | OtherAlg

text \<open>\<open>hdr_other\<close> holds the standard fields of a header that the code never reads.\<close>

record cose_header =
  hdr_alg :: "cose_alg option"
  hdr_rest :: "(label \<times> cbor_value) list"
  hdr_other :: "(label \<times> cbor_value) list"

record protected_header =
  ph_original :: "bytes option"
  ph_header :: cose_header

record cose_sign1 =
  cs_protected :: protected_header
  cs_unprotected :: cose_header
  cs_payload :: "bytes option"
  cs_signature :: bytes

section \<open>The serialised form of a batch\<close>

record cbor_batch_wire =
  wire_version :: u8
  wire_start_sequence :: u64
  wire_end_sequence :: u64
  wire_created_at :: u64
  wire_content_hash :: bytes
  wire_messages :: "bytes list"
  wire_batch_signature :: bytes
  wire_pubkey :: bytes

section \<open>The external crates\<close>

record ('vk, 'sg) ext =
  keccak256 :: "bytes \<Rightarrow> bytes"
  sha256 :: "bytes \<Rightarrow> bytes"
  vk_from_sec1 :: "bytes \<Rightarrow> string + 'vk"
  vk_from_encoded_point :: "bytes \<Rightarrow> string + 'vk"
  vk_to_encoded :: "'vk \<Rightarrow> bytes"
  sig_from_slice :: "bytes \<Rightarrow> string + 'sg"
  sig_to_bytes :: "'sg \<Rightarrow> bytes"
  vk_verify_prehash :: "'vk \<Rightarrow> bytes \<Rightarrow> 'sg \<Rightarrow> bool"
  vk_verify_digest :: "'vk \<Rightarrow> bytes \<Rightarrow> 'sg \<Rightarrow> bool"
  hex_encode :: "bytes \<Rightarrow> string"
  hex_decode :: "string \<Rightarrow> string + bytes"
  cose_from_slice :: "bytes \<Rightarrow> string + cose_sign1"
  cose_to_vec :: "cose_sign1 \<Rightarrow> string + bytes"
  cose_tbs_data :: "cose_sign1 \<Rightarrow> bytes"
  cose_header_to_vec :: "cose_header \<Rightarrow> string + bytes"
  cbor_read :: "bytes \<Rightarrow> string + cbor_value"
  cbor_write :: "cbor_value \<Rightarrow> bytes"
  wire_write :: "cbor_batch_wire \<Rightarrow> string + bytes"
  wire_read :: "bytes \<Rightarrow> string + cbor_batch_wire"
  zstd_encode :: "bytes \<Rightarrow> string + bytes"
  zstd_decode :: "bytes \<Rightarrow> string + bytes"

end
