(* ===== verification/Cose.thy ===== *)
theory Cose
  imports Crates
begin

text \<open>
  Signed messages of the wire format, \<open>crates/synddb-shared/src/types/cbor/\<close>: \<open>error.rs\<close>,
  \<open>message.rs\<close>, \<open>verify.rs\<close> and \<open>cose_helpers.rs\<close>.

  A theorem that depends on the cryptographic or COSE crates names what it needs of them:
  \<open>ecdsa_codec_ok\<close> (encodings of keys and signatures are inverse and have their documented
  length) and \<open>cose_codec_ok\<close> (a serialised \<open>COSE_Sign1\<close> parses back, and its to-be-signed bytes
  do not depend on the signature).
\<close>

section \<open>Errors\<close>

datatype cbor_error =
    Cbor string
  | CoseErr string
  | SignatureVerification string
  | InvalidMessageType u8
  | MissingHeader string
  | Compression string
  | Signing string
  | InvalidBatch string

fun show_cbor_error :: "cbor_error \<Rightarrow> string" where
  "show_cbor_error (Cbor e) = ''CBOR error: '' @ e"
| "show_cbor_error (CoseErr e) = ''COSE error: '' @ e"
| "show_cbor_error (SignatureVerification e) = ''Signature verification failed: '' @ e"
| "show_cbor_error (InvalidMessageType t) = ''Invalid message type: '' @ show_u64 t"
| "show_cbor_error (MissingHeader e) = ''Missing header field: '' @ e"
| "show_cbor_error (Compression e) = ''Compression error: '' @ e"
| "show_cbor_error (Signing e) = ''Signing failed: '' @ e"
| "show_cbor_error (InvalidBatch e) = ''Invalid batch: '' @ e"

section \<open>Message types\<close>

datatype message_type = Changeset | Withdrawal | Snapshot

fun message_type_as_u8 :: "message_type \<Rightarrow> u8" where
  "message_type_as_u8 Changeset = 0"
| "message_type_as_u8 Withdrawal = 1"
| "message_type_as_u8 Snapshot = 2"

definition message_type_from_u8 :: "u8 \<Rightarrow> cbor_error + message_type" where
  "message_type_from_u8 v =
     (if v = 0 then Inr Changeset
      else if v = 1 then Inr Withdrawal
      else if v = 2 then Inr Snapshot
      else Inl (InvalidMessageType v))"

record parsed_cose_message =
  pm_sequence :: u64
  pm_timestamp :: u64
  pm_message_type :: message_type
  pm_payload :: bytes
  pm_signature :: bytes
  pm_pubkey :: bytes

text \<open>\<open>CborSignedMessage\<close> has one field, the raw \<open>COSE_Sign1\<close> bytes.\<close>

datatype cbor_signed_message = CborSignedMessage (as_bytes: bytes)

definition message_size :: "cbor_signed_message \<Rightarrow> nat" where
  "message_size m = length (as_bytes m)"

section \<open>Keys and signatures\<close>

definition verifying_key_from_bytes :: "('vk, 'sg) ext \<Rightarrow> bytes \<Rightarrow> cbor_error + 'vk" where
  "verifying_key_from_bytes x pubkey =
     map_err (\<lambda>e. SignatureVerification (''Invalid public key: '' @ e)) (vk_from_sec1 x (4 # pubkey))"

definition verifying_key_to_bytes :: "('vk, 'sg) ext \<Rightarrow> 'vk \<Rightarrow> bytes" where
  "verifying_key_to_bytes x key = take 64 (drop 1 (vk_to_encoded x key))"

definition verify_secp256k1 :: "('vk, 'sg) ext \<Rightarrow> bytes \<Rightarrow> 'sg \<Rightarrow> 'vk \<Rightarrow> cbor_error + unit" where
  "verify_secp256k1 x data signature key =
     (if vk_verify_digest x key data signature then Inr ()
      else Inl (SignatureVerification ''Signature verification failed''))"

definition signature_from_bytes :: "('vk, 'sg) ext \<Rightarrow> bytes \<Rightarrow> cbor_error + 'sg" where
  "signature_from_bytes x bs =
     map_err (\<lambda>e. SignatureVerification (''Invalid signature: '' @ e)) (sig_from_slice x bs)"

section \<open>Building and reading COSE_Sign1 structures\<close>

definition HEADER_SEQUENCE :: int where "HEADER_SEQUENCE = - 65537"
definition HEADER_TIMESTAMP :: int where "HEADER_TIMESTAMP = - 65538"
definition HEADER_MSG_TYPE :: int where "HEADER_MSG_TYPE = - 65539"

definition protected_of :: "u64 \<Rightarrow> u64 \<Rightarrow> message_type \<Rightarrow> cose_header" where
  "protected_of sequence timestamp mt =
     \<lparr>hdr_alg = Some ES256K,
      hdr_rest = [(LInt HEADER_SEQUENCE, VInteger (uint sequence)),
                  (LInt HEADER_TIMESTAMP, VInteger (uint timestamp)),
                  (LInt HEADER_MSG_TYPE, VInteger (uint (message_type_as_u8 mt)))],
      hdr_other = []\<rparr>"

definition unprotected_of :: "bytes \<Rightarrow> cose_header" where
  "unprotected_of pubkey_bytes =
     \<lparr>hdr_alg = None, hdr_rest = [(LText ''pubkey'', VBytes pubkey_bytes)], hdr_other = []\<rparr>"

definition cose_of :: "u64 \<Rightarrow> u64 \<Rightarrow> message_type \<Rightarrow> bytes \<Rightarrow> bytes \<Rightarrow> bytes \<Rightarrow> cose_sign1" where
  "cose_of sequence timestamp mt payload pubkey_bytes signature =
     \<lparr>cs_protected = \<lparr>ph_original = None, ph_header = protected_of sequence timestamp mt\<rparr>,
      cs_unprotected = unprotected_of pubkey_bytes, cs_payload = Some payload, cs_signature = signature\<rparr>"

definition build_cose_sign1 :: "('vk, 'sg) ext \<Rightarrow> u64 \<Rightarrow> u64 \<Rightarrow> message_type \<Rightarrow> bytes \<Rightarrow> 'vk
  \<Rightarrow> (bytes \<Rightarrow> cbor_error + 'sg) \<Rightarrow> cbor_error + bytes" where
  "build_cose_sign1 x sequence timestamp mt payload signer_pubkey sign_fn =
     (let pubkey_bytes = verifying_key_to_bytes x signer_pubkey;
          cose = cose_of sequence timestamp mt payload pubkey_bytes [];
          tbs = cose_tbs_data x cose
      in bind_r (sign_fn tbs) (\<lambda>signature.
           map_err CoseErr (cose_to_vec x (cose\<lparr>cs_signature := sig_to_bytes x signature\<rparr>))))"

text \<open>
  The scan of a header for an integer under a label. \<open>n as u64\<close> on an \<open>i128\<close> keeps the low 64
  bits; an entry with the label whose value is no integer is passed over.
\<close>

fun scan_u64 :: "int \<Rightarrow> (label \<times> cbor_value) list \<Rightarrow> u64 option" where
  "scan_u64 l [] = None"
| "scan_u64 l ((LInt k, VInteger n) # rest) = (if k = l then Some (word_of_int n) else scan_u64 l rest)"
| "scan_u64 l (_ # rest) = scan_u64 l rest"

definition extract_u64_from_header :: "cose_header \<Rightarrow> int \<Rightarrow> cbor_error + u64 option" where
  "extract_u64_from_header header l = Inr (scan_u64 l (hdr_rest header))"

fun scan_pubkey :: "(label \<times> cbor_value) list \<Rightarrow> cbor_error + bytes" where
  "scan_pubkey [] = Inl (MissingHeader ''pubkey'')"
| "scan_pubkey ((LText s, VBytes b) # rest) =
     (if s = ''pubkey''
      then if length b = 64 then Inr b
           else Inl (CoseErr (''Invalid public key length: expected 64, got '' @ show_nat (length b)))
      else scan_pubkey rest)"
| "scan_pubkey (_ # rest) = scan_pubkey rest"

definition extract_pubkey_bytes :: "cose_header \<Rightarrow> cbor_error + bytes" where
  "extract_pubkey_bytes header = scan_pubkey (hdr_rest header)"

definition extract_pubkey :: "('vk, 'sg) ext \<Rightarrow> cose_header \<Rightarrow> cbor_error + 'vk" where
  "extract_pubkey x header = bind_r (extract_pubkey_bytes header) (verifying_key_from_bytes x)"

definition signature_array :: "bytes \<Rightarrow> cbor_error + bytes" where
  "signature_array s =
     (if length s = 64 then Inr s
      else Inl (CoseErr (''Invalid signature length: '' @ show_nat (length s))))"

definition required_u64 :: "cose_header \<Rightarrow> int \<Rightarrow> string \<Rightarrow> cbor_error + u64" where
  "required_u64 header l name = bind_r (extract_u64_from_header header l) (ok_or (MissingHeader name))"

definition parse_cose_sign1 :: "('vk, 'sg) ext \<Rightarrow> bytes \<Rightarrow> cbor_error + parsed_cose_message" where
  "parse_cose_sign1 x bs =
     bind_r (map_err CoseErr (cose_from_slice x bs)) (\<lambda>cose.
       let protected = ph_header (cs_protected cose)
       in bind_r (required_u64 protected HEADER_SEQUENCE ''sequence'') (\<lambda>sequence.
          bind_r (required_u64 protected HEADER_TIMESTAMP ''timestamp'') (\<lambda>timestamp.
          bind_r (required_u64 protected HEADER_MSG_TYPE ''message_type'') (\<lambda>msg_type.
          bind_r (message_type_from_u8 (ucast msg_type)) (\<lambda>mt.
          bind_r (extract_pubkey_bytes (cs_unprotected cose)) (\<lambda>pubkey.
          bind_r (signature_array (cs_signature cose)) (\<lambda>signature.
          Inr \<lparr>pm_sequence = sequence, pm_timestamp = timestamp, pm_message_type = mt,
               pm_payload = (case cs_payload cose of None \<Rightarrow> [] | Some p \<Rightarrow> p),
               pm_signature = signature, pm_pubkey = pubkey\<rparr>)))))))"

definition verify_and_parse_cose_sign1 :: "('vk, 'sg) ext \<Rightarrow> bytes \<Rightarrow> 'vk \<Rightarrow> cbor_error + parsed_cose_message" where
  "verify_and_parse_cose_sign1 x bs expected_pubkey =
     bind_r (map_err CoseErr (cose_from_slice x bs)) (\<lambda>cose.
     bind_r (extract_pubkey x (cs_unprotected cose)) (\<lambda>pubkey.
       (let expected_bytes = verifying_key_to_bytes x expected_pubkey;
            actual_bytes = verifying_key_to_bytes x pubkey
        in if actual_bytes \<noteq> expected_bytes
           then Inl (SignatureVerification (''Public key mismatch: expected 0x'' @ hex_encode x expected_bytes
                  @ '', got 0x'' @ hex_encode x actual_bytes))
           else bind_r (signature_array (cs_signature cose)) (\<lambda>signature_bytes.
                bind_r (signature_from_bytes x signature_bytes) (\<lambda>signature.
                bind_r (verify_secp256k1 x (cose_tbs_data x cose) signature expected_pubkey) (\<lambda>_.
                parse_cose_sign1 x bs))))))"

definition extract_sequence :: "('vk, 'sg) ext \<Rightarrow> bytes \<Rightarrow> cbor_error + u64" where
  "extract_sequence x bs =
     bind_r (map_err CoseErr (cose_from_slice x bs)) (\<lambda>cose.
       required_u64 (ph_header (cs_protected cose)) HEADER_SEQUENCE ''sequence'')"

definition extract_protected_header :: "('vk, 'sg) ext \<Rightarrow> bytes \<Rightarrow> cbor_error + bytes" where
  "extract_protected_header x bs =
     bind_r (map_err CoseErr (cose_from_slice x bs)) (\<lambda>cose.
       map_err (\<lambda>e. CoseErr (''Failed to serialize protected header: '' @ e))
         (cose_header_to_vec x (ph_header (cs_protected cose))))"

section \<open>Operations of CborSignedMessage\<close>

definition new_signed_message :: "('vk, 'sg) ext \<Rightarrow> u64 \<Rightarrow> u64 \<Rightarrow> message_type \<Rightarrow> bytes \<Rightarrow> 'vk
  \<Rightarrow> (bytes \<Rightarrow> cbor_error + 'sg) \<Rightarrow> cbor_error + cbor_signed_message" where
  "new_signed_message x sequence timestamp mt payload signer_pubkey sign_fn =
     bind_r (build_cose_sign1 x sequence timestamp mt payload signer_pubkey sign_fn)
       (\<lambda>bs. Inr (CborSignedMessage bs))"

definition verify_and_parse :: "('vk, 'sg) ext \<Rightarrow> cbor_signed_message \<Rightarrow> 'vk \<Rightarrow> cbor_error + parsed_cose_message" where
  "verify_and_parse x m = verify_and_parse_cose_sign1 x (as_bytes m)"

definition signer_pubkey_bytes :: "('vk, 'sg) ext \<Rightarrow> cbor_signed_message \<Rightarrow> cbor_error + bytes" where
  "signer_pubkey_bytes x m =
     bind_r (parse_cose_sign1 x (as_bytes m)) (\<lambda>parsed.
     bind_r (verifying_key_from_bytes x (pm_pubkey parsed)) (\<lambda>key.
     Inr (verifying_key_to_bytes x key)))"

definition parse_without_verify :: "('vk, 'sg) ext \<Rightarrow> cbor_signed_message \<Rightarrow> cbor_error + parsed_cose_message" where
  "parse_without_verify x m = parse_cose_sign1 x (as_bytes m)"

definition message_sequence :: "('vk, 'sg) ext \<Rightarrow> cbor_signed_message \<Rightarrow> cbor_error + u64" where
  "message_sequence x m = extract_sequence x (as_bytes m)"

definition message_protected_header :: "('vk, 'sg) ext \<Rightarrow> cbor_signed_message \<Rightarrow> cbor_error + bytes" where
  "message_protected_header x m = extract_protected_header x (as_bytes m)"

section \<open>What the theorems need of the external crates\<close>

definition ecdsa_codec_ok :: "('vk, 'sg) ext \<Rightarrow> bool" where
  "ecdsa_codec_ok x \<longleftrightarrow>
     (\<forall>k. length (vk_to_encoded x k) = 65 \<and> vk_to_encoded x k ! 0 = 4
        \<and> vk_from_sec1 x (vk_to_encoded x k) = Inr k
        \<and> vk_from_encoded_point x (vk_to_encoded x k) = Inr k)
     \<and> (\<forall>s. length (sig_to_bytes x s) = 64 \<and> sig_from_slice x (sig_to_bytes x s) = Inr s)"

definition parsed_back :: "cose_sign1 \<Rightarrow> bytes option \<Rightarrow> cose_sign1" where
  "parsed_back c original = c\<lparr>cs_protected := (cs_protected c)\<lparr>ph_original := original\<rparr>\<rparr>"

definition cose_codec_ok :: "('vk, 'sg) ext \<Rightarrow> bool" where
  "cose_codec_ok x \<longleftrightarrow>
     (\<forall>s t mt payload p sg b. let c = cose_of s t mt payload p sg in
        cose_tbs_data x c = cose_tbs_data x (cose_of s t mt payload p [])
        \<and> (cose_to_vec x c = Inr b \<longrightarrow>
             (\<exists>original. cose_from_slice x b = Inr (parsed_back c original)
                \<and> cose_tbs_data x (parsed_back c original) = cose_tbs_data x c)))"

text \<open>The signing callback returns only signatures that verify under the key.\<close>

definition signer_ok :: "('vk, 'sg) ext \<Rightarrow> 'vk \<Rightarrow> (bytes \<Rightarrow> cbor_error + 'sg) \<Rightarrow> bool" where
  "signer_ok x key sign_fn \<longleftrightarrow> (\<forall>d sg. sign_fn d = Inr sg \<longrightarrow> vk_verify_digest x key d sg)"

section \<open>Lemmas\<close>

lemma signer_okD: "signer_ok x key sign_fn \<Longrightarrow> sign_fn d = Inr sg \<Longrightarrow> vk_verify_digest x key d sg"
  by (simp add: signer_ok_def)

lemma message_type_roundtrip [simp]: "message_type_from_u8 (message_type_as_u8 mt) = Inr mt"
  by (cases mt) (simp_all add: message_type_from_u8_def)

lemma message_type_ucast [simp]:
  "message_type_from_u8 (ucast (ucast (message_type_as_u8 mt) :: u64)) = Inr mt"
  by (cases mt) (simp_all add: message_type_from_u8_def)

lemma verifying_key_to_bytes_length: "ecdsa_codec_ok x \<Longrightarrow> length (verifying_key_to_bytes x k) = 64"
  by (simp add: ecdsa_codec_ok_def verifying_key_to_bytes_def)

lemma verifying_key_roundtrip:
  assumes "ecdsa_codec_ok x"
  shows "verifying_key_from_bytes x (verifying_key_to_bytes x k) = Inr k"
proof -
  have "4 # take 64 (drop 1 (vk_to_encoded x k)) = vk_to_encoded x k"
    using assms by (cases "vk_to_encoded x k") (auto simp: ecdsa_codec_ok_def dest!: spec [of _ k])
  with assms show ?thesis
    by (simp add: verifying_key_from_bytes_def verifying_key_to_bytes_def ecdsa_codec_ok_def)
qed

lemma encoded_point_roundtrip:
  assumes "ecdsa_codec_ok x"
  shows "vk_from_encoded_point x (4 # verifying_key_to_bytes x k) = Inr k"
proof -
  have "4 # verifying_key_to_bytes x k = vk_to_encoded x k"
    using assms by (cases "vk_to_encoded x k")
      (auto simp: ecdsa_codec_ok_def verifying_key_to_bytes_def dest!: spec [of _ k])
  with assms show ?thesis by (simp add: ecdsa_codec_ok_def)
qed

lemma signature_roundtrip: "ecdsa_codec_ok x \<Longrightarrow> signature_from_bytes x (sig_to_bytes x s) = Inr s"
  by (simp add: ecdsa_codec_ok_def signature_from_bytes_def)

lemma signature_array_ok: "ecdsa_codec_ok x \<Longrightarrow> signature_array (sig_to_bytes x s) = Inr (sig_to_bytes x s)"
  by (simp add: ecdsa_codec_ok_def signature_array_def)

lemmas header_labels = HEADER_SEQUENCE_def HEADER_TIMESTAMP_def HEADER_MSG_TYPE_def

lemma required_protected_of [simp]:
  "required_u64 (protected_of s t mt) HEADER_SEQUENCE n = Inr s"
  "required_u64 (protected_of s t mt) HEADER_TIMESTAMP n = Inr t"
  "required_u64 (protected_of s t mt) HEADER_MSG_TYPE n = Inr (word_of_int (uint (message_type_as_u8 mt)))"
  by (simp_all add: required_u64_def extract_u64_from_header_def protected_of_def header_labels)

lemma extract_pubkey_unprotected_of [simp]:
  "length p = 64 \<Longrightarrow> extract_pubkey_bytes (unprotected_of p) = Inr p"
  by (simp add: extract_pubkey_bytes_def unprotected_of_def)

lemma parsed_back_simps [simp]:
  "ph_header (cs_protected (parsed_back c orig)) = ph_header (cs_protected c)"
  "cs_unprotected (parsed_back c orig) = cs_unprotected c"
  "cs_payload (parsed_back c orig) = cs_payload c"
  "cs_signature (parsed_back c orig) = cs_signature c"
  by (simp_all add: parsed_back_def)

lemma cose_of_simps [simp]:
  "ph_header (cs_protected (cose_of s t mt payload p sg)) = protected_of s t mt"
  "cs_unprotected (cose_of s t mt payload p sg) = unprotected_of p"
  "cs_payload (cose_of s t mt payload p sg) = Some payload"
  "cs_signature (cose_of s t mt payload p sg) = sg"
  "(cose_of s t mt payload p sg)\<lparr>cs_signature := sg'\<rparr> = cose_of s t mt payload p sg'"
  by (simp_all add: cose_of_def)

lemma cose_codec_okD:
  assumes "cose_codec_ok x" and "cose_to_vec x (cose_of s t mt payload p sg) = Inr b"
  obtains original where "cose_from_slice x b = Inr (parsed_back (cose_of s t mt payload p sg) original)"
    and "cose_tbs_data x (parsed_back (cose_of s t mt payload p sg) original)
       = cose_tbs_data x (cose_of s t mt payload p [])"
proof -
  from assms(1) have "let c = cose_of s t mt payload p sg in
        cose_tbs_data x c = cose_tbs_data x (cose_of s t mt payload p [])
        \<and> (cose_to_vec x c = Inr b \<longrightarrow>
             (\<exists>original. cose_from_slice x b = Inr (parsed_back c original)
                \<and> cose_tbs_data x (parsed_back c original) = cose_tbs_data x c))"
    unfolding cose_codec_ok_def by blast
  with assms(2) that show thesis by (auto simp: Let_def)
qed

text \<open>A successful build is the serialisation of the signed structure.\<close>

lemma build_cose_sign1_Inr:
  "build_cose_sign1 x s t mt payload key sign_fn = Inr b \<longleftrightarrow>
     (\<exists>sg. sign_fn (cose_tbs_data x (cose_of s t mt payload (verifying_key_to_bytes x key) [])) = Inr sg
        \<and> cose_to_vec x (cose_of s t mt payload (verifying_key_to_bytes x key) (sig_to_bytes x sg)) = Inr b)"
  by (simp add: build_cose_sign1_def Let_def bind_r_eq_Inr map_err_eq_Inr)

definition parsed_of :: "u64 \<Rightarrow> u64 \<Rightarrow> message_type \<Rightarrow> bytes \<Rightarrow> bytes \<Rightarrow> bytes \<Rightarrow> parsed_cose_message" where
  "parsed_of s t mt payload p sg =
     \<lparr>pm_sequence = s, pm_timestamp = t, pm_message_type = mt, pm_payload = payload,
      pm_signature = sg, pm_pubkey = p\<rparr>"

lemma parse_parsed_back:
  assumes "cose_from_slice x b = Inr (parsed_back (cose_of s t mt payload p sg) original)"
    and "length p = 64" and "length sg = 64"
  shows "parse_cose_sign1 x b = Inr (parsed_of s t mt payload p sg)"
  using assms by (simp add: parse_cose_sign1_def Let_def signature_array_def parsed_of_def)

lemma verify_and_parse_Inr:
  "verify_and_parse_cose_sign1 x bs key = Inr m \<longleftrightarrow>
     (\<exists>cose pubkey sg. cose_from_slice x bs = Inr cose \<and> extract_pubkey x (cs_unprotected cose) = Inr pubkey
        \<and> verifying_key_to_bytes x pubkey = verifying_key_to_bytes x key
        \<and> signature_array (cs_signature cose) = Inr (cs_signature cose)
        \<and> signature_from_bytes x (cs_signature cose) = Inr sg
        \<and> vk_verify_digest x key (cose_tbs_data x cose) sg \<and> parse_cose_sign1 x bs = Inr m)"
  by (auto simp: verify_and_parse_cose_sign1_def Let_def bind_r_eq_Inr map_err_eq_Inr
      verify_secp256k1_def signature_array_def split: if_splits)

text \<open>What signing and serialising a message gives, once the signer's signatures verify.\<close>

lemma build_then_verify_aux:
  assumes "ecdsa_codec_ok x" and "cose_codec_ok x"
    and signer: "signer_ok x key sign_fn"
    and built: "build_cose_sign1 x s t mt payload key sign_fn = Inr b"
  shows "\<exists>sg. verify_and_parse_cose_sign1 x b key
           = Inr (parsed_of s t mt payload (verifying_key_to_bytes x key) (sig_to_bytes x sg))
       \<and> vk_verify_digest x key (cose_tbs_data x (cose_of s t mt payload (verifying_key_to_bytes x key) [])) sg"
proof -
  let ?p = "verifying_key_to_bytes x key"
  from built obtain sg where sg: "sign_fn (cose_tbs_data x (cose_of s t mt payload ?p [])) = Inr sg"
    and b: "cose_to_vec x (cose_of s t mt payload ?p (sig_to_bytes x sg)) = Inr b"
    by (auto simp: build_cose_sign1_Inr)
  obtain original where c: "cose_from_slice x b = Inr (parsed_back (cose_of s t mt payload ?p (sig_to_bytes x sg)) original)"
    and tbs: "cose_tbs_data x (parsed_back (cose_of s t mt payload ?p (sig_to_bytes x sg)) original)
       = cose_tbs_data x (cose_of s t mt payload ?p [])"
    using cose_codec_okD [OF assms(2) b] .
  have len: "length ?p = 64" "length (sig_to_bytes x sg) = 64"
    using assms(1) by (auto simp: verifying_key_to_bytes_length ecdsa_codec_ok_def)
  have "verify_and_parse_cose_sign1 x b key = Inr (parsed_of s t mt payload ?p (sig_to_bytes x sg))"
    using c tbs signer_okD [OF signer sg] parse_parsed_back [OF c len] len
    by (simp add: verify_and_parse_Inr extract_pubkey_def verifying_key_roundtrip [OF assms(1)]
        signature_array_ok [OF assms(1)] signature_roundtrip [OF assms(1)])
  with signer_okD [OF signer sg] show ?thesis by blast
qed

lemma build_extract_sequence:
  assumes "cose_codec_ok x" and "build_cose_sign1 x s t mt payload key sign_fn = Inr b"
  shows "extract_sequence x b = Inr s"
proof -
  from assms(2) obtain sg where
    "cose_to_vec x (cose_of s t mt payload (verifying_key_to_bytes x key) (sig_to_bytes x sg)) = Inr b"
    by (auto simp: build_cose_sign1_Inr)
  from cose_codec_okD [OF assms(1) this] obtain original where
    "cose_from_slice x b = Inr (parsed_back
       (cose_of s t mt payload (verifying_key_to_bytes x key) (sig_to_bytes x sg)) original)" .
  then show ?thesis by (simp add: extract_sequence_def)
qed

lemma build_extract_header:
  assumes "cose_codec_ok x" and "build_cose_sign1 x s t mt payload key sign_fn = Inr b"
    and "cose_header_to_vec x (protected_of s t mt) = Inr h"
  shows "extract_protected_header x b = Inr h"
proof -
  from assms(2) obtain sg where
    "cose_to_vec x (cose_of s t mt payload (verifying_key_to_bytes x key) (sig_to_bytes x sg)) = Inr b"
    by (auto simp: build_cose_sign1_Inr)
  from cose_codec_okD [OF assms(1) this] obtain original where
    "cose_from_slice x b = Inr (parsed_back
       (cose_of s t mt payload (verifying_key_to_bytes x key) (sig_to_bytes x sg)) original)" .
  with assms(3) show ?thesis by (simp add: extract_protected_header_def)
qed

lemma parse_cose_sign1_fields:
  assumes "parse_cose_sign1 x bs = Inr p" and "cose_from_slice x bs = Inr cose"
  shows "pm_signature p = cs_signature cose" and "length (cs_signature cose) = 64"
    and "pm_payload p = (case cs_payload cose of None \<Rightarrow> [] | Some b \<Rightarrow> b)"
    and "scan_u64 HEADER_SEQUENCE (hdr_rest (ph_header (cs_protected cose))) = Some (pm_sequence p)
       \<and> scan_u64 HEADER_TIMESTAMP (hdr_rest (ph_header (cs_protected cose))) = Some (pm_timestamp p)"
    and "extract_pubkey_bytes (cs_unprotected cose) = Inr (pm_pubkey p)"
proof -
  let ?h = "ph_header (cs_protected cose)"
  have "parse_cose_sign1 x bs = Inr p" by (rule assms(1))
  then obtain s t mt pk sg where
    s: "required_u64 ?h HEADER_SEQUENCE ''sequence'' = Inr s"
    and t: "required_u64 ?h HEADER_TIMESTAMP ''timestamp'' = Inr t"
    and pk: "extract_pubkey_bytes (cs_unprotected cose) = Inr pk"
    and sg: "signature_array (cs_signature cose) = Inr sg"
    and p: "Inr (parsed_of s t mt (case cs_payload cose of None \<Rightarrow> [] | Some b \<Rightarrow> b) pk sg) = (Inr p :: cbor_error + _)"
    unfolding parse_cose_sign1_def Let_def assms(2) map_err_Inr bind_r_Inr bind_r_eq_Inr parsed_of_def
    by (elim exE conjE) (rule that [unfolded parsed_of_def])
  from p have p: "p = parsed_of s t mt (case cs_payload cose of None \<Rightarrow> [] | Some b \<Rightarrow> b) pk sg" by simp
  from sg have sg': "sg = cs_signature cose" "length (cs_signature cose) = 64"
    by (simp_all add: signature_array_def split: if_splits)
  from s t have "scan_u64 HEADER_SEQUENCE (hdr_rest ?h) = Some s" "scan_u64 HEADER_TIMESTAMP (hdr_rest ?h) = Some t"
    by (simp_all add: required_u64_def extract_u64_from_header_def ok_or_eq_Inr)
  with pk sg' show "pm_signature p = cs_signature cose" "length (cs_signature cose) = 64"
    "pm_payload p = (case cs_payload cose of None \<Rightarrow> [] | Some b \<Rightarrow> b)"
    "scan_u64 HEADER_SEQUENCE (hdr_rest ?h) = Some (pm_sequence p)
       \<and> scan_u64 HEADER_TIMESTAMP (hdr_rest ?h) = Some (pm_timestamp p)"
    "extract_pubkey_bytes (cs_unprotected cose) = Inr (pm_pubkey p)"
    by (simp_all add: p parsed_of_def)
qed

section \<open>Properties\<close>

text \<open>
  A message that the sequencer builds verifies against the sequencer's key and parses to the
  sequence number, timestamp, type and payload it was built from.\<close>

theorem build_then_verify:
  assumes "ecdsa_codec_ok x" and "cose_codec_ok x"
    and "signer_ok x key sign_fn"
    and "new_signed_message x s t mt payload key sign_fn = Inr m"
  shows "\<exists>p. verify_and_parse x m key = Inr p \<and> pm_sequence p = s \<and> pm_timestamp p = t
       \<and> pm_message_type p = mt \<and> pm_payload p = payload \<and> pm_pubkey p = verifying_key_to_bytes x key
       \<and> message_sequence x m = Inr s"
proof -
  from assms(4) obtain b where b: "build_cose_sign1 x s t mt payload key sign_fn = Inr b"
    and m: "m = CborSignedMessage b"
    by (auto simp: new_signed_message_def bind_r_eq_Inr)
  from build_then_verify_aux [OF assms(1,2,3) b] obtain sg where
    v: "verify_and_parse_cose_sign1 x b key
      = Inr (parsed_of s t mt payload (verifying_key_to_bytes x key) (sig_to_bytes x sg))"
    by blast
  have "extract_sequence x b = Inr s"
    using build_extract_sequence [OF assms(2) b] .
  with v m show ?thesis by (simp add: verify_and_parse_def message_sequence_def parsed_of_def)
qed

text \<open>
  Verification accepts no message whose protected header and payload were not signed by the
  expected key: on success the key in the message is the expected one, the 64-byte signature
  verifies over the to-be-signed bytes, and the returned fields are those of the message.\<close>

theorem verify_and_parse_sound:
  assumes "verify_and_parse x m key = Inr p"
  shows "\<exists>cose sg. cose_from_slice x (as_bytes m) = Inr cose
     \<and> sig_from_slice x (cs_signature cose) = Inr sg
     \<and> vk_verify_digest x key (cose_tbs_data x cose) sg
     \<and> pm_signature p = cs_signature cose \<and> length (cs_signature cose) = 64
     \<and> pm_payload p = (case cs_payload cose of None \<Rightarrow> [] | Some b \<Rightarrow> b)
     \<and> scan_u64 HEADER_SEQUENCE (hdr_rest (ph_header (cs_protected cose))) = Some (pm_sequence p)
     \<and> scan_u64 HEADER_TIMESTAMP (hdr_rest (ph_header (cs_protected cose))) = Some (pm_timestamp p)
     \<and> (\<exists>k. vk_from_sec1 x (4 # pm_pubkey p) = Inr k
           \<and> verifying_key_to_bytes x k = verifying_key_to_bytes x key)"
proof -
  from assms obtain cose pubkey sg where c: "cose_from_slice x (as_bytes m) = Inr cose"
    and k: "extract_pubkey x (cs_unprotected cose) = Inr pubkey"
    and same: "verifying_key_to_bytes x pubkey = verifying_key_to_bytes x key"
    and sg: "signature_from_bytes x (cs_signature cose) = Inr sg"
    and v: "vk_verify_digest x key (cose_tbs_data x cose) sg"
    and p: "parse_cose_sign1 x (as_bytes m) = Inr p"
    by (auto simp: verify_and_parse_def verify_and_parse_Inr)
  note fields = parse_cose_sign1_fields [OF p c]
  have "vk_from_sec1 x (4 # pm_pubkey p) = Inr pubkey"
    using k fields(5) by (simp add: extract_pubkey_def verifying_key_from_bytes_def map_err_eq_Inr)
  moreover have "sig_from_slice x (cs_signature cose) = Inr sg"
    using sg by (simp add: signature_from_bytes_def map_err_eq_Inr)
  ultimately show ?thesis using c v same fields by blast
qed

end
