(* ===== verification/Signed_Message.thy ===== *)
theory Signed_Message
  imports Cose
begin

text \<open>
  The validator's representation of messages and batches,
  \<open>crates/synddb-shared/src/types/message.rs\<close>: \<open>SignedMessage\<close> and \<open>SignedBatch\<close> with hex-encoded
  signatures and keys, the reconstruction of the COSE \<open>Sig_structure\<close> from a protected header, and
  the verification of a message (header fields against the outer fields, then the signature) and
  of a batch. \<open>MessageType\<close> and \<open>CborMessageType\<close> have the same three variants and share the
  datatype \<open>message_type\<close>.
\<close>

section \<open>Errors\<close>

datatype verification_error =
    InvalidSignature string
  | InvalidPublicKey string
  | InvalidHash string
  | VerificationFailed string
  | PublicKeyMismatch string string
  | SerializationFailed string
  | HeaderMismatch string string string
  | ProtectedHeaderParse string

fun show_verification_error :: "verification_error \<Rightarrow> string" where
  "show_verification_error (InvalidSignature e) = ''Invalid signature format: '' @ e"
| "show_verification_error (InvalidPublicKey e) = ''Invalid public key format: '' @ e"
| "show_verification_error (InvalidHash e) = ''Invalid message hash format: '' @ e"
| "show_verification_error (VerificationFailed e) = ''Signature verification failed: '' @ e"
| "show_verification_error (PublicKeyMismatch expected actual) =
     ''Public key mismatch: expected '' @ expected @ '', got '' @ actual"
| "show_verification_error (SerializationFailed e) = ''Serialization failed: '' @ e"
| "show_verification_error (HeaderMismatch field outer header) =
     ''Header mismatch: '' @ field @ '' in message ('' @ outer @ '') differs from protected header (''
       @ header @ '')''"
| "show_verification_error (ProtectedHeaderParse e) = ''Protected header parse error: '' @ e"

section \<open>Data\<close>

record signed_message =
  sm_sequence :: u64
  sm_timestamp :: u64
  sm_message_type :: message_type
  sm_payload :: bytes
  sm_message_hash :: string
  sm_signature :: string
  sm_signer :: string
  sm_cose_protected_header :: bytes

record signed_batch =
  sb_start_sequence :: u64
  sb_end_sequence :: u64
  sb_messages :: "signed_message list"
  sb_batch_signature :: string
  sb_signer :: string
  sb_created_at :: u64
  sb_content_hash :: bytes

section \<open>The COSE Sig_structure and its header\<close>

definition build_cose_sig_structure :: "('vk, 'sg) ext \<Rightarrow> bytes \<Rightarrow> bytes \<Rightarrow> bytes" where
  "build_cose_sig_structure x protected_header payload =
     cbor_write x (VArray [VText ''Signature1'', VBytes protected_header, VBytes [], VBytes payload])"

text \<open>
  The loop over the map overwrites: the last integer under a label wins, unlike
  \<open>extract_u64_from_header\<close>, where the first one does.
\<close>

fun header_fields :: "(cbor_value \<times> cbor_value) list \<Rightarrow> u64 option \<times> u64 option \<Rightarrow> u64 option \<times> u64 option" where
  "header_fields [] acc = acc"
| "header_fields ((VInteger l, VInteger v) # rest) (sequence, timestamp) =
     (if l = HEADER_SEQUENCE then header_fields rest (Some (word_of_int v), timestamp)
      else if l = HEADER_TIMESTAMP then header_fields rest (sequence, Some (word_of_int v))
      else header_fields rest (sequence, timestamp))"
| "header_fields (_ # rest) acc = header_fields rest acc"

definition parse_cose_protected_header_fields ::
  "('vk, 'sg) ext \<Rightarrow> bytes \<Rightarrow> verification_error + u64 \<times> u64" where
  "parse_cose_protected_header_fields x protected_header =
     bind_r (map_err (\<lambda>e. ProtectedHeaderParse (''CBOR parse error: '' @ e)) (cbor_read x protected_header)) (\<lambda>header.
     case header of
       VMap m \<Rightarrow>
         (let (sequence, timestamp) = header_fields m (None, None)
          in bind_r (ok_or (ProtectedHeaderParse ''Missing sequence in protected header'') sequence) (\<lambda>s.
             bind_r (ok_or (ProtectedHeaderParse ''Missing timestamp in protected header'') timestamp) (\<lambda>t.
             Inr (s, t))))
     | _ \<Rightarrow> Inl (ProtectedHeaderParse ''Protected header is not a CBOR map''))"

section \<open>Verification\<close>

definition decode_hex_64 :: "('vk, 'sg) ext \<Rightarrow> (string \<Rightarrow> verification_error) \<Rightarrow> string \<Rightarrow> string
  \<Rightarrow> verification_error + bytes" where
  "decode_hex_64 x err name s =
     bind_r (map_err (\<lambda>e. err (''Invalid hex: '' @ e)) (hex_decode x (strip_0x s))) (\<lambda>bs.
     if length bs \<noteq> 64 then Inl (err (name @ '' must be 64 bytes, got '' @ show_nat (length bs))) else Inr bs)"

text \<open>The conversion of the decoded bytes to arrays cannot fail after the length check.\<close>

definition verify_decoded :: "('vk, 'sg) ext \<Rightarrow> bytes \<Rightarrow> bytes \<Rightarrow> bytes \<Rightarrow> verification_error + unit" where
  "verify_decoded x data sig_bytes pubkey_bytes =
     bind_r (map_err (\<lambda>e. InvalidSignature (show_cbor_error e)) (signature_from_bytes x sig_bytes)) (\<lambda>signature.
     bind_r (map_err (\<lambda>e. InvalidPublicKey (show_cbor_error e)) (verifying_key_from_bytes x pubkey_bytes)) (\<lambda>key.
     map_err (\<lambda>e. VerificationFailed (show_cbor_error e)) (verify_secp256k1 x data signature key)))"

definition verify_signature :: "('vk, 'sg) ext \<Rightarrow> signed_message \<Rightarrow> verification_error + unit" where
  "verify_signature x m =
     bind_r (parse_cose_protected_header_fields x (sm_cose_protected_header m)) (\<lambda>(header_sequence, header_timestamp).
     if sm_sequence m \<noteq> header_sequence
     then Inl (HeaderMismatch ''sequence'' (show_u64 (sm_sequence m)) (show_u64 header_sequence))
     else if sm_timestamp m \<noteq> header_timestamp
     then Inl (HeaderMismatch ''timestamp'' (show_u64 (sm_timestamp m)) (show_u64 header_timestamp))
     else let sig_structure = build_cose_sig_structure x (sm_cose_protected_header m) (sm_payload m)
       in bind_r (decode_hex_64 x InvalidSignature ''COSE signature'' (sm_signature m)) (\<lambda>sig_bytes.
          bind_r (decode_hex_64 x InvalidPublicKey ''Public key'' (sm_signer m)) (\<lambda>pubkey_bytes.
          verify_decoded x sig_structure sig_bytes pubkey_bytes)))"

definition signed_batch_payload :: "('vk, 'sg) ext \<Rightarrow> signed_batch \<Rightarrow> bytes" where
  "signed_batch_payload x b =
     keccak256 x (to_be_bytes (sb_start_sequence b) @ to_be_bytes (sb_end_sequence b) @ sb_content_hash b)"

definition verify_signed_batch :: "('vk, 'sg) ext \<Rightarrow> signed_batch \<Rightarrow> verification_error + unit" where
  "verify_signed_batch x b =
     bind_r (decode_hex_64 x InvalidPublicKey ''Public key'' (sb_signer b)) (\<lambda>pubkey_bytes.
     bind_r (decode_hex_64 x InvalidSignature ''Batch signature'' (sb_batch_signature b)) (\<lambda>sig_bytes.
     verify_decoded x (signed_batch_payload x b) sig_bytes pubkey_bytes))"

fun verify_each :: "('vk, 'sg) ext \<Rightarrow> signed_message list \<Rightarrow> verification_error + unit" where
  "verify_each x [] = Inr ()"
| "verify_each x (m # ms) = bind_r (verify_signature x m) (\<lambda>_. verify_each x ms)"

definition verify_all_signed :: "('vk, 'sg) ext \<Rightarrow> signed_batch \<Rightarrow> verification_error + unit" where
  "verify_all_signed x b = bind_r (verify_signed_batch x b) (\<lambda>_. verify_each x (sb_messages b))"

section \<open>Lemmas\<close>

lemma verify_each_Inr: "verify_each x ms = Inr () \<longleftrightarrow> (\<forall>m \<in> set ms. verify_signature x m = Inr ())"
  by (induction ms) (auto simp: bind_r_eq_Inr)

lemma decode_hex_64_Inr:
  "decode_hex_64 x err name s = Inr bs \<longleftrightarrow> hex_decode x (strip_0x s) = Inr bs \<and> length bs = 64"
  by (auto simp: decode_hex_64_def bind_r_eq_Inr map_err_eq_Inr split: if_splits)

lemma verify_secp256k1_Inr: "verify_secp256k1 x d sg key = Inr () \<longleftrightarrow> vk_verify_digest x key d sg"
  by (simp add: verify_secp256k1_def)

lemma verify_decoded_Inr:
  "verify_decoded x d s p = Inr () \<longleftrightarrow>
     (\<exists>sg key. sig_from_slice x s = Inr sg \<and> vk_from_sec1 x (4 # p) = Inr key \<and> vk_verify_digest x key d sg)"
  by (simp add: verify_decoded_def bind_r_eq_Inr map_err_eq_Inr verify_secp256k1_Inr
      signature_from_bytes_def verifying_key_from_bytes_def)

lemma verify_signature_Inr:
  "verify_signature x m = Inr () \<longleftrightarrow>
     parse_cose_protected_header_fields x (sm_cose_protected_header m) = Inr (sm_sequence m, sm_timestamp m)
     \<and> (\<exists>s p. hex_decode x (strip_0x (sm_signature m)) = Inr s \<and> length s = 64
          \<and> hex_decode x (strip_0x (sm_signer m)) = Inr p \<and> length p = 64
          \<and> verify_decoded x (build_cose_sig_structure x (sm_cose_protected_header m) (sm_payload m)) s p = Inr ())"
  by (auto simp: verify_signature_def bind_r_eq_Inr Let_def decode_hex_64_Inr split: if_splits)

end
