(* ===== verification/Cbor_Batch.thy ===== *)
theory Cbor_Batch
  imports Signed_Message
begin

text \<open>
  Batches of signed messages: \<open>CborBatch\<close> of \<open>crates/synddb-shared/src/types/cbor/batch.rs\<close>
  (construction, content hash, signing payload, the wire format with and without compression,
  verification) and the conversion to the validator's types, \<open>cbor/convert.rs\<close>.

  The theorems say that a batch survives its serialisation, that a batch the sequencer builds
  from messages it signed passes every check, on its own and after conversion, and what an
  accepted batch guarantees.
\<close>

section \<open>Data\<close>

definition BATCH_VERSION :: u8 where "BATCH_VERSION = 1"

record cbor_batch =
  cb_version :: u8
  cb_start_sequence :: u64
  cb_end_sequence :: u64
  cb_created_at :: u64
  cb_content_hash :: bytes
  cb_messages :: "cbor_signed_message list"
  cb_batch_signature :: bytes
  cb_pubkey :: bytes

section \<open>Operations of CborBatch\<close>

definition compute_content_hash :: "('vk, 'sg) ext \<Rightarrow> cbor_signed_message list \<Rightarrow> bytes" where
  "compute_content_hash x messages = sha256 x (concat (map as_bytes messages))"

definition compute_signing_payload :: "('vk, 'sg) ext \<Rightarrow> u64 \<Rightarrow> u64 \<Rightarrow> bytes \<Rightarrow> bytes" where
  "compute_signing_payload x start_sequence end_sequence content_hash =
     keccak256 x (to_be_bytes start_sequence @ to_be_bytes end_sequence @ content_hash)"

definition new_batch :: "('vk, 'sg) ext \<Rightarrow> cbor_signed_message list \<Rightarrow> u64 \<Rightarrow> bytes
  \<Rightarrow> (bytes \<Rightarrow> cbor_error + 'sg) \<Rightarrow> cbor_error + cbor_batch" where
  "new_batch x messages created_at signer_pubkey sign_fn =
     (if messages = [] then Inl (InvalidBatch ''Batch cannot be empty'')
      else bind_r (message_sequence x (hd messages)) (\<lambda>start_sequence.
           bind_r (message_sequence x (last messages)) (\<lambda>end_sequence.
           let content_hash = compute_content_hash x messages;
               signing_payload = compute_signing_payload x start_sequence end_sequence content_hash
           in bind_r (sign_fn signing_payload) (\<lambda>signature.
              Inr \<lparr>cb_version = BATCH_VERSION, cb_start_sequence = start_sequence,
                   cb_end_sequence = end_sequence, cb_created_at = created_at,
                   cb_content_hash = content_hash, cb_messages = messages,
                   cb_batch_signature = sig_to_bytes x signature, cb_pubkey = signer_pubkey\<rparr>))))"

definition to_wire :: "cbor_batch \<Rightarrow> cbor_batch_wire" where
  "to_wire b =
     \<lparr>wire_version = cb_version b, wire_start_sequence = cb_start_sequence b,
      wire_end_sequence = cb_end_sequence b, wire_created_at = cb_created_at b,
      wire_content_hash = cb_content_hash b, wire_messages = map as_bytes (cb_messages b),
      wire_batch_signature = cb_batch_signature b, wire_pubkey = cb_pubkey b\<rparr>"

definition to_cbor :: "('vk, 'sg) ext \<Rightarrow> cbor_batch \<Rightarrow> cbor_error + bytes" where
  "to_cbor x b = map_err Cbor (wire_write x (to_wire b))"

definition to_cbor_zstd :: "('vk, 'sg) ext \<Rightarrow> cbor_batch \<Rightarrow> cbor_error + bytes" where
  "to_cbor_zstd x b = bind_r (to_cbor x b) (\<lambda>cbor. map_err Compression (zstd_encode x cbor))"

definition from_wire :: "cbor_batch_wire \<Rightarrow> cbor_error + cbor_batch" where
  "from_wire w =
     (if length (wire_content_hash w) \<noteq> 32 then Inl (InvalidBatch ''Invalid content hash length'')
      else if length (wire_batch_signature w) \<noteq> 64 then Inl (InvalidBatch ''Invalid batch signature length'')
      else if length (wire_pubkey w) \<noteq> 64
      then Inl (InvalidBatch ''Invalid public key length: expected 64 bytes'')
      else Inr \<lparr>cb_version = wire_version w, cb_start_sequence = wire_start_sequence w,
                cb_end_sequence = wire_end_sequence w, cb_created_at = wire_created_at w,
                cb_content_hash = wire_content_hash w,
                cb_messages = map CborSignedMessage (wire_messages w),
                cb_batch_signature = wire_batch_signature w, cb_pubkey = wire_pubkey w\<rparr>)"

definition from_cbor :: "('vk, 'sg) ext \<Rightarrow> bytes \<Rightarrow> cbor_error + cbor_batch" where
  "from_cbor x bs = bind_r (map_err Cbor (wire_read x bs)) from_wire"

definition from_cbor_zstd :: "('vk, 'sg) ext \<Rightarrow> bytes \<Rightarrow> cbor_error + cbor_batch" where
  "from_cbor_zstd x bs = bind_r (map_err Compression (zstd_decode x bs)) (from_cbor x)"

definition verify_batch_signature :: "('vk, 'sg) ext \<Rightarrow> cbor_batch \<Rightarrow> cbor_error + unit" where
  "verify_batch_signature x b =
     (if compute_content_hash x (cb_messages b) \<noteq> cb_content_hash b
      then Inl (SignatureVerification ''Content hash mismatch'')
      else let payload = compute_signing_payload x (cb_start_sequence b) (cb_end_sequence b) (cb_content_hash b);
               message_hash = keccak256 x payload
        in bind_r (map_err (\<lambda>e. SignatureVerification (''Invalid public key: '' @ e))
                    (vk_from_encoded_point x (4 # cb_pubkey b))) (\<lambda>verifying_key.
           bind_r (map_err (\<lambda>e. SignatureVerification (''Invalid signature: '' @ e))
                    (sig_from_slice x (cb_batch_signature b))) (\<lambda>sg.
           if vk_verify_prehash x verifying_key message_hash sg then Inr ()
           else Inl (SignatureVerification ''Batch signature verification failed''))))"

fun verify_messages :: "('vk, 'sg) ext \<Rightarrow> 'vk \<Rightarrow> nat \<Rightarrow> cbor_signed_message list \<Rightarrow> cbor_error + unit" where
  "verify_messages x key i [] = Inr ()"
| "verify_messages x key i (m # ms) =
     bind_r (map_err (\<lambda>e. SignatureVerification (''Message '' @ show_nat i @ '' verification failed: '' @ show_cbor_error e))
        (verify_and_parse x m key)) (\<lambda>_. verify_messages x key (i + 1) ms)"

definition verify_all_signatures :: "('vk, 'sg) ext \<Rightarrow> cbor_batch \<Rightarrow> cbor_error + unit" where
  "verify_all_signatures x b =
     bind_r (verify_batch_signature x b) (\<lambda>_.
     bind_r (verifying_key_from_bytes x (cb_pubkey b)) (\<lambda>key.
     verify_messages x key 0 (cb_messages b)))"

definition content_hash_hex :: "('vk, 'sg) ext \<Rightarrow> cbor_batch \<Rightarrow> string" where
  "content_hash_hex x b = ''0x'' @ hex_encode x (cb_content_hash b)"

definition total_message_bytes :: "cbor_batch \<Rightarrow> nat" where
  "total_message_bytes b = sum_list (map message_size (cb_messages b))"

definition batch_message_count :: "cbor_batch \<Rightarrow> nat" where
  "batch_message_count b = length (cb_messages b)"

section \<open>Conversion to the validator's types\<close>

definition compute_message_hash :: "('vk, 'sg) ext \<Rightarrow> bytes \<Rightarrow> bytes" where
  "compute_message_hash x payload = keccak256 x payload"

definition signed_message_of :: "('vk, 'sg) ext \<Rightarrow> parsed_cose_message \<Rightarrow> bytes \<Rightarrow> signed_message" where
  "signed_message_of x parsed header =
     \<lparr>sm_sequence = pm_sequence parsed, sm_timestamp = pm_timestamp parsed,
      sm_message_type = pm_message_type parsed, sm_payload = pm_payload parsed,
      sm_message_hash = ''0x'' @ hex_encode x (compute_message_hash x (pm_payload parsed)),
      sm_signature = ''0x'' @ hex_encode x (pm_signature parsed),
      sm_signer = ''0x'' @ hex_encode x (pm_pubkey parsed),
      sm_cose_protected_header = header\<rparr>"

definition to_signed_message :: "('vk, 'sg) ext \<Rightarrow> cbor_signed_message \<Rightarrow> 'vk \<Rightarrow> cbor_error + signed_message" where
  "to_signed_message x m expected_pubkey =
     bind_r (verify_and_parse x m expected_pubkey) (\<lambda>parsed.
     bind_r (message_protected_header x m) (\<lambda>cose_protected_header.
     Inr (signed_message_of x parsed cose_protected_header)))"

definition to_signed_message_unchecked :: "('vk, 'sg) ext \<Rightarrow> cbor_signed_message \<Rightarrow> cbor_error + signed_message" where
  "to_signed_message_unchecked x m =
     bind_r (parse_without_verify x m) (\<lambda>parsed.
     bind_r (message_protected_header x m) (\<lambda>cose_protected_header.
     Inr (signed_message_of x parsed cose_protected_header)))"

definition signed_batch_of :: "('vk, 'sg) ext \<Rightarrow> cbor_batch \<Rightarrow> signed_message list \<Rightarrow> signed_batch" where
  "signed_batch_of x b messages =
     \<lparr>sb_start_sequence = cb_start_sequence b, sb_end_sequence = cb_end_sequence b, sb_messages = messages,
      sb_batch_signature = ''0x'' @ hex_encode x (cb_batch_signature b),
      sb_signer = ''0x'' @ hex_encode x (cb_pubkey b), sb_created_at = cb_created_at b,
      sb_content_hash = cb_content_hash b\<rparr>"

definition to_signed_batch :: "('vk, 'sg) ext \<Rightarrow> cbor_batch \<Rightarrow> cbor_error + signed_batch" where
  "to_signed_batch x b =
     bind_r (verify_batch_signature x b) (\<lambda>_.
     bind_r (verifying_key_from_bytes x (cb_pubkey b)) (\<lambda>verifying_key.
     bind_r (collect_r (\<lambda>m. to_signed_message x m verifying_key) (cb_messages b)) (\<lambda>messages.
     Inr (signed_batch_of x b messages))))"

definition to_signed_batch_unchecked :: "('vk, 'sg) ext \<Rightarrow> cbor_batch \<Rightarrow> cbor_error + signed_batch" where
  "to_signed_batch_unchecked x b =
     bind_r (collect_r (to_signed_message_unchecked x) (cb_messages b)) (\<lambda>messages.
     Inr (signed_batch_of x b messages))"

section \<open>What the theorems need of the external crates\<close>

text \<open>Lossless serialisation and compression, 32-byte SHA-256 digests, inverse hex coding;
  \<open>verify_digest\<close> is \<open>verify_prehash\<close> of the Keccak digest, and \<open>from_sec1_bytes\<close> accepts the
  same keys as \<open>EncodedPoint::from_bytes\<close> followed by \<open>from_encoded_point\<close>.\<close>

definition wire_codec_ok :: "('vk, 'sg) ext \<Rightarrow> bool" where
  "wire_codec_ok x \<longleftrightarrow>
     (\<forall>w bs. wire_write x w = Inr bs \<longrightarrow> wire_read x bs = Inr w)
     \<and> (\<forall>bs c. zstd_encode x bs = Inr c \<longrightarrow> zstd_decode x c = Inr bs)
     \<and> (\<forall>bs. length (sha256 x bs) = 32)"

definition hex_codec_ok :: "('vk, 'sg) ext \<Rightarrow> bool" where
  "hex_codec_ok x \<longleftrightarrow> (\<forall>bs. hex_decode x (hex_encode x bs) = Inr bs)"

definition prehash_ok :: "('vk, 'sg) ext \<Rightarrow> bool" where
  "prehash_ok x \<longleftrightarrow>
     (\<forall>k d sg. vk_verify_prehash x k (keccak256 x d) sg = vk_verify_digest x k d sg)
     \<and> (\<forall>bs k. vk_from_encoded_point x bs = Inr k \<longleftrightarrow> vk_from_sec1 x bs = Inr k)"

text \<open>
  The protected header that coset writes is the CBOR map of its entries, the algorithm first, and
  the to-be-signed bytes are the \<open>Sig_structure\<close> of RFC 9052 over those bytes.
\<close>

definition sig_structure_ok :: "('vk, 'sg) ext \<Rightarrow> bool" where
  "sig_structure_ok x \<longleftrightarrow>
     (\<forall>s t mt. \<exists>h a. cose_header_to_vec x (protected_of s t mt) = Inr h
        \<and> cbor_read x h = Inr (VMap [(VInteger 1, a), (VInteger HEADER_SEQUENCE, VInteger (uint s)),
             (VInteger HEADER_TIMESTAMP, VInteger (uint t)),
             (VInteger HEADER_MSG_TYPE, VInteger (uint (message_type_as_u8 mt)))])
        \<and> (\<forall>payload p sg. cose_tbs_data x (cose_of s t mt payload p sg) = build_cose_sig_structure x h payload))"

section \<open>Lemmas\<close>

definition batch_wf :: "cbor_batch \<Rightarrow> bool" where
  "batch_wf b \<longleftrightarrow> length (cb_content_hash b) = 32 \<and> length (cb_batch_signature b) = 64 \<and> length (cb_pubkey b) = 64"

lemma wire_roundtrip: "batch_wf b \<Longrightarrow> from_wire (to_wire b) = Inr b"
  by (simp add: batch_wf_def from_wire_def to_wire_def comp_def)

lemma from_wire_Inr_wf: "from_wire w = Inr b \<Longrightarrow> batch_wf b \<and> to_wire b = w"
  by (auto simp: from_wire_def batch_wf_def to_wire_def comp_def split: if_splits)

lemma cbor_roundtrip:
  "wire_codec_ok x \<Longrightarrow> batch_wf b \<Longrightarrow> to_cbor x b = Inr bs \<Longrightarrow> from_cbor x bs = Inr b"
  by (simp add: wire_codec_ok_def to_cbor_def from_cbor_def map_err_eq_Inr wire_roundtrip)

lemma cbor_zstd_roundtrip_aux:
  assumes "wire_codec_ok x" and "batch_wf b" and "to_cbor_zstd x b = Inr c"
  shows "from_cbor_zstd x c = Inr b"
proof -
  from assms(3) obtain bs where bs: "to_cbor x b = Inr bs" and c: "zstd_encode x bs = Inr c"
    by (auto simp: to_cbor_zstd_def bind_r_eq_Inr map_err_eq_Inr)
  from assms(1) c have "zstd_decode x c = Inr bs" by (simp add: wire_codec_ok_def)
  with cbor_roundtrip [OF assms(1,2) bs] show ?thesis by (simp add: from_cbor_zstd_def)
qed

lemma new_batch_Inr:
  "new_batch x ms now pk sign_fn = Inr b \<longleftrightarrow> ms \<noteq> [] \<and>
     (\<exists>s e sg. message_sequence x (hd ms) = Inr s \<and> message_sequence x (last ms) = Inr e
        \<and> sign_fn (compute_signing_payload x s e (compute_content_hash x ms)) = Inr sg
        \<and> b = \<lparr>cb_version = BATCH_VERSION, cb_start_sequence = s, cb_end_sequence = e, cb_created_at = now,
               cb_content_hash = compute_content_hash x ms, cb_messages = ms,
               cb_batch_signature = sig_to_bytes x sg, cb_pubkey = pk\<rparr>)"
  by (auto simp: new_batch_def Let_def bind_r_eq_Inr)

lemma new_batch_wf:
  assumes "wire_codec_ok x" and "ecdsa_codec_ok x" and "length pk = 64"
    and "new_batch x ms now pk sign_fn = Inr b"
  shows "batch_wf b"
  using assms by (auto simp: new_batch_Inr batch_wf_def wire_codec_ok_def ecdsa_codec_ok_def compute_content_hash_def)

lemma verify_batch_signature_Inr:
  "verify_batch_signature x b = Inr () \<longleftrightarrow>
     compute_content_hash x (cb_messages b) = cb_content_hash b
     \<and> (\<exists>key sg. vk_from_encoded_point x (4 # cb_pubkey b) = Inr key
          \<and> sig_from_slice x (cb_batch_signature b) = Inr sg
          \<and> vk_verify_prehash x key (keccak256 x (compute_signing_payload x (cb_start_sequence b)
               (cb_end_sequence b) (cb_content_hash b))) sg)"
  by (auto simp: verify_batch_signature_def Let_def bind_r_eq_Inr map_err_eq_Inr split: if_splits)

lemma verify_messages_Inr:
  "verify_messages x key i ms = Inr () \<longleftrightarrow> (\<forall>m \<in> set ms. \<exists>p. verify_and_parse x m key = Inr p)"
  by (induction ms arbitrary: i) (auto simp: bind_r_eq_Inr map_err_eq_Inr)

lemma new_batch_verifies:
  assumes "ecdsa_codec_ok x" and "prehash_ok x"
    and "signer_ok x key sign_fn"
    and "new_batch x ms now (verifying_key_to_bytes x key) sign_fn = Inr b"
  shows "verify_batch_signature x b = Inr ()"
  using assms(3,4) encoded_point_roundtrip [OF assms(1), of key] assms(1,2)
  by (auto simp: new_batch_Inr verify_batch_signature_Inr prehash_ok_def ecdsa_codec_ok_def signer_ok_def)

text \<open>A batch whose signature the \<open>CborBatch\<close> check accepts is accepted after conversion too.\<close>

lemma converted_batch_signature:
  assumes "hex_codec_ok x" and "prehash_ok x" and "batch_wf b" and "verify_batch_signature x b = Inr ()"
  shows "verify_signed_batch x (signed_batch_of x b ms) = Inr ()"
proof -
  from assms(4) obtain key sg where k: "vk_from_encoded_point x (4 # cb_pubkey b) = Inr key"
    and sg: "sig_from_slice x (cb_batch_signature b) = Inr sg"
    and v: "vk_verify_prehash x key (keccak256 x (compute_signing_payload x (cb_start_sequence b)
               (cb_end_sequence b) (cb_content_hash b))) sg"
    by (auto simp: verify_batch_signature_Inr)
  from assms(2) k v have "vk_from_sec1 x (4 # cb_pubkey b) = Inr key"
    and "vk_verify_digest x key (compute_signing_payload x (cb_start_sequence b) (cb_end_sequence b) (cb_content_hash b)) sg"
    by (auto simp: prehash_ok_def)
  with sg have "verify_decoded x (signed_batch_payload x (signed_batch_of x b ms)) (cb_batch_signature b) (cb_pubkey b) = Inr ()"
    by (auto simp: verify_decoded_Inr signed_batch_payload_def signed_batch_of_def compute_signing_payload_def)
  with assms(1,3) show ?thesis
    by (auto simp: verify_signed_batch_def signed_batch_of_def bind_r_eq_Inr decode_hex_64_Inr
        hex_codec_ok_def batch_wf_def)
qed

lemma header_fields_protected:
  "header_fields [(VInteger 1, a), (VInteger HEADER_SEQUENCE, VInteger (uint s)),
     (VInteger HEADER_TIMESTAMP, VInteger (uint t)), (VInteger HEADER_MSG_TYPE, v)] (None, None) = (Some s, Some t)"
  by (cases a; cases v; simp add: header_labels)

text \<open>Conversion of one message that the signer built, and the validator's check of the result.\<close>

lemma built_message_converts:
  assumes "ecdsa_codec_ok x" and "cose_codec_ok x" and "hex_codec_ok x" and "sig_structure_ok x"
    and signer: "signer_ok x key sign_fn"
    and "new_signed_message x s t mt payload key sign_fn = Inr m"
  shows "\<exists>sm. to_signed_message x m key = Inr sm \<and> verify_signature x sm = Inr ()
     \<and> (sm_sequence sm, sm_timestamp sm, sm_message_type sm, sm_payload sm) = (s, t, mt, payload)
     \<and> sm_signer sm = ''0x'' @ hex_encode x (verifying_key_to_bytes x key)"
proof -
  let ?p = "verifying_key_to_bytes x key"
  from assms(6) obtain b where b: "build_cose_sign1 x s t mt payload key sign_fn = Inr b"
    and m: "m = CborSignedMessage b"
    by (auto simp: new_signed_message_def bind_r_eq_Inr)
  from build_then_verify_aux [OF assms(1,2) signer b] obtain sg where
    v: "verify_and_parse_cose_sign1 x b key = Inr (parsed_of s t mt payload ?p (sig_to_bytes x sg))"
    and d: "vk_verify_digest x key (cose_tbs_data x (cose_of s t mt payload ?p [])) sg"
    by blast
  from assms(4) obtain h a where h: "cose_header_to_vec x (protected_of s t mt) = Inr h"
    and r: "cbor_read x h = Inr (VMap [(VInteger 1, a), (VInteger HEADER_SEQUENCE, VInteger (uint s)),
             (VInteger HEADER_TIMESTAMP, VInteger (uint t)),
             (VInteger HEADER_MSG_TYPE, VInteger (uint (message_type_as_u8 mt)))])"
    and tbs: "cose_tbs_data x (cose_of s t mt payload ?p []) = build_cose_sig_structure x h payload"
    by (simp add: sig_structure_ok_def) blast
  let ?sm = "signed_message_of x (parsed_of s t mt payload ?p (sig_to_bytes x sg)) h"
  have "message_protected_header x m = Inr h"
    using build_extract_header [OF assms(2) b h] by (simp add: message_protected_header_def m)
  with v have "to_signed_message x m key = Inr ?sm"
    by (simp add: to_signed_message_def verify_and_parse_def m)
  moreover have "verify_decoded x (build_cose_sig_structure x h payload) (sig_to_bytes x sg) ?p = Inr ()"
    using d tbs assms(1) verifying_key_roundtrip [OF assms(1), of key]
    by (auto simp: verify_decoded_Inr ecdsa_codec_ok_def verifying_key_from_bytes_def map_err_eq_Inr)
  moreover have "parse_cose_protected_header_fields x h = Inr (s, t)"
    by (simp add: parse_cose_protected_header_fields_def r header_fields_protected)
  ultimately show ?thesis
    using assms(1,3) verifying_key_to_bytes_length [OF assms(1), of key]
    by (auto simp: verify_signature_Inr signed_message_of_def parsed_of_def hex_codec_ok_def ecdsa_codec_ok_def)
qed

text \<open>A list of requests signed one after the other, and what the batch of them converts to.\<close>

definition sign_requests :: "('vk, 'sg) ext \<Rightarrow> 'vk \<Rightarrow> (bytes \<Rightarrow> cbor_error + 'sg)
  \<Rightarrow> (u64 \<times> u64 \<times> message_type \<times> bytes) list \<Rightarrow> cbor_error + cbor_signed_message list" where
  "sign_requests x key sign_fn = collect_r (\<lambda>(s, t, mt, payload). new_signed_message x s t mt payload key sign_fn)"

definition request_of :: "signed_message \<Rightarrow> u64 \<times> u64 \<times> message_type \<times> bytes" where
  "request_of m = (sm_sequence m, sm_timestamp m, sm_message_type m, sm_payload m)"

lemma built_messages_convert:
  assumes "ecdsa_codec_ok x" and "cose_codec_ok x" and "hex_codec_ok x" and "sig_structure_ok x"
    and "signer_ok x key sign_fn"
    and "sign_requests x key sign_fn reqs = Inr ms"
  shows "\<exists>sms. collect_r (\<lambda>m. to_signed_message x m key) ms = Inr sms \<and> map request_of sms = reqs
     \<and> (\<forall>sm \<in> set sms. verify_signature x sm = Inr () \<and> sm_signer sm = ''0x'' @ hex_encode x (verifying_key_to_bytes x key))"
  using assms(6)
proof (induction reqs arbitrary: ms)
  case Nil
  then show ?case by (simp add: sign_requests_def)
next
  case (Cons r reqs)
  obtain s t mt payload where r: "r = (s, t, mt, payload)" by (cases r)
  from Cons.prems obtain m ms' where m: "new_signed_message x s t mt payload key sign_fn = Inr m"
    and ms': "sign_requests x key sign_fn reqs = Inr ms'" and ms: "ms = m # ms'"
    by (auto simp: sign_requests_def r bind_r_eq_Inr)
  from built_message_converts [OF assms(1-5) m] obtain sm where
    "to_signed_message x m key = Inr sm" "verify_signature x sm = Inr ()" "request_of sm = r"
    "sm_signer sm = ''0x'' @ hex_encode x (verifying_key_to_bytes x key)"
    by (auto simp: request_of_def r)
  moreover from Cons.IH [OF ms'] obtain sms where
    "collect_r (\<lambda>m. to_signed_message x m key) ms' = Inr sms" "map request_of sms = reqs"
    "\<forall>sm \<in> set sms. verify_signature x sm = Inr () \<and> sm_signer sm = ''0x'' @ hex_encode x (verifying_key_to_bytes x key)" by blast
  ultimately show ?case by (simp add: ms)
qed

lemma sign_requests_sequence:
  assumes "cose_codec_ok x" and "sign_requests x key sign_fn reqs = Inr ms" and "i < length reqs"
  shows "message_sequence x (ms ! i) = Inr (fst (reqs ! i))"
proof -
  obtain s t mt payload where r: "reqs ! i = (s, t, mt, payload)" by (cases "reqs ! i")
  from assms(2,3) have "new_signed_message x s t mt payload key sign_fn = Inr (ms ! i)"
    using r by (auto simp: sign_requests_def collect_r_Inr_iff list_all2_conv_all_nth)
  then obtain b where "build_cose_sign1 x s t mt payload key sign_fn = Inr b" "ms ! i = CborSignedMessage b"
    by (auto simp: new_signed_message_def bind_r_eq_Inr)
  then show ?thesis using build_extract_sequence [OF assms(1)] by (simp add: message_sequence_def r)
qed

lemma new_batch_range:
  assumes "cose_codec_ok x" and "sign_requests x key sign_fn reqs = Inr ms"
    and "new_batch x ms now pk sign_fn = Inr b"
  shows "cb_start_sequence b = fst (hd reqs) \<and> cb_end_sequence b = fst (last reqs)"
proof -
  have len: "length ms = length reqs" using collect_r_length assms(2) by (fastforce simp: sign_requests_def)
  from assms(3) have ne: "ms \<noteq> []" by (simp add: new_batch_Inr)
  with len have "reqs \<noteq> []" by auto
  with ne len show ?thesis
    using assms(3) sign_requests_sequence [OF assms(1,2), of 0]
      sign_requests_sequence [OF assms(1,2), of "length reqs - 1"]
    by (auto simp: new_batch_Inr hd_conv_nth last_conv_nth)
qed

lemma new_batch_fields:
  assumes "ecdsa_codec_ok x" and "new_batch x ms now (verifying_key_to_bytes x key) sign_fn = Inr b"
  shows "verifying_key_from_bytes x (cb_pubkey b) = Inr key" and "cb_messages b = ms"
  using assms(2) verifying_key_roundtrip [OF assms(1)] by (auto simp: new_batch_Inr)

lemma sequenced_batch_verifies:
  assumes "ecdsa_codec_ok x" and "cose_codec_ok x" and "hex_codec_ok x" and "sig_structure_ok x"
    and "prehash_ok x"
    and signer: "signer_ok x key sign_fn"
    and reqs: "sign_requests x key sign_fn reqs = Inr ms"
    and batch: "new_batch x ms now (verifying_key_to_bytes x key) sign_fn = Inr b"
  shows "verify_all_signatures x b = Inr ()"
proof -
  obtain sms where sms: "collect_r (\<lambda>m. to_signed_message x m key) ms = Inr sms"
    using built_messages_convert [OF assms(1-4) signer reqs] by blast
  have "\<forall>m \<in> set ms. \<exists>p. verify_and_parse x m key = Inr p"
    using sms by (induction ms arbitrary: sms) (auto simp: bind_r_eq_Inr to_signed_message_def)
  then show ?thesis
    using new_batch_fields [OF assms(1) batch] new_batch_verifies [OF assms(1,5) signer batch]
    by (simp add: verify_all_signatures_def verify_messages_Inr)
qed

lemma sequenced_batch_converts:
  assumes "ecdsa_codec_ok x" and "cose_codec_ok x" and "hex_codec_ok x" and "sig_structure_ok x"
    and "wire_codec_ok x" and "prehash_ok x"
    and signer: "signer_ok x key sign_fn"
    and reqs: "sign_requests x key sign_fn reqs = Inr ms"
    and batch: "new_batch x ms now (verifying_key_to_bytes x key) sign_fn = Inr b"
  shows "\<exists>sb. to_signed_batch x b = Inr sb \<and> verify_all_signed x sb = Inr ()
          \<and> map request_of (sb_messages sb) = reqs
          \<and> sb_start_sequence sb = fst (hd reqs) \<and> sb_end_sequence sb = fst (last reqs)
          \<and> (\<forall>sm \<in> set (sb_messages sb). sm_signer sm = ''0x'' @ hex_encode x (verifying_key_to_bytes x key))"
proof -
  note vb = new_batch_verifies [OF assms(1,6) signer batch]
  have wf: "batch_wf b"
    using new_batch_wf [OF assms(5,1) verifying_key_to_bytes_length [OF assms(1)] batch] .
  obtain sms where sms: "collect_r (\<lambda>m. to_signed_message x m key) ms = Inr sms"
    "map request_of sms = reqs"
    "\<forall>sm \<in> set sms. verify_signature x sm = Inr () \<and> sm_signer sm = ''0x'' @ hex_encode x (verifying_key_to_bytes x key)"
    using built_messages_convert [OF assms(1-4) signer reqs] by blast
  have "to_signed_batch x b = Inr (signed_batch_of x b sms)"
    using new_batch_fields [OF assms(1) batch] by (simp add: to_signed_batch_def vb sms(1))
  moreover have "verify_all_signed x (signed_batch_of x b sms) = Inr ()"
    using converted_batch_signature [OF assms(3,6) wf vb] sms(3)
    by (simp add: verify_all_signed_def verify_each_Inr signed_batch_of_def)
  moreover note new_batch_range [OF assms(2) reqs batch]
  ultimately show ?thesis using sms(2,3) by (auto simp: signed_batch_of_def)
qed

section \<open>Properties\<close>

text \<open>
  A batch survives its journey through storage: what \<open>new\<close> builds, compressed and written to a
  transport, reads back as the same batch.\<close>

theorem batch_storage_roundtrip:
  assumes "wire_codec_ok x" and "ecdsa_codec_ok x"
    and "new_batch x ms now (verifying_key_to_bytes x key) sign_fn = Inr b"
    and "to_cbor_zstd x b = Inr c"
  shows "from_cbor_zstd x c = Inr b \<and> cb_messages b = ms \<and> cb_created_at b = now"
proof -
  have "batch_wf b"
    using new_batch_wf [OF assms(1,2) verifying_key_to_bytes_length [OF assms(2)] assms(3)] .
  then show ?thesis using cbor_zstd_roundtrip_aux [OF assms(1) _ assms(4)] assms(3)
    by (auto simp: new_batch_Inr)
qed

text \<open>
  C9: From the sequencer to the validator. Messages signed one after the other and batched under
  the same key pass \<open>verify_all_signatures\<close>, convert to the validator's types, carry the sequence
  numbers, timestamps, types and payloads they were made from, and pass the validator's own
  checks of the batch and of every message; the range of the batch is that of its ends.\<close>

theorem sequenced_batch_accepted:
  assumes "ecdsa_codec_ok x" and "cose_codec_ok x" and "hex_codec_ok x" and "sig_structure_ok x"
    and "wire_codec_ok x" and "prehash_ok x"
    and "signer_ok x key sign_fn"
    and "sign_requests x key sign_fn reqs = Inr ms"
    and "new_batch x ms now (verifying_key_to_bytes x key) sign_fn = Inr b"
  shows "verify_all_signatures x b = Inr ()
     \<and> (\<exists>sb. to_signed_batch x b = Inr sb \<and> verify_all_signed x sb = Inr ()
          \<and> map request_of (sb_messages sb) = reqs
          \<and> sb_start_sequence sb = fst (hd reqs) \<and> sb_end_sequence sb = fst (last reqs))"
  using sequenced_batch_verifies [OF assms(1-4,6-9)] sequenced_batch_converts [OF assms] by blast


text \<open>
  The type of a message is not covered by the validator's check: a message that the sequencer
  signed as one type, converted and then relabelled with any other type, is still accepted.\<close>

theorem retyped_message_accepted:
  assumes "ecdsa_codec_ok x" and "cose_codec_ok x" and "hex_codec_ok x" and "sig_structure_ok x"
    and signer: "signer_ok x key sign_fn"
    and "new_signed_message x s t mt payload key sign_fn = Inr m"
  shows "\<exists>sm. to_signed_message x m key = Inr sm \<and> sm_message_type sm = mt
     \<and> verify_signature x (sm\<lparr>sm_message_type := mt'\<rparr>) = Inr ()"
proof -
  obtain sm where sm: "to_signed_message x m key = Inr sm" "verify_signature x sm = Inr ()" "sm_message_type sm = mt"
    using built_message_converts [OF assms] by blast
  then have "verify_signature x (sm\<lparr>sm_message_type := mt'\<rparr>) = Inr ()" by (simp add: verify_signature_Inr)
  with sm show ?thesis by blast
qed

text \<open>
  The signature of a converted batch is not tied to the messages it carries: an accepted
  batch whose messages are dropped, reordered or repeated is accepted too.\<close>

theorem verify_all_signed_subset:
  assumes "verify_all_signed x sb = Inr ()" and "set ms \<subseteq> set (sb_messages sb)"
  shows "verify_all_signed x (sb\<lparr>sb_messages := ms\<rparr>) = Inr ()"
proof -
  from assms(1) have "verify_signed_batch x sb = Inr ()" and "\<forall>m \<in> set (sb_messages sb). verify_signature x m = Inr ()"
    by (auto simp: verify_all_signed_def bind_r_eq_Inr verify_each_Inr)
  with assms(2) show ?thesis
    by (auto simp: verify_all_signed_def verify_each_Inr verify_signed_batch_def signed_batch_payload_def)
qed

end
