(* ===== verification/Crates_Model.thy ===== *)
theory Crates_Model
  imports Cbor_Batch
begin

text \<open>
  One concrete choice of the external functions that satisfies every named hypothesis about them,
  with executable codecs: two keys and two signatures, a fixed-width encoding of the message
  structure the code builds, and uncompressed batches of at most one message of at most 255 bytes.
  It shows that the hypotheses can hold together; the witnesses evaluate the theorems in it.
\<close>

section \<open>Keys, signatures, hashes\<close>

definition bit_byte :: "bool \<Rightarrow> u8" where
  "bit_byte b = (if b then 1 else 0)"

definition demo_digest :: "bytes \<Rightarrow> bytes" where
  "demo_digest d = replicate 32 (bit_byte (even (length d)))"

definition demo_key_bytes :: "bool \<Rightarrow> bytes" where
  "demo_key_bytes k = 4 # replicate 64 (bit_byte k)"

definition demo_key_from :: "bytes \<Rightarrow> string + bool" where
  "demo_key_from bs =
     (if bs = demo_key_bytes True then Inr True
      else if bs = demo_key_bytes False then Inr False else Inl ''invalid point'')"

definition demo_sig_bytes :: "bool \<Rightarrow> bytes" where
  "demo_sig_bytes s = replicate 64 (bit_byte s)"

definition demo_sig_from :: "bytes \<Rightarrow> string + bool" where
  "demo_sig_from bs =
     (if bs = demo_sig_bytes True then Inr True
      else if bs = demo_sig_bytes False then Inr False else Inl ''invalid signature'')"

definition demo_verify_digest :: "bool \<Rightarrow> bytes \<Rightarrow> bool \<Rightarrow> bool" where
  "demo_verify_digest k d s \<longleftrightarrow> s = (k = even (length d))"

definition demo_verify_prehash :: "bool \<Rightarrow> bytes \<Rightarrow> bool \<Rightarrow> bool" where
  "demo_verify_prehash k h s \<longleftrightarrow> s = (k = (hd h = 1))"

definition demo_sign :: "bool \<Rightarrow> bytes \<Rightarrow> cbor_error + bool" where
  "demo_sign k d = Inr (k = even (length d))"

section \<open>Hex\<close>

definition hex_digit :: "nat \<Rightarrow> char" where
  "hex_digit n = char_of (if n < 10 then 48 + n else 87 + n)"

definition hex_val :: "char \<Rightarrow> nat option" where
  "hex_val c =
     (let n = of_char c
      in if 48 \<le> n \<and> n \<le> 57 then Some (n - 48)
         else if 97 \<le> n \<and> n \<le> 102 then Some (n - 87)
         else if 65 \<le> n \<and> n \<le> 70 then Some (n - 55) else None)"

definition demo_hex_encode :: "bytes \<Rightarrow> string" where
  "demo_hex_encode bs = concat (map (\<lambda>b. [hex_digit (unat b div 16), hex_digit (unat b mod 16)]) bs)"

fun hex_pairs :: "string \<Rightarrow> string + bytes" where
  "hex_pairs (c # d # cs) =
     (case (hex_val c, hex_val d) of
        (Some m, Some n) \<Rightarrow> bind_r (hex_pairs cs) (\<lambda>bs. Inr (of_nat (16 * m + n) # bs))
      | _ \<Rightarrow> Inl ''Invalid character'')"
| "hex_pairs cs = Inr []"

definition demo_hex_decode :: "string \<Rightarrow> string + bytes" where
  "demo_hex_decode s = (if odd (length s) then Inl ''Odd number of digits'' else hex_pairs s)"

lemma hex_val_digit [simp]: "n < 16 \<Longrightarrow> hex_val (hex_digit n) = Some n"
  by (simp add: hex_val_def hex_digit_def Let_def)

lemma demo_hex_roundtrip: "demo_hex_decode (demo_hex_encode bs) = Inr bs"
proof -
  have "unat b div 16 < 16" for b :: u8 using unsigned_less [of b, where ?'a = nat] by simp
  then have "hex_pairs (demo_hex_encode bs) = Inr bs"
    by (induction bs) (simp_all add: demo_hex_encode_def)
  moreover have "even (length (demo_hex_encode bs))" by (induction bs) (simp_all add: demo_hex_encode_def)
  ultimately show ?thesis by (simp add: demo_hex_decode_def)
qed

section \<open>Messages\<close>

definition demo_header_to_vec :: "cose_header \<Rightarrow> string + bytes" where
  "demo_header_to_vec h =
     (case (scan_u64 HEADER_SEQUENCE (hdr_rest h), scan_u64 HEADER_TIMESTAMP (hdr_rest h),
            scan_u64 HEADER_MSG_TYPE (hdr_rest h)) of
        (Some s, Some t, Some mt) \<Rightarrow> Inr (to_be_bytes s @ to_be_bytes t @ [ucast mt])
      | _ \<Rightarrow> Inl ''header'')"

definition demo_header_from :: "bytes \<Rightarrow> (u64 \<times> u64 \<times> u8) option" where
  "demo_header_from bs =
     (if length bs = 17 then Some (from_be_bytes (take 8 bs), from_be_bytes (take 8 (drop 8 bs)), bs ! 16) else None)"

definition demo_cbor_read :: "bytes \<Rightarrow> string + cbor_value" where
  "demo_cbor_read bs =
     (case demo_header_from bs of
        Some (s, t, mt) \<Rightarrow> Inr (VMap [(VInteger 1, VInteger (- 47)), (VInteger HEADER_SEQUENCE, VInteger (uint s)),
          (VInteger HEADER_TIMESTAMP, VInteger (uint t)), (VInteger HEADER_MSG_TYPE, VInteger (uint mt))])
      | None \<Rightarrow> Inl ''not a header'')"

definition demo_cbor_write :: "cbor_value \<Rightarrow> bytes" where
  "demo_cbor_write v = (case v of VArray [VText _, VBytes h, VBytes _, VBytes p] \<Rightarrow> h @ p | _ \<Rightarrow> [])"

definition demo_tbs :: "cose_sign1 \<Rightarrow> bytes" where
  "demo_tbs c =
     (case (demo_header_to_vec (ph_header (cs_protected c)), cs_payload c) of
        (Inr h, Some p) \<Rightarrow> h @ p | _ \<Rightarrow> [])"

definition demo_cose_to_vec :: "cose_sign1 \<Rightarrow> string + bytes" where
  "demo_cose_to_vec c =
     (case (demo_header_to_vec (ph_header (cs_protected c)), extract_pubkey_bytes (cs_unprotected c), cs_payload c) of
        (Inr h, Inr p, Some payload) \<Rightarrow>
          if length (cs_signature c) = 64 then Inr (h @ p @ cs_signature c @ payload) else Inl ''signature''
      | _ \<Rightarrow> Inl ''shape'')"

definition demo_cose_from_slice :: "bytes \<Rightarrow> string + cose_sign1" where
  "demo_cose_from_slice bs =
     (case (demo_header_from (take 17 bs)) of
        Some (s, t, n) \<Rightarrow> (case message_type_from_u8 n of
            Inr mt \<Rightarrow> Inr (cose_of s t mt (drop 145 bs) (take 64 (drop 17 bs)) (take 64 (drop 81 bs)))
          | Inl _ \<Rightarrow> Inl ''type'')
      | None \<Rightarrow> Inl ''short'')"

section \<open>Batches\<close>

definition demo_wire_write :: "cbor_batch_wire \<Rightarrow> string + bytes" where
  "demo_wire_write w =
     (case wire_messages w of
        [m] \<Rightarrow> if length (wire_content_hash w) = 32 \<and> length (wire_batch_signature w) = 64 \<and> length (wire_pubkey w) = 64
               then Inr (wire_version w # to_be_bytes (wire_start_sequence w) @ to_be_bytes (wire_end_sequence w)
                  @ to_be_bytes (wire_created_at w) @ wire_content_hash w @ wire_batch_signature w @ wire_pubkey w @ m)
               else Inl ''length''
      | _ \<Rightarrow> Inl ''one message only'')"

definition demo_wire_read :: "bytes \<Rightarrow> string + cbor_batch_wire" where
  "demo_wire_read bs = (case bs of [] \<Rightarrow> Inl ''eof'' | v # r \<Rightarrow>
     Inr \<lparr>wire_version = v, wire_start_sequence = from_be_bytes (take 8 r),
          wire_end_sequence = from_be_bytes (take 8 (drop 8 r)), wire_created_at = from_be_bytes (take 8 (drop 16 r)),
          wire_content_hash = take 32 (drop 24 r), wire_messages = [drop 184 r],
          wire_batch_signature = take 64 (drop 56 r), wire_pubkey = take 64 (drop 120 r)\<rparr>)"

definition demo_ext :: "(bool, bool) ext" where
  "demo_ext =
     \<lparr>keccak256 = demo_digest, sha256 = demo_digest, vk_from_sec1 = demo_key_from,
      vk_from_encoded_point = demo_key_from, vk_to_encoded = demo_key_bytes,
      sig_from_slice = demo_sig_from, sig_to_bytes = demo_sig_bytes,
      vk_verify_prehash = demo_verify_prehash, vk_verify_digest = demo_verify_digest,
      hex_encode = demo_hex_encode, hex_decode = demo_hex_decode,
      cose_from_slice = demo_cose_from_slice, cose_to_vec = demo_cose_to_vec, cose_tbs_data = demo_tbs,
      cose_header_to_vec = demo_header_to_vec, cbor_read = demo_cbor_read, cbor_write = demo_cbor_write,
      wire_write = demo_wire_write, wire_read = demo_wire_read, zstd_encode = Inr, zstd_decode = Inr\<rparr>"

section \<open>The hypotheses hold\<close>

lemma demo_ext_fields [simp]:
  "keccak256 demo_ext = demo_digest" "sha256 demo_ext = demo_digest" "vk_from_sec1 demo_ext = demo_key_from"
  "vk_from_encoded_point demo_ext = demo_key_from" "vk_to_encoded demo_ext = demo_key_bytes"
  "sig_from_slice demo_ext = demo_sig_from" "sig_to_bytes demo_ext = demo_sig_bytes"
  "vk_verify_prehash demo_ext = demo_verify_prehash" "vk_verify_digest demo_ext = demo_verify_digest"
  "hex_encode demo_ext = demo_hex_encode" "hex_decode demo_ext = demo_hex_decode"
  "cose_from_slice demo_ext = demo_cose_from_slice" "cose_to_vec demo_ext = demo_cose_to_vec"
  "cose_tbs_data demo_ext = demo_tbs" "cose_header_to_vec demo_ext = demo_header_to_vec"
  "cbor_read demo_ext = demo_cbor_read" "cbor_write demo_ext = demo_cbor_write"
  "wire_write demo_ext = demo_wire_write" "wire_read demo_ext = demo_wire_read"
  "zstd_encode demo_ext = Inr" "zstd_decode demo_ext = Inr"
  by (simp_all add: demo_ext_def)

lemma demo_ecdsa: "ecdsa_codec_ok demo_ext"
  by (auto simp: ecdsa_codec_ok_def demo_key_bytes_def demo_key_from_def demo_sig_bytes_def demo_sig_from_def bit_byte_def)

lemma demo_hex: "hex_codec_ok demo_ext"
  by (simp add: hex_codec_ok_def demo_hex_roundtrip)

lemma demo_hex_odd: "odd (length s) \<Longrightarrow> \<exists>e. hex_decode demo_ext s = Inl e"
  by (simp add: demo_hex_decode_def)

lemma demo_prehash: "prehash_ok demo_ext"
  by (simp add: prehash_ok_def demo_verify_prehash_def demo_verify_digest_def demo_digest_def bit_byte_def)

lemma demo_signer: "signer_ok demo_ext k (demo_sign k)"
  by (simp add: signer_ok_def demo_sign_def demo_verify_digest_def)

lemma demo_header_protected [simp]:
  "demo_header_to_vec (protected_of s t mt) = Inr (to_be_bytes s @ to_be_bytes t @ [message_type_as_u8 mt])"
  by (cases mt) (simp_all add: demo_header_to_vec_def protected_of_def header_labels)

lemma demo_header_from_bytes [simp]:
  "demo_header_from (to_be_bytes s @ to_be_bytes t @ [n]) = Some (s, t, n)"
  by (simp add: demo_header_from_def nth_append)

lemma demo_sig_structure: "sig_structure_ok demo_ext"
  by (simp add: sig_structure_ok_def demo_cbor_read_def demo_tbs_def build_cose_sig_structure_def demo_cbor_write_def)

lemma demo_wire: "wire_codec_ok demo_ext"
  by (auto simp: wire_codec_ok_def demo_wire_write_def demo_wire_read_def demo_digest_def
      split: list.splits if_splits)

lemma demo_cose: "cose_codec_ok demo_ext"
proof -
  have "demo_cose_from_slice b = Inr (parsed_back (cose_of s t mt payload p sg) None)"
    if "demo_cose_to_vec (cose_of s t mt payload p sg) = Inr b" for s t mt payload p sg b
  proof -
    from that have "length p = 64" "length sg = 64"
      "b = (to_be_bytes s @ to_be_bytes t @ [message_type_as_u8 mt]) @ p @ sg @ payload"
      by (auto simp: demo_cose_to_vec_def extract_pubkey_bytes_def unprotected_of_def split: if_splits)
    then show ?thesis
      by (simp add: demo_cose_from_slice_def parsed_back_def cose_of_def)
  qed
  then show ?thesis
    by (auto simp: cose_codec_ok_def Let_def demo_tbs_def)
qed

section \<open>A message and a batch\<close>

definition demo_message :: "u64 \<Rightarrow> u64 \<Rightarrow> message_type \<Rightarrow> bytes \<Rightarrow> bool \<Rightarrow> cbor_signed_message" where
  "demo_message s t mt payload k =
     CborSignedMessage ((to_be_bytes s @ to_be_bytes t @ [message_type_as_u8 mt]) @ replicate 64 (bit_byte k)
       @ demo_sig_bytes (k = even (length (to_be_bytes s @ to_be_bytes t @ [message_type_as_u8 mt] @ payload))) @ payload)"

lemma demo_verifying_key_to_bytes [simp]: "verifying_key_to_bytes demo_ext k = replicate 64 (bit_byte k)"
  by (simp add: verifying_key_to_bytes_def demo_key_bytes_def)

lemma demo_new_signed_message:
  "new_signed_message demo_ext s t mt payload k (demo_sign k) = Inr (demo_message s t mt payload k)"
  by (simp add: new_signed_message_def build_cose_sign1_def Let_def demo_sign_def demo_tbs_def demo_cose_to_vec_def
      extract_pubkey_bytes_def unprotected_of_def demo_message_def demo_sig_bytes_def del: replicate_Suc)

definition demo_batch :: cbor_batch where
  "demo_batch =
     (case new_batch demo_ext [demo_message 5 7 Changeset [1, 2] True] 9 (verifying_key_to_bytes demo_ext True)
        (demo_sign True) of Inr b \<Rightarrow> b | Inl e \<Rightarrow> undefined)"

lemma demo_requests:
  "sign_requests demo_ext True (demo_sign True) [(5, 7, Changeset, [1, 2])] = Inr [demo_message 5 7 Changeset [1, 2] True]"
  by (simp add: sign_requests_def demo_new_signed_message)

lemma demo_new_batch:
  "new_batch demo_ext [demo_message 5 7 Changeset [1, 2] True] 9 (verifying_key_to_bytes demo_ext True) (demo_sign True)
     = Inr demo_batch"
proof -
  have "message_sequence demo_ext (demo_message 5 7 Changeset [1, 2] True) = Inr 5"
    using sign_requests_sequence [OF demo_cose demo_requests, of 0] by simp
  then show ?thesis by (simp add: demo_batch_def new_batch_def Let_def demo_sign_def)
qed

lemma demo_to_cbor_zstd: "\<exists>c. to_cbor_zstd demo_ext demo_batch = Inr c"
proof -
  have "batch_wf demo_batch"
    using new_batch_wf [OF demo_wire demo_ecdsa _ demo_new_batch] by simp
  moreover have "cb_messages demo_batch = [demo_message 5 7 Changeset [1, 2] True]"
    by (rule new_batch_fields(2) [OF demo_ecdsa demo_new_batch])
  ultimately show ?thesis
    by (simp add: to_cbor_zstd_def to_cbor_def to_wire_def batch_wf_def demo_wire_write_def)
qed

section \<open>Witnesses\<close>

theorem build_then_verify_witness:
  "\<exists>m p. new_signed_message demo_ext 5 7 Withdrawal [1, 2, 3] True (demo_sign True) = Inr m
     \<and> verify_and_parse demo_ext m True = Inr p \<and> pm_sequence p = 5 \<and> pm_timestamp p = 7
     \<and> pm_message_type p = Withdrawal \<and> pm_payload p = [1, 2, 3]"
  using build_then_verify [OF demo_ecdsa demo_cose demo_signer demo_new_signed_message] demo_new_signed_message by blast

theorem verify_and_parse_sound_witness:
  "\<exists>p cose. verify_and_parse demo_ext (demo_message 5 7 Withdrawal [1, 2, 3] True) True = Inr p
     \<and> cose_from_slice demo_ext (as_bytes (demo_message 5 7 Withdrawal [1, 2, 3] True)) = Inr cose
     \<and> pm_signature p = cs_signature cose"
proof -
  obtain b where b: "build_cose_sign1 demo_ext 5 7 Withdrawal [1, 2, 3] True (demo_sign True) = Inr b"
    "demo_message 5 7 Withdrawal [1, 2, 3] True = CborSignedMessage b"
    using demo_new_signed_message [of 5 7 Withdrawal "[1, 2, 3]" True]
    by (auto simp: new_signed_message_def bind_r_eq_Inr)
  obtain p where "verify_and_parse demo_ext (demo_message 5 7 Withdrawal [1, 2, 3] True) True = Inr p"
    using build_then_verify_aux [OF demo_ecdsa demo_cose demo_signer b(1)] b(2) by (auto simp: verify_and_parse_def)
  with verify_and_parse_sound [OF this] show ?thesis by blast
qed

theorem batch_storage_roundtrip_witness:
  "\<exists>c. to_cbor_zstd demo_ext demo_batch = Inr c \<and> from_cbor_zstd demo_ext c = Inr demo_batch
     \<and> cb_messages demo_batch = [demo_message 5 7 Changeset [1, 2] True]"
  using demo_to_cbor_zstd batch_storage_roundtrip [OF demo_wire demo_ecdsa demo_new_batch] by blast

theorem sequenced_batch_accepted_witness:
  "verify_all_signatures demo_ext demo_batch = Inr ()
     \<and> (\<exists>sb. to_signed_batch demo_ext demo_batch = Inr sb \<and> verify_all_signed demo_ext sb = Inr ()
          \<and> sb_start_sequence sb = 5)"
  using sequenced_batch_accepted [OF demo_ecdsa demo_cose demo_hex demo_sig_structure demo_wire demo_prehash
      demo_signer demo_requests demo_new_batch] by auto


theorem retyped_message_accepted_witness:
  "\<exists>sm. to_signed_message demo_ext (demo_message 5 7 Changeset [1, 2] True) True = Inr sm \<and> sm_message_type sm = Changeset
     \<and> verify_signature demo_ext (sm\<lparr>sm_message_type := Withdrawal\<rparr>) = Inr ()"
  using retyped_message_accepted [OF demo_ecdsa demo_cose demo_hex demo_sig_structure demo_signer demo_new_signed_message] .

theorem verify_all_signed_subset_witness:
  "\<exists>sb. to_signed_batch demo_ext demo_batch = Inr sb \<and> sb_messages sb \<noteq> []
     \<and> verify_all_signed demo_ext (sb\<lparr>sb_messages := []\<rparr>) = Inr ()"
proof -
  obtain sb where sb: "to_signed_batch demo_ext demo_batch = Inr sb" "verify_all_signed demo_ext sb = Inr ()"
    "map request_of (sb_messages sb) = [(5, 7, Changeset, [1, 2])]"
    using sequenced_batch_converts [OF demo_ecdsa demo_cose demo_hex demo_sig_structure demo_wire demo_prehash
      demo_signer demo_requests demo_new_batch]
    by (elim exE conjE) (rule that)
  have "verify_all_signed demo_ext (sb\<lparr>sb_messages := []\<rparr>) = Inr ()"
    by (rule verify_all_signed_subset [OF sb(2)]) simp
  moreover have "sb_messages sb \<noteq> []" using sb(3) by (cases "sb_messages sb") simp_all
  ultimately show ?thesis using sb(1) by blast
qed

end
