(* ===== verification/Inbox.thy ===== *)
theory Inbox
  imports Crates_Model
begin

text \<open>
  The sequencer's inbox, \<open>crates/synddb-sequencer/src/inbox.rs\<close>, with the key manager of
  \<open>crates/synddb-shared/src/keys.rs\<close>: assignment of sequence numbers, compression and signing of a
  message, the receipt, and the signature of a withdrawal for the Bridge contract.

  The atomic counter is the field \<open>ib_sequence\<close>; \<open>fetch_add\<close> is the first effect of
  \<open>sequence_message\<close> and stays when a later step fails. A failing \<open>expect\<close> is the outcome
  \<open>Panics\<close>. The key manager's alloy signer is a parameter: its public key, its address, and its
  signing function on 32-byte hashes. Timestamps (seconds of the system clock) are arguments.
\<close>

datatype 'a outcome = Returns 'a | Panics

section \<open>The key manager\<close>

text \<open>An alloy signature, with the 32-byte big-endian forms of \<open>r\<close> and \<open>s\<close>.\<close>

record alloy_signature =
  as_r :: bytes
  as_s :: bytes
  as_v :: bool

datatype key_error = SigningFailed string

fun show_key_error :: "key_error \<Rightarrow> string" where
  "show_key_error (SigningFailed e) = ''Signing failed: '' @ e"

record evm_key_manager =
  km_address :: string
  km_public_key :: bytes
  km_signer :: "bytes \<Rightarrow> string + alloy_signature"

definition sign_hash_sync :: "evm_key_manager \<Rightarrow> bytes \<Rightarrow> key_error + alloy_signature" where
  "sign_hash_sync km hash = map_err SigningFailed (km_signer km hash)"

definition sign_raw_sync :: "evm_key_manager \<Rightarrow> bytes \<Rightarrow> key_error + alloy_signature" where
  "sign_raw_sync km hash = sign_hash_sync km hash"

definition key_content_hash :: "('vk, 'sg) ext \<Rightarrow> bytes \<Rightarrow> bytes" where
  "key_content_hash x data = sha256 x data"

text \<open>Both the inbox (\<open>sign_cose\<close>) and the batcher (\<open>sign_batch_data\<close>) sign this way.\<close>

definition sign_cose :: "('vk, 'sg) ext \<Rightarrow> evm_key_manager \<Rightarrow> bytes \<Rightarrow> cbor_error + 'sg" where
  "sign_cose x km data =
     (let hash = keccak256 x data
      in bind_r (map_err (\<lambda>e. Signing (show_key_error e)) (sign_raw_sync km hash)) (\<lambda>alloy_sig.
         signature_from_bytes x (as_r alloy_sig @ as_s alloy_sig)))"

section \<open>The inbox\<close>

datatype inbox_error =
    InboxSigning string
  | InboxCbor cbor_error
  | InboxInvalidPublicKey string

fun show_inbox_error :: "inbox_error \<Rightarrow> string" where
  "show_inbox_error (InboxSigning e) = ''Signing error: '' @ e"
| "show_inbox_error (InboxCbor e) = ''CBOR encoding error: '' @ show_cbor_error e"
| "show_inbox_error (InboxInvalidPublicKey e) = ''Invalid public key: '' @ e"

record sequence_receipt =
  rc_sequence :: u64
  rc_timestamp :: u64
  rc_message_hash :: string
  rc_signature :: string
  rc_signer :: string

record bridge_signature =
  bs_message_id :: string
  bs_message_hash :: string
  bs_signature :: string
  bs_signer :: string

record inbox =
  ib_sequence :: u64
  ib_key_manager :: evm_key_manager

definition inbox_with_start_sequence :: "evm_key_manager \<Rightarrow> u64 \<Rightarrow> inbox" where
  "inbox_with_start_sequence km start = \<lparr>ib_sequence = start, ib_key_manager = km\<rparr>"

definition new_inbox :: "evm_key_manager \<Rightarrow> inbox" where
  "new_inbox km = inbox_with_start_sequence km 0"

definition current_sequence :: "inbox \<Rightarrow> u64" where
  "current_sequence ib = ib_sequence ib"

definition compress_payload :: "('vk, 'sg) ext \<Rightarrow> bytes \<Rightarrow> bytes outcome" where
  "compress_payload x data = (case zstd_encode x data of Inr c \<Rightarrow> Returns c | Inl _ \<Rightarrow> Panics)"

text \<open>The part of \<open>sequence_message\<close> after the payload is compressed.\<close>

definition sign_sequenced :: "('vk, 'sg) ext \<Rightarrow> evm_key_manager \<Rightarrow> u64 \<Rightarrow> u64 \<Rightarrow> message_type \<Rightarrow> bytes
  \<Rightarrow> inbox_error + cbor_signed_message \<times> sequence_receipt" where
  "sign_sequenced x km sequence timestamp mt compressed =
     bind_r (map_err (\<lambda>e. InboxInvalidPublicKey (show_cbor_error e))
               (verifying_key_from_bytes x (km_public_key km))) (\<lambda>verifying_key.
     bind_r (map_err InboxCbor (new_signed_message x sequence timestamp mt compressed verifying_key (sign_cose x km)))
       (\<lambda>cbor_message.
     bind_r (map_err InboxCbor (parse_without_verify x cbor_message)) (\<lambda>parsed.
     Inr (cbor_message,
          \<lparr>rc_sequence = sequence, rc_timestamp = timestamp,
           rc_message_hash = ''0x'' @ hex_encode x (keccak256 x compressed),
           rc_signature = ''0x'' @ hex_encode x (pm_signature parsed),
           rc_signer = ''0x'' @ hex_encode x (km_public_key km)\<rparr>))))"

definition sequence_message :: "('vk, 'sg) ext \<Rightarrow> message_type \<Rightarrow> bytes \<Rightarrow> u64 \<Rightarrow> inbox
  \<Rightarrow> inbox \<times> (inbox_error + cbor_signed_message \<times> sequence_receipt) outcome" where
  "sequence_message x mt payload now ib =
     (let sequence = ib_sequence ib;
          ib' = ib\<lparr>ib_sequence := sequence + 1\<rparr>
      in (ib', case compress_payload x payload of
                 Panics \<Rightarrow> Panics
               | Returns compressed \<Rightarrow> Returns (sign_sequenced x (ib_key_manager ib) sequence now mt compressed)))"

section \<open>Bridge signatures\<close>

definition bridge_message_id :: "('vk, 'sg) ext \<Rightarrow> string \<Rightarrow> inbox_error + bytes" where
  "bridge_message_id x message_id =
     (let hex = strip_0x message_id
      in if length hex = 64 \<and> list_all is_ascii_hexdigit hex
         then map_err (\<lambda>e. InboxSigning (''Invalid message_id hex: '' @ e)) (hex_decode x hex)
         else if list_all is_ascii_hexdigit hex \<and> hex \<noteq> []
         then bind_r (map_err (\<lambda>e. InboxSigning (''Invalid message_id hex: '' @ e)) (hex_decode x hex)) (\<lambda>bs.
              Inr (replicate (32 - min (length bs) 32) 0 @ take (min (length bs) 32) bs))
         else Inr (keccak256 x (str_bytes message_id)))"

definition bridge_hash :: "('vk, 'sg) ext \<Rightarrow> bytes \<Rightarrow> bytes \<Rightarrow> bytes \<Rightarrow> nat \<Rightarrow> bytes" where
  "bridge_hash x message_id target payload amount =
     keccak256 x (message_id @ target @ keccak256 x payload @ nat_be_bytes 32 amount)"

definition eip191_hash :: "('vk, 'sg) ext \<Rightarrow> bytes \<Rightarrow> bytes" where
  "eip191_hash x hash = keccak256 x (25 # str_bytes ''Ethereum Signed Message:'' @ [10] @ str_bytes ''32'' @ hash)"

definition signature_rsv :: "alloy_signature \<Rightarrow> bytes" where
  "signature_rsv sig = as_r sig @ as_s sig @ [if as_v sig then 28 else 27]"

definition sign_bridge_withdrawal :: "('vk, 'sg) ext \<Rightarrow> inbox \<Rightarrow> string \<Rightarrow> string \<Rightarrow> bytes \<Rightarrow> string
  \<Rightarrow> inbox_error + bridge_signature" where
  "sign_bridge_withdrawal x ib message_id target_address payload native_token_amount =
     bind_r (bridge_message_id x message_id) (\<lambda>message_id_b256.
     bind_r (map_err (\<lambda>e. InboxSigning (''Invalid target address hex: '' @ e))
               (hex_decode x (strip_0x target_address))) (\<lambda>target_bytes.
     if length target_bytes \<noteq> 20
     then Inl (InboxSigning (''Invalid target address length: expected 20 bytes, got ''
            @ show_nat (length target_bytes)))
     else
     bind_r (map_err (\<lambda>e. InboxSigning (''Invalid amount: '' @ e))
               (parse_int (2 ^ 128) native_token_amount)) (\<lambda>amount.
     let bridge_message_hash = bridge_hash x message_id_b256 target_bytes payload amount;
         eth_signed_hash = eip191_hash x bridge_message_hash
     in bind_r (map_err (\<lambda>e. InboxSigning (show_key_error e)) (sign_raw_sync (ib_key_manager ib) eth_signed_hash))
          (\<lambda>alloy_sig.
          Inr \<lparr>bs_message_id = ''0x'' @ hex_encode x message_id_b256,
               bs_message_hash = ''0x'' @ hex_encode x bridge_message_hash,
               bs_signature = ''0x'' @ hex_encode x (signature_rsv alloy_sig),
               bs_signer = km_address (ib_key_manager ib)\<rparr>))))"

definition verify_receipt_signer :: "('vk, 'sg) ext \<Rightarrow> sequence_receipt \<Rightarrow> bytes \<Rightarrow> bool" where
  "verify_receipt_signer x receipt expected_pubkey =
     (case hex_decode x (strip_0x (rc_signer receipt)) of
        Inl _ \<Rightarrow> False
      | Inr bs \<Rightarrow> bs = expected_pubkey)"

section \<open>What the theorems need of the key manager\<close>

text \<open>
  The public key is that of \<open>key\<close>, and what the signer returns for a hash verifies for it.
\<close>

definition key_manager_ok :: "('vk, 'sg) ext \<Rightarrow> evm_key_manager \<Rightarrow> 'vk \<Rightarrow> bool" where
  "key_manager_ok x km key \<longleftrightarrow> km_public_key km = verifying_key_to_bytes x key
     \<and> (\<forall>h a sg. km_signer km h = Inr a \<longrightarrow> sig_from_slice x (as_r a @ as_s a) = Inr sg
          \<longrightarrow> vk_verify_prehash x key h sg)"

section \<open>Lemmas\<close>

lemma sign_cose_ok:
  assumes "key_manager_ok x km key" and "prehash_ok x"
  shows "signer_ok x key (sign_cose x km)"
proof -
  have "vk_verify_digest x key d sg" if "sign_cose x km d = Inr sg" for d sg
  proof -
    from that obtain a where "km_signer km (keccak256 x d) = Inr a" "sig_from_slice x (as_r a @ as_s a) = Inr sg"
      by (auto simp: sign_cose_def Let_def bind_r_eq_Inr map_err_eq_Inr sign_raw_sync_def
          sign_hash_sync_def signature_from_bytes_def)
    with assms(1) have "vk_verify_prehash x key (keccak256 x d) sg" by (auto simp: key_manager_ok_def)
    with assms(2) show ?thesis by (simp add: prehash_ok_def)
  qed
  then show ?thesis by (simp add: signer_ok_def)
qed

lemma sequence_message_counter:
  "fst (sequence_message x mt payload now ib) = ib\<lparr>ib_sequence := ib_sequence ib + 1\<rparr>"
  by (simp add: sequence_message_def Let_def)

lemma sequence_message_ok:
  "snd (sequence_message x mt payload now ib) = Returns (Inr (m, r)) \<longleftrightarrow>
     (\<exists>c. zstd_encode x payload = Inr c \<and> sign_sequenced x (ib_key_manager ib) (ib_sequence ib) now mt c = Inr (m, r))"
  by (auto simp: sequence_message_def Let_def compress_payload_def split: sum.splits)

lemma sign_sequenced_ok:
  assumes "sign_sequenced x km s t mt c = Inr (m, r)" and "key_manager_ok x km key" and "ecdsa_codec_ok x"
  shows "new_signed_message x s t mt c key (sign_cose x km) = Inr m"
    and "\<exists>p. parse_without_verify x m = Inr p
       \<and> r = \<lparr>rc_sequence = s, rc_timestamp = t, rc_message_hash = ''0x'' @ hex_encode x (keccak256 x c),
              rc_signature = ''0x'' @ hex_encode x (pm_signature p),
              rc_signer = ''0x'' @ hex_encode x (verifying_key_to_bytes x key)\<rparr>"
proof -
  have k: "km_public_key km = verifying_key_to_bytes x key"
    using assms(2) by (simp add: key_manager_ok_def)
  note simps = sign_sequenced_def k verifying_key_roundtrip [OF assms(3)] bind_r_eq_Inr map_err_eq_Inr
  from assms(1) show "new_signed_message x s t mt c key (sign_cose x km) = Inr m" by (auto simp: simps)
  from assms(1) show "\<exists>p. parse_without_verify x m = Inr p
       \<and> r = \<lparr>rc_sequence = s, rc_timestamp = t, rc_message_hash = ''0x'' @ hex_encode x (keccak256 x c),
              rc_signature = ''0x'' @ hex_encode x (pm_signature p),
              rc_signer = ''0x'' @ hex_encode x (verifying_key_to_bytes x key)\<rparr>"
    by (auto simp: simps)
qed

text \<open>Requests one after the other, with the outcome of each.\<close>

fun sequence_all :: "('vk, 'sg) ext \<Rightarrow> (message_type \<times> bytes \<times> u64) list \<Rightarrow> inbox
  \<Rightarrow> inbox \<times> (inbox_error + cbor_signed_message \<times> sequence_receipt) outcome list" where
  "sequence_all x [] ib = (ib, [])"
| "sequence_all x ((mt, payload, now) # reqs) ib =
     (let (ib', o1) = sequence_message x mt payload now ib; (ib'', os) = sequence_all x reqs ib' in (ib'', o1 # os))"

lemma sequence_all_counter:
  "fst (sequence_all x reqs ib) = ib\<lparr>ib_sequence := ib_sequence ib + of_nat (length reqs)\<rparr>"
proof (induction reqs arbitrary: ib)
  case (Cons q reqs)
  then show ?case
    by (cases q) (simp add: split_beta Let_def sequence_message_counter add.assoc)
qed simp

lemma sequence_all_nth:
  "i < length reqs \<Longrightarrow> snd (sequence_all x reqs ib) ! i
     = (case reqs ! i of (mt, payload, now) \<Rightarrow>
         snd (sequence_message x mt payload now (ib\<lparr>ib_sequence := ib_sequence ib + of_nat i\<rparr>)))"
proof (induction reqs arbitrary: i ib)
  case (Cons q reqs)
  then show ?case
    by (cases q; cases i) (simp_all add: split_beta Let_def sequence_message_counter add.assoc)
qed simp

lemma sequence_all_length [simp]: "length (snd (sequence_all x reqs ib)) = length reqs"
  by (induction reqs arbitrary: ib) (auto simp: split_beta Let_def)

section \<open>Properties\<close>

text \<open>
  C8: Sequence numbers are consecutive in the order of the requests and never reused: the request
  at position \<open>i\<close> gets the start number plus \<open>i\<close>, whatever became of the requests before it, and the
  counter ends at the start number plus the number of requests. A request that fails uses its
  number up, so a failure leaves a gap.\<close>

theorem inbox_sequence_numbers:
  assumes "unat (ib_sequence ib) + length reqs < 2 ^ 64"
  shows "unat (current_sequence (fst (sequence_all x reqs ib))) = unat (ib_sequence ib) + length reqs
     \<and> (\<forall>i m r. i < length reqs \<and> snd (sequence_all x reqs ib) ! i = Returns (Inr (m, r))
          \<longrightarrow> unat (rc_sequence r) = unat (ib_sequence ib) + i)"
proof (intro conjI allI impI)
  show "unat (current_sequence (fst (sequence_all x reqs ib))) = unat (ib_sequence ib) + length reqs"
    using assms by (simp add: sequence_all_counter current_sequence_def unat_word_ariths unat_of_nat)
  fix i m r
  assume i: "i < length reqs \<and> snd (sequence_all x reqs ib) ! i = Returns (Inr (m, r))"
  obtain mt payload now where r: "reqs ! i = (mt, payload, now)" by (cases "reqs ! i")
  from i r have "rc_sequence r = ib_sequence ib + of_nat i"
    by (auto simp: sequence_all_nth sequence_message_ok sign_sequenced_def bind_r_eq_Inr map_err_eq_Inr)
  with i assms show "unat (rc_sequence r) = unat (ib_sequence ib) + i"
    by (simp add: unat_word_ariths unat_of_nat)
qed

text \<open>
  A sequenced message is what its receipt says: it verifies under the sequencer's key, carries
  the receipt's number and timestamp and the requested type, its payload decompresses to the
  request's payload and has the receipt's hash, and the receipt's signature is the message's; the
  receipt names the signer.\<close>

theorem sequence_message_receipt:
  assumes "ecdsa_codec_ok x" and "cose_codec_ok x" and "hex_codec_ok x" and "wire_codec_ok x" and "prehash_ok x"
    and "key_manager_ok x (ib_key_manager ib) key"
    and "snd (sequence_message x mt payload now ib) = Returns (Inr (m, r))"
  shows "\<exists>p. verify_and_parse x m key = Inr p
     \<and> pm_sequence p = ib_sequence ib \<and> rc_sequence r = ib_sequence ib
     \<and> pm_timestamp p = now \<and> rc_timestamp r = now \<and> pm_message_type p = mt
     \<and> zstd_decode x (pm_payload p) = Inr payload
     \<and> rc_message_hash r = ''0x'' @ hex_encode x (keccak256 x (pm_payload p))
     \<and> rc_signature r = ''0x'' @ hex_encode x (pm_signature p)
     \<and> verify_receipt_signer x r (verifying_key_to_bytes x key)"
proof -
  from assms(7) obtain c where c: "zstd_encode x payload = Inr c"
    and s: "sign_sequenced x (ib_key_manager ib) (ib_sequence ib) now mt c = Inr (m, r)"
    by (auto simp: sequence_message_ok)
  note built = sign_sequenced_ok(1) [OF s assms(6,1)]
  obtain b where b: "build_cose_sign1 x (ib_sequence ib) now mt c key (sign_cose x (ib_key_manager ib)) = Inr b"
    and m: "m = CborSignedMessage b"
    using built by (auto simp: new_signed_message_def bind_r_eq_Inr)
  obtain sg where v: "verify_and_parse_cose_sign1 x b key
      = Inr (parsed_of (ib_sequence ib) now mt c (verifying_key_to_bytes x key) (sig_to_bytes x sg))"
    using build_then_verify_aux [OF assms(1,2) sign_cose_ok [OF assms(6,5)] b] by blast
  have "parse_without_verify x m
      = Inr (parsed_of (ib_sequence ib) now mt c (verifying_key_to_bytes x key) (sig_to_bytes x sg))"
    using verify_and_parse_Inr [THEN iffD1, OF v] unfolding parse_without_verify_def m cbor_signed_message.sel by blast
  with sign_sequenced_ok(2) [OF s assms(6,1)] have
    r: "r = \<lparr>rc_sequence = ib_sequence ib, rc_timestamp = now,
          rc_message_hash = ''0x'' @ hex_encode x (keccak256 x c),
          rc_signature = ''0x'' @ hex_encode x (sig_to_bytes x sg),
          rc_signer = ''0x'' @ hex_encode x (verifying_key_to_bytes x key)\<rparr>"
    by (auto simp: parsed_of_def)
  show ?thesis
    using v c assms(3,4)
    by (simp add: verify_and_parse_def m parsed_of_def r wire_codec_ok_def hex_codec_ok_def verify_receipt_signer_def)
qed

text \<open>
  A withdrawal can be signed for the Bridge exactly when the message id is acceptable, the
  target is the hex form of 20 bytes, the amount is a decimal number below \<open>2 ^ 128\<close>, and the key
  manager signs; what is signed is the EIP-191 digest of the hash of id, target, payload hash and
  32-byte amount.\<close>

theorem sign_bridge_withdrawal_iff:
  "sign_bridge_withdrawal x ib message_id target payload amount = Inr b \<longleftrightarrow>
     (\<exists>i t n a. bridge_message_id x message_id = Inr i
        \<and> hex_decode x (strip_0x target) = Inr t \<and> length t = 20
        \<and> parse_nat (2 ^ 128) amount = Some n
        \<and> km_signer (ib_key_manager ib) (eip191_hash x (bridge_hash x i t payload n)) = Inr a
        \<and> b = \<lparr>bs_message_id = ''0x'' @ hex_encode x i,
               bs_message_hash = ''0x'' @ hex_encode x (bridge_hash x i t payload n),
               bs_signature = ''0x'' @ hex_encode x (signature_rsv a),
               bs_signer = km_address (ib_key_manager ib)\<rparr>)"
proof -
  have p: "parse_int (2 ^ 128) amount = Inr n \<longleftrightarrow> parse_nat (2 ^ 128) amount = Some n" for n
    by (rule parse_int_Inr) simp
  show ?thesis
    unfolding sign_bridge_withdrawal_def bind_r_eq_Inr map_err_eq_Inr p [symmetric] Let_def
      sign_raw_sync_def sign_hash_sync_def
    by (auto simp: bind_r_eq_Inr map_err_eq_Inr split: if_splits)
qed

text \<open>
  A request id that consists of an odd number of hex digits (\<open>123\<close>, \<open>abc\<close>) cannot be signed
  for the Bridge, although the code means to pad short hex ids with zeros: the digits are decoded
  in pairs, and the hex crate refuses an odd number of them.\<close>

theorem odd_hex_request_id_fails:
  assumes "list_all is_ascii_hexdigit (strip_0x i)" and "odd (length (strip_0x i))"
    and "\<And>s. odd (length s) \<Longrightarrow> \<exists>e. hex_decode x s = Inl e"
  shows "\<exists>e. sign_bridge_withdrawal x ib i target payload amount = Inl e"
proof -
  have "length (strip_0x i) \<noteq> 64" "strip_0x i \<noteq> []" using assms(2) by auto
  moreover obtain e where "hex_decode x (strip_0x i) = Inl e" using assms(2,3) by blast
  ultimately have "bridge_message_id x i = Inl (InboxSigning (''Invalid message_id hex: '' @ e))"
    using assms(1) by (simp add: bridge_message_id_def Let_def)
  then show ?thesis by (simp add: sign_bridge_withdrawal_def)
qed

text \<open>
  Every accepted id becomes 32 bytes; an id of more than 64 hex digits is cut to its first 32
  bytes, so ids that agree there get the same Bridge message id.\<close>

theorem bridge_message_id_length:
  assumes "\<And>s bs. hex_decode x s = Inr bs \<Longrightarrow> length s = 2 * length bs" and "\<And>d. length (keccak256 x d) = 32"
    and "bridge_message_id x i = Inr b"
  shows "length b = 32 \<and> (64 < length (strip_0x i) \<and> list_all is_ascii_hexdigit (strip_0x i)
     \<longrightarrow> (\<exists>bs. hex_decode x (strip_0x i) = Inr bs \<and> b = take 32 bs))"
proof (cases "hex_decode x (strip_0x i)")
  case (Inl e)
  with assms(2,3) show ?thesis by (auto simp: bridge_message_id_def Let_def split: if_splits)
next
  case (Inr bs)
  have "length (strip_0x i) = 2 * length bs" using assms(1) [OF Inr] .
  with Inr assms(2,3) show ?thesis by (auto simp: bridge_message_id_def Let_def split: if_splits)
qed

section \<open>Witnesses\<close>

definition demo_key_manager :: "bool \<Rightarrow> evm_key_manager" where
  "demo_key_manager k =
     \<lparr>km_address = ''0xab'', km_public_key = replicate 64 (bit_byte k),
      km_signer = (\<lambda>h. Inr \<lparr>as_r = replicate 32 (bit_byte (k = (hd h = 1))),
                           as_s = replicate 32 (bit_byte (k = (hd h = 1))), as_v = True\<rparr>)\<rparr>"

lemma demo_key_manager_ok: "key_manager_ok demo_ext (demo_key_manager k) k"
  by (auto simp: key_manager_ok_def demo_key_manager_def demo_verify_prehash_def demo_sig_from_def demo_sig_bytes_def
      bit_byte_def replicate_add [symmetric] split: if_splits)

lemma demo_sign_cose: "\<exists>sg. sign_cose demo_ext (demo_key_manager k) d = Inr sg"
  by (auto simp: sign_cose_def Let_def sign_raw_sync_def sign_hash_sync_def demo_key_manager_def
      signature_from_bytes_def demo_sig_from_def demo_sig_bytes_def bit_byte_def replicate_add [symmetric])

lemma demo_build_any_signer:
  assumes "\<And>d. \<exists>sg. sign_fn d = Inr sg"
  shows "\<exists>m. new_signed_message demo_ext s t mt payload k sign_fn = Inr m"
proof -
  obtain sg where "sign_fn (demo_tbs (cose_of s t mt payload (replicate 64 (bit_byte k)) [])) = Inr sg"
    using assms by blast
  then show ?thesis
    by (simp add: new_signed_message_def build_cose_sign1_def Let_def demo_cose_to_vec_def
      extract_pubkey_bytes_def unprotected_of_def demo_sig_bytes_def del: replicate_Suc)
qed

lemma demo_sequence_message:
  assumes "ib_key_manager ib = demo_key_manager k"
  shows "\<exists>m r. snd (sequence_message demo_ext mt payload now ib) = Returns (Inr (m, r))"
proof -
  obtain m where m: "new_signed_message demo_ext (ib_sequence ib) now mt payload k (sign_cose demo_ext (demo_key_manager k)) = Inr m"
    using demo_build_any_signer [of "sign_cose demo_ext (demo_key_manager k)"] demo_sign_cose by blast
  then obtain b where b: "build_cose_sign1 demo_ext (ib_sequence ib) now mt payload k (sign_cose demo_ext (demo_key_manager k)) = Inr b"
    "m = CborSignedMessage b" by (auto simp: new_signed_message_def bind_r_eq_Inr)
  obtain p where "verify_and_parse_cose_sign1 demo_ext b k = Inr p"
    using build_then_verify_aux [OF demo_ecdsa demo_cose sign_cose_ok [OF demo_key_manager_ok demo_prehash] b(1)] by blast
  then have p: "parse_without_verify demo_ext m = Inr p"
    using verify_and_parse_Inr [of demo_ext b k p] unfolding parse_without_verify_def b(2) cbor_signed_message.sel by blast
  have key: "verifying_key_from_bytes demo_ext (km_public_key (demo_key_manager k)) = Inr k"
    using verifying_key_roundtrip [OF demo_ecdsa, of k] by (simp add: demo_key_manager_def)
  have "\<exists>r. sign_sequenced demo_ext (demo_key_manager k) (ib_sequence ib) now mt payload = Inr (m, r)"
    by (simp add: sign_sequenced_def key m p)
  then show ?thesis using assms by (auto simp: sequence_message_ok)
qed

theorem inbox_sequence_numbers_witness:
  "unat (current_sequence (fst (sequence_all demo_ext [(Changeset, [1], 7), (Withdrawal, [2], 8)]
       (inbox_with_start_sequence (demo_key_manager True) 5)))) = 7
   \<and> (\<exists>m r. snd (sequence_all demo_ext [(Changeset, [1], 7), (Withdrawal, [2], 8)]
       (inbox_with_start_sequence (demo_key_manager True) 5)) ! 1 = Returns (Inr (m, r)) \<and> unat (rc_sequence r) = 6)"
proof -
  let ?ib = "inbox_with_start_sequence (demo_key_manager True) 5"
  let ?reqs = "[(Changeset, [1], 7), (Withdrawal, [2], 8)]"
  obtain m r where mr: "snd (sequence_all demo_ext ?reqs ?ib) ! 1 = Returns (Inr (m, r))"
    using demo_sequence_message [of "?ib\<lparr>ib_sequence := 6\<rparr>" True Withdrawal "[2]" 8]
    by (auto simp: sequence_message_counter split_beta Let_def inbox_with_start_sequence_def)
  have bound: "unat (ib_sequence ?ib) + length ?reqs < 2 ^ 64" by (simp add: inbox_with_start_sequence_def)
  note nums = inbox_sequence_numbers [OF bound, of demo_ext]
  from nums have "unat (rc_sequence r) = unat (ib_sequence ?ib) + 1"
    using mr by (elim conjE allE [of _ 1] allE [of _ m] allE [of _ r] impE) simp_all
  moreover have "unat (ib_sequence ?ib) = 5" by (simp add: inbox_with_start_sequence_def)
  moreover from nums have "unat (current_sequence (fst (sequence_all demo_ext ?reqs ?ib))) = unat (ib_sequence ?ib) + 2"
    by (elim conjE) simp
  ultimately show ?thesis using mr by (intro conjI exI [of _ m] exI [of _ r]) linarith+
qed

theorem sequence_message_receipt_witness:
  "\<exists>m r p. snd (sequence_message demo_ext Snapshot [1, 2, 3] 7 (new_inbox (demo_key_manager True))) = Returns (Inr (m, r))
     \<and> verify_and_parse demo_ext m True = Inr p \<and> pm_sequence p = 0 \<and> rc_sequence r = 0
     \<and> zstd_decode demo_ext (pm_payload p) = Inr [1, 2, 3]"
proof -
  have km: "ib_key_manager (new_inbox (demo_key_manager True)) = demo_key_manager True"
    "ib_sequence (new_inbox (demo_key_manager True)) = 0"
    by (simp_all add: new_inbox_def inbox_with_start_sequence_def)
  obtain m r where mr: "snd (sequence_message demo_ext Snapshot [1, 2, 3] 7 (new_inbox (demo_key_manager True))) = Returns (Inr (m, r))"
    using demo_sequence_message [OF km(1)] by blast
  have ok: "key_manager_ok demo_ext (ib_key_manager (new_inbox (demo_key_manager True))) True"
    unfolding km by (rule demo_key_manager_ok)
  from sequence_message_receipt [OF demo_ecdsa demo_cose demo_hex demo_wire demo_prehash ok mr] mr
  show ?thesis unfolding km(2) by blast
qed

theorem odd_hex_request_id_fails_witness:
  "\<exists>e. sign_bridge_withdrawal demo_ext (new_inbox (demo_key_manager True)) ''123'' ''0x00'' [] ''7'' = Inl e"
  by (rule odd_hex_request_id_fails [OF _ _ demo_hex_odd]) (simp_all add: strip_0x_def is_ascii_hexdigit_def is_ascii_digit_def)

lemma hex_pairs_length: "even (length s) \<Longrightarrow> hex_pairs s = Inr bs \<Longrightarrow> length s = 2 * length bs"
  by (induction s arbitrary: bs rule: hex_pairs.induct) (auto simp: bind_r_eq_Inr split: option.splits)

theorem bridge_message_id_length_witness:
  "bridge_message_id demo_ext ''0xff'' = Inr (replicate 31 0 @ [255])
     \<and> length (replicate 31 (0 :: u8) @ [255]) = 32"
proof -
  have v: "bridge_message_id demo_ext ''0xff'' = Inr (replicate 31 0 @ [255])"
    by (simp add: bridge_message_id_def Let_def demo_hex_decode_def hex_val_def is_ascii_hexdigit_def is_ascii_digit_def)
  have "length s = 2 * length bs" if "hex_decode demo_ext s = Inr bs" for s bs
    using that by (auto simp: demo_hex_decode_def hex_pairs_length split: if_splits)
  from bridge_message_id_length [OF this _ v] v show ?thesis by (simp add: demo_digest_def)
qed

end
