(* ===== verification/Batch_Info.thy ===== *)
theory Batch_Info
  imports Rust_Std
begin

text \<open>
  Batch metadata shared by sequencer and validator, \<open>crates/synddb-shared/src/types/batch.rs\<close>:
  \<open>BatchInfo\<close> with its range predicates, and the file names of stored batches. The name of a
  batch parses back to its range, and the number of messages is the size of the range.
\<close>

record batch_info =
  bi_start_sequence :: u64
  bi_end_sequence :: u64
  bi_path :: string
  bi_content_hash :: bytes

definition is_zero_hash :: "bytes \<Rightarrow> bool" where
  "is_zero_hash hash = list_all (\<lambda>b. b = 0) hash"

definition new_batch_info :: "u64 \<Rightarrow> u64 \<Rightarrow> string \<Rightarrow> batch_info" where
  "new_batch_info s e path =
     \<lparr>bi_start_sequence = s, bi_end_sequence = e, bi_path = path, bi_content_hash = replicate 32 0\<rparr>"

definition batch_info_with_hash :: "u64 \<Rightarrow> u64 \<Rightarrow> string \<Rightarrow> bytes \<Rightarrow> batch_info" where
  "batch_info_with_hash s e path hash =
     \<lparr>bi_start_sequence = s, bi_end_sequence = e, bi_path = path, bi_content_hash = hash\<rparr>"

definition batch_contains :: "batch_info \<Rightarrow> u64 \<Rightarrow> bool" where
  "batch_contains b sequence \<longleftrightarrow> bi_start_sequence b \<le> sequence \<and> sequence \<le> bi_end_sequence b"

definition batch_is_empty :: "batch_info \<Rightarrow> bool" where
  "batch_is_empty b \<longleftrightarrow> bi_end_sequence b < bi_start_sequence b"

definition batch_len :: "batch_info \<Rightarrow> u64" where
  "batch_len b = (if batch_is_empty b then 0 else bi_end_sequence b - bi_start_sequence b + 1)"

definition has_content_hash :: "batch_info \<Rightarrow> bool" where
  "has_content_hash b \<longleftrightarrow> \<not> is_zero_hash (bi_content_hash b)"

definition parse_batch_filename :: "string \<Rightarrow> (u64 \<times> u64) option" where
  "parse_batch_filename filename =
     (case strip_suffix ''.cbor.zst'' filename of
        None \<Rightarrow> None
      | Some without_ext \<Rightarrow>
         (case split_on (CHR ''_'') without_ext of
            s # e # rest \<Rightarrow>
             (case parse_u64 s of
                None \<Rightarrow> None
              | Some start \<Rightarrow>
                 (case parse_u64 e of
                    None \<Rightarrow> None
                  | Some end \<Rightarrow> if rest \<noteq> [] then None else Some (start, end)))
          | _ \<Rightarrow> None))"

definition format_batch_filename :: "u64 \<Rightarrow> u64 \<Rightarrow> string" where
  "format_batch_filename start_sequence end_sequence =
     zero_pad 12 (show_u64 start_sequence) @ ''_'' @ zero_pad 12 (show_u64 end_sequence) @ ''.cbor.zst''"

section \<open>Lemmas\<close>

lemma underscore_not_in_pad: "CHR ''_'' \<notin> set (zero_pad k (show_u64 w))"
proof -
  have "list_all is_ascii_digit (zero_pad k (show_u64 w))"
    by (simp add: list_all_zero_pad show_u64_def show_nat_digits)
  then show ?thesis by (auto simp: list_all_iff is_ascii_digit_def)
qed

lemma batch_contains_card:
  assumes "\<not> batch_is_empty b"
  shows "{s. batch_contains b s} = {bi_start_sequence b .. bi_end_sequence b}"
  using assms by (auto simp: batch_contains_def)

lemma unat_batch_len:
  assumes "batch_len b \<noteq> 0"
  shows "unat (batch_len b) = unat (bi_end_sequence b) + 1 - unat (bi_start_sequence b)"
proof -
  from assms have le: "bi_start_sequence b \<le> bi_end_sequence b"
    and nz: "bi_end_sequence b - bi_start_sequence b + 1 \<noteq> 0"
    by (auto simp: batch_len_def batch_is_empty_def not_less split: if_splits)
  from nz have "unat (bi_end_sequence b - bi_start_sequence b + 1)
      = Suc (unat (bi_end_sequence b - bi_start_sequence b))"
    by (metis add.commute unatSuc)
  with le show ?thesis
    by (simp add: batch_len_def batch_is_empty_def not_less unat_sub word_le_nat_alt)
qed

section \<open>Properties\<close>

text \<open>
  The file name of a batch parses back to the range it was formatted from, for all 64-bit
  sequence numbers, those of more than twelve digits included.\<close>

theorem batch_filename_roundtrip:
  "parse_batch_filename (format_batch_filename s e) = Some (s, e)"
proof -
  have "strip_suffix ''.cbor.zst'' (format_batch_filename s e)
      = Some (zero_pad 12 (show_u64 s) @ CHR ''_'' # zero_pad 12 (show_u64 e))"
    by (simp add: format_batch_filename_def strip_suffix_Some)
  moreover have "split_on (CHR ''_'') (zero_pad 12 (show_u64 s) @ CHR ''_'' # zero_pad 12 (show_u64 e))
      = [zero_pad 12 (show_u64 s), zero_pad 12 (show_u64 e)]"
    by (simp add: split_on_append_delim split_on_no_delim underscore_not_in_pad)
  ultimately show ?thesis by (simp add: parse_batch_filename_def)
qed

end
