(* ===== verification/Btree_Map.thy ===== *)
theory Btree_Map
  imports Prelude
begin

text \<open>
  \<open>std::collections::BTreeMap\<close> as a list of entries in ascending key order: \<open>insert\<close> replaces the
  value of a present key, \<open>values\<close> iterates in key order, \<open>remove\<close> and \<open>retain\<close> keep the order.
\<close>

type_synonym ('k, 'v) btree = "('k \<times> 'v) list"

fun bt_insert :: "'k::linorder \<Rightarrow> 'v \<Rightarrow> ('k, 'v) btree \<Rightarrow> ('k, 'v) btree" where
  "bt_insert k v [] = [(k, v)]"
| "bt_insert k v ((k', v') # t) =
     (if k < k' then (k, v) # (k', v') # t
      else if k = k' then (k, v) # t
      else (k', v') # bt_insert k v t)"

definition bt_get :: "'k \<Rightarrow> ('k, 'v) btree \<Rightarrow> 'v option" where
  "bt_get k t = map_of t k"

definition bt_values :: "('k, 'v) btree \<Rightarrow> 'v list" where
  "bt_values t = map snd t"

definition bt_keys :: "('k, 'v) btree \<Rightarrow> 'k list" where
  "bt_keys t = map fst t"

definition bt_remove :: "'k \<Rightarrow> ('k, 'v) btree \<Rightarrow> ('k, 'v) btree" where
  "bt_remove k t = filter (\<lambda>(k', v). k' \<noteq> k) t"

definition bt_sorted :: "('k::linorder, 'v) btree \<Rightarrow> bool" where
  "bt_sorted t \<longleftrightarrow> sorted_wrt (<) (map fst t)"

lemma bt_sorted_Nil [simp]: "bt_sorted []"
  by (simp add: bt_sorted_def)

lemma bt_sorted_Cons [simp]: "bt_sorted ((k, v) # t) \<longleftrightarrow> (\<forall>k' \<in> fst ` set t. k < k') \<and> bt_sorted t"
  by (auto simp: bt_sorted_def)

lemma fst_set_bt_insert [simp]: "fst ` set (bt_insert k v t) = insert k (fst ` set t)"
  by (induction k v t rule: bt_insert.induct) (simp_all add: insert_commute)

lemma bt_sorted_insert [simp]: "bt_sorted t \<Longrightarrow> bt_sorted (bt_insert k v t)"
proof (induction k v t rule: bt_insert.induct)
  case (2 k v k' v' t)
  then show ?case
    by (cases k k' rule: linorder_cases) (simp_all, (meson less_trans | order)+)
qed simp

lemma bt_get_insert [simp]: "bt_get k' (bt_insert k v t) = (if k' = k then Some v else bt_get k' t)"
  unfolding bt_get_def by (induction t) auto

lemma bt_get_Nil [simp]: "bt_get k [] = None"
  by (simp add: bt_get_def)

lemma bt_values_insert_new:
  "bt_sorted t \<Longrightarrow> bt_get k t = None \<Longrightarrow> set (bt_values (bt_insert k v t)) = insert v (set (bt_values t))"
  unfolding bt_get_def bt_values_def
  by (induction k v t rule: bt_insert.induct) (simp_all add: insert_commute split: if_splits)

lemma bt_get_remove [simp]: "bt_get k' (bt_remove k t) = (if k' = k then None else bt_get k' t)"
  unfolding bt_get_def bt_remove_def by (induction t) auto

lemma bt_sorted_remove [simp]: "bt_sorted t \<Longrightarrow> bt_sorted (bt_remove k t)"
  unfolding bt_sorted_def bt_remove_def by (induction t) auto

lemma bt_get_mem: "bt_sorted t \<Longrightarrow> bt_get k t = Some v \<longleftrightarrow> (k, v) \<in> set t"
  unfolding bt_get_def bt_sorted_def by (rule map_of_eq_Some_iff) (rule strict_sorted_iff [THEN iffD1, THEN conjunct2])

end
