(* ===== verification/Transport.thy ===== *)
theory Transport
  imports Crates_Model Batch_Info Btree_Map
begin

text \<open>
  Publication of batches: the contract of \<open>crates/synddb-sequencer/src/transport/traits.rs\<close> as the
  locale \<open>transport\<close>, and \<open>LocalTransport\<close> of \<open>transport/local.rs\<close> with both backends, the
  in-memory \<open>BTreeMap\<close> and the SQLite table, each an interpretation of the contract.

  SQL statements are modelled by their meaning on the table (rows in insertion order, one row per
  primary key). What the engine may do beyond that is the record \<open>sqlite_engine\<close>: the error of an
  \<open>INSERT\<close> other than a primary-key violation, and which row a \<open>SELECT\<close> without \<open>ORDER BY\<close> returns
  first.
\<close>

section \<open>The contract\<close>

datatype transport_error =
    Storage string
  | Serialization string
  | Network string
  | NotFound string
  | TransportConfig string
  | TransportSignature string

fun show_transport_error :: "transport_error \<Rightarrow> string" where
  "show_transport_error (Storage e) = ''Storage error: '' @ e"
| "show_transport_error (Serialization e) = ''Serialization error: '' @ e"
| "show_transport_error (Network e) = ''Network error: '' @ e"
| "show_transport_error (NotFound e) = ''Not found: '' @ e"
| "show_transport_error (TransportConfig e) = ''Configuration error: '' @ e"
| "show_transport_error (TransportSignature e) = ''Signature verification failed: '' @ e"

definition transport_error_from_cbor :: "cbor_error \<Rightarrow> transport_error" where
  "transport_error_from_cbor e = Serialization (show_cbor_error e)"

record publish_metadata =
  md_reference :: string
  md_content_hash :: bytes
  md_compressed_bytes :: nat
  md_uncompressed_bytes :: nat

text \<open>Publishing one batch after the other until the first error.\<close>

fun publish_all :: "(cbor_batch \<Rightarrow> 's \<Rightarrow> 's \<times> (transport_error + publish_metadata)) \<Rightarrow> cbor_batch list \<Rightarrow> 's \<Rightarrow> 's \<times> (transport_error + publish_metadata list)" where
  "publish_all pub [] s = (s, Inr [])"
| "publish_all pub (b # bs) s =
     (case snd (pub b s) of
        Inl e \<Rightarrow> (fst (pub b s), Inl e)
      | Inr md \<Rightarrow> (let (s', r) = publish_all pub bs (fst (pub b s)) in (s', bind_r r (\<lambda>mds. Inr (md # mds)))))"

text \<open>
  The contract: a batch published under a start sequence that is not in use can be fetched by it,
  and publishing leaves the batches under other start sequences alone. \<open>good\<close> says which batches
  the transport takes.
\<close>

locale transport =
  fixes pub :: "cbor_batch \<Rightarrow> 's \<Rightarrow> 's \<times> (transport_error + publish_metadata)"
    and fetch :: "'s \<Rightarrow> u64 \<Rightarrow> transport_error + cbor_batch option"
    and good :: "cbor_batch \<Rightarrow> bool"
    and inv :: "'s \<Rightarrow> bool"
  assumes pub_inv: "inv s \<Longrightarrow> inv (fst (pub b s))"
    and fetch_published: "inv s \<Longrightarrow> good b \<Longrightarrow> fetch s (cb_start_sequence b) = Inr None
      \<Longrightarrow> snd (pub b s) = Inr md \<Longrightarrow> fetch (fst (pub b s)) (cb_start_sequence b) = Inr (Some b)"
    and fetch_other: "inv s \<Longrightarrow> k \<noteq> cb_start_sequence b \<Longrightarrow> fetch (fst (pub b s)) k = fetch s k"
begin

lemma publish_all_other:
  "inv s \<Longrightarrow> k \<notin> cb_start_sequence ` set bs \<Longrightarrow> fetch (fst (publish_all pub bs s)) k = fetch s k"
  by (induction bs arbitrary: s) (auto simp: fetch_other pub_inv split_beta Let_def split: sum.splits)

lemma publish_all_fetch:
  assumes "inv s" and "\<forall>b \<in> set bs. good b" and "distinct (map cb_start_sequence bs)"
    and "\<forall>b \<in> set bs. fetch s (cb_start_sequence b) = Inr None"
    and "snd (publish_all pub bs s) = Inr mds" and "b \<in> set bs"
  shows "fetch (fst (publish_all pub bs s)) (cb_start_sequence b) = Inr (Some b)"
  using assms
proof (induction bs arbitrary: s mds)
  case (Cons a bs)
  from Cons.prems(5) obtain md mds' where md: "snd (pub a s) = Inr md"
    and rest: "snd (publish_all pub bs (fst (pub a s))) = Inr mds'"
    by (auto simp: split_beta Let_def bind_r_eq_Inr split: sum.splits)
  have inv': "inv (fst (pub a s))" using Cons.prems(1) by (rule pub_inv)
  have step: "fst (publish_all pub (a # bs) s) = fst (publish_all pub bs (fst (pub a s)))"
    by (simp add: md split_beta Let_def)
  show ?case
  proof (cases "b = a")
    case True
    have "fetch (fst (pub a s)) (cb_start_sequence a) = Inr (Some a)"
      by (rule fetch_published [OF Cons.prems(1) _ _ md]) (use Cons.prems in auto)
    then show ?thesis using Cons.prems(3) publish_all_other [OF inv', of "cb_start_sequence a" bs]
      unfolding True step by simp
  next
    case False
    then have b: "b \<in> set bs" using Cons.prems(6) by simp
    have "\<forall>b' \<in> set bs. fetch (fst (pub a s)) (cb_start_sequence b') = Inr None"
    proof
      fix b' assume "b' \<in> set bs"
      then have "cb_start_sequence b' \<noteq> cb_start_sequence a" using Cons.prems(3) by (auto simp: image_iff)
      then show "fetch (fst (pub a s)) (cb_start_sequence b') = Inr None"
        using fetch_other [OF Cons.prems(1)] Cons.prems(4) \<open>b' \<in> set bs\<close> by simp
    qed
    then show ?thesis unfolding step
      using Cons.IH [OF inv' _ _ _ rest b] Cons.prems by simp
  qed
qed simp

end

section \<open>LocalTransport\<close>

record stored_batch =
  sd_compressed_data :: bytes
  sd_uncompressed_size :: nat
  sd_content_hash :: bytes
  sd_start_sequence :: u64
  sd_end_sequence :: u64

datatype storage_inner =
    Memory "(u64, stored_batch) btree"
  | Sqlite "stored_batch list"

datatype sql_error =
    SqliteFailure bool string
  | SqlOther string

text \<open>\<open>SqliteFailure True\<close> is the constraint violation, \<open>SqliteFailure False\<close> any other code.\<close>

record sqlite_engine =
  insert_error :: "stored_batch \<Rightarrow> sql_error option"
  first_row :: "stored_batch list \<Rightarrow> stored_batch option"

datatype local_storage_backend = InMemory | SqliteFile string

definition new_local_transport :: "local_storage_backend \<Rightarrow> stored_batch list \<Rightarrow> storage_inner" where
  "new_local_transport backend existing_rows =
     (case backend of InMemory \<Rightarrow> Memory [] | SqliteFile path \<Rightarrow> Sqlite existing_rows)"

definition get_batch_compressed :: "storage_inner \<Rightarrow> u64 \<Rightarrow> bytes option" where
  "get_batch_compressed st start_sequence =
     map_option sd_compressed_data
       (case st of
          Memory batches \<Rightarrow> bt_get start_sequence batches
        | Sqlite rows \<Rightarrow> find (\<lambda>r. sd_start_sequence r = start_sequence) rows)"

definition get_batch :: "('vk, 'sg) ext \<Rightarrow> storage_inner \<Rightarrow> u64 \<Rightarrow> cbor_batch option" where
  "get_batch x st start_sequence =
     Option.bind (get_batch_compressed st start_sequence) (\<lambda>data. result_ok (from_cbor_zstd x data))"

definition stored_values :: "storage_inner \<Rightarrow> stored_batch list" where
  "stored_values st =
     (case st of Memory batches \<Rightarrow> bt_values batches | Sqlite rows \<Rightarrow> sort_key sd_start_sequence rows)"

definition list_batch_info :: "storage_inner \<Rightarrow> batch_info list" where
  "list_batch_info st =
     map (\<lambda>s. batch_info_with_hash (sd_start_sequence s) (sd_end_sequence s)
            (''local://'' @ show_u64 (sd_start_sequence s)) (sd_content_hash s)) (stored_values st)"

definition latest_sequence :: "storage_inner \<Rightarrow> u64 option" where
  "latest_sequence st =
     (case map sd_end_sequence (stored_values st) of [] \<Rightarrow> None | e # es \<Rightarrow> Some (fold max es e))"

definition find_containing :: "sqlite_engine \<Rightarrow> storage_inner \<Rightarrow> u64 \<Rightarrow> bytes option" where
  "find_containing eng st sequence =
     map_option sd_compressed_data
       (case st of
          Memory batches \<Rightarrow>
            find (\<lambda>s. sequence \<ge> sd_start_sequence s \<and> sequence \<le> sd_end_sequence s) (bt_values batches)
        | Sqlite rows \<Rightarrow>
            first_row eng (filter (\<lambda>s. sd_start_sequence s \<le> sequence \<and> sd_end_sequence s \<ge> sequence) rows))"

fun first_signed :: "('vk, 'sg) ext \<Rightarrow> u64 \<Rightarrow> cbor_signed_message list \<Rightarrow> signed_message option" where
  "first_signed x sequence [] = None"
| "first_signed x sequence (m # ms) =
     (if result_ok (message_sequence x m) = Some sequence
      then case to_signed_message_unchecked x m of Inr sm \<Rightarrow> Some sm | Inl _ \<Rightarrow> first_signed x sequence ms
      else first_signed x sequence ms)"

definition get_signed_message :: "('vk, 'sg) ext \<Rightarrow> sqlite_engine \<Rightarrow> storage_inner \<Rightarrow> u64 \<Rightarrow> signed_message option" where
  "get_signed_message x eng st sequence =
     Option.bind (find_containing eng st sequence) (\<lambda>data.
     Option.bind (result_ok (from_cbor_zstd x data)) (\<lambda>batch.
     first_signed x sequence (cb_messages batch)))"

definition insert_row :: "sqlite_engine \<Rightarrow> stored_batch \<Rightarrow> stored_batch list \<Rightarrow> stored_batch list \<times> (sql_error + unit)" where
  "insert_row eng row rows =
     (case insert_error eng row of
        Some e \<Rightarrow> (rows, Inl e)
      | None \<Rightarrow> if sd_start_sequence row \<in> sd_start_sequence ` set rows
                then (rows, Inl (SqliteFailure True ''UNIQUE constraint failed: batches.start_sequence''))
                else (rows @ [row], Inr ()))"

definition local_publish :: "('vk, 'sg) ext \<Rightarrow> sqlite_engine \<Rightarrow> cbor_batch \<Rightarrow> storage_inner
  \<Rightarrow> storage_inner \<times> (transport_error + publish_metadata)" where
  "local_publish x eng batch st =
     (case map_err transport_error_from_cbor (to_cbor x batch) of
        Inl e \<Rightarrow> (st, Inl e)
      | Inr uncompressed \<Rightarrow>
         (case map_err transport_error_from_cbor (to_cbor_zstd x batch) of
            Inl e \<Rightarrow> (st, Inl e)
          | Inr compressed \<Rightarrow>
             (let stored = \<lparr>sd_compressed_data = compressed, sd_uncompressed_size = length uncompressed,
                            sd_content_hash = cb_content_hash batch, sd_start_sequence = cb_start_sequence batch,
                            sd_end_sequence = cb_end_sequence batch\<rparr>;
                  md = \<lparr>md_reference = ''local://'' @ show_u64 (cb_start_sequence batch),
                        md_content_hash = cb_content_hash batch, md_compressed_bytes = length compressed,
                        md_uncompressed_bytes = length uncompressed\<rparr>
              in case st of
                   Memory batches \<Rightarrow> (Memory (bt_insert (cb_start_sequence batch) stored batches), Inr md)
                 | Sqlite rows \<Rightarrow>
                    (let (rows', result) = insert_row eng stored rows
                     in (Sqlite rows',
                         case result of
                           Inl (SqliteFailure constraint e) \<Rightarrow>
                             if \<not> constraint then Inl (Storage (''SQLite insert failed: '' @ e)) else Inr md
                         | _ \<Rightarrow> Inr md)))))"

definition local_fetch :: "('vk, 'sg) ext \<Rightarrow> storage_inner \<Rightarrow> u64 \<Rightarrow> transport_error + cbor_batch option" where
  "local_fetch x st start_sequence =
     (case get_batch_compressed st start_sequence of
        None \<Rightarrow> Inr None
      | Some data \<Rightarrow> bind_r (map_err transport_error_from_cbor (from_cbor_zstd x data)) (\<lambda>b. Inr (Some b)))"

definition local_get_message :: "('vk, 'sg) ext \<Rightarrow> sqlite_engine \<Rightarrow> storage_inner \<Rightarrow> u64
  \<Rightarrow> transport_error + cbor_signed_message option" where
  "local_get_message x eng st sequence =
     (case find_containing eng st sequence of
        None \<Rightarrow> Inr None
      | Some data \<Rightarrow>
          bind_r (map_err transport_error_from_cbor (from_cbor_zstd x data)) (\<lambda>batch.
          Inr (find (\<lambda>m. result_ok (message_sequence x m) = Some sequence) (cb_messages batch))))"

text \<open>The HTTP routes under \<open>/storage\<close>; \<open>None\<close> is the status 404.\<close>

definition list_batches_handler :: "storage_inner \<Rightarrow> (u64 \<times> u64) list" where
  "list_batches_handler st = map (\<lambda>b. (bi_start_sequence b, bi_end_sequence b)) (list_batch_info st)"

definition get_batch_cbor_handler :: "storage_inner \<Rightarrow> u64 \<Rightarrow> bytes option" where
  "get_batch_cbor_handler st start = get_batch_compressed st start"

definition get_message_handler :: "('vk, 'sg) ext \<Rightarrow> sqlite_engine \<Rightarrow> storage_inner \<Rightarrow> u64 \<Rightarrow> signed_message option" where
  "get_message_handler x eng st sequence = get_signed_message x eng st sequence"

definition get_latest_handler :: "storage_inner \<Rightarrow> u64 option" where
  "get_latest_handler st = latest_sequence st"

section \<open>Both backends implement the contract\<close>

text \<open>Apart from primary-key violations, a failed insert is reported as a \<open>SqliteFailure\<close>.\<close>

definition engine_ok :: "sqlite_engine \<Rightarrow> bool" where
  "engine_ok eng \<longleftrightarrow> (\<forall>r e. insert_error eng r \<noteq> Some (SqlOther e) \<and> insert_error eng r \<noteq> Some (SqliteFailure True e))"

definition memory_inv :: "storage_inner \<Rightarrow> bool" where
  "memory_inv st \<longleftrightarrow> (case st of Memory batches \<Rightarrow> bt_sorted batches
      \<and> (\<forall>(k, v) \<in> set batches. sd_start_sequence v = k) | Sqlite _ \<Rightarrow> False)"

definition sqlite_inv :: "storage_inner \<Rightarrow> bool" where
  "sqlite_inv st \<longleftrightarrow> (case st of Sqlite rows \<Rightarrow> distinct (map sd_start_sequence rows) | Memory _ \<Rightarrow> False)"

definition stored_of :: "bytes \<Rightarrow> bytes \<Rightarrow> cbor_batch \<Rightarrow> stored_batch" where
  "stored_of c u b = \<lparr>sd_compressed_data = c, sd_uncompressed_size = length u, sd_content_hash = cb_content_hash b,
     sd_start_sequence = cb_start_sequence b, sd_end_sequence = cb_end_sequence b\<rparr>"

text \<open>A publication that fails before the insert changes nothing; the others insert the row.\<close>

lemma local_publish_cases:
  obtains (encode_error) e where "local_publish x eng b st = (st, Inl e)"
  | (memory) u c batches md where "to_cbor_zstd x b = Inr c" and "st = Memory batches"
      and "local_publish x eng b st = (Memory (bt_insert (cb_start_sequence b) (stored_of c u b) batches), Inr md)"
  | (sqlite) u c rows r where "to_cbor_zstd x b = Inr c" and "st = Sqlite rows"
      and "local_publish x eng b st = (Sqlite (fst (insert_row eng (stored_of c u b) rows)), r)"
      and "snd (insert_row eng (stored_of c u b) rows) = Inr () \<Longrightarrow> \<exists>md. r = Inr md"
      and "\<And>e. snd (insert_row eng (stored_of c u b) rows) = Inl (SqliteFailure False e) \<Longrightarrow> \<exists>e. r = Inl e"
proof (cases "to_cbor x b")
  case (Inl e)
  then show thesis using encode_error by (simp add: local_publish_def)
next
  case u: (Inr u)
  show thesis
  proof (cases "to_cbor_zstd x b")
    case (Inl e)
    with u show thesis using encode_error by (simp add: local_publish_def)
  next
    case c: (Inr c)
    show thesis
    proof (cases st)
      case (Memory batches)
      with u c show thesis using memory by (simp add: local_publish_def stored_of_def)
    next
      case (Sqlite rows)
      show thesis
        by (rule sqlite [OF c Sqlite, of u])
           (use u c Sqlite in \<open>auto simp: local_publish_def stored_of_def Let_def split_beta split: sum.splits sql_error.splits\<close>)
    qed
  qed
qed

lemma stored_of_sel [simp]:
  "sd_compressed_data (stored_of c u b) = c" "sd_start_sequence (stored_of c u b) = cb_start_sequence b"
  "sd_end_sequence (stored_of c u b) = cb_end_sequence b" "sd_content_hash (stored_of c u b) = cb_content_hash b"
  by (simp_all add: stored_of_def)

lemma fetch_by_data: "get_batch_compressed st k = get_batch_compressed st' k' \<Longrightarrow> local_fetch x st k = local_fetch x st' k'"
  by (simp add: local_fetch_def)

lemma fetch_stored:
  assumes "wire_codec_ok x" and "batch_wf b" and "to_cbor_zstd x b = Inr c" and "get_batch_compressed st k = Some c"
  shows "local_fetch x st k = Inr (Some b)"
  using cbor_zstd_roundtrip_aux [OF assms(1-3)] assms(4) by (simp add: local_fetch_def)

lemma fetch_None: "local_fetch x st k = Inr None \<longleftrightarrow> get_batch_compressed st k = None"
  by (auto simp: local_fetch_def bind_r_eq_Inr split: option.splits)

lemma find_append: "find P (xs @ ys) = (case find P xs of None \<Rightarrow> find P ys | Some x \<Rightarrow> Some x)"
  by (induction xs) auto

lemma set_bt_insert: "set (bt_insert k v t) \<subseteq> insert (k, v) (set t)"
  by (induction k v t rule: bt_insert.induct) auto

interpretation memory: transport "local_publish x eng" "local_fetch x" "\<lambda>b. wire_codec_ok x \<and> batch_wf b" memory_inv
  for x :: "('vk, 'sg) ext" and eng
proof
  fix s b
  assume inv: "memory_inv s"
  show "memory_inv (fst (local_publish x eng b s))"
    by (cases rule: local_publish_cases [of x eng b s])
       (use inv set_bt_insert in \<open>fastforce simp: memory_inv_def\<close>)+
  fix k
  show "k \<noteq> cb_start_sequence b \<Longrightarrow> local_fetch x (fst (local_publish x eng b s)) k = local_fetch x s k"
    by (cases rule: local_publish_cases [of x eng b s])
       (use inv in \<open>auto simp: memory_inv_def get_batch_compressed_def intro!: fetch_by_data\<close>)
  fix md
  assume b: "wire_codec_ok x \<and> batch_wf b" and ok: "snd (local_publish x eng b s) = Inr md"
  show "local_fetch x (fst (local_publish x eng b s)) (cb_start_sequence b) = Inr (Some b)"
    by (cases rule: local_publish_cases [of x eng b s])
       (use inv b ok in \<open>auto simp: memory_inv_def get_batch_compressed_def intro!: fetch_stored\<close>)
qed

lemma insert_row_fst:
  "fst (insert_row eng r rows) = (if insert_error eng r = None \<and> sd_start_sequence r \<notin> sd_start_sequence ` set rows
     then rows @ [r] else rows)"
  by (auto simp: insert_row_def split: option.splits)

lemma insert_row_snd:
  assumes "engine_ok eng" and "sd_start_sequence r \<notin> sd_start_sequence ` set rows"
  shows "(insert_error eng r = None \<and> snd (insert_row eng r rows) = Inr ())
     \<or> (\<exists>e. snd (insert_row eng r rows) = Inl (SqliteFailure False e))"
proof (cases "insert_error eng r")
  case (Some e)
  with assms(1) have "\<forall>m. e \<noteq> SqlOther m \<and> e \<noteq> SqliteFailure True m" by (auto simp: engine_ok_def)
  then obtain m where "e = SqliteFailure False m" by (cases e) (metis (full_types))+
  with Some show ?thesis by (simp add: insert_row_def)
qed (use assms in \<open>simp add: insert_row_def\<close>)

interpretation sqlite: transport "local_publish x eng" "local_fetch x"
    "\<lambda>b. wire_codec_ok x \<and> engine_ok eng \<and> batch_wf b" sqlite_inv
  for x :: "('vk, 'sg) ext" and eng
proof
  fix s b
  assume inv: "sqlite_inv s"
  show "sqlite_inv (fst (local_publish x eng b s))"
    by (cases rule: local_publish_cases [of x eng b s])
       (use inv in \<open>auto simp: sqlite_inv_def insert_row_fst\<close>)
  fix k
  show "k \<noteq> cb_start_sequence b \<Longrightarrow> local_fetch x (fst (local_publish x eng b s)) k = local_fetch x s k"
    by (cases rule: local_publish_cases [of x eng b s])
       (use inv in \<open>auto simp: sqlite_inv_def get_batch_compressed_def insert_row_fst find_append
          intro!: fetch_by_data split: option.splits\<close>)
  fix md
  assume b: "wire_codec_ok x \<and> engine_ok eng \<and> batch_wf b" and ok: "snd (local_publish x eng b s) = Inr md"
    and fresh: "local_fetch x s (cb_start_sequence b) = Inr None"
  show "local_fetch x (fst (local_publish x eng b s)) (cb_start_sequence b) = Inr (Some b)"
  proof (cases rule: local_publish_cases [of x eng b s])
    case (sqlite u c rows r)
    have new: "cb_start_sequence b \<notin> sd_start_sequence ` set rows"
      and find: "find (\<lambda>r. sd_start_sequence r = cb_start_sequence b) rows = None"
      using fresh by (auto simp: fetch_None get_batch_compressed_def sqlite(2) find_None_iff)
    have "insert_error eng (stored_of c u b) = None"
      using insert_row_snd [of eng "stored_of c u b" rows] b new sqlite(3,5) ok by auto
    then have "get_batch_compressed (fst (local_publish x eng b s)) (cb_start_sequence b) = Some c"
      using new find by (simp add: sqlite(3) get_batch_compressed_def insert_row_fst find_append)
    with b sqlite(1) show ?thesis by (auto intro: fetch_stored)
  qed (use inv ok in \<open>auto simp: sqlite_inv_def\<close>)
qed

section \<open>The set of stored batches\<close>

definition stored_from :: "('vk, 'sg) ext \<Rightarrow> cbor_batch list \<Rightarrow> storage_inner \<Rightarrow> bool" where
  "stored_from x bs st \<longleftrightarrow> (\<forall>s \<in> set (stored_values st). \<exists>b \<in> set bs. \<exists>c u. to_cbor_zstd x b = Inr c \<and> s = stored_of c u b)"

lemma set_stored_values:
  "set (stored_values st) = (case st of Memory t \<Rightarrow> snd ` set t | Sqlite rows \<Rightarrow> set rows)"
  by (simp add: stored_values_def bt_values_def split: storage_inner.splits)

lemma local_publish_stored:
  "s \<in> set (stored_values (fst (local_publish x eng b st))) \<Longrightarrow> s \<notin> set (stored_values st)
     \<Longrightarrow> \<exists>c u. to_cbor_zstd x b = Inr c \<and> s = stored_of c u b"
proof (cases rule: local_publish_cases [of x eng b st])
  case (memory u c batches md)
  assume "s \<in> set (stored_values (fst (local_publish x eng b st)))" "s \<notin> set (stored_values st)"
  then have "s \<in> snd ` set (bt_insert (cb_start_sequence b) (stored_of c u b) batches)" "s \<notin> snd ` set batches"
    unfolding memory(3) unfolding memory(2) by (simp_all add: set_stored_values)
  then have "s = stored_of c u b"
    using set_bt_insert [of "cb_start_sequence b" "stored_of c u b" batches] by (auto simp: image_iff)
  with memory(1) show ?thesis by blast
next
  case (sqlite u c rows r)
  assume "s \<in> set (stored_values (fst (local_publish x eng b st)))" "s \<notin> set (stored_values st)"
  then have "s \<in> set (fst (insert_row eng (stored_of c u b) rows))" "s \<notin> set rows"
    unfolding sqlite(3) unfolding sqlite(2) by (simp_all add: set_stored_values)
  then have "s = stored_of c u b" by (auto simp: insert_row_fst split: if_splits)
  with sqlite(1) show ?thesis by blast
qed simp

lemma stored_from_mono: "stored_from x as st \<Longrightarrow> set as \<subseteq> set cs \<Longrightarrow> stored_from x cs st"
  unfolding stored_from_def by blast

lemma publish_all_stored:
  "stored_from x as st \<Longrightarrow> set as \<union> set bs \<subseteq> set cs \<Longrightarrow> stored_from x cs (fst (publish_all (local_publish x eng) bs st))"
proof (induction bs arbitrary: as st)
  case Nil
  then show ?case by (auto intro: stored_from_mono)
next
  case (Cons b bs)
  have step: "stored_from x (b # as) (fst (local_publish x eng b st))"
    unfolding stored_from_def
  proof
    fix s assume s: "s \<in> set (stored_values (fst (local_publish x eng b st)))"
    show "\<exists>b' \<in> set (b # as). \<exists>c u. to_cbor_zstd x b' = Inr c \<and> s = stored_of c u b'"
    proof (cases "s \<in> set (stored_values st)")
      case True
      with Cons.prems(1) show ?thesis unfolding stored_from_def by (meson list.set_intros(2))
    next
      case False
      with local_publish_stored [OF s] show ?thesis by simp
    qed
  qed
  show ?case
  proof (cases "snd (local_publish x eng b st)")
    case (Inl e)
    then have "fst (publish_all (local_publish x eng) (b # bs) st) = fst (local_publish x eng b st)" by simp
    then show ?thesis using stored_from_mono [OF step] Cons.prems(2) by simp
  next
    case (Inr md)
    then have "fst (publish_all (local_publish x eng) (b # bs) st)
        = fst (publish_all (local_publish x eng) bs (fst (local_publish x eng b st)))"
      by (simp add: split_beta Let_def)
    with Cons.IH [OF step] Cons.prems(2) show ?thesis by simp
  qed
qed

definition local_good :: "('vk, 'sg) ext \<Rightarrow> sqlite_engine \<Rightarrow> cbor_batch \<Rightarrow> bool" where
  "local_good x eng b \<longleftrightarrow> wire_codec_ok x \<and> engine_ok eng \<and> batch_wf b"

lemma publish_all_new:
  assumes "\<forall>b \<in> set bs. local_good x eng b" and "distinct (map cb_start_sequence bs)"
    and "publish_all (local_publish x eng) bs (new_local_transport backend []) = (st, Inr mds)" and "b \<in> set bs"
  shows "local_fetch x st (cb_start_sequence b) = Inr (Some b)"
proof -
  have st: "st = fst (publish_all (local_publish x eng) bs (new_local_transport backend []))"
    and ok: "snd (publish_all (local_publish x eng) bs (new_local_transport backend [])) = Inr mds"
    using assms(3) by simp_all
  have none: "\<forall>b \<in> set bs. local_fetch x (new_local_transport backend []) (cb_start_sequence b) = Inr None"
    by (simp add: fetch_None get_batch_compressed_def new_local_transport_def split: local_storage_backend.splits)
  show ?thesis
  proof (cases backend)
    case InMemory
    then have "memory_inv (new_local_transport backend [])" by (simp add: memory_inv_def new_local_transport_def)
    then show ?thesis unfolding st
      by (rule memory.publish_all_fetch [OF _ _ assms(2) none ok assms(4)]) (use assms(1) in \<open>auto simp: local_good_def\<close>)
  next
    case (SqliteFile path)
    then have "sqlite_inv (new_local_transport backend [])" by (simp add: sqlite_inv_def new_local_transport_def)
    then show ?thesis unfolding st
      by (rule sqlite.publish_all_fetch [OF _ _ assms(2) none ok assms(4)]) (use assms(1) in \<open>auto simp: local_good_def\<close>)
  qed
qed

lemma bt_get_values: "bt_get k t = Some v \<Longrightarrow> v \<in> snd ` set t"
  by (auto simp: bt_get_def dest: map_of_SomeD intro: rev_image_eqI)

lemma compressed_in_values:
  "get_batch_compressed st k = Some c \<Longrightarrow> \<exists>s \<in> set (stored_values st). sd_compressed_data s = c"
  by (auto simp: get_batch_compressed_def set_stored_values dest: bt_get_values find_Some_in split: storage_inner.splits)

lemma find_containing_in:
  assumes "find_containing eng st q = Some c" and "\<And>rs r. first_row eng rs = Some r \<Longrightarrow> r \<in> set rs"
  shows "\<exists>s \<in> set (stored_values st). sd_compressed_data s = c \<and> sd_start_sequence s \<le> q \<and> q \<le> sd_end_sequence s"
  using assms
  by (fastforce simp: find_containing_def set_stored_values bt_values_def dest: find_Some_in split: storage_inner.splits)

lemma find_containing_some:
  assumes "s \<in> set (stored_values st)" and "sd_start_sequence s \<le> q" and "q \<le> sd_end_sequence s"
    and "\<And>rs. rs \<noteq> [] \<Longrightarrow> \<exists>r. first_row eng rs = Some r"
  shows "\<exists>c. find_containing eng st q = Some c"
proof (cases st)
  case (Memory t)
  with assms(1-3) have "find (\<lambda>s. q \<ge> sd_start_sequence s \<and> q \<le> sd_end_sequence s) (bt_values t) \<noteq> None"
    by (auto simp: find_None_iff set_stored_values bt_values_def)
  then show ?thesis by (simp add: find_containing_def Memory)
next
  case (Sqlite rows)
  with assms(1-3) have "filter (\<lambda>s. sd_start_sequence s \<le> q \<and> sd_end_sequence s \<ge> q) rows \<noteq> []"
    by (auto simp: filter_empty_conv set_stored_values)
  then show ?thesis using assms(4) by (fastforce simp: find_containing_def Sqlite)
qed

section \<open>Properties\<close>


text \<open>
  Looking a message up by its sequence number searches the right batch: when the published
  ranges do not overlap, the answer is the first message of that number in the batch whose range
  contains it, for both backends and whichever row the engine returns first.\<close>

theorem get_message_right_batch:
  assumes "\<forall>b \<in> set bs. local_good x eng b" and "distinct (map cb_start_sequence bs)"
    and "publish_all (local_publish x eng) bs (new_local_transport backend []) = (st, Inr mds)" and "b \<in> set bs"
    and "cb_start_sequence b \<le> q" and "q \<le> cb_end_sequence b"
    and "\<forall>a \<in> set bs. cb_start_sequence a \<le> q \<and> q \<le> cb_end_sequence a \<longrightarrow> a = b"
    and "\<And>rs. (rs \<noteq> [] \<longrightarrow> (\<exists>r. first_row eng rs = Some r)) \<and> (\<forall>r. first_row eng rs = Some r \<longrightarrow> r \<in> set rs)"
  shows "local_get_message x eng st q = Inr (find (\<lambda>m. message_sequence x m = Inr q) (cb_messages b))"
proof -
  have "stored_from x [] (new_local_transport backend [])"
    by (simp add: stored_from_def set_stored_values new_local_transport_def split: local_storage_backend.splits)
  from publish_all_stored [OF this, of bs bs eng] assms(3) have stored: "stored_from x bs st" by simp
  have "\<exists>c. get_batch_compressed st (cb_start_sequence b) = Some c \<and> from_cbor_zstd x c = Inr b"
    using publish_all_new [OF assms(1-4)]
    by (auto simp: local_fetch_def bind_r_eq_Inr map_err_eq_Inr split: option.splits)
  then obtain c where c: "get_batch_compressed st (cb_start_sequence b) = Some c" "from_cbor_zstd x c = Inr b" by blast
  from compressed_in_values [OF c(1)] obtain s where s: "s \<in> set (stored_values st)" "sd_compressed_data s = c" by blast
  obtain a where "a \<in> set bs" "\<exists>u. s = stored_of c u a" "to_cbor_zstd x a = Inr c"
    using stored s by (force simp: stored_from_def)
  moreover from this(1) assms(1) have "local_good x eng a" by blast
  ultimately have "a = b" "\<exists>u. s = stored_of c u b"
    using c(2) cbor_zstd_roundtrip_aux [of x a c] by (auto simp: local_good_def)
  then obtain d where d: "find_containing eng st q = Some d"
    using find_containing_some [OF s(1), of q eng] assms(5,6,8) by auto
  from find_containing_in [OF d] assms(8) obtain s' where s': "s' \<in> set (stored_values st)"
    "sd_compressed_data s' = d" "sd_start_sequence s' \<le> q" "q \<le> sd_end_sequence s'" by blast
  obtain a' where a': "a' \<in> set bs" "to_cbor_zstd x a' = Inr d" "\<exists>u. s' = stored_of d u a'"
    using stored s' by (force simp: stored_from_def)
  then have "a' = b" using assms(7) s'(3,4) by auto
  moreover have "local_good x eng a'" using assms(1) a'(1) by blast
  ultimately have "from_cbor_zstd x d = Inr b"
    using cbor_zstd_roundtrip_aux [of x a' d] a'(2) by (simp add: local_good_def)
  then show ?thesis by (simp add: local_get_message_def d)
qed

text \<open>
  An insert error that is not a \<open>SqliteFailure\<close> (for example a sequence number that does not
  fit SQLite's signed integers) is swallowed: the batch is reported as published, and the storage
  is unchanged.\<close>

theorem sqlite_publish_swallows_error:
  assumes "to_cbor x b = Inr u" and "to_cbor_zstd x b = Inr c" and "insert_error eng (stored_of c u b) = Some (SqlOther e)"
  shows "\<exists>md. local_publish x eng b (Sqlite rows) = (Sqlite rows, Inr md)"
  using assms by (simp add: local_publish_def insert_row_def stored_of_def)

text \<open>
  Publishing a second batch under a start sequence in use: the in-memory backend replaces the
  first batch, SQLite keeps it, and both report success.\<close>

theorem duplicate_publish:
  assumes "wire_codec_ok x" and "engine_ok eng" and "batch_wf a" and "batch_wf b"
    and "cb_start_sequence a = cb_start_sequence b"
    and "publish_all (local_publish x eng) [a, b] (new_local_transport backend []) = (st, Inr mds)"
  shows "local_fetch x st (cb_start_sequence b) = Inr (Some (case backend of InMemory \<Rightarrow> b | SqliteFile _ \<Rightarrow> a))"
proof -
  let ?s0 = "new_local_transport backend []"
  let ?s1 = "fst (local_publish x eng a ?s0)"
  from assms(6) obtain md md' where ok: "snd (local_publish x eng a ?s0) = Inr md" "snd (local_publish x eng b ?s1) = Inr md'"
    and st: "st = fst (local_publish x eng b ?s1)"
    by (auto simp: split_beta Let_def bind_r_eq_Inr split: sum.splits)
  have none: "local_fetch x ?s0 (cb_start_sequence a) = Inr None"
    by (simp add: fetch_None get_batch_compressed_def new_local_transport_def split: local_storage_backend.splits)
  show ?thesis
  proof (cases backend)
    case InMemory
    then have "memory_inv ?s1" by (intro memory.pub_inv) (simp add: memory_inv_def new_local_transport_def)
    then show ?thesis
      using local_publish_cases [of x eng b ?s1] InMemory ok(2) assms(1,4) unfolding st
      by (cases rule: local_publish_cases [of x eng b ?s1])
         (auto simp: memory_inv_def get_batch_compressed_def intro!: fetch_stored)
  next
    case (SqliteFile path)
    then have inv0: "sqlite_inv ?s0" by (simp add: sqlite_inv_def new_local_transport_def)
    have one: "local_fetch x ?s1 (cb_start_sequence b) = Inr (Some a)"
      using sqlite.fetch_published [OF inv0 _ none ok(1)] assms(1,2,3,5) by simp
    have "local_fetch x st (cb_start_sequence b) = local_fetch x ?s1 (cb_start_sequence b)" unfolding st
    proof (cases rule: local_publish_cases [of x eng b ?s1])
      case (sqlite u c rows r)
      have "cb_start_sequence b \<in> sd_start_sequence ` set rows"
        using one by (force simp: local_fetch_def get_batch_compressed_def sqlite(2) dest: find_Some_in split: option.splits)
      then show "local_fetch x (fst (local_publish x eng b ?s1)) (cb_start_sequence b) = local_fetch x ?s1 (cb_start_sequence b)"
        unfolding sqlite(3) unfolding sqlite(2) by (simp add: insert_row_fst)
    qed (use sqlite.pub_inv [OF inv0, of x eng a] in \<open>auto simp: sqlite_inv_def\<close>)
    with one show ?thesis by (simp add: SqliteFile)
  qed
qed

section \<open>Witnesses\<close>

definition demo_engine :: sqlite_engine where
  "demo_engine = \<lparr>insert_error = (\<lambda>_. None), first_row = (\<lambda>rs. case rs of [] \<Rightarrow> None | r # _ \<Rightarrow> Some r)\<rparr>"

definition demo_batch_at :: "u64 \<Rightarrow> u64 \<Rightarrow> cbor_batch" where
  "demo_batch_at s now = \<lparr>cb_version = BATCH_VERSION, cb_start_sequence = s, cb_end_sequence = s, cb_created_at = now,
     cb_content_hash = replicate 32 0, cb_messages = [demo_message s 7 Changeset [1] True],
     cb_batch_signature = replicate 64 0, cb_pubkey = replicate 64 0\<rparr>"

lemma demo_batch_at_sel [simp]:
  "cb_start_sequence (demo_batch_at s now) = s" "cb_end_sequence (demo_batch_at s now) = s"
  "cb_messages (demo_batch_at s now) = [demo_message s 7 Changeset [1] True]" "batch_wf (demo_batch_at s now)"
  by (simp_all add: demo_batch_at_def batch_wf_def)

lemma demo_batch_at_write: "\<exists>c. to_cbor demo_ext (demo_batch_at s now) = Inr c \<and> to_cbor_zstd demo_ext (demo_batch_at s now) = Inr c"
  by (simp add: to_cbor_def to_cbor_zstd_def demo_wire_write_def to_wire_def demo_batch_at_def)

lemma demo_good: "local_good demo_ext demo_engine (demo_batch_at s now)"
  by (simp add: local_good_def demo_wire engine_ok_def demo_engine_def)

lemma demo_publish: "\<exists>md. snd (local_publish demo_ext demo_engine (demo_batch_at s now) st) = Inr md"
proof -
  obtain c where "to_cbor demo_ext (demo_batch_at s now) = Inr c" "to_cbor_zstd demo_ext (demo_batch_at s now) = Inr c"
    using demo_batch_at_write by blast
  then show ?thesis
    by (simp add: local_publish_def insert_row_def demo_engine_def Let_def split_beta split: storage_inner.splits)
qed

lemma demo_publish_all:
  "\<exists>st mds. publish_all (local_publish demo_ext demo_engine) (map (\<lambda>(s, now). demo_batch_at s now) qs) st0 = (st, Inr mds)"
proof (induction qs arbitrary: st0)
  case (Cons q qs)
  obtain s now where q: "q = (s, now)" by (cases q)
  obtain md where "snd (local_publish demo_ext demo_engine (demo_batch_at s now) st0) = Inr md" using demo_publish by blast
  moreover obtain st mds where "publish_all (local_publish demo_ext demo_engine) (map (\<lambda>(s, now). demo_batch_at s now) qs)
      (fst (local_publish demo_ext demo_engine (demo_batch_at s now) st0)) = (st, Inr mds)" using Cons by blast
  ultimately show ?case by (simp add: q)
qed simp


theorem get_message_right_batch_witness:
  "\<exists>st mds. publish_all (local_publish demo_ext demo_engine) [demo_batch_at 5 1, demo_batch_at 6 2]
       (new_local_transport InMemory []) = (st, Inr mds)
     \<and> local_get_message demo_ext demo_engine st 6
        = Inr (find (\<lambda>m. message_sequence demo_ext m = Inr 6) [demo_message 6 7 Changeset [1] True])"
proof -
  let ?bs = "[demo_batch_at 5 1, demo_batch_at 6 2]"
  obtain st mds where st: "publish_all (local_publish demo_ext demo_engine) ?bs (new_local_transport InMemory []) = (st, Inr mds)"
    using demo_publish_all [of "[(5, 1), (6, 2)]" "new_local_transport InMemory []"] by (auto simp del: publish_all.simps)
  have good: "\<forall>b \<in> set ?bs. local_good demo_ext demo_engine b" by (simp add: demo_good)
  have row: "(rs \<noteq> [] \<longrightarrow> (\<exists>r. first_row demo_engine rs = Some r)) \<and> (\<forall>r. first_row demo_engine rs = Some r \<longrightarrow> r \<in> set rs)" for rs
    by (cases rs) (simp_all add: demo_engine_def)
  have "local_get_message demo_ext demo_engine st 6
      = Inr (find (\<lambda>m. message_sequence demo_ext m = Inr 6) (cb_messages (demo_batch_at 6 2)))"
    by (rule get_message_right_batch [OF good _ st _ _ _ _ row]) auto
  with st show ?thesis by (simp del: publish_all.simps find.simps)
qed

theorem sqlite_publish_swallows_error_witness:
  "\<exists>md. local_publish demo_ext (demo_engine\<lparr>insert_error := \<lambda>_. Some (SqlOther ''out of range'')\<rparr>) (demo_batch_at 5 1) (Sqlite [])
     = (Sqlite [], Inr md)"
proof -
  obtain c where "to_cbor demo_ext (demo_batch_at 5 1) = Inr c" "to_cbor_zstd demo_ext (demo_batch_at 5 1) = Inr c"
    using demo_batch_at_write by blast
  then show ?thesis by (rule sqlite_publish_swallows_error) simp
qed

theorem duplicate_publish_witness:
  "\<exists>st mds. publish_all (local_publish demo_ext demo_engine) [demo_batch_at 5 1, demo_batch_at 5 2]
       (new_local_transport (SqliteFile ''db'') []) = (st, Inr mds)
     \<and> local_fetch demo_ext st 5 = Inr (Some (demo_batch_at 5 1))"
proof -
  obtain st mds where st: "publish_all (local_publish demo_ext demo_engine) [demo_batch_at 5 1, demo_batch_at 5 2]
      (new_local_transport (SqliteFile ''db'') []) = (st, Inr mds)"
    using demo_publish_all [of "[(5, 1), (5, 2)]" "new_local_transport (SqliteFile ''db'') []"] by (auto simp del: publish_all.simps)
  have eng: "engine_ok demo_engine" by (simp add: engine_ok_def demo_engine_def)
  have "local_fetch demo_ext st (cb_start_sequence (demo_batch_at 5 2))
      = Inr (Some (case SqliteFile ''db'' of InMemory \<Rightarrow> demo_batch_at 5 2 | SqliteFile _ \<Rightarrow> demo_batch_at 5 1))"
    by (rule duplicate_publish [OF demo_wire eng _ _ _ st]) simp_all
  with st show ?thesis by (simp del: publish_all.simps)
qed

end
