(* ===== verification/Batcher.thy ===== *)
theory Batcher
  imports Inbox Transport "HOL-Library.Sublist"
begin

text \<open>
  The batcher of \<open>crates/synddb-sequencer/src/batcher.rs\<close>: accumulation of signed messages, the
  thresholds that flush a batch, the commands of its event loop and the interval tick.

  The transport is a parameter, the function \<open>pub\<close> on a transport state (the trait object), and a
  batcher step acts on the pair of batcher and transport state. The event loop is single-threaded
  and handles its commands in the order of the channel, so a run is a list of events; each event
  carries the clocks it reads (seconds of the system clock, milliseconds of the monotonic clock).
\<close>

section \<open>Data\<close>

record batch_config =
  max_messages :: nat
  max_batch_bytes :: nat
  flush_interval :: nat

definition default_batch_config :: batch_config where
  "default_batch_config = \<lparr>max_messages = 50, max_batch_bytes = 1048576, flush_interval = 5000\<rparr>"

record batch_stats =
  st_batches_published :: u64
  st_messages_published :: u64
  st_bytes_published :: u64
  st_bytes_uncompressed :: u64
  st_pending_messages :: nat
  st_pending_bytes :: nat
  st_last_flush_timestamp :: u64

definition default_batch_stats :: batch_stats where
  "default_batch_stats = \<lparr>st_batches_published = 0, st_messages_published = 0, st_bytes_published = 0,
     st_bytes_uncompressed = 0, st_pending_messages = 0, st_pending_bytes = 0, st_last_flush_timestamp = 0\<rparr>"

record pending_message =
  pd_message :: cbor_signed_message
  pd_size :: nat

record batcher =
  ba_config :: batch_config
  ba_key_manager :: evm_key_manager
  ba_pending :: "pending_message list"
  ba_pending_bytes :: nat
  ba_stats :: batch_stats
  ba_last_flush :: nat

datatype batcher_error =
    BatcherTransport transport_error
  | BatcherCbor cbor_error
  | ChannelClosed
  | BatcherSigning string

fun show_batcher_error :: "batcher_error \<Rightarrow> string" where
  "show_batcher_error (BatcherTransport e) = ''Transport error: '' @ show_transport_error e"
| "show_batcher_error (BatcherCbor e) = ''CBOR encoding error: '' @ show_cbor_error e"
| "show_batcher_error ChannelClosed = ''Batcher channel closed''"
| "show_batcher_error (BatcherSigning e) = ''Signing error: '' @ e"

type_synonym 't publisher = "cbor_batch \<Rightarrow> 't \<Rightarrow> 't \<times> (transport_error + publish_metadata)"

record clocks =
  clk_secs :: u64
  clk_instant :: nat

section \<open>Operations\<close>

definition spawn_batcher :: "batch_config \<Rightarrow> evm_key_manager \<Rightarrow> nat \<Rightarrow> batcher" where
  "spawn_batcher config km instant =
     \<lparr>ba_config = config, ba_key_manager = km, ba_pending = [], ba_pending_bytes = 0,
      ba_stats = default_batch_stats, ba_last_flush = instant\<rparr>"

definition sign_batch_data :: "('vk, 'sg) ext \<Rightarrow> evm_key_manager \<Rightarrow> bytes \<Rightarrow> cbor_error + 'sg" where
  "sign_batch_data x km data =
     (let hash = keccak256 x data
      in bind_r (map_err (\<lambda>e. Signing (show_key_error e)) (sign_raw_sync km hash)) (\<lambda>sig.
         signature_from_bytes x (as_r sig @ as_s sig)))"

definition record_published :: "clocks \<Rightarrow> nat \<Rightarrow> publish_metadata \<Rightarrow> batcher \<Rightarrow> batcher" where
  "record_published clk count md b =
     (let s = ba_stats b
      in b\<lparr>ba_stats := s\<lparr>st_batches_published := st_batches_published s + 1,
                        st_messages_published := st_messages_published s + of_nat count,
                        st_bytes_published := st_bytes_published s + of_nat (md_compressed_bytes md),
                        st_bytes_uncompressed := st_bytes_uncompressed s + of_nat (md_uncompressed_bytes md),
                        st_last_flush_timestamp := clk_secs clk\<rparr>,
           ba_last_flush := clk_instant clk\<rparr>)"

definition flush_batch :: "('vk, 'sg) ext \<Rightarrow> 't publisher \<Rightarrow> clocks \<Rightarrow> batcher \<times> 't
  \<Rightarrow> (batcher \<times> 't) \<times> (batcher_error + publish_metadata option)" where
  "flush_batch x pub clk s =
     (let (b, t) = s
      in if ba_pending b = [] then (s, Inr None)
         else let messages = map pd_message (ba_pending b);
                  drained = b\<lparr>ba_pending := [], ba_pending_bytes := 0\<rparr>
              in case new_batch x messages (clk_secs clk) (km_public_key (ba_key_manager b))
                        (sign_batch_data x (ba_key_manager b)) of
                   Inl e \<Rightarrow> ((drained, t), Inl (BatcherCbor e))
                 | Inr batch \<Rightarrow>
                    (case pub batch t of
                       (t', Inl e) \<Rightarrow> ((drained, t'), Inl (BatcherTransport e))
                     | (t', Inr md) \<Rightarrow> ((record_published clk (length messages) md drained, t'), Inr (Some md))))"

definition handle_add_message :: "('vk, 'sg) ext \<Rightarrow> 't publisher \<Rightarrow> clocks \<Rightarrow> cbor_signed_message \<Rightarrow> batcher \<times> 't
  \<Rightarrow> (batcher \<times> 't) \<times> (batcher_error + unit)" where
  "handle_add_message x pub clk message s =
     (let (b, t) = s;
          b' = b\<lparr>ba_pending := ba_pending b @ [\<lparr>pd_message = message, pd_size = message_size message\<rparr>],
                 ba_pending_bytes := ba_pending_bytes b + message_size message\<rparr>;
          should_flush = (length (ba_pending b') \<ge> max_messages (ba_config b')
                          \<or> ba_pending_bytes b' \<ge> max_batch_bytes (ba_config b'))
      in if should_flush
         then let (s', r) = flush_batch x pub clk (b', t) in (s', bind_r r (\<lambda>_. Inr ()))
         else ((b', t), Inr ()))"

definition get_stats :: "batcher \<Rightarrow> batcher \<times> batch_stats" where
  "get_stats b =
     (let stats = (ba_stats b)\<lparr>st_pending_messages := length (ba_pending b), st_pending_bytes := ba_pending_bytes b\<rparr>
      in (b\<lparr>ba_stats := stats\<rparr>, stats))"

section \<open>The event loop\<close>

datatype batcher_event =
    AddMessage cbor_signed_message
  | FlushCommand
  | GetStats
  | Shutdown
  | Tick

datatype batcher_response =
    RAdded "batcher_error + unit"
  | RFlushed "batcher_error + publish_metadata option"
  | RStats batch_stats
  | RNone

definition on_tick :: "('vk, 'sg) ext \<Rightarrow> 't publisher \<Rightarrow> clocks \<Rightarrow> batcher \<times> 't \<Rightarrow> batcher \<times> 't" where
  "on_tick x pub clk s =
     (if ba_pending (fst s) \<noteq> [] \<and> clk_instant clk - ba_last_flush (fst s) \<ge> flush_interval (ba_config (fst s))
      then fst (flush_batch x pub clk s) else s)"

definition on_shutdown :: "('vk, 'sg) ext \<Rightarrow> 't publisher \<Rightarrow> clocks \<Rightarrow> batcher \<times> 't \<Rightarrow> batcher \<times> 't" where
  "on_shutdown x pub clk s = (if ba_pending (fst s) \<noteq> [] then fst (flush_batch x pub clk s) else s)"

fun batcher_step :: "('vk, 'sg) ext \<Rightarrow> 't publisher \<Rightarrow> clocks \<Rightarrow> batcher_event \<Rightarrow> batcher \<times> 't
  \<Rightarrow> (batcher \<times> 't) \<times> batcher_response" where
  "batcher_step x pub clk (AddMessage m) s =
     (let (s', r) = handle_add_message x pub clk m s in (s', RAdded r))"
| "batcher_step x pub clk FlushCommand s = (let (s', r) = flush_batch x pub clk s in (s', RFlushed r))"
| "batcher_step x pub clk GetStats s = (let (b', stats) = get_stats (fst s) in ((b', snd s), RStats stats))"
| "batcher_step x pub clk Shutdown s = (on_shutdown x pub clk s, RNone)"
| "batcher_step x pub clk Tick s = (on_tick x pub clk s, RNone)"

text \<open>The loop ends after \<open>Shutdown\<close>.\<close>

fun batcher_run :: "('vk, 'sg) ext \<Rightarrow> 't publisher \<Rightarrow> (clocks \<times> batcher_event) list \<Rightarrow> batcher \<times> 't \<Rightarrow> batcher \<times> 't" where
  "batcher_run x pub [] s = s"
| "batcher_run x pub ((clk, e) # es) s =
     (if e = Shutdown then fst (batcher_step x pub clk e s)
      else batcher_run x pub es (fst (batcher_step x pub clk e s)))"

section \<open>Lemmas\<close>

lemma sign_batch_data_eq: "sign_batch_data x km = sign_cose x km"
  by (rule ext) (simp add: sign_batch_data_def sign_cose_def)

lemma flush_batch_cases:
  obtains (empty) "ba_pending b = []" and "flush_batch x pub clk (b, t) = ((b, t), Inr None)"
  | (batch_error) e where "ba_pending b \<noteq> []"
      and "new_batch x (map pd_message (ba_pending b)) (clk_secs clk) (km_public_key (ba_key_manager b))
             (sign_batch_data x (ba_key_manager b)) = Inl e"
      and "flush_batch x pub clk (b, t) = ((b\<lparr>ba_pending := [], ba_pending_bytes := 0\<rparr>, t), Inl (BatcherCbor e))"
  | (publish_error) batch e where "ba_pending b \<noteq> []"
      and "new_batch x (map pd_message (ba_pending b)) (clk_secs clk) (km_public_key (ba_key_manager b))
             (sign_batch_data x (ba_key_manager b)) = Inr batch"
      and "snd (pub batch t) = Inl e"
      and "flush_batch x pub clk (b, t) = ((b\<lparr>ba_pending := [], ba_pending_bytes := 0\<rparr>, fst (pub batch t)), Inl (BatcherTransport e))"
  | (published) batch md where "ba_pending b \<noteq> []"
      and "new_batch x (map pd_message (ba_pending b)) (clk_secs clk) (km_public_key (ba_key_manager b))
             (sign_batch_data x (ba_key_manager b)) = Inr batch"
      and "snd (pub batch t) = Inr md"
      and "flush_batch x pub clk (b, t) = ((record_published clk (length (ba_pending b)) md
             (b\<lparr>ba_pending := [], ba_pending_bytes := 0\<rparr>), fst (pub batch t)), Inr (Some md))"
proof (cases "ba_pending b = []")
  case True
  then show thesis using empty by (simp add: flush_batch_def)
next
  case False
  let ?new = "new_batch x (map pd_message (ba_pending b)) (clk_secs clk) (km_public_key (ba_key_manager b))
             (sign_batch_data x (ba_key_manager b))"
  show thesis
  proof (cases ?new)
    case (Inl e)
    with False show thesis using batch_error by (simp add: flush_batch_def)
  next
    case (Inr batch)
    show thesis
    proof (cases "snd (pub batch t)")
      case (Inl e)
      with False \<open>?new = Inr batch\<close> show thesis
        using publish_error [of batch e] by (simp add: flush_batch_def split_beta)
    next
      case (Inr md)
      with False \<open>?new = Inr batch\<close> show thesis
        using published [of batch md] by (simp add: flush_batch_def split_beta)
    qed
  qed
qed

text \<open>The transport with a record of the batches it accepted, in order.\<close>

definition logged :: "'t publisher \<Rightarrow> ('t \<times> cbor_batch list) publisher" where
  "logged pub b st = ((fst (pub b (fst st)),
      (case snd (pub b (fst st)) of Inl _ \<Rightarrow> snd st | Inr _ \<Rightarrow> snd st @ [b])), snd (pub b (fst st)))"

lemma logged_snd [simp]: "snd (logged pub b st) = snd (pub b (fst st))"
  by (simp add: logged_def)

text \<open>Everything published or pending, in order.\<close>

definition content :: "batcher \<times> 't \<times> cbor_batch list \<Rightarrow> cbor_signed_message list" where
  "content s = concat (map cb_messages (snd (snd s))) @ map pd_message (ba_pending (fst s))"

lemma record_published_pending [simp]:
  "ba_pending (record_published clk n md b) = ba_pending b"
  "ba_pending_bytes (record_published clk n md b) = ba_pending_bytes b"
  "ba_config (record_published clk n md b) = ba_config b"
  "ba_key_manager (record_published clk n md b) = ba_key_manager b"
  by (simp_all add: record_published_def Let_def)

lemma new_batch_messages: "new_batch x ms now pk f = Inr b \<Longrightarrow> cb_messages b = ms"
  by (auto simp: new_batch_Inr)

definition flush_never_fails :: "('vk, 'sg) ext \<Rightarrow> 't publisher \<Rightarrow> evm_key_manager \<Rightarrow> cbor_signed_message set \<Rightarrow> bool" where
  "flush_never_fails x pub km M \<longleftrightarrow>
     (\<forall>ms now. ms \<noteq> [] \<and> set ms \<subseteq> M \<longrightarrow> (\<exists>b. new_batch x ms now (km_public_key km) (sign_batch_data x km) = Inr b))
     \<and> (\<forall>b t. \<exists>md. snd (pub b t) = Inr md)"

lemma subseq_prefix [simp]: "subseq xs (xs @ ys)"
  by (induction xs) auto

lemma flush_content:
  fixes s :: "batcher \<times> 't \<times> cbor_batch list" and x :: "('vk, 'sg) ext" and pub :: "'t publisher" and clk :: clocks
  defines "s' \<equiv> fst (flush_batch x (logged pub) clk s)"
  shows "ba_pending (fst s') = [] \<and> ba_pending_bytes (fst s') = (if ba_pending (fst s) = [] then ba_pending_bytes (fst s) else 0)
     \<and> subseq (content s') (content s) \<and> ba_config (fst s') = ba_config (fst s) \<and> ba_key_manager (fst s') = ba_key_manager (fst s)
     \<and> (flush_never_fails x pub (ba_key_manager (fst s)) M \<and> set (content s) \<subseteq> M \<longrightarrow> content s' = content s)"
proof -
  obtain b t l where s: "s = (b, t, l)" by (cases s)
  show ?thesis
  proof (cases rule: flush_batch_cases [of b x "logged pub" clk "(t, l)"])
    case empty
    then show ?thesis by (simp add: s'_def s)
  next
    case (batch_error e)
    have "\<not> (flush_never_fails x pub (ba_key_manager b) M \<and> set (content s) \<subseteq> M)"
    proof
      assume a: "flush_never_fails x pub (ba_key_manager b) M \<and> set (content s) \<subseteq> M"
      then have "map pd_message (ba_pending b) \<noteq> []" "set (map pd_message (ba_pending b)) \<subseteq> M"
        using batch_error(1) by (auto simp: content_def s)
      with a obtain batch where "new_batch x (map pd_message (ba_pending b)) (clk_secs clk) (km_public_key (ba_key_manager b))
             (sign_batch_data x (ba_key_manager b)) = Inr batch"
        unfolding flush_never_fails_def by blast
      with batch_error(2) show False by simp
    qed
    with batch_error show ?thesis by (simp add: s'_def s content_def)
  next
    case (publish_error batch e)
    have "\<not> flush_never_fails x pub (ba_key_manager b) M"
    proof
      assume "flush_never_fails x pub (ba_key_manager b) M"
      then obtain md where "snd (pub batch t) = Inr md" unfolding flush_never_fails_def by blast
      with publish_error(3) show False by simp
    qed
    with publish_error show ?thesis by (simp add: s'_def s content_def logged_def)
  next
    case (published batch md)
    then show ?thesis using new_batch_messages [OF published(2)]
      by (simp add: s'_def s content_def logged_def)
  qed
qed

text \<open>
  What one event does: it may append the message it adds; nothing is reordered, duplicated or
  invented, and nothing is lost unless a flush fails.
\<close>

definition added_by :: "batcher_event \<Rightarrow> cbor_signed_message list" where
  "added_by e = (case e of AddMessage m \<Rightarrow> [m] | _ \<Rightarrow> [])"

definition below_thresholds :: "batcher \<Rightarrow> bool" where
  "below_thresholds b \<longleftrightarrow> (ba_pending b = [] \<or> length (ba_pending b) < max_messages (ba_config b)
       \<and> ba_pending_bytes b < max_batch_bytes (ba_config b))
     \<and> ba_pending_bytes b = sum_list (map (\<lambda>p. message_size (pd_message p)) (ba_pending b))"

definition step_spec :: "bool \<Rightarrow> cbor_signed_message list \<Rightarrow> batcher \<times> 't \<times> cbor_batch list
  \<Rightarrow> batcher \<times> 't \<times> cbor_batch list \<Rightarrow> bool" where
  "step_spec safe added s s' \<longleftrightarrow> subseq (content s') (content s @ added)
     \<and> (safe \<longrightarrow> content s' = content s @ added) \<and> (below_thresholds (fst s) \<longrightarrow> below_thresholds (fst s'))
     \<and> ba_key_manager (fst s') = ba_key_manager (fst s)"

lemma step_spec_refl: "step_spec safe [] s s"
  by (simp add: step_spec_def)

lemma flush_spec:
  "step_spec (flush_never_fails x pub (ba_key_manager (fst s)) M \<and> set (content s) \<subseteq> M) []
     s (fst (flush_batch x (logged pub) clk s))"
  using flush_content [of x pub clk s M]
  by (auto simp: step_spec_def below_thresholds_def)

lemma add_message_spec:
  "step_spec (flush_never_fails x pub (ba_key_manager (fst s)) M \<and> m \<in> M \<and> set (content s) \<subseteq> M) [m]
     s (fst (handle_add_message x (logged pub) clk m s))"
proof -
  obtain b t l where s: "s = (b, t, l)" by (cases s)
  let ?b = "b\<lparr>ba_pending := ba_pending b @ [\<lparr>pd_message = m, pd_size = message_size m\<rparr>],
                 ba_pending_bytes := ba_pending_bytes b + message_size m\<rparr>"
  let ?flush = "length (ba_pending ?b) \<ge> max_messages (ba_config ?b) \<or> ba_pending_bytes ?b \<ge> max_batch_bytes (ba_config ?b)"
  have c: "content (?b, t, l) = content s @ [m]" by (simp add: content_def s)
  show ?thesis
  proof (cases ?flush)
    case True
    then have r: "fst (handle_add_message x (logged pub) clk m s) = fst (flush_batch x (logged pub) clk (?b, t, l))"
      by (simp add: handle_add_message_def s split_beta Let_def)
    show ?thesis unfolding r step_spec_def
      using flush_content [of x pub clk "(?b, t, l)" M] unfolding c
      by (auto simp: s below_thresholds_def)
  next
    case False
    then have r: "fst (handle_add_message x (logged pub) clk m s) = (?b, t, l)"
      by (simp add: handle_add_message_def s Let_def)
    from False show ?thesis unfolding r step_spec_def c by (auto simp: s below_thresholds_def)
  qed
qed

lemma batcher_step_spec:
  "step_spec (flush_never_fails x pub (ba_key_manager (fst s)) M \<and> set (content s @ added_by e) \<subseteq> M) (added_by e)
     s (fst (batcher_step x (logged pub) clk e s))"
proof (cases e)
  case (AddMessage m)
  then show ?thesis using add_message_spec [of x pub s M m clk]
    by (simp add: added_by_def split_beta Let_def)
next
  case GetStats
  then show ?thesis
    by (auto simp: added_by_def step_spec_def content_def below_thresholds_def get_stats_def Let_def)
qed (use flush_spec [of x pub s M clk] in
      \<open>auto simp: step_spec_refl added_by_def on_shutdown_def on_tick_def split_beta Let_def\<close>)

fun added :: "(clocks \<times> batcher_event) list \<Rightarrow> cbor_signed_message list" where
  "added [] = []"
| "added ((clk, e) # es) = (if e = Shutdown then [] else added_by e @ added es)"

lemma batcher_run_spec:
  fixes s :: "batcher \<times> 't \<times> cbor_batch list"
  shows "step_spec (flush_never_fails x pub (ba_key_manager (fst s)) M \<and> set (content s @ added es) \<subseteq> M) (added es)
     s (batcher_run x (logged pub) es s)"
proof (induction es arbitrary: s)
  case Nil
  show ?case by (simp add: step_spec_refl)
next
  case (Cons ev es)
  obtain clk e where ev: "ev = (clk, e)" by (cases ev)
  let ?s1 = "fst (batcher_step x (logged pub) clk e s)"
  note one = batcher_step_spec [of x pub s M e clk]
  show ?case
  proof (cases "e = Shutdown")
    case True
    with one show ?thesis by (simp add: ev added_by_def)
  next
    case False
    have rest: "step_spec (flush_never_fails x pub (ba_key_manager (fst ?s1)) M \<and> set (content ?s1 @ added es) \<subseteq> M) (added es)
        ?s1 (batcher_run x (logged pub) es ?s1)" by (rule Cons.IH)
    have "subseq (content (batcher_run x (logged pub) es ?s1)) (content s @ added_by e @ added es)"
    proof (rule subseq_order.trans)
      show "subseq (content (batcher_run x (logged pub) es ?s1)) (content ?s1 @ added es)"
        using rest by (simp add: step_spec_def)
      show "subseq (content ?s1 @ added es) (content s @ added_by e @ added es)"
        using one list_emb_append_mono [of "(=)" "content ?s1" "content s @ added_by e" "added es" "added es"]
        by (simp add: step_spec_def)
    qed
    with one rest False show ?thesis by (auto simp: step_spec_def ev)
  qed
qed

section \<open>Properties\<close>

text \<open>
  C3: Whatever happens to a new batcher, the messages it has published (batch by batch) followed by
  those it still holds are a subsequence of the messages it was given: none is invented,
  duplicated or moved. If no flush fails they are exactly the messages given, in order. The
  pending messages stay below both thresholds.\<close>

theorem batcher_conserves_messages:
  assumes "batcher_run x (logged pub) es (spawn_batcher config km i, t, []) = (b, t', log)"
  shows "subseq (concat (map cb_messages log) @ map pd_message (ba_pending b)) (added es)
     \<and> (flush_never_fails x pub km (set (added es))
          \<longrightarrow> concat (map cb_messages log) @ map pd_message (ba_pending b) = added es)
     \<and> (ba_pending b = [] \<or> length (ba_pending b) < max_messages (ba_config b)
          \<and> ba_pending_bytes b < max_batch_bytes (ba_config b))"
proof -
  let ?s0 = "(spawn_batcher config km i, t, [] :: cbor_batch list)"
  have c: "content ?s0 = []" "below_thresholds (fst ?s0)" "ba_key_manager (fst ?s0) = km"
    by (simp_all add: content_def spawn_batcher_def below_thresholds_def)
  from batcher_run_spec [of x pub ?s0 "set (added es)" es] show ?thesis
    unfolding assms step_spec_def c by (auto simp: content_def below_thresholds_def spawn_batcher_def)
qed

text \<open>
  A flush whose publication fails loses its messages: the pending messages are drained before
  the batch is published, the error is returned, and they are neither pending nor stored.\<close>

theorem failed_flush_loses_messages:
  assumes "ba_pending b \<noteq> []"
    and "new_batch x (map pd_message (ba_pending b)) (clk_secs clk) (km_public_key (ba_key_manager b))
           (sign_batch_data x (ba_key_manager b)) = Inr batch"
    and "pub batch t = (t, Inl e)"
  shows "\<exists>b'. flush_batch x pub clk (b, t) = ((b', t), Inl (BatcherTransport e))
     \<and> ba_pending b' = [] \<and> flush_batch x pub clk' (b', t) = ((b', t), Inr None)"
  using assms by (simp add: flush_batch_def)

text \<open>
  A successful flush to a local transport stores exactly the pending messages, in order, as one
  batch under the sequence number of the first; it is fetched back by that number, verifies
  against the sequencer's key, and the statistics count it.\<close>

theorem flush_stores_pending:
  assumes "wire_codec_ok x" and "ecdsa_codec_ok x" and "prehash_ok x" and "key_manager_ok x (ba_key_manager b) key"
    and "engine_ok eng" and "memory_inv t \<or> sqlite_inv t"
    and "message_sequence x (pd_message (hd (ba_pending b))) = Inr q" and "local_fetch x t q = Inr None"
    and "flush_batch x (local_publish x eng) clk (b, t) = ((b', t'), Inr (Some md))"
  shows "\<exists>batch. local_fetch x t' q = Inr (Some batch) \<and> cb_messages batch = map pd_message (ba_pending b)
     \<and> cb_start_sequence batch = q \<and> verify_batch_signature x batch = Inr ()
     \<and> st_batches_published (ba_stats b') = st_batches_published (ba_stats b) + 1 \<and> ba_pending b' = []"
proof (cases rule: flush_batch_cases [of b x "local_publish x eng" clk t])
  case (published batch md')
  have pk: "km_public_key (ba_key_manager b) = verifying_key_to_bytes x key"
    using assms(4) by (simp add: key_manager_ok_def)
  have signer: "signer_ok x key (sign_batch_data x (ba_key_manager b))"
    unfolding sign_batch_data_eq by (rule sign_cose_ok [OF assms(4,3)])
  note new = published(2) [unfolded pk]
  have wf: "batch_wf batch"
    using new_batch_wf [OF assms(1,2) verifying_key_to_bytes_length [OF assms(2)] new] .
  have start: "cb_start_sequence batch = q"
    using new assms(7) published(1) by (auto simp: new_batch_Inr hd_map)
  have t': "t' = fst (local_publish x eng batch t)" and b': "b' = record_published clk (length (ba_pending b)) md'
             (b\<lparr>ba_pending := [], ba_pending_bytes := 0\<rparr>)"
    using assms(9) published(4) by auto
  have "local_fetch x t' (cb_start_sequence batch) = Inr (Some batch)"
    using assms(6)
  proof
    assume "memory_inv t"
    from memory.fetch_published [OF this _ _ published(3)] show ?thesis
      using assms(1,8) wf start t' by simp
  next
    assume "sqlite_inv t"
    from sqlite.fetch_published [OF this _ _ published(3)] show ?thesis
      using assms(1,5,8) wf start t' by simp
  qed
  moreover have "verify_batch_signature x batch = Inr ()"
    by (rule new_batch_verifies [OF assms(2,3) signer new])
  ultimately show ?thesis
    using new_batch_messages [OF new] start by (simp add: b' record_published_def Let_def)
qed (use assms(9) in simp_all)

section \<open>Witnesses\<close>

lemma demo_sign_batch_data: "\<exists>sg. sign_batch_data demo_ext (demo_key_manager True) d = Inr sg"
  unfolding sign_batch_data_eq by (rule demo_sign_cose)

lemma demo_message_seq: "message_sequence demo_ext (demo_message s t mt p k) = Inr s"
proof -
  obtain b where "build_cose_sign1 demo_ext s t mt p k (demo_sign k) = Inr b" "demo_message s t mt p k = CborSignedMessage b"
    using demo_new_signed_message [of s t mt p k] by (auto simp: new_signed_message_def bind_r_eq_Inr)
  then show ?thesis using build_extract_sequence [OF demo_cose] by (simp add: message_sequence_def)
qed

lemma demo_new_batch_any:
  assumes "ms \<noteq> []" and "\<forall>m \<in> set ms. \<exists>q. message_sequence demo_ext m = Inr q"
  shows "\<exists>b. new_batch demo_ext ms now (km_public_key (demo_key_manager True)) (sign_batch_data demo_ext (demo_key_manager True)) = Inr b"
proof -
  obtain s e where "message_sequence demo_ext (hd ms) = Inr s" "message_sequence demo_ext (last ms) = Inr e"
    using assms by (meson hd_in_set last_in_set)
  moreover obtain sg where "sign_batch_data demo_ext (demo_key_manager True)
      (compute_signing_payload demo_ext s e (compute_content_hash demo_ext ms)) = Inr sg"
    using demo_sign_batch_data by blast
  ultimately show ?thesis using assms(1) by (simp add: new_batch_def Let_def)
qed

definition demo_transport :: "unit publisher" where
  "demo_transport b t = (t, Inr \<lparr>md_reference = [], md_content_hash = cb_content_hash b,
     md_compressed_bytes = 1, md_uncompressed_bytes = 2\<rparr>)"

definition demo_clocks :: clocks where
  "demo_clocks = \<lparr>clk_secs = 9, clk_instant = 100\<rparr>"

abbreviation demo_events :: "(clocks \<times> batcher_event) list" where
  "demo_events \<equiv> [(demo_clocks, AddMessage (demo_message 5 7 Changeset [1] True)),
     (demo_clocks, AddMessage (demo_message 6 8 Changeset [2] True)), (demo_clocks, FlushCommand),
     (demo_clocks, AddMessage (demo_message 7 9 Snapshot [3] True))]"

theorem batcher_conserves_messages_witness:
  "\<exists>b t' log. batcher_run demo_ext (logged demo_transport) demo_events
       (spawn_batcher default_batch_config (demo_key_manager True) 0, (), []) = (b, t', log)
     \<and> concat (map cb_messages log) @ map pd_message (ba_pending b) = added demo_events"
proof -
  obtain b t' log where r: "batcher_run demo_ext (logged demo_transport) demo_events
       (spawn_batcher default_batch_config (demo_key_manager True) 0, (), []) = (b, t', log)" by (metis prod_cases3)
  have "set (added demo_events) \<subseteq> {m. \<exists>q. message_sequence demo_ext m = Inr q}"
    by (auto simp: added_by_def demo_message_seq)
  then have "flush_never_fails demo_ext demo_transport (demo_key_manager True) (set (added demo_events))"
    unfolding flush_never_fails_def using demo_new_batch_any by (fastforce simp: demo_transport_def)
  with batcher_conserves_messages [OF r] have "concat (map cb_messages log) @ map pd_message (ba_pending b) = added demo_events"
    by blast
  with r show ?thesis by blast
qed

definition demo_pending :: batcher where
  "demo_pending = (spawn_batcher default_batch_config (demo_key_manager True) 0)\<lparr>
     ba_pending := [\<lparr>pd_message = demo_message 5 7 Changeset [1] True, pd_size = 10\<rparr>], ba_pending_bytes := 10\<rparr>"

lemma demo_pending_sel [simp]:
  "ba_pending demo_pending = [\<lparr>pd_message = demo_message 5 7 Changeset [1] True, pd_size = 10\<rparr>]"
  "ba_key_manager demo_pending = demo_key_manager True"
  by (simp_all add: demo_pending_def spawn_batcher_def)

lemma demo_pending_batch:
  "\<exists>batch. new_batch demo_ext (map pd_message (ba_pending demo_pending)) now (km_public_key (ba_key_manager demo_pending))
     (sign_batch_data demo_ext (ba_key_manager demo_pending)) = Inr batch"
  using demo_new_batch_any [of "map pd_message (ba_pending demo_pending)" now] by (simp add: demo_message_seq)

theorem failed_flush_loses_messages_witness:
  "\<exists>b'. flush_batch demo_ext (\<lambda>b t. (t, Inl (Network ''down''))) demo_clocks (demo_pending, ())
       = ((b', ()), Inl (BatcherTransport (Network ''down''))) \<and> ba_pending b' = []"
proof -
  obtain batch where b: "new_batch demo_ext (map pd_message (ba_pending demo_pending)) (clk_secs demo_clocks)
      (km_public_key (ba_key_manager demo_pending)) (sign_batch_data demo_ext (ba_key_manager demo_pending)) = Inr batch"
    using demo_pending_batch by blast
  have "ba_pending demo_pending \<noteq> []" by simp
  from failed_flush_loses_messages [OF this b, of "\<lambda>b t. (t, Inl (Network ''down''))" "()" "Network ''down''" demo_clocks]
  show ?thesis by blast
qed

theorem flush_stores_pending_witness:
  "\<exists>b' t' md batch. flush_batch demo_ext (local_publish demo_ext demo_engine) demo_clocks (demo_pending, Memory [])
       = ((b', t'), Inr (Some md))
     \<and> local_fetch demo_ext t' 5 = Inr (Some batch) \<and> cb_messages batch = [demo_message 5 7 Changeset [1] True]"
proof -
  obtain batch where b: "new_batch demo_ext (map pd_message (ba_pending demo_pending)) (clk_secs demo_clocks)
      (km_public_key (ba_key_manager demo_pending)) (sign_batch_data demo_ext (ba_key_manager demo_pending)) = Inr batch"
    using demo_pending_batch by blast
  have pk: "length (km_public_key (ba_key_manager demo_pending)) = 64" by (simp add: demo_key_manager_def)
  have "batch_wf batch" by (rule new_batch_wf [OF demo_wire demo_ecdsa pk b])
  moreover have "length (cb_messages batch) = 1" using new_batch_messages [OF b] by simp
  ultimately have "\<exists>c. to_cbor demo_ext batch = Inr c \<and> to_cbor_zstd demo_ext batch = Inr c"
    by (auto simp: to_cbor_def to_cbor_zstd_def demo_wire_write_def to_wire_def batch_wf_def length_Suc_conv)
  then obtain md where "snd (local_publish demo_ext demo_engine batch (Memory [])) = Inr md"
    by (auto simp: local_publish_def)
  then obtain b' t' where f: "flush_batch demo_ext (local_publish demo_ext demo_engine) demo_clocks (demo_pending, Memory [])
      = ((b', t'), Inr (Some md))"
    using b by (cases rule: flush_batch_cases [of demo_pending demo_ext "local_publish demo_ext demo_engine" demo_clocks "Memory []"]) auto
  have km: "key_manager_ok demo_ext (ba_key_manager demo_pending) True" by (simp add: demo_key_manager_ok)
  have "\<exists>batch. local_fetch demo_ext t' 5 = Inr (Some batch) \<and> cb_messages batch = map pd_message (ba_pending demo_pending)
     \<and> cb_start_sequence batch = 5 \<and> verify_batch_signature demo_ext batch = Inr ()
     \<and> st_batches_published (ba_stats b') = st_batches_published (ba_stats demo_pending) + 1 \<and> ba_pending b' = []"
    by (rule flush_stores_pending [OF demo_wire demo_ecdsa demo_prehash km _ _ _ _ f])
       (simp_all add: demo_message_seq engine_ok_def demo_engine_def memory_inv_def fetch_None get_batch_compressed_def)
  with f show ?thesis by auto
qed

end
