(* ===== verification/Payloads.thy ===== *)
theory Payloads
  imports Prelude
begin

text \<open>
  The requests that clients send to the sequencer,
  \<open>crates/synddb-shared/src/types/payloads.rs\<close>. Their CBOR form (serde and ciborium) is the
  parameter \<open>payload_codec\<close>; \<open>payload_codec_ok\<close> says that it is lossless.
\<close>

record changeset_data =
  cd_data :: bytes
  cd_sequence :: u64
  cd_timestamp :: u64

record changeset_batch_request =
  cr_batch_id :: string
  cr_changesets :: "changeset_data list"
  cr_attestation_token :: "string option"

record withdrawal_request =
  wq_request_id :: string
  wq_recipient :: string
  wq_amount :: string
  wq_data :: bytes

record snapshot_data =
  sn_data :: bytes
  sn_timestamp :: u64
  sn_sequence :: u64

record snapshot_request =
  sq_snapshot :: snapshot_data
  sq_message_id :: string
  sq_attestation_token :: "string option"

record payload_codec =
  changesets_to_cbor :: "changeset_batch_request \<Rightarrow> string + bytes"
  changesets_from_cbor :: "bytes \<Rightarrow> string + changeset_batch_request"
  withdrawal_to_cbor :: "withdrawal_request \<Rightarrow> string + bytes"
  withdrawal_from_cbor :: "bytes \<Rightarrow> string + withdrawal_request"
  snapshot_to_cbor :: "snapshot_request \<Rightarrow> string + bytes"
  snapshot_from_cbor :: "bytes \<Rightarrow> string + snapshot_request"

definition payload_codec_ok :: "payload_codec \<Rightarrow> bool" where
  "payload_codec_ok c \<longleftrightarrow>
     (\<forall>r b. changesets_to_cbor c r = Inr b \<longrightarrow> changesets_from_cbor c b = Inr r)
     \<and> (\<forall>r b. withdrawal_to_cbor c r = Inr b \<longrightarrow> withdrawal_from_cbor c b = Inr r)
     \<and> (\<forall>r b. snapshot_to_cbor c r = Inr b \<longrightarrow> snapshot_from_cbor c b = Inr r)"

section \<open>A concrete codec\<close>

text \<open>A codec for one request of each kind, to show that \<open>payload_codec_ok\<close> can hold.\<close>

definition demo_changesets :: changeset_batch_request where
  "demo_changesets = \<lparr>cr_batch_id = ''b1'', cr_changesets = [\<lparr>cd_data = [1, 2], cd_sequence = 1, cd_timestamp = 7\<rparr>],
     cr_attestation_token = None\<rparr>"

definition demo_withdrawal :: withdrawal_request where
  "demo_withdrawal = \<lparr>wq_request_id = ''123'', wq_recipient = ''0x0123456789012345678901234567890123456789'',
     wq_amount = ''1000'', wq_data = []\<rparr>"

definition demo_snapshot :: snapshot_request where
  "demo_snapshot = \<lparr>sq_snapshot = \<lparr>sn_data = [9], sn_timestamp = 7, sn_sequence = 1\<rparr>, sq_message_id = ''s1'',
     sq_attestation_token = None\<rparr>"

definition demo_codec :: payload_codec where
  "demo_codec =
     \<lparr>changesets_to_cbor = (\<lambda>r. if r = demo_changesets then Inr [1] else Inl ''unsupported''),
      changesets_from_cbor = (\<lambda>b. if b = [1] then Inr demo_changesets else Inl ''eof''),
      withdrawal_to_cbor = (\<lambda>r. if r = demo_withdrawal then Inr [2] else Inl ''unsupported''),
      withdrawal_from_cbor = (\<lambda>b. if b = [2] then Inr demo_withdrawal else Inl ''eof''),
      snapshot_to_cbor = (\<lambda>r. if r = demo_snapshot then Inr [3] else Inl ''unsupported''),
      snapshot_from_cbor = (\<lambda>b. if b = [3] then Inr demo_snapshot else Inl ''eof'')\<rparr>"

lemma demo_codec_ok: "payload_codec_ok demo_codec"
  by (auto simp: payload_codec_ok_def demo_codec_def split: if_splits)

end
