(* ===== verification/Sequencer_Http.thy ===== *)
theory Sequencer_Http
  imports Attestation Batcher Payloads
begin

text \<open>
  The sequencer's HTTP API, \<open>crates/synddb-sequencer/src/http_api.rs\<close> with the errors of
  \<open>http_errors.rs\<close>: submission of changesets,
  withdrawals and snapshots, readiness, status, batch statistics and forced flush.

  A handler is a function from the request and the application state to the new state and the
  reply. The batcher task is part of the state: running with its batcher and transport state, or
  stopped, in which case its channel is closed. Google's key endpoints are parameters, as is the
  CBOR serialisation of a request. A handler that panics
  (compression failure in the inbox) yields no reply.

  The second part is the interleaving of concurrent requests: a request takes its sequence number
  and sends its message to the batcher in two separate steps.
\<close>

section \<open>Errors and replies\<close>

datatype sequencer_error =
    SeqAttestation attestation_error
  | SeqSigning key_error
  | SeqInbox inbox_error
  | SeqSerialization string
  | SeqCborSerializationFailed string
  | MissingAttestationToken
  | InvalidRecipientAddress
  | InvalidAmount
  | EmptyRequestId
  | MessageNotFound u64
  | NoPublisher
  | MessageRetrievalFailed string
  | NoBatcher
  | BatchFlushFailed string

fun show_sequencer_error :: "sequencer_error \<Rightarrow> string" where
  "show_sequencer_error (SeqAttestation e) = ''Attestation verification failed: '' @ show_attestation_error e"
| "show_sequencer_error (SeqSigning e) = ''Signing failed: '' @ show_key_error e"
| "show_sequencer_error (SeqInbox e) = ''Inbox error: '' @ show_inbox_error e"
| "show_sequencer_error (SeqSerialization e) = ''Serialization failed: '' @ e"
| "show_sequencer_error (SeqCborSerializationFailed e) = ''CBOR serialization failed: '' @ e"
| "show_sequencer_error MissingAttestationToken = ''Attestation token required but not provided''"
| "show_sequencer_error InvalidRecipientAddress =
     ''Invalid recipient address format: must be 0x followed by 40 hex characters''"
| "show_sequencer_error InvalidAmount =
     ''Invalid amount format: must be a non-negative decimal number without leading zeros''"
| "show_sequencer_error EmptyRequestId = ''request_id cannot be empty''"
| "show_sequencer_error (MessageNotFound s) = ''Message with sequence '' @ show_u64 s @ '' not found''"
| "show_sequencer_error NoPublisher = ''No publisher configured - message retrieval unavailable''"
| "show_sequencer_error (MessageRetrievalFailed e) = ''Failed to retrieve message: '' @ e"
| "show_sequencer_error NoBatcher = ''No batcher configured - batching unavailable''"
| "show_sequencer_error (BatchFlushFailed e) = ''Failed to flush batch: '' @ e"

fun status_of :: "sequencer_error \<Rightarrow> nat" where
  "status_of (SeqAttestation _) = 401"
| "status_of MissingAttestationToken = 401"
| "status_of InvalidRecipientAddress = 400"
| "status_of InvalidAmount = 400"
| "status_of EmptyRequestId = 400"
| "status_of (MessageNotFound _) = 404"
| "status_of NoPublisher = 501"
| "status_of NoBatcher = 501"
| "status_of _ = 500"

type_synonym http_error = "nat \<times> string"

definition http_error_from :: "sequencer_error \<Rightarrow> http_error" where
  "http_error_from e = (status_of e, show_sequencer_error e)"

record sequence_response =
  sr_sequence :: u64
  sr_timestamp :: u64
  sr_message_hash :: string
  sr_signature :: string
  sr_signer :: string
  sr_batch_warning :: "string option"

definition sequence_response_from :: "sequence_receipt \<Rightarrow> sequence_response" where
  "sequence_response_from r =
     \<lparr>sr_sequence = rc_sequence r, sr_timestamp = rc_timestamp r, sr_message_hash = rc_message_hash r,
      sr_signature = rc_signature r, sr_signer = rc_signer r, sr_batch_warning = None\<rparr>"

record bridge_signature_response =
  br_message_id :: string
  br_message_hash :: string
  br_signature :: string
  br_signer :: string
  br_sequence :: u64
  br_timestamp :: u64

record withdrawal_response =
  wr_sequence :: u64
  wr_timestamp :: u64
  wr_message_hash :: string
  wr_cose_signature :: string
  wr_signer :: string
  wr_bridge_signature :: bridge_signature_response
  wr_batch_warning :: "string option"

record status_response =
  ss_current_sequence :: u64
  ss_signer_address :: string
  ss_signer_pubkey :: string

record health_check =
  hc_name :: string
  hc_status :: string
  hc_message :: "string option"

record readiness_response =
  rr_status :: string
  rr_checks :: "health_check list"

text \<open>\<open>BatchStatsResponse\<close> without its floating-point compression ratio.\<close>

record batch_stats_response =
  bsr_enabled :: bool
  bsr_stats :: batch_stats

record batch_flush_response =
  fr_published :: bool
  fr_reference :: "string option"
  fr_message_count :: "nat option"
  fr_compressed_bytes :: "nat option"

section \<open>Application state\<close>

datatype 't batcher_task = Running "batcher \<times> 't" | Stopped

record 't app_state =
  ap_inbox :: inbox
  ap_attestation :: "attestation_verifier option"
  ap_batcher :: "'t batcher_task option"

record ('vk, 'sg, 't) seq_deps =
  d_ext :: "('vk, 'sg) ext"
  d_payload :: payload_codec
  d_gcp :: gcp_crates
  d_pub :: "'t publisher"

record env =
  ev_clk :: clocks
  ev_jwks :: jwks_source

text \<open>The methods of \<open>BatcherHandle\<close>: send a command and wait for its response.\<close>

definition batcher_add :: "('vk, 'sg, 't) seq_deps \<Rightarrow> clocks \<Rightarrow> cbor_signed_message \<Rightarrow> 't batcher_task
  \<Rightarrow> 't batcher_task \<times> (batcher_error + unit)" where
  "batcher_add d clk m task =
     (case task of
        Stopped \<Rightarrow> (Stopped, Inl ChannelClosed)
      | Running s \<Rightarrow> (let (s', r) = handle_add_message (d_ext d) (d_pub d) clk m s in (Running s', r)))"

definition batcher_flush :: "('vk, 'sg, 't) seq_deps \<Rightarrow> clocks \<Rightarrow> 't batcher_task
  \<Rightarrow> 't batcher_task \<times> (batcher_error + publish_metadata option)" where
  "batcher_flush d clk task =
     (case task of
        Stopped \<Rightarrow> (Stopped, Inl ChannelClosed)
      | Running s \<Rightarrow> (let (s', r) = flush_batch (d_ext d) (d_pub d) clk s in (Running s', r)))"

definition batcher_stats :: "'t batcher_task \<Rightarrow> 't batcher_task \<times> (batcher_error + batch_stats)" where
  "batcher_stats task =
     (case task of
        Stopped \<Rightarrow> (Stopped, Inl ChannelClosed)
      | Running (b, t) \<Rightarrow> (let (b', stats) = get_stats b in (Running (b', t), Inr stats)))"

section \<open>Handlers\<close>

definition check_attestation :: "('vk, 'sg, 't) seq_deps \<Rightarrow> env \<Rightarrow> string option \<Rightarrow> 't app_state
  \<Rightarrow> 't app_state \<times> (sequencer_error + unit)" where
  "check_attestation d env token st =
     (case ap_attestation st of
        None \<Rightarrow> (st, Inr ())
      | Some av \<Rightarrow>
         (case token of
            None \<Rightarrow> (st, Inl MissingAttestationToken)
          | Some t \<Rightarrow>
             (let (av', r) = verify_token (d_gcp d) (clk_secs (ev_clk env)) (clk_instant (ev_clk env))
                               (ev_jwks env) t av
              in (st\<lparr>ap_attestation := Some av'\<rparr>, bind_r (map_err SeqAttestation r) (\<lambda>_. Inr ())))))"

definition sequence_step :: "('vk, 'sg, 't) seq_deps \<Rightarrow> env \<Rightarrow> message_type \<Rightarrow> bytes \<Rightarrow> 't app_state
  \<Rightarrow> 't app_state \<times> (sequencer_error + cbor_signed_message \<times> sequence_receipt) outcome" where
  "sequence_step d env mt payload st =
     (let (ib, r) = sequence_message (d_ext d) mt payload (clk_secs (ev_clk env)) (ap_inbox st)
      in (st\<lparr>ap_inbox := ib\<rparr>, case r of Panics \<Rightarrow> Panics | Returns q \<Rightarrow> Returns (map_err SeqInbox q)))"

definition enqueue_step :: "('vk, 'sg, 't) seq_deps \<Rightarrow> clocks \<Rightarrow> cbor_signed_message \<Rightarrow> 't app_state
  \<Rightarrow> 't app_state \<times> string option" where
  "enqueue_step d clk m st =
     (case ap_batcher st of
        None \<Rightarrow> (st, None)
      | Some task \<Rightarrow>
         (let (task', r) = batcher_add d clk m task
          in (st\<lparr>ap_batcher := Some task'\<rparr>,
              case r of Inl e \<Rightarrow> Some (''Batch publishing failed: '' @ show_batcher_error e) | Inr _ \<Rightarrow> None)))"

definition receive_changesets :: "('vk, 'sg, 't) seq_deps \<Rightarrow> env \<Rightarrow> changeset_batch_request \<Rightarrow> 't app_state
  \<Rightarrow> 't app_state \<times> (http_error + nat \<times> sequence_response) outcome" where
  "receive_changesets d env request st =
     (case check_attestation d env (cr_attestation_token request) st of
        (st1, Inl e) \<Rightarrow> (st1, Returns (Inl (http_error_from e)))
      | (st1, Inr _) \<Rightarrow>
         (case changesets_to_cbor (d_payload d) request of
            Inl e \<Rightarrow> (st1, Returns (Inl (http_error_from (SeqCborSerializationFailed e))))
          | Inr payload \<Rightarrow>
             (case sequence_step d env Changeset payload st1 of
                (st2, Panics) \<Rightarrow> (st2, Panics)
              | (st2, Returns (Inl e)) \<Rightarrow> (st2, Returns (Inl (http_error_from e)))
              | (st2, Returns (Inr (m, receipt))) \<Rightarrow>
                 (let (st3, warning) = enqueue_step d (ev_clk env) m st2
                  in (st3, Returns (Inr (201, (sequence_response_from receipt)\<lparr>sr_batch_warning := warning\<rparr>)))))))"

definition receive_snapshot :: "('vk, 'sg, 't) seq_deps \<Rightarrow> env \<Rightarrow> snapshot_request \<Rightarrow> 't app_state
  \<Rightarrow> 't app_state \<times> (http_error + nat \<times> sequence_response) outcome" where
  "receive_snapshot d env request st =
     (case check_attestation d env (sq_attestation_token request) st of
        (st1, Inl e) \<Rightarrow> (st1, Returns (Inl (http_error_from e)))
      | (st1, Inr _) \<Rightarrow>
         (case snapshot_to_cbor (d_payload d) request of
            Inl e \<Rightarrow> (st1, Returns (Inl (http_error_from (SeqCborSerializationFailed e))))
          | Inr payload \<Rightarrow>
             (case sequence_step d env Snapshot payload st1 of
                (st2, Panics) \<Rightarrow> (st2, Panics)
              | (st2, Returns (Inl e)) \<Rightarrow> (st2, Returns (Inl (http_error_from e)))
              | (st2, Returns (Inr (m, receipt))) \<Rightarrow>
                 (let (st3, warning) = enqueue_step d (ev_clk env) m st2
                  in (st3, Returns (Inr (201, (sequence_response_from receipt)\<lparr>sr_batch_warning := warning\<rparr>)))))))"

definition valid_recipient :: "string \<Rightarrow> bool" where
  "valid_recipient r \<longleftrightarrow> starts_with ''0x'' r \<and> length r = 42 \<and> list_all is_ascii_hexdigit (drop 2 r)"

definition valid_amount :: "string \<Rightarrow> bool" where
  "valid_amount a \<longleftrightarrow> a \<noteq> [] \<and> list_all is_ascii_digit a \<and> \<not> (length a > 1 \<and> starts_with ''0'' a)"

definition withdrawal_reply :: "sequence_receipt \<Rightarrow> bridge_signature \<Rightarrow> string option \<Rightarrow> withdrawal_response" where
  "withdrawal_reply receipt b warning =
     \<lparr>wr_sequence = rc_sequence receipt, wr_timestamp = rc_timestamp receipt,
      wr_message_hash = rc_message_hash receipt, wr_cose_signature = rc_signature receipt,
      wr_signer = rc_signer receipt,
      wr_bridge_signature = \<lparr>br_message_id = bs_message_id b, br_message_hash = bs_message_hash b,
         br_signature = bs_signature b, br_signer = bs_signer b, br_sequence = rc_sequence receipt,
         br_timestamp = rc_timestamp receipt\<rparr>,
      wr_batch_warning = warning\<rparr>"

definition receive_withdrawal :: "('vk, 'sg, 't) seq_deps \<Rightarrow> env \<Rightarrow> withdrawal_request \<Rightarrow> 't app_state
  \<Rightarrow> 't app_state \<times> (http_error + nat \<times> withdrawal_response) outcome" where
  "receive_withdrawal d env request st =
     (if \<not> valid_recipient (wq_recipient request) then (st, Returns (Inl (http_error_from InvalidRecipientAddress)))
      else if \<not> valid_amount (wq_amount request) then (st, Returns (Inl (http_error_from InvalidAmount)))
      else if wq_request_id request = [] then (st, Returns (Inl (http_error_from EmptyRequestId)))
      else case withdrawal_to_cbor (d_payload d) request of
             Inl e \<Rightarrow> (st, Returns (Inl (http_error_from (SeqCborSerializationFailed e))))
           | Inr payload \<Rightarrow>
              (case sequence_step d env Withdrawal payload st of
                 (st2, Panics) \<Rightarrow> (st2, Panics)
               | (st2, Returns (Inl e)) \<Rightarrow> (st2, Returns (Inl (http_error_from e)))
               | (st2, Returns (Inr (m, receipt))) \<Rightarrow>
                  (case sign_bridge_withdrawal (d_ext d) (ap_inbox st2) (wq_request_id request)
                          (wq_recipient request) (wq_data request) (wq_amount request) of
                     Inl e \<Rightarrow> (st2, Returns (Inl (http_error_from (SeqInbox e))))
                   | Inr b \<Rightarrow>
                      (let (st3, warning) = enqueue_step d (ev_clk env) m st2
                       in (st3, Returns (Inr (201, withdrawal_reply receipt b warning)))))))"

definition seq_readiness_check :: "'t app_state \<Rightarrow> 't app_state \<times> readiness_response" where
  "seq_readiness_check st =
     (let inbox_check = \<lparr>hc_name = ''inbox'', hc_status = ''ok'', hc_message = None\<rparr>;
          (st', batcher_check) =
            (case ap_batcher st of
               None \<Rightarrow> (st, \<lparr>hc_name = ''batcher'', hc_status = ''not_configured'', hc_message = None\<rparr>)
             | Some task \<Rightarrow>
                (let (task', r) = batcher_stats task
                 in (st\<lparr>ap_batcher := Some task'\<rparr>,
                     case r of
                       Inr stats \<Rightarrow> \<lparr>hc_name = ''batcher'', hc_status = ''ok'',
                         hc_message = Some (''batches='' @ show_u64 (st_batches_published stats)
                           @ '', messages='' @ show_u64 (st_messages_published stats)
                           @ '', pending='' @ show_nat (st_pending_messages stats))\<rparr>
                     | Inl e \<Rightarrow> \<lparr>hc_name = ''batcher'', hc_status = ''degraded'',
                         hc_message = Some (''Error: '' @ show_batcher_error e)\<rparr>)));
          checks = [inbox_check, batcher_check];
          all_ok = list_all (\<lambda>c. hc_status c = ''ok'' \<or> hc_status c = ''not_configured'') checks
      in (st', \<lparr>rr_status = (if all_ok then ''ready'' else ''degraded''), rr_checks = checks\<rparr>))"

definition seq_status :: "('vk, 'sg) ext \<Rightarrow> 't app_state \<Rightarrow> status_response" where
  "seq_status x st =
     \<lparr>ss_current_sequence = current_sequence (ap_inbox st),
      ss_signer_address = km_address (ib_key_manager (ap_inbox st)),
      ss_signer_pubkey = ''0x'' @ hex_encode x (km_public_key (ib_key_manager (ap_inbox st)))\<rparr>"

definition batch_stats_handler :: "'t app_state \<Rightarrow> 't app_state \<times> batch_stats_response" where
  "batch_stats_handler st =
     (case ap_batcher st of
        None \<Rightarrow> (st, \<lparr>bsr_enabled = False, bsr_stats = default_batch_stats\<rparr>)
      | Some task \<Rightarrow>
         (let (task', r) = batcher_stats task
          in (st\<lparr>ap_batcher := Some task'\<rparr>,
              case r of Inr stats \<Rightarrow> \<lparr>bsr_enabled = True, bsr_stats = stats\<rparr>
                      | Inl _ \<Rightarrow> \<lparr>bsr_enabled = True, bsr_stats = default_batch_stats\<rparr>)))"

definition batch_flush_handler :: "('vk, 'sg, 't) seq_deps \<Rightarrow> env \<Rightarrow> 't app_state
  \<Rightarrow> 't app_state \<times> (http_error + batch_flush_response)" where
  "batch_flush_handler d env st =
     (case ap_batcher st of
        None \<Rightarrow> (st, Inl (http_error_from NoBatcher))
      | Some task \<Rightarrow>
         (let (task', r) = batcher_flush d (ev_clk env) task
          in (st\<lparr>ap_batcher := Some task'\<rparr>,
              case r of
                Inr (Some md) \<Rightarrow> Inr \<lparr>fr_published = True, fr_reference = Some (md_reference md),
                  fr_message_count = None, fr_compressed_bytes = Some (md_compressed_bytes md)\<rparr>
              | Inr None \<Rightarrow> Inr \<lparr>fr_published = False, fr_reference = None, fr_message_count = None,
                  fr_compressed_bytes = None\<rparr>
              | Inl e \<Rightarrow> Inl (http_error_from (BatchFlushFailed (show_batcher_error e))))))"

section \<open>Concurrent requests\<close>

text \<open>
  Requests run concurrently. What is atomic is the increment of the counter and the handling of a
  command by the batcher; between the two a request holds its signed message. A state of the
  server is the application state with the messages in flight.
\<close>

type_synonym flight = "(cbor_signed_message \<times> sequence_receipt) list"

inductive seq_step :: "('vk, 'sg, 't) seq_deps \<Rightarrow> 't app_state \<times> flight \<Rightarrow> 't app_state \<times> flight \<Rightarrow> bool"
  for d :: "('vk, 'sg, 't) seq_deps" where
  take: "sequence_step d env mt payload st = (st', Returns (Inr (m, r))) \<Longrightarrow> seq_step d (st, fl) (st', fl @ [(m, r)])"
| take_fails: "sequence_step d env mt payload st = (st', q) \<Longrightarrow> (\<And>m r. q \<noteq> Returns (Inr (m, r)))
    \<Longrightarrow> seq_step d (st, fl) (st', fl)"
| send: "enqueue_step d clk m st = (st', w) \<Longrightarrow> seq_step d (st, fl @ (m, r) # fl') (st', fl @ fl')"
| flush: "batch_flush_handler d env st = (st', q) \<Longrightarrow> seq_step d (st, fl) (st', fl)"

inductive seq_run :: "('vk, 'sg, 't) seq_deps \<Rightarrow> nat \<Rightarrow> 't app_state \<times> flight \<Rightarrow> 't app_state \<times> flight \<Rightarrow> bool"
  for d :: "('vk, 'sg, 't) seq_deps" where
  run_refl: "seq_run d 0 s s"
| run_step: "seq_run d n s t \<Longrightarrow> seq_step d t u \<Longrightarrow> seq_run d (Suc n) s u"

section \<open>Lemmas\<close>

lemma sequence_step_fst:
  "fst (sequence_step d env mt payload st) = st\<lparr>ap_inbox := (ap_inbox st)\<lparr>ib_sequence := ib_sequence (ap_inbox st) + 1\<rparr>\<rparr>"
  using sequence_message_counter [of "d_ext d" mt payload "clk_secs (ev_clk env)" "ap_inbox st"]
  by (simp add: sequence_step_def split_beta Let_def)

lemma sequence_step_ok:
  "sequence_step d env mt payload st = (st', Returns (Inr (m, r))) \<longleftrightarrow>
     st' = st\<lparr>ap_inbox := (ap_inbox st)\<lparr>ib_sequence := ib_sequence (ap_inbox st) + 1\<rparr>\<rparr>
     \<and> snd (sequence_message (d_ext d) mt payload (clk_secs (ev_clk env)) (ap_inbox st)) = Returns (Inr (m, r))"
proof -
  have "snd (sequence_step d env mt payload st) = Returns (Inr (m, r)) \<longleftrightarrow>
      snd (sequence_message (d_ext d) mt payload (clk_secs (ev_clk env)) (ap_inbox st)) = Returns (Inr (m, r))"
    by (auto simp: sequence_step_def split_beta Let_def map_err_eq_Inr split: outcome.splits)
  then show ?thesis using sequence_step_fst [of d env mt payload st] by (auto simp: prod_eq_iff)
qed

lemma sequence_message_rc: "snd (sequence_message x mt payload now ib) = Returns (Inr (m, r)) \<Longrightarrow> rc_sequence r = ib_sequence ib"
  by (auto simp: sequence_message_ok sign_sequenced_def bind_r_eq_Inr map_err_eq_Inr)

lemma enqueue_step_inbox: "ap_inbox (fst (enqueue_step d clk m st)) = ap_inbox st"
  by (simp add: enqueue_step_def split_beta Let_def split: option.splits)

lemma flush_handler_inbox: "ap_inbox (fst (batch_flush_handler d env st)) = ap_inbox st"
  by (simp add: batch_flush_handler_def split_beta Let_def split: option.splits)

lemma check_attestation_inbox:
  "ap_inbox (fst (check_attestation d env tok st)) = ap_inbox st" "ap_batcher (fst (check_attestation d env tok st)) = ap_batcher st"
  by (simp_all add: check_attestation_def split_beta Let_def split: option.splits)

text \<open>The invariant of the messages in flight: their numbers are distinct and already handed out.\<close>

definition flight_inv :: "u64 \<Rightarrow> nat \<Rightarrow> 't app_state \<times> flight \<Rightarrow> bool" where
  "flight_inv start n s \<longleftrightarrow>
     unat (ib_sequence (ap_inbox (fst s))) \<le> unat start + n \<and> unat start \<le> unat (ib_sequence (ap_inbox (fst s)))
     \<and> distinct (map (rc_sequence \<circ> snd) (snd s))
     \<and> (\<forall>(m, r) \<in> set (snd s). start \<le> rc_sequence r \<and> rc_sequence r < ib_sequence (ap_inbox (fst s)))"

lemma flight_inv_counter:
  assumes "flight_inv start n (st, fl)" and "unat start + Suc n < 2 ^ 64"
    and "st' = st\<lparr>ap_inbox := (ap_inbox st)\<lparr>ib_sequence := ib_sequence (ap_inbox st) + 1\<rparr>\<rparr>"
  shows "flight_inv start (Suc n) (st', fl)" and "ib_sequence (ap_inbox st) < ib_sequence (ap_inbox st')"
    and "unat start \<le> unat (ib_sequence (ap_inbox st))"
proof -
  let ?c = "ib_sequence (ap_inbox st)"
  have c: "unat ?c \<le> unat start + n" "unat start \<le> unat ?c" using assms(1) by (auto simp: flight_inv_def)
  with assms(2) have suc: "unat (?c + 1) = Suc (unat ?c)" by (simp add: unat_word_ariths)
  then show "ib_sequence (ap_inbox st) < ib_sequence (ap_inbox st')" by (simp add: assms(3) word_less_nat_alt)
  then show "flight_inv start (Suc n) (st', fl)"
    using assms(1) c suc by (auto simp: flight_inv_def assms(3) intro: less_trans)
  show "unat start \<le> unat ?c" by (rule c(2))
qed

lemma seq_step_inv:
  assumes "seq_step d s s'" and "flight_inv start n s" and "unat start + Suc n < 2 ^ 64"
  shows "flight_inv start (Suc n) s'"
  using assms(1)
proof (cases rule: seq_step.cases)
  case (take env mt payload st st' m r fl)
  note st' = take(3) [unfolded sequence_step_ok, THEN conjunct1]
  have r: "rc_sequence r = ib_sequence (ap_inbox st)"
    using take(3) by (auto simp: sequence_step_ok dest: sequence_message_rc)
  note inv = flight_inv_counter [OF assms(2) [unfolded take(1)] assms(3) st']
  from inv r assms(2) show ?thesis
    by (auto simp: take flight_inv_def word_le_nat_alt)
next
  case (take_fails env mt payload st st' q fl)
  have "st' = st\<lparr>ap_inbox := (ap_inbox st)\<lparr>ib_sequence := ib_sequence (ap_inbox st) + 1\<rparr>\<rparr>"
    using sequence_step_fst [of d env mt payload st] take_fails(3) by simp
  from flight_inv_counter(1) [OF assms(2) [unfolded take_fails(1)] assms(3) this] show ?thesis by (simp add: take_fails)
next
  case (send clk m st st' w fl r fl')
  then have "ap_inbox st' = ap_inbox st" using enqueue_step_inbox [of d clk m st] by simp
  with assms(2) show ?thesis by (auto simp: send flight_inv_def)
next
  case (flush env st st' q fl)
  then have "ap_inbox st' = ap_inbox st" using flush_handler_inbox [of d env st] by simp
  with assms(2) show ?thesis by (auto simp: flush flight_inv_def)
qed

lemma seq_run_inv:
  "seq_run d n s s' \<Longrightarrow> flight_inv start 0 s \<Longrightarrow> unat start + n < 2 ^ 64 \<Longrightarrow> flight_inv start n s'"
  by (induction rule: seq_run.induct) (auto intro: seq_step_inv)

lemma sequence_step_cases:
  obtains (panic) "sequence_step d env mt payload st
      = (st\<lparr>ap_inbox := (ap_inbox st)\<lparr>ib_sequence := ib_sequence (ap_inbox st) + 1\<rparr>\<rparr>, Panics)"
  | (fails) e where "sequence_step d env mt payload st
      = (st\<lparr>ap_inbox := (ap_inbox st)\<lparr>ib_sequence := ib_sequence (ap_inbox st) + 1\<rparr>\<rparr>, Returns (Inl e))" and "status_of e = 500"
  | (ok) m r where "sequence_step d env mt payload st
      = (st\<lparr>ap_inbox := (ap_inbox st)\<lparr>ib_sequence := ib_sequence (ap_inbox st) + 1\<rparr>\<rparr>, Returns (Inr (m, r)))"
      and "rc_sequence r = ib_sequence (ap_inbox st)"
proof (cases "snd (sequence_step d env mt payload st)")
  case Panics
  then show thesis using panic sequence_step_fst [of d env mt payload st] by (simp add: prod_eq_iff)
next
  case (Returns q)
  show thesis
  proof (cases q)
    case (Inl e)
    have "status_of e = 500"
      using Returns Inl by (auto simp: sequence_step_def split_beta Let_def map_err_eq_Inl split: outcome.splits)
    then show thesis using fails Returns Inl sequence_step_fst [of d env mt payload st] by (simp add: prod_eq_iff)
  next
    case (Inr mr)
    obtain m r where mr: "mr = (m, r)" by (cases mr)
    then have "sequence_step d env mt payload st
      = (st\<lparr>ap_inbox := (ap_inbox st)\<lparr>ib_sequence := ib_sequence (ap_inbox st) + 1\<rparr>\<rparr>, Returns (Inr (m, r)))"
      using Returns Inr sequence_step_fst [of d env mt payload st] by (simp add: prod_eq_iff)
    moreover from this have "rc_sequence r = ib_sequence (ap_inbox st)"
      by (auto simp: sequence_step_ok dest: sequence_message_rc)
    ultimately show thesis by (rule ok)
  qed
qed

lemma check_attestation_status:
  "check_attestation d env tok st = (st', Inl e) \<Longrightarrow> status_of e = 401"
  by (auto simp: check_attestation_def split_beta Let_def bind_r_eq_Inl map_err_eq_Inl split: option.splits)

lemma enqueue_below:
  assumes "ap_batcher st = Some (Running (b, t))"
    and "Suc (length (ba_pending b)) < max_messages (ba_config b)"
    and "ba_pending_bytes b + message_size m < max_batch_bytes (ba_config b)"
  shows "enqueue_step d clk m st = (st\<lparr>ap_batcher := Some (Running (b\<lparr>
           ba_pending := ba_pending b @ [\<lparr>pd_message = m, pd_size = message_size m\<rparr>],
           ba_pending_bytes := ba_pending_bytes b + message_size m\<rparr>, t))\<rparr>, None)"
  using assms by (simp add: enqueue_step_def batcher_add_def handle_add_message_def Let_def)

lemma sequenced_message_sequence:
  assumes "ecdsa_codec_ok x" and "cose_codec_ok x" and "key_manager_ok x (ib_key_manager ib) key"
    and "snd (sequence_message x mt payload now ib) = Returns (Inr (m, r))"
  shows "message_sequence x m = Inr (ib_sequence ib)"
proof -
  from assms(4) obtain c where "sign_sequenced x (ib_key_manager ib) (ib_sequence ib) now mt c = Inr (m, r)"
    by (auto simp: sequence_message_ok)
  from sign_sequenced_ok(1) [OF this assms(3,1)] obtain b where
    "build_cose_sign1 x (ib_sequence ib) now mt c key (sign_cose x (ib_key_manager ib)) = Inr b" "m = CborSignedMessage b"
    by (auto simp: new_signed_message_def bind_r_eq_Inr)
  then show ?thesis using build_extract_sequence [OF assms(2)] by (simp add: message_sequence_def)
qed

lemma seq_run_1: "seq_step d s t \<Longrightarrow> seq_run d n t u \<Longrightarrow> seq_run d (Suc n) s u"
proof (rotate_tac, induction rule: seq_run.induct)
  case (run_refl t)
  then show ?case using seq_run.run_step [OF seq_run.run_refl] by blast
next
  case (run_step n t v u)
  then show ?case by (blast intro: seq_run.run_step)
qed

section \<open>Properties\<close>

text \<open>
  A submission that is refused with a client error (status 400 or 401) has no effect on the
  sequencer: no sequence number is used and nothing reaches the batcher. Every other outcome of a
  changeset submission past the serialisation uses exactly one number, and a created submission
  reports that number.\<close>

theorem changesets_sequence_use:
  assumes "receive_changesets d env request st = (st', out)"
  shows "(\<forall>code msg. out = Returns (Inl (code, msg)) \<and> code < 500
            \<longrightarrow> ap_inbox st' = ap_inbox st \<and> ap_batcher st' = ap_batcher st)
     \<and> (\<forall>code resp. out = Returns (Inr (code, resp)) \<longrightarrow> code = 201 \<and> sr_sequence resp = ib_sequence (ap_inbox st)
          \<and> ib_sequence (ap_inbox st') = ib_sequence (ap_inbox st) + 1
          \<and> snd (check_attestation d env (cr_attestation_token request) st) = Inr ())"
proof -
  let ?c = "check_attestation d env (cr_attestation_token request) st"
  obtain st1 r1 where c: "?c = (st1, r1)" by (cases ?c)
  note st1 = check_attestation_inbox [of d env "cr_attestation_token request" st, unfolded c fst_conv]
  show ?thesis
  proof (cases r1)
    case (Inl e)
    with assms c st1 check_attestation_status [OF c [unfolded Inl]] show ?thesis
      by (auto simp: receive_changesets_def http_error_from_def)
  next
    case (Inr u)
    show ?thesis
    proof (cases "changesets_to_cbor (d_payload d) request")
      case e: (Inl e)
      with assms c Inr show ?thesis by (auto simp: receive_changesets_def http_error_from_def)
    next
      case (Inr payload)
      show ?thesis
        by (cases rule: sequence_step_cases [of d env Changeset payload st1])
           (use assms c \<open>r1 = Inr u\<close> Inr st1 enqueue_step_inbox [of d "ev_clk env"] in
             \<open>auto simp: receive_changesets_def http_error_from_def split_beta Let_def sequence_response_from_def\<close>)
    qed
  qed
qed

text \<open>
  A withdrawal whose Bridge signature cannot be made is answered with 500 after its message
  was sequenced and signed: the number is used up, and the message never reaches the batcher, so
  no batch will ever contain that number.\<close>

theorem withdrawal_bridge_failure_gap:
  assumes "valid_recipient (wq_recipient request)" and "valid_amount (wq_amount request)" and "wq_request_id request \<noteq> []"
    and "withdrawal_to_cbor (d_payload d) request = Inr payload"
    and "sequence_step d env Withdrawal payload st = (st2, Returns (Inr (m, receipt)))"
    and "sign_bridge_withdrawal (d_ext d) (ap_inbox st2) (wq_request_id request) (wq_recipient request)
           (wq_data request) (wq_amount request) = Inl e"
  shows "\<exists>msg. receive_withdrawal d env request st = (st2, Returns (Inl (500, msg)))
     \<and> ib_sequence (ap_inbox st2) = ib_sequence (ap_inbox st) + 1 \<and> ap_batcher st2 = ap_batcher st"
  using assms sequence_step_fst [of d env Withdrawal payload st]
  by (simp add: receive_withdrawal_def http_error_from_def)


text \<open>
  The batcher receives messages in the order the handlers send them, not in the order of their
  numbers: two concurrent requests can be batched as \<open>[n + 1, n]\<close>. The batch then claims the range
  from \<open>n + 1\<close> to \<open>n\<close>, which contains no sequence number at all.\<close>

theorem concurrent_requests_reorder_batch:
  assumes "ecdsa_codec_ok (d_ext d)" and "cose_codec_ok (d_ext d)"
    and "key_manager_ok (d_ext d) (ib_key_manager (ap_inbox st)) key"
    and take1: "sequence_step d env1 mt1 p1 st = (st1, Returns (Inr (m1, r1)))"
    and take2: "sequence_step d env2 mt2 p2 st1 = (st2, Returns (Inr (m2, r2)))"
    and bat: "ap_batcher st = Some (Running (b, t))" "ba_pending b = []" "ba_pending_bytes b = 0"
    and lim: "2 < max_messages (ba_config b)" "message_size m1 + message_size m2 < max_batch_bytes (ba_config b)"
    and sign: "\<forall>data. \<exists>sg. sign_batch_data (d_ext d) (ba_key_manager b) data = Inr sg"
    and pub: "\<forall>batch. \<exists>md. snd (d_pub d batch t) = Inr md"
    and wrap: "unat (ib_sequence (ap_inbox st)) + 2 < 2 ^ 64"
  shows "\<exists>st' b' batch. seq_run d 5 (st, []) (st', [])
     \<and> ap_batcher st' = Some (Running (b', fst (d_pub d batch t)))
     \<and> cb_messages batch = [m2, m1]
     \<and> cb_start_sequence batch = rc_sequence r2 \<and> cb_end_sequence batch = rc_sequence r1
     \<and> (\<forall>q path. \<not> batch_contains (new_batch_info (cb_start_sequence batch) (cb_end_sequence batch) path) q)"
proof -
  let ?c = "ib_sequence (ap_inbox st)"
  have st1: "st1 = st\<lparr>ap_inbox := (ap_inbox st)\<lparr>ib_sequence := ?c + 1\<rparr>\<rparr>" and r1: "rc_sequence r1 = ?c"
    and q1: "message_sequence (d_ext d) m1 = Inr ?c"
    using take1 sequenced_message_sequence [OF assms(1-3)] by (auto simp: sequence_step_ok dest: sequence_message_rc)
  have st2: "st2 = st1\<lparr>ap_inbox := (ap_inbox st1)\<lparr>ib_sequence := ?c + 1 + 1\<rparr>\<rparr>" and r2: "rc_sequence r2 = ?c + 1"
    and q2: "message_sequence (d_ext d) m2 = Inr (?c + 1)"
    using take2 sequenced_message_sequence [OF assms(1,2), of "ap_inbox st1" key] assms(3)
    by (auto simp: sequence_step_ok st1 dest: sequence_message_rc)
  let ?pm = "\<lambda>m. \<lparr>pd_message = m, pd_size = message_size m\<rparr>"
  let ?b2 = "b\<lparr>ba_pending := [?pm m2], ba_pending_bytes := message_size m2\<rparr>"
  let ?b3 = "b\<lparr>ba_pending := [?pm m2, ?pm m1], ba_pending_bytes := message_size m2 + message_size m1\<rparr>"
  let ?st3 = "st2\<lparr>ap_batcher := Some (Running (?b2, t))\<rparr>"
  let ?st4 = "st2\<lparr>ap_batcher := Some (Running (?b3, t))\<rparr>"
  have e1: "enqueue_step d clk m2 st2 = (?st3, None)" for clk
    using enqueue_below [of st2 b t m2 d clk] bat lim by (simp add: st2 st1)
  have e2: "enqueue_step d clk m1 ?st3 = (?st4, None)" for clk
    using enqueue_below [of ?st3 ?b2 t m1 d clk] lim by simp
  obtain sg where "sign_batch_data (d_ext d) (ba_key_manager b) (compute_signing_payload (d_ext d) (?c + 1) ?c
      (compute_content_hash (d_ext d) [m2, m1])) = Inr sg" using sign by blast
  then obtain batch where batch: "new_batch (d_ext d) [m2, m1] (clk_secs (ev_clk env1)) (km_public_key (ba_key_manager b))
      (sign_batch_data (d_ext d) (ba_key_manager b)) = Inr batch"
    and range: "cb_start_sequence batch = ?c + 1" "cb_end_sequence batch = ?c"
    by (simp add: new_batch_def q1 q2 Let_def)
  obtain md where md: "snd (d_pub d batch t) = Inr md" using pub by blast
  let ?b5 = "record_published (ev_clk env1) 2 md (?b3\<lparr>ba_pending := [], ba_pending_bytes := 0\<rparr>)"
  let ?st5 = "st2\<lparr>ap_batcher := Some (Running (?b5, fst (d_pub d batch t)))\<rparr>"
  have f: "\<exists>q. batch_flush_handler d env1 ?st4 = (?st5, q)"
    using md batch by (simp add: batch_flush_handler_def batcher_flush_def flush_batch_def split_beta Let_def numeral_2_eq_2)
  have "seq_run d 5 (st, []) (?st5, [])"
  proof -
    have "seq_step d (st, []) (st1, [(m1, r1)])" using seq_step.take [OF take1, of "[]"] by simp
    moreover have "seq_step d (st1, [(m1, r1)]) (st2, [(m1, r1), (m2, r2)])"
      using seq_step.take [OF take2, of "[(m1, r1)]"] by simp
    moreover have "seq_step d (st2, [(m1, r1), (m2, r2)]) (?st3, [(m1, r1)])"
      using seq_step.send [OF e1, of "[(m1, r1)]" r2 "[]"] by simp
    moreover have "seq_step d (?st3, [(m1, r1)]) (?st4, [])" using seq_step.send [OF e2, of "[]" r1 "[]"] by simp
    moreover have "seq_step d (?st4, []) (?st5, [])" using f by (blast intro: seq_step.flush)
    ultimately have "seq_run d (Suc (Suc (Suc (Suc (Suc 0))))) (st, []) (?st5, [])"
      by (blast intro: seq_run_1 seq_run.run_refl)
    then show ?thesis by (simp add: numeral_eq_Suc)
  qed
  moreover have "\<not> batch_contains (new_batch_info (?c + 1) ?c path) q" for path q
  proof -
    have "?c < ?c + 1" using wrap by (simp add: word_less_nat_alt unat_word_ariths)
    then show ?thesis by (auto simp: batch_contains_def new_batch_info_def)
  qed
  moreover have "cb_messages batch = [m2, m1]" by (rule new_batch_messages [OF batch])
  ultimately show ?thesis using range
    by (intro exI [of _ ?st5] exI [of _ ?b5] exI [of _ batch] conjI allI) (simp_all add: r1 r2)
qed

section \<open>Witnesses\<close>

definition demo_deps :: "(bool, bool, unit) seq_deps" where
  "demo_deps = \<lparr>d_ext = demo_ext, d_payload = demo_codec, d_gcp = demo_gcp None, d_pub = demo_transport\<rparr>"

definition demo_state :: "unit app_state" where
  "demo_state = \<lparr>ap_inbox = new_inbox (demo_key_manager True), ap_attestation = None,
     ap_batcher = Some (Running (spawn_batcher default_batch_config (demo_key_manager True) 0, ()))\<rparr>"

definition demo_env :: env where
  "demo_env = \<lparr>ev_clk = demo_clocks, ev_jwks = demo_jwks_source\<rparr>"

lemma demo_fields [simp]:
  "d_ext demo_deps = demo_ext" "d_payload demo_deps = demo_codec" "d_pub demo_deps = demo_transport"
  "ib_key_manager (ap_inbox demo_state) = demo_key_manager True" "ib_sequence (ap_inbox demo_state) = 0"
  "ap_attestation demo_state = None"
  "ap_batcher demo_state = Some (Running (spawn_batcher default_batch_config (demo_key_manager True) 0, ()))"
  by (simp_all add: demo_deps_def demo_state_def new_inbox_def inbox_with_start_sequence_def)

lemma demo_sequence_step:
  assumes "ib_key_manager (ap_inbox st) = demo_key_manager True"
  shows "\<exists>m r. sequence_step demo_deps env mt payload st
    = (st\<lparr>ap_inbox := (ap_inbox st)\<lparr>ib_sequence := ib_sequence (ap_inbox st) + 1\<rparr>\<rparr>, Returns (Inr (m, r)))"
  using demo_sequence_message [OF assms, of mt payload "clk_secs (ev_clk env)"] by (auto simp: sequence_step_ok)

theorem changesets_sequence_use_witness:
  "\<exists>st' resp. receive_changesets demo_deps demo_env demo_changesets demo_state = (st', Returns (Inr (201, resp)))
     \<and> sr_sequence resp = 0 \<and> ib_sequence (ap_inbox st') = 1"
proof -
  obtain m r where "sequence_step demo_deps demo_env Changeset [1] demo_state
     = (demo_state\<lparr>ap_inbox := (ap_inbox demo_state)\<lparr>ib_sequence := 0 + 1\<rparr>\<rparr>, Returns (Inr (m, r)))"
    using demo_sequence_step [of demo_state demo_env Changeset "[1]"] by auto
  then obtain st' resp where r: "receive_changesets demo_deps demo_env demo_changesets demo_state = (st', Returns (Inr (201, resp)))"
    by (auto simp: receive_changesets_def check_attestation_def demo_codec_def split_beta Let_def)
  from changesets_sequence_use [OF r] have "sr_sequence resp = ib_sequence (ap_inbox demo_state)"
    "ib_sequence (ap_inbox st') = ib_sequence (ap_inbox demo_state) + 1" by blast+
  with r show ?thesis by simp
qed

theorem withdrawal_bridge_failure_gap_witness:
  "\<exists>st' msg. receive_withdrawal demo_deps demo_env demo_withdrawal demo_state = (st', Returns (Inl (500, msg)))
     \<and> ib_sequence (ap_inbox st') = 1 \<and> ap_batcher st' = ap_batcher demo_state"
proof -
  obtain m r where s: "sequence_step demo_deps demo_env Withdrawal [2] demo_state
     = (demo_state\<lparr>ap_inbox := (ap_inbox demo_state)\<lparr>ib_sequence := ib_sequence (ap_inbox demo_state) + 1\<rparr>\<rparr>, Returns (Inr (m, r)))"
    using demo_sequence_step [of demo_state demo_env Withdrawal "[2]"] by auto
  have id: "wq_request_id demo_withdrawal = ''123''" by (simp add: demo_withdrawal_def)
  obtain e where e: "sign_bridge_withdrawal (d_ext demo_deps)
      (ap_inbox (demo_state\<lparr>ap_inbox := (ap_inbox demo_state)\<lparr>ib_sequence := ib_sequence (ap_inbox demo_state) + 1\<rparr>\<rparr>))
      (wq_request_id demo_withdrawal) (wq_recipient demo_withdrawal) (wq_data demo_withdrawal) (wq_amount demo_withdrawal) = Inl e"
    unfolding id by (simp add: sign_bridge_withdrawal_def bridge_message_id_def Let_def strip_0x_def is_ascii_hexdigit_def
        is_ascii_digit_def demo_hex_decode_def)
  have "valid_recipient (wq_recipient demo_withdrawal)" "valid_amount (wq_amount demo_withdrawal)" "wq_request_id demo_withdrawal \<noteq> []"
    "withdrawal_to_cbor (d_payload demo_deps) demo_withdrawal = Inr [2]"
    by (simp_all add: demo_withdrawal_def valid_recipient_def valid_amount_def starts_with_def is_ascii_hexdigit_def
        is_ascii_digit_def demo_codec_def)
  from withdrawal_bridge_failure_gap [OF this s e] show ?thesis by auto
qed


lemma demo_message_size:
  assumes "new_signed_message demo_ext s t mt payload k sign_fn = Inr m"
  shows "message_size m = 145 + length payload"
proof -
  from assms obtain b where b: "m = CborSignedMessage b" "build_cose_sign1 demo_ext s t mt payload k sign_fn = Inr b"
    by (auto simp: new_signed_message_def bind_r_eq_Inr)
  then obtain sg where "demo_cose_to_vec (cose_of s t mt payload (replicate 64 (bit_byte k)) (demo_sig_bytes sg)) = Inr b"
    by (auto simp: build_cose_sign1_Inr)
  then show ?thesis
    by (auto simp: b demo_cose_to_vec_def extract_pubkey_bytes_def unprotected_of_def demo_sig_bytes_def message_size_def)
qed

lemma demo_sequence_size:
  assumes "ib_key_manager (ap_inbox st) = demo_key_manager True"
    and "sequence_step demo_deps env mt payload st = (st', Returns (Inr (m, r)))"
  shows "message_size m = 145 + length payload"
proof -
  have "sign_sequenced demo_ext (demo_key_manager True) (ib_sequence (ap_inbox st)) (clk_secs (ev_clk env)) mt payload = Inr (m, r)"
    using assms by (auto simp: sequence_step_ok sequence_message_ok)
  from sign_sequenced_ok(1) [OF this demo_key_manager_ok demo_ecdsa] show ?thesis by (rule demo_message_size)
qed

theorem concurrent_requests_reorder_batch_witness:
  "\<exists>st' b' batch. seq_run demo_deps 5 (demo_state, []) (st', [])
     \<and> ap_batcher st' = Some (Running (b', fst (d_pub demo_deps batch ())))
     \<and> cb_start_sequence batch = 1 \<and> cb_end_sequence batch = 0"
proof -
  obtain st1 m1 r1 where t1: "sequence_step demo_deps demo_env Changeset [1] demo_state = (st1, Returns (Inr (m1, r1)))"
    "ib_key_manager (ap_inbox st1) = demo_key_manager True" "ib_sequence (ap_inbox st1) = 1"
    using demo_sequence_step [of demo_state demo_env Changeset "[1]"] by auto
  obtain st2 m2 r2 where t2: "sequence_step demo_deps demo_env Changeset [1] st1 = (st2, Returns (Inr (m2, r2)))"
    using demo_sequence_step [OF t1(2), of demo_env Changeset "[1]"] by auto
  let ?b = "spawn_batcher default_batch_config (demo_key_manager True) 0"
  have size: "message_size m1 + message_size m2 < max_batch_bytes (ba_config ?b)"
    using demo_sequence_size [OF _ t1(1)] demo_sequence_size [OF t1(2) t2]
    by (simp add: spawn_batcher_def default_batch_config_def)
  have "\<exists>st' b' batch. seq_run demo_deps 5 (demo_state, []) (st', [])
     \<and> ap_batcher st' = Some (Running (b', fst (d_pub demo_deps batch ())))
     \<and> cb_messages batch = [m2, m1]
     \<and> cb_start_sequence batch = rc_sequence r2 \<and> cb_end_sequence batch = rc_sequence r1
     \<and> (\<forall>q path. \<not> batch_contains (new_batch_info (cb_start_sequence batch) (cb_end_sequence batch) path) q)"
    by (rule concurrent_requests_reorder_batch [OF _ _ _ t1(1) t2 _ _ _ _ size, of True])
       (use demo_sign_batch_data in \<open>auto simp: demo_ecdsa demo_cose demo_key_manager_ok spawn_batcher_def
          default_batch_config_def demo_transport_def\<close>)
  moreover have "rc_sequence r1 = 0" "rc_sequence r2 = 1"
    using t1 t2 by (auto simp: sequence_step_ok dest!: sequence_message_rc)
  ultimately show ?thesis by (elim exE conjE) (intro exI conjI, assumption+, simp_all)
qed

end
