(* ===== verification/Client_Session.thy ===== *)
theory Client_Session
  imports Inbox
begin

text \<open>
  Capturing of changes by the client library, \<open>crates/synddb-client/src/session.rs\<close>. SQLite's session extension is the
  list of row changes committed since the session was created and a parameter that encodes them; like
  \<open>changeset_strm\<close>, the encoding does not reset the session. The channels to the sender threads are bounded, and
  a send that finds one full or without a receiver fails. What SQLite answers during one call is a record of arguments.
\<close>

section \<open>Channels\<close>

record 'a channel =
  ch_queue :: "'a list"
  ch_capacity :: nat
  ch_connected :: bool

definition try_send :: "'a \<Rightarrow> 'a channel \<Rightarrow> 'a channel option" where
  "try_send a ch =
     (if ch_connected ch \<and> length (ch_queue ch) < ch_capacity ch then Some (ch\<lparr>ch_queue := ch_queue ch @ [a]\<rparr>) else None)"

section \<open>State\<close>

text \<open>Times are seconds since the epoch.\<close>

record changeset =
  cg_data :: bytes
  cg_sequence :: u64
  cg_timestamp :: int

record snapshot =
  sp_data :: bytes
  sp_timestamp :: int
  sp_sequence :: u64

record 'c session_state =
  ses_session :: "'c list"
  ses_changeset_tx :: "changeset channel"
  ses_sequence :: u64
  ses_snapshot_interval :: u64
  ses_changesets_since_snapshot :: u64
  ses_snapshot_tx :: "snapshot channel option"
  ses_has_changes :: bool
  ses_last_schema_hash :: u64

record push_io =
  pu_autocommit :: bool
  pu_schema_hash :: u64
  pu_schema_snapshot :: "string + bytes"
  pu_changeset_error :: "string option"
  pu_autocommit_after :: bool
  pu_interval_snapshot :: "string + bytes"
  pu_new_session_error :: "string option"
  pu_now :: int

section \<open>Operations\<close>

text \<open>\<open>SessionMonitor::new\<close> after the session is created and attached.\<close>

definition new_session_state :: "changeset channel \<Rightarrow> u64 \<Rightarrow> snapshot channel option \<Rightarrow> u64 \<Rightarrow> 'c session_state" where
  "new_session_state changeset_tx snapshot_interval snapshot_tx initial_schema_hash =
     \<lparr>ses_session = [], ses_changeset_tx = changeset_tx, ses_sequence = 0, ses_snapshot_interval = snapshot_interval,
      ses_changesets_since_snapshot = 0, ses_snapshot_tx = snapshot_tx, ses_has_changes = False,
      ses_last_schema_hash = initial_schema_hash\<rparr>"

definition new_session_monitor ::
  "string option \<Rightarrow> string option \<Rightarrow> changeset channel \<Rightarrow> u64 \<Rightarrow> snapshot channel option \<Rightarrow> u64 \<Rightarrow> string + 'c session_state" where
  "new_session_monitor create_error attach_error changeset_tx snapshot_interval snapshot_tx initial_schema_hash =
     (if create_error \<noteq> None then Inl ''Failed to create SQLite session''
      else if attach_error \<noteq> None then Inl ''Failed to attach session to tables''
      else Inr (new_session_state changeset_tx snapshot_interval snapshot_tx initial_schema_hash))"

text \<open>The update hook, and the session extension, see every committed row change.\<close>

definition update_hook :: "'c list \<Rightarrow> 'c session_state \<Rightarrow> 'c session_state" where
  "update_hook changes st = (if changes = [] then st else st\<lparr>ses_session := ses_session st @ changes, ses_has_changes := True\<rparr>)"

definition recreate_session :: "string option \<Rightarrow> 'c session_state \<Rightarrow> 'c session_state \<times> (string + unit)" where
  "recreate_session err st =
     (case err of Some e \<Rightarrow> (st, Inl e) | None \<Rightarrow> (st\<lparr>ses_session := []\<rparr>, Inr ()))"

definition create_snapshot_internal :: "bool \<Rightarrow> string + bytes \<Rightarrow> int \<Rightarrow> 'c session_state \<Rightarrow> string + snapshot" where
  "create_snapshot_internal autocommit backup now st =
     (if \<not> autocommit then Inl ''Cannot create snapshot while a transaction is active''
      else bind_r backup (\<lambda>snapshot_bytes. Inr \<lparr>sp_data = snapshot_bytes, sp_timestamp = now, sp_sequence = ses_sequence st\<rparr>))"

text \<open>The snapshot sent when the schema has changed since the last push; \<open>expect\<close> panics without a channel. The new
  hash is stored whether or not the snapshot was sent.\<close>

definition schema_snapshot :: "push_io \<Rightarrow> 'c session_state \<Rightarrow> 'c session_state outcome" where
  "schema_snapshot io st =
     (if pu_schema_hash io = ses_last_schema_hash st then Returns st
      else case create_snapshot_internal (pu_autocommit io) (pu_schema_snapshot io) (pu_now io) st of
             Inl e \<Rightarrow> Returns (st\<lparr>ses_last_schema_hash := pu_schema_hash io\<rparr>)
           | Inr s \<Rightarrow>
               (case ses_snapshot_tx st of
                  None \<Rightarrow> Panics
                | Some ch \<Rightarrow>
                    (case try_send s ch of
                       None \<Rightarrow> Returns (st\<lparr>ses_last_schema_hash := pu_schema_hash io\<rparr>)
                     | Some ch1 \<Rightarrow> Returns (st\<lparr>ses_snapshot_tx := Some ch1, ses_sequence := ses_sequence st + 1,
                                    ses_changesets_since_snapshot := 0, ses_last_schema_hash := pu_schema_hash io\<rparr>))))"

text \<open>The snapshot sent after every \<open>snapshot_interval\<close> changesets.\<close>

definition interval_snapshot :: "push_io \<Rightarrow> 'c session_state \<Rightarrow> 'c session_state outcome" where
  "interval_snapshot io st =
     (if ses_snapshot_interval st \<le> ses_changesets_since_snapshot st \<and> pu_autocommit_after io
      then (case create_snapshot_internal (pu_autocommit_after io) (pu_interval_snapshot io) (pu_now io) st of
              Inl e \<Rightarrow> Returns st
            | Inr s \<Rightarrow>
                (case ses_snapshot_tx st of
                   None \<Rightarrow> Panics
                 | Some ch \<Rightarrow>
                     (case try_send s ch of
                        None \<Rightarrow> Returns st
                      | Some ch1 \<Rightarrow> Returns (st\<lparr>ses_snapshot_tx := Some ch1, ses_changesets_since_snapshot := 0\<rparr>))))
      else Returns st)"

text \<open>A changeset that cannot be sent is logged and dropped.\<close>

definition queue_changeset :: "changeset \<Rightarrow> 'c session_state \<Rightarrow> 'c session_state" where
  "queue_changeset c st = (case try_send c (ses_changeset_tx st) of None \<Rightarrow> st | Some ch \<Rightarrow> st\<lparr>ses_changeset_tx := ch\<rparr>)"

definition extract_and_send_changeset ::
  "('c list \<Rightarrow> bytes) \<Rightarrow> push_io \<Rightarrow> 'c session_state \<Rightarrow> ('c session_state \<times> (string + unit)) outcome" where
  "extract_and_send_changeset encode io st =
     (if \<not> ses_has_changes st then Returns (st, Inr ())
      else if \<not> pu_autocommit io then Returns (st, Inr ())
      else case schema_snapshot io st of
             Panics \<Rightarrow> Panics
           | Returns st1 \<Rightarrow>
               (case pu_changeset_error io of
                  Some e \<Rightarrow> Returns (st1, Inl ''Failed to get changeset from session'')
                | None \<Rightarrow>
                    (let changeset_data = encode (ses_session st1);
                         st2 = st1\<lparr>ses_has_changes := False\<rparr>
                     in if changeset_data = [] then Returns (st2, Inr ())
                        else let c = \<lparr>cg_data = changeset_data, cg_sequence = ses_sequence st2, cg_timestamp = pu_now io\<rparr>;
                                 st3 = queue_changeset c (st2\<lparr>ses_sequence := ses_sequence st2 + 1,
                                   ses_changesets_since_snapshot := ses_changesets_since_snapshot st2 + 1\<rparr>)
                             in case interval_snapshot io st3 of
                                  Panics \<Rightarrow> Panics
                                | Returns st4 \<Rightarrow> Returns (recreate_session (pu_new_session_error io) st4))))"

text \<open>\<open>push\<close> and \<open>snapshot\<close> on the thread-local state, which is empty once the monitor is dropped.\<close>

definition session_push ::
  "('c list \<Rightarrow> bytes) \<Rightarrow> push_io \<Rightarrow> 'c session_state option \<Rightarrow> ('c session_state option \<times> (string + unit)) outcome" where
  "session_push encode io st =
     (case st of
        None \<Rightarrow> Returns (None, Inl ''Session state not initialized - internal error'')
      | Some s \<Rightarrow>
          (case extract_and_send_changeset encode io s of
             Panics \<Rightarrow> Panics
           | Returns (s1, r) \<Rightarrow> Returns (Some s1, r)))"

definition session_snapshot :: "bool \<Rightarrow> string + bytes \<Rightarrow> int \<Rightarrow> 'c session_state option \<Rightarrow> string + snapshot" where
  "session_snapshot autocommit backup now st =
     (case st of
        None \<Rightarrow> Inl ''Session state not initialized - internal error''
      | Some s \<Rightarrow> create_snapshot_internal autocommit backup now s)"

text \<open>Dropping the monitor extracts once more and then clears the state, which closes both channels.\<close>

definition drop_monitor ::
  "('c list \<Rightarrow> bytes) \<Rightarrow> push_io \<Rightarrow> 'c session_state option \<Rightarrow> (changeset channel \<times> snapshot channel option) option outcome" where
  "drop_monitor encode io st =
     (case st of
        None \<Rightarrow> Returns None
      | Some s \<Rightarrow>
          (case extract_and_send_changeset encode io s of
             Panics \<Rightarrow> Panics
           | Returns (s1, r) \<Rightarrow> Returns (Some (ses_changeset_tx s1, ses_snapshot_tx s1))))"

section \<open>Runs\<close>

text \<open>
  The application commits changes and pushes; the sender's thread takes changesets from the channel. \<open>cap_taken\<close> and
  \<open>cap_committed\<close> record what it has taken and what was committed.\<close>

record 'c capture =
  cap_state :: "'c session_state"
  cap_taken :: "changeset list"
  cap_committed :: "'c list"

datatype 'c capture_event = Commit "'c list" | Push push_io | TakeChangeset

fun capture_step :: "('c list \<Rightarrow> bytes) \<Rightarrow> 'c capture_event \<Rightarrow> 'c capture \<Rightarrow> 'c capture" where
  "capture_step encode (Commit cs) s =
     s\<lparr>cap_state := update_hook cs (cap_state s), cap_committed := cap_committed s @ cs\<rparr>"
| "capture_step encode (Push io) s =
     (case extract_and_send_changeset encode io (cap_state s) of Panics \<Rightarrow> s | Returns (st, r) \<Rightarrow> s\<lparr>cap_state := st\<rparr>)"
| "capture_step encode TakeChangeset s =
     (case ch_queue (ses_changeset_tx (cap_state s)) of
        [] \<Rightarrow> s
      | c # q \<Rightarrow> s\<lparr>cap_state := (cap_state s)\<lparr>ses_changeset_tx := (ses_changeset_tx (cap_state s))\<lparr>ch_queue := q\<rparr>\<rparr>,
                  cap_taken := cap_taken s @ [c]\<rparr>)"

text \<open>SQLite works, the channel has room, the snapshot channel exists, and the counter is not about to wrap around. Snapshots
  may fail or find their channel full.\<close>

fun capture_ok :: "'c capture_event \<Rightarrow> 'c capture \<Rightarrow> bool" where
  "capture_ok (Push io) s \<longleftrightarrow>
     pu_changeset_error io = None \<and> pu_new_session_error io = None
     \<and> ch_connected (ses_changeset_tx (cap_state s))
     \<and> length (ch_queue (ses_changeset_tx (cap_state s))) < ch_capacity (ses_changeset_tx (cap_state s))
     \<and> ses_snapshot_tx (cap_state s) \<noteq> None \<and> ses_sequence (cap_state s) < - 2"
| "capture_ok _ s \<longleftrightarrow> True"

definition captured :: "'c capture \<Rightarrow> changeset list" where
  "captured s = cap_taken s @ ch_queue (ses_changeset_tx (cap_state s))"

definition capture_inv :: "('c list \<Rightarrow> bytes) \<Rightarrow> 'c capture \<Rightarrow> bool" where
  "capture_inv encode s \<longleftrightarrow>
     (\<exists>segments. concat segments @ ses_session (cap_state s) = cap_committed s
        \<and> map cg_data (captured s) = map encode segments \<and> (\<forall>seg \<in> set segments. encode seg \<noteq> []))
     \<and> sorted_wrt (<) (map cg_sequence (captured s)) \<and> (\<forall>c \<in> set (captured s). cg_sequence c < ses_sequence (cap_state s))"

lemma schema_snapshot_effect:
  assumes "schema_snapshot io st = Returns st'"
  shows "ses_session st' = ses_session st" "ses_changeset_tx st' = ses_changeset_tx st" "ses_has_changes st' = ses_has_changes st"
    "ses_sequence st' = ses_sequence st \<or> ses_sequence st' = ses_sequence st + 1" "ses_snapshot_tx st' = None \<longleftrightarrow> ses_snapshot_tx st = None"
  using assms by (auto simp: schema_snapshot_def split: if_splits sum.splits option.splits)

lemma interval_snapshot_effect:
  assumes "interval_snapshot io st = Returns st'"
  shows "ses_session st' = ses_session st" "ses_changeset_tx st' = ses_changeset_tx st" "ses_has_changes st' = ses_has_changes st"
    "ses_sequence st' = ses_sequence st"
  using assms by (auto simp: interval_snapshot_def split: if_splits sum.splits option.splits)

lemma snapshots_return:
  assumes "ses_snapshot_tx st \<noteq> None"
  shows "\<exists>st'. schema_snapshot io st = Returns st'" and "\<exists>st'. interval_snapshot io st = Returns st'"
  using assms by (auto simp: schema_snapshot_def interval_snapshot_def split: if_splits sum.splits option.splits)

text \<open>What a push does when SQLite works and the channel has room: nothing, or one changeset with everything in the session.\<close>

lemma push_effect:
  assumes "capture_ok (Push io) s" and "st = cap_state s"
  obtains (same) st' where "extract_and_send_changeset encode io st = Returns (st', Inr ())" "ses_session st' = ses_session st"
      "ses_changeset_tx st' = ses_changeset_tx st" "ses_sequence st \<le> ses_sequence st'"
      "\<not> (ses_has_changes st \<and> pu_autocommit io) \<or> encode (ses_session st) = []"
    | (sent) st' n where "extract_and_send_changeset encode io st = Returns (st', Inr ())" "ses_session st' = []"
      "ses_changeset_tx st' = (ses_changeset_tx st)\<lparr>ch_queue := ch_queue (ses_changeset_tx st)
          @ [\<lparr>cg_data = encode (ses_session st), cg_sequence = n, cg_timestamp = pu_now io\<rparr>]\<rparr>"
      "encode (ses_session st) \<noteq> []" "ses_sequence st \<le> n" "n < ses_sequence st'"
proof (cases "ses_has_changes st \<and> pu_autocommit io")
  case False
  then show ?thesis using same [of st] by (auto simp: extract_and_send_changeset_def)
next
  case True
  have ok: "pu_changeset_error io = None" "pu_new_session_error io = None" "ses_snapshot_tx st \<noteq> None" "ses_sequence st < - 2"
      "ch_connected (ses_changeset_tx st)" "length (ch_queue (ses_changeset_tx st)) < ch_capacity (ses_changeset_tx st)"
    using assms by auto
  obtain st1 where st1: "schema_snapshot io st = Returns st1" using snapshots_return(1) [OF ok(3)] by blast
  note e1 = schema_snapshot_effect [OF st1]
  have "unat (ses_sequence st) < unat (- 2 :: u64)" using ok(4) by (simp add: word_less_nat_alt)
  then have small: "unat (ses_sequence st) < 18446744073709551614" by simp
  have suc: "unat (w + 1) = unat w + 1" if "unat w < 18446744073709551615" for w :: u64
    using that by (subst unat_add_lem [THEN iffD1]) auto
  have seq1: "ses_sequence st \<le> ses_sequence st1" "ses_sequence st1 < ses_sequence st1 + 1"
    using e1(4) small suc [of "ses_sequence st"] suc [of "ses_sequence st + 1"] by (auto simp: word_le_nat_alt word_less_nat_alt)
  show ?thesis
  proof (cases "encode (ses_session st) = []")
    case empty: True
    then have "extract_and_send_changeset encode io st = Returns (st1\<lparr>ses_has_changes := False\<rparr>, Inr ())"
      using True ok st1 e1 by (simp add: extract_and_send_changeset_def Let_def)
    then show ?thesis using e1 seq1 empty by (intro same [of "st1\<lparr>ses_has_changes := False\<rparr>"]) auto
  next
    case nonempty: False
    let ?c = "\<lparr>cg_data = encode (ses_session st), cg_sequence = ses_sequence st1, cg_timestamp = pu_now io\<rparr>"
    define st3 where "st3 = queue_changeset ?c (st1\<lparr>ses_has_changes := False, ses_sequence := ses_sequence st1 + 1,
        ses_changesets_since_snapshot := ses_changesets_since_snapshot st1 + 1\<rparr>)"
    have q: "ses_changeset_tx st3 = (ses_changeset_tx st)\<lparr>ch_queue := ch_queue (ses_changeset_tx st) @ [?c]\<rparr>"
      "ses_snapshot_tx st3 \<noteq> None" "ses_sequence st3 = ses_sequence st1 + 1"
      using ok e1 by (auto simp: st3_def queue_changeset_def try_send_def)
    obtain st4 where st4: "interval_snapshot io st3 = Returns st4" using snapshots_return(2) [OF q(2)] by blast
    have "extract_and_send_changeset encode io st = Returns (st4\<lparr>ses_session := []\<rparr>, Inr ())"
      using True ok st1 e1 nonempty st4 by (simp add: extract_and_send_changeset_def Let_def recreate_session_def flip: st3_def)
    then show ?thesis using interval_snapshot_effect [OF st4] q seq1 nonempty by (intro sent [of "st4\<lparr>ses_session := []\<rparr>" "ses_sequence st1"]) auto
  qed
qed

lemma capture_step_inv:
  assumes "capture_inv encode s" "capture_ok e s"
  shows "capture_inv encode (capture_step encode e s)"
proof (cases e)
  case (Commit cs)
  with assms(1) show ?thesis by (fastforce simp: capture_inv_def captured_def update_hook_def)
next
  case TakeChangeset
  with assms(1) show ?thesis by (cases "ch_queue (ses_changeset_tx (cap_state s))") (auto simp: capture_inv_def captured_def)
next
  case (Push io)
  obtain segments where seg: "concat segments @ ses_session (cap_state s) = cap_committed s"
      "map cg_data (captured s) = map encode segments" "\<forall>seg \<in> set segments. encode seg \<noteq> []"
    using assms(1) unfolding capture_inv_def by blast
  have num: "sorted_wrt (<) (map cg_sequence (captured s))" "\<forall>c \<in> set (captured s). cg_sequence c < ses_sequence (cap_state s)"
    using assms(1) unfolding capture_inv_def by blast+
  from assms(2) [unfolded Push] refl show ?thesis
  proof (cases rule: push_effect [where encode = encode])
    case (same st')
    have step: "capture_step encode e s = s\<lparr>cap_state := st'\<rparr>" using same(1) by (simp add: Push)
    have "captured (s\<lparr>cap_state := st'\<rparr>) = captured s" using same(3) by (simp add: captured_def)
    moreover have "\<forall>c \<in> set (captured s). cg_sequence c < ses_sequence st'" using num(2) same(4) by auto
    ultimately show ?thesis unfolding step capture_inv_def using seg num same(2) by auto
  next
    case (sent st' n)
    let ?c = "\<lparr>cg_data = encode (ses_session (cap_state s)), cg_sequence = n, cg_timestamp = pu_now io\<rparr>"
    have step: "capture_step encode e s = s\<lparr>cap_state := st'\<rparr>" using sent(1) by (simp add: Push)
    have cap: "captured (s\<lparr>cap_state := st'\<rparr>) = captured s @ [?c]" using sent(3) by (simp add: captured_def)
    have less: "\<forall>c \<in> set (captured s). cg_sequence c < n" using num(2) sent(5) by auto
    have "\<exists>segs. concat segs @ ses_session st' = cap_committed s
        \<and> map cg_data (captured s @ [?c]) = map encode segs \<and> (\<forall>seg \<in> set segs. encode seg \<noteq> [])"
      using seg sent(2,4) by (intro exI [of _ "segments @ [ses_session (cap_state s)]"]) auto
    moreover have "sorted_wrt (<) (map cg_sequence (captured s @ [?c]))" using num(1) less by (simp add: sorted_wrt_append)
    moreover have "\<forall>c \<in> set (captured s @ [?c]). cg_sequence c < ses_sequence st'" using less sent(6) by auto
    ultimately show ?thesis unfolding step capture_inv_def cap by simp
  qed
qed

interpretation capturing: machine "capture_step encode" "capture_inv encode" capture_ok for encode
  by unfold_locales (rule capture_step_inv)

definition start_capture :: "changeset channel \<Rightarrow> u64 \<Rightarrow> snapshot channel option \<Rightarrow> u64 \<Rightarrow> 'c capture" where
  "start_capture ch interval sch hash =
     \<lparr>cap_state = new_session_state ch interval sch hash, cap_taken = [], cap_committed = []\<rparr>"

text \<open>C35: Every committed change is captured exactly once and in order: after any sequence of commits, pushes and
  receptions, in which SQLite works and the channel had room, the changesets handed to the sender are the encodings of
  consecutive segments of the committed changes, what is not yet captured is still in the session, and the
  changesets carry strictly increasing sequence numbers.\<close>

theorem changes_captured_once:
  assumes "run_ok (capture_step encode) capture_ok es (start_capture ch interval sch hash)" and "ch_queue ch = []"
    and "s = run (capture_step encode) es (start_capture ch interval sch hash)"
  shows "(\<exists>segments. concat segments @ ses_session (cap_state s) = cap_committed s
        \<and> map cg_data (captured s) = map encode segments \<and> (\<forall>seg \<in> set segments. encode seg \<noteq> []))
    \<and> sorted_wrt (<) (map cg_sequence (captured s))"
proof -
  have "capture_inv encode (start_capture ch interval sch hash)"
    using assms(2) by (auto simp: capture_inv_def start_capture_def new_session_state_def captured_def intro!: exI [of _ "[]"])
  from capturing.run_inv [OF this assms(1)] show ?thesis unfolding assms(3) capture_inv_def by blast
qed

definition demo_channel :: "nat \<Rightarrow> 'a channel" where
  "demo_channel n = \<lparr>ch_queue = [], ch_capacity = n, ch_connected = True\<rparr>"

definition demo_push :: push_io where
  "demo_push = \<lparr>pu_autocommit = True, pu_schema_hash = 5, pu_schema_snapshot = Inr [1], pu_changeset_error = None,
     pu_autocommit_after = True, pu_interval_snapshot = Inr [2], pu_new_session_error = None, pu_now = 9\<rparr>"

definition demo_capture_events :: "u8 capture_event list" where
  "demo_capture_events = [Commit [1, 2], Push demo_push, Commit [3], TakeChangeset, Push demo_push, Commit [4]]"

theorem changes_captured_once_witness:
  "(let s = run (capture_step (\<lambda>bs. bs)) demo_capture_events (start_capture (demo_channel 1) 100 (Some (demo_channel 10)) 4)
    in map cg_data (captured s) = [[1, 2], [3]] \<and> ses_session (cap_state s) = [4]
       \<and> sorted_wrt (<) (map cg_sequence (captured s)))"
proof -
  have ok: "run_ok (capture_step (\<lambda>bs. bs)) capture_ok demo_capture_events (start_capture (demo_channel 1) 100 (Some (demo_channel 10)) 4)"
    by code_simp
  have v: "map cg_data (captured (run (capture_step (\<lambda>bs. bs)) demo_capture_events (start_capture (demo_channel 1) 100 (Some (demo_channel 10)) 4))) = [[1, 2], [3]]"
    "ses_session (cap_state (run (capture_step (\<lambda>bs. bs)) demo_capture_events (start_capture (demo_channel 1) 100 (Some (demo_channel 10)) 4))) = [4]"
    by code_simp+
  have "ch_queue (demo_channel 1) = []" by (simp add: demo_channel_def)
  from changes_captured_once [OF ok this refl] v show ?thesis by (simp add: Let_def)
qed

section \<open>What is lost\<close>

text \<open>A push that finds the channel to the sender full loses the changes for ever and reports success: the session is
  recreated although the changeset was not queued, and the sequence number is used up.\<close>

theorem full_channel_loses_changes:
  assumes "ses_has_changes st" and "pu_autocommit io" and "pu_schema_hash io = ses_last_schema_hash st"
    and "pu_changeset_error io = None" and "pu_new_session_error io = None" and "encode (ses_session st) \<noteq> []"
    and "ch_capacity (ses_changeset_tx st) \<le> length (ch_queue (ses_changeset_tx st))" and "ses_snapshot_tx st \<noteq> None"
  shows "\<exists>st'. extract_and_send_changeset encode io st = Returns (st', Inr ()) \<and> ses_session st' = []
    \<and> ses_changeset_tx st' = ses_changeset_tx st \<and> ses_sequence st' = ses_sequence st + 1"
proof -
  let ?st2 = "st\<lparr>ses_has_changes := False, ses_sequence := ses_sequence st + 1, ses_changesets_since_snapshot := ses_changesets_since_snapshot st + 1\<rparr>"
  have q: "queue_changeset c ?st2 = ?st2" for c using assms(7) by (simp add: queue_changeset_def try_send_def)
  have "ses_snapshot_tx ?st2 \<noteq> None" using assms(8) by simp
  from snapshots_return(2) [OF this, of io] obtain st4 where st4: "interval_snapshot io ?st2 = Returns st4" by blast
  have "extract_and_send_changeset encode io st = Returns (st4\<lparr>ses_session := []\<rparr>, Inr ())"
    using assms(1-6) st4 q by (simp add: extract_and_send_changeset_def schema_snapshot_def Let_def recreate_session_def)
  then show ?thesis using interval_snapshot_effect [OF st4] by (intro exI [of _ "st4\<lparr>ses_session := []\<rparr>"]) simp
qed

theorem full_channel_loses_changes_witness:
  "\<exists>st'. extract_and_send_changeset (\<lambda>bs. bs) demo_push
      (update_hook [7] (new_session_state (demo_channel 0) 100 (Some (demo_channel 10)) 5)) = Returns (st', Inr ())
    \<and> ses_session st' = [] \<and> ch_queue (ses_changeset_tx st') = []"
proof -
  let ?st = "update_hook [7] (new_session_state (demo_channel 0) 100 (Some (demo_channel 10)) 5) :: u8 session_state"
  have "ses_has_changes ?st" "pu_autocommit demo_push" "pu_schema_hash demo_push = ses_last_schema_hash ?st"
    "pu_changeset_error demo_push = None" "pu_new_session_error demo_push = None" "ses_session ?st \<noteq> []"
    "ch_capacity (ses_changeset_tx ?st) \<le> length (ch_queue (ses_changeset_tx ?st))" "ses_snapshot_tx ?st \<noteq> None"
    by (simp_all add: update_hook_def new_session_state_def demo_push_def demo_channel_def)
  from full_channel_loses_changes [where encode = "\<lambda>bs. bs", OF this] show ?thesis
    by (auto simp: update_hook_def new_session_state_def demo_channel_def)
qed

text \<open>A schema change whose snapshot could not be sent is forgotten: the new hash is stored, so no later push sends one, and
  the changesets that use the new schema go out without it.\<close>

theorem unsent_schema_snapshot_forgotten:
  assumes "pu_schema_hash io \<noteq> ses_last_schema_hash st" and "pu_autocommit io"
    and "pu_schema_snapshot io = Inl e \<or> (\<exists>ch. ses_snapshot_tx st = Some ch \<and> ch_capacity ch \<le> length (ch_queue ch))"
  shows "\<exists>st'. schema_snapshot io st = Returns st' \<and> ses_snapshot_tx st' = ses_snapshot_tx st
    \<and> (\<forall>io'. pu_schema_hash io' = pu_schema_hash io \<longrightarrow> schema_snapshot io' st' = Returns st')"
  using assms by (cases "pu_schema_snapshot io") (auto simp: schema_snapshot_def create_snapshot_internal_def try_send_def)

end
