(* ===== verification/Client_Recovery.thy ===== *)
theory Client_Recovery
  imports Client_Session
begin

text \<open>
  Delivery support of the client library: retries with exponential backoff (\<open>crates/synddb-client/src/retry.rs\<close>), the
  replication statistics (\<open>stats.rs\<close>), and the database of batches that could not be sent (\<open>recovery.rs\<close>). SQLite
  results are arguments (\<open>None\<close> for success); the two tables have the same columns, and numbers are stored as \<open>i64\<close>.
\<close>

section \<open>Retries\<close>

text \<open>The delays slept, in seconds, and the result. Falling out of the loop is \<open>unreachable!()\<close>.\<close>

fun backoff_loop :: "nat \<Rightarrow> nat \<Rightarrow> nat \<Rightarrow> (nat \<Rightarrow> 'e + unit) \<Rightarrow> nat list \<times> ('e + unit) outcome" where
  "backoff_loop 0 attempt max_retries operation = ([], Panics)"
| "backoff_loop (Suc k) attempt max_retries operation =
     (case operation attempt of
        Inr u \<Rightarrow> ([], Returns (Inr ()))
      | Inl e \<Rightarrow>
          if attempt + 1 < max_retries
          then (let (delays, r) = backoff_loop k (attempt + 1) max_retries operation in (2 ^ (attempt mod 64) # delays, r))
          else ([], Returns (Inl e)))"

definition retry_with_backoff :: "nat \<Rightarrow> (nat \<Rightarrow> 'e + unit) \<Rightarrow> nat list \<times> ('e + unit) outcome" where
  "retry_with_backoff max_retries operation = backoff_loop max_retries 0 max_retries operation"

lemma backoff_loop_result:
  "a + k = m \<Longrightarrow> 0 < k \<Longrightarrow> \<exists>r. snd (backoff_loop k a m op) = Returns r
     \<and> (r = Inr () \<longleftrightarrow> (\<exists>i. a \<le> i \<and> i < m \<and> op i = Inr ()))"
proof (induction k arbitrary: a)
  case (Suc k)
  show ?case
  proof (cases "op a")
    case (Inr u)
    with Suc.prems show ?thesis by (auto intro!: exI [of _ a])
  next
    case (Inl e)
    show ?thesis
    proof (cases "a + 1 < m")
      case True
      with Suc.prems have k: "a + 1 + k = m" "0 < k" by auto
      have split: "(\<exists>i. a \<le> i \<and> i < m \<and> op i = Inr ()) \<longleftrightarrow> (\<exists>i. a + 1 \<le> i \<and> i < m \<and> op i = Inr ())"
        using Inl by (metis Suc_eq_plus1 Suc_leD le_eq_less_or_eq less_eq_Suc_le sum.distinct(1))
      from Suc.IH [OF k] Inl True split show ?thesis by (simp add: split_beta)
    next
      case False
      have "\<not> (\<exists>i. a \<le> i \<and> i < m \<and> op i = Inr ())" using False Inl by (auto simp: not_less dest: le_antisym)
      with Inl False show ?thesis by simp
    qed
  qed
qed simp

text \<open>With at least one attempt the call returns, successfully exactly when one of the attempts succeeds.\<close>

lemma retry_result:
  assumes "0 < m"
  shows "\<exists>r. snd (retry_with_backoff m op) = Returns r \<and> (r = Inr () \<longleftrightarrow> (\<exists>i < m. op i = Inr ()))"
  using backoff_loop_result [of 0 m m op] assms by (simp add: retry_with_backoff_def)

lemma backoff_loop_delays: "a + k = m \<Longrightarrow> m \<le> 64 \<Longrightarrow> sum_list (fst (backoff_loop k a m op)) + 2 ^ a \<le> (2 :: nat) ^ max a (m - 1)"
proof (induction k arbitrary: a)
  case (Suc k)
  show ?case
  proof (cases "op a")
    case (Inl e)
    show ?thesis
    proof (cases "a + 1 < m")
      case True
      then have "max (a + 1) (m - 1) = m - 1" "max a (m - 1) = m - 1" "a mod 64 = a" using Suc.prems by auto
      with Suc.IH [of "a + 1"] Suc.prems Inl True show ?thesis by (simp add: split_beta)
    qed (use Inl in simp)
  qed simp
qed simp

text \<open>Sending waits at most \<open>2^(n-1) - 1\<close> seconds in all: 3 seconds with the default of three attempts.\<close>

lemma retry_total_delay: "0 < m \<Longrightarrow> m \<le> 64 \<Longrightarrow> sum_list (fst (retry_with_backoff m op)) \<le> 2 ^ (m - 1) - 1"
  using backoff_loop_delays [of 0 m m op] by (simp add: retry_with_backoff_def)

lemma no_retries_panics: "snd (retry_with_backoff 0 op) = Panics"
  by (simp add: retry_with_backoff_def)

section \<open>Statistics\<close>

text \<open>Counters are \<open>usize\<close> and \<open>u64\<close> atomics; \<open>fetch_add\<close> and \<open>fetch_sub\<close> wrap around.\<close>

record replication_stats =
  rp_pending_changesets :: u64
  rp_pushed_changesets :: u64
  rp_failed_pushes :: u64
  rp_last_health_check_ok :: bool
  rp_last_push_time :: "nat option"
  rp_last_health_check_time :: "nat option"

definition new_replication_stats :: replication_stats where
  "new_replication_stats = \<lparr>rp_pending_changesets = 0, rp_pushed_changesets = 0, rp_failed_pushes = 0,
     rp_last_health_check_ok = False, rp_last_push_time = None, rp_last_health_check_time = None\<rparr>"

definition increment_pending :: "replication_stats \<Rightarrow> replication_stats" where
  "increment_pending s = s\<lparr>rp_pending_changesets := rp_pending_changesets s + 1\<rparr>"

definition decrement_pending :: "nat \<Rightarrow> replication_stats \<Rightarrow> replication_stats" where
  "decrement_pending n s = s\<lparr>rp_pending_changesets := rp_pending_changesets s - of_nat n\<rparr>"

definition record_push :: "nat \<Rightarrow> nat \<Rightarrow> replication_stats \<Rightarrow> replication_stats" where
  "record_push now count s =
     (decrement_pending count (s\<lparr>rp_pushed_changesets := rp_pushed_changesets s + of_nat count\<rparr>))\<lparr>rp_last_push_time := Some now\<rparr>"

definition record_failure :: "replication_stats \<Rightarrow> replication_stats" where
  "record_failure s = s\<lparr>rp_failed_pushes := rp_failed_pushes s + 1\<rparr>"

definition record_health_check :: "nat \<Rightarrow> bool \<Rightarrow> replication_stats \<Rightarrow> replication_stats" where
  "record_health_check now ok s =
     (let s1 = s\<lparr>rp_last_health_check_ok := ok\<rparr>
      in if ok then s1\<lparr>rp_last_health_check_time := Some now\<rparr> else s1)"

record stats_snapshot =
  ts_pending_changesets :: u64
  ts_pushed_changesets :: u64
  ts_failed_pushes :: u64
  ts_is_healthy :: bool

definition from_stats :: "replication_stats \<Rightarrow> stats_snapshot" where
  "from_stats s = \<lparr>ts_pending_changesets = rp_pending_changesets s, ts_pushed_changesets = rp_pushed_changesets s,
     ts_failed_pushes = rp_failed_pushes s, ts_is_healthy = rp_last_health_check_ok s\<rparr>"

section \<open>The recovery database\<close>

record failed_row =
  fr_id :: nat
  fr_sequence :: u64
  fr_data :: bytes
  fr_timestamp :: u64
  fr_failed_at :: int
  fr_retry_count :: nat
  fr_last_error :: string

record failed_table =
  ft_rows :: "failed_row list"
  ft_last_id :: nat

record recovery =
  rv_changesets :: failed_table
  rv_snapshots :: failed_table

definition empty_table :: failed_table where
  "empty_table = \<lparr>ft_rows = [], ft_last_id = 0\<rparr>"

definition new_recovery :: "string option \<Rightarrow> recovery option \<Rightarrow> string + recovery" where
  "new_recovery io disk =
     (case io of
        Some e \<Rightarrow> Inl e
      | None \<Rightarrow> Inr (case disk of None \<Rightarrow> \<lparr>rv_changesets = empty_table, rv_snapshots = empty_table\<rparr> | Some r \<Rightarrow> r))"

text \<open>\<open>duration_since(UNIX_EPOCH)\<close>: a time before the epoch is an error.\<close>

definition since_epoch :: "int \<Rightarrow> string + u64" where
  "since_epoch t = (if t < 0 then Inl ''second time provided was later than self'' else Inr (of_int t))"

definition insert_failed :: "string option \<Rightarrow> int \<Rightarrow> u64 \<Rightarrow> bytes \<Rightarrow> int \<Rightarrow> string \<Rightarrow> failed_table \<Rightarrow> failed_table \<times> (string + unit)" where
  "insert_failed io now sequence data timestamp err t =
     (case since_epoch timestamp of
        Inl e \<Rightarrow> (t, Inl e)
      | Inr secs \<Rightarrow>
          (case io of
             Some e \<Rightarrow> (t, Inl e)
           | None \<Rightarrow> (\<lparr>ft_rows = ft_rows t @ [\<lparr>fr_id = ft_last_id t + 1, fr_sequence = sequence, fr_data = data, fr_timestamp = secs,
                        fr_failed_at = now, fr_retry_count = 0, fr_last_error = err\<rparr>], ft_last_id = ft_last_id t + 1\<rparr>, Inr ())))"

definition save_failed_changeset :: "string option \<Rightarrow> int \<Rightarrow> changeset \<Rightarrow> string \<Rightarrow> recovery \<Rightarrow> recovery \<times> (string + unit)" where
  "save_failed_changeset io now c err rv =
     (case insert_failed io now (cg_sequence c) (cg_data c) (cg_timestamp c) err (rv_changesets rv) of
        (t, r) \<Rightarrow> (rv\<lparr>rv_changesets := t\<rparr>, map_err (\<lambda>e. if cg_timestamp c < 0 then e else ''Failed to save failed changeset'') r))"

definition save_failed_snapshot :: "string option \<Rightarrow> int \<Rightarrow> snapshot \<Rightarrow> string \<Rightarrow> recovery \<Rightarrow> recovery \<times> (string + unit)" where
  "save_failed_snapshot io now s err rv =
     (case insert_failed io now (sp_sequence s) (sp_data s) (sp_timestamp s) err (rv_snapshots rv) of
        (t, r) \<Rightarrow> (rv\<lparr>rv_snapshots := t\<rparr>, map_err (\<lambda>e. if sp_timestamp s < 0 then e else ''Failed to save failed snapshot'') r))"

definition get_failed_changesets :: "string option \<Rightarrow> recovery \<Rightarrow> string + (nat \<times> changeset) list" where
  "get_failed_changesets io rv =
     (case io of
        Some e \<Rightarrow> Inl e
      | None \<Rightarrow> Inr (map (\<lambda>r. (fr_id r, \<lparr>cg_data = fr_data r, cg_sequence = fr_sequence r, cg_timestamp = uint (fr_timestamp r)\<rparr>))
                 (sort_key (\<lambda>r. sint (fr_sequence r)) (ft_rows (rv_changesets rv)))))"

definition get_failed_snapshots :: "string option \<Rightarrow> recovery \<Rightarrow> string + (nat \<times> snapshot) list" where
  "get_failed_snapshots io rv =
     (case io of
        Some e \<Rightarrow> Inl e
      | None \<Rightarrow> Inr (map (\<lambda>r. (fr_id r, \<lparr>sp_data = fr_data r, sp_timestamp = uint (fr_timestamp r), sp_sequence = fr_sequence r\<rparr>))
                 (sort_key (\<lambda>r. sint (fr_sequence r)) (ft_rows (rv_snapshots rv)))))"

definition remove_row :: "nat \<Rightarrow> failed_table \<Rightarrow> failed_table" where
  "remove_row i t = t\<lparr>ft_rows := filter (\<lambda>r. fr_id r \<noteq> i) (ft_rows t)\<rparr>"

definition retry_row :: "nat \<Rightarrow> string \<Rightarrow> failed_table \<Rightarrow> failed_table" where
  "retry_row i err t = t\<lparr>ft_rows := map (\<lambda>r. if fr_id r = i then r\<lparr>fr_retry_count := fr_retry_count r + 1, fr_last_error := err\<rparr> else r) (ft_rows t)\<rparr>"

definition remove_changeset :: "string option \<Rightarrow> nat \<Rightarrow> recovery \<Rightarrow> recovery" where
  "remove_changeset io i rv = (if io = None then rv\<lparr>rv_changesets := remove_row i (rv_changesets rv)\<rparr> else rv)"

definition remove_snapshot :: "string option \<Rightarrow> nat \<Rightarrow> recovery \<Rightarrow> recovery" where
  "remove_snapshot io i rv = (if io = None then rv\<lparr>rv_snapshots := remove_row i (rv_snapshots rv)\<rparr> else rv)"

definition increment_changeset_retry :: "string option \<Rightarrow> nat \<Rightarrow> string \<Rightarrow> recovery \<Rightarrow> recovery" where
  "increment_changeset_retry io i err rv = (if io = None then rv\<lparr>rv_changesets := retry_row i err (rv_changesets rv)\<rparr> else rv)"

definition increment_snapshot_retry :: "string option \<Rightarrow> nat \<Rightarrow> string \<Rightarrow> recovery \<Rightarrow> recovery" where
  "increment_snapshot_retry io i err rv = (if io = None then rv\<lparr>rv_snapshots := retry_row i err (rv_snapshots rv)\<rparr> else rv)"

definition get_failed_counts :: "string option \<Rightarrow> recovery \<Rightarrow> string + nat \<times> nat" where
  "get_failed_counts io rv =
     (case io of Some e \<Rightarrow> Inl e | None \<Rightarrow> Inr (length (ft_rows (rv_changesets rv)), length (ft_rows (rv_snapshots rv))))"

text \<open>Two deletes; when the first works and the second fails the first is not undone. \<open>None\<close>: the clock is before the
  cutoff's epoch.\<close>

definition cleanup_old_failures ::
  "string option \<times> string option \<Rightarrow> int \<Rightarrow> nat \<Rightarrow> recovery \<Rightarrow> recovery \<times> (string + nat \<times> nat)" where
  "cleanup_old_failures io now days rv =
     (case since_epoch (now - int (days * 24 * 60 * 60)) of
        Inl e \<Rightarrow> (rv, Inl e)
      | Inr w \<Rightarrow>
          (let cutoff_secs = sint w; old = (\<lambda>r. fr_failed_at r < cutoff_secs);
               cs = ft_rows (rv_changesets rv); ss = ft_rows (rv_snapshots rv)
           in case fst io of
                Some e \<Rightarrow> (rv, Inl e)
              | None \<Rightarrow>
                  (let rv1 = rv\<lparr>rv_changesets := (rv_changesets rv)\<lparr>ft_rows := filter (\<lambda>r. \<not> old r) cs\<rparr>\<rparr>
                   in case snd io of
                        Some e \<Rightarrow> (rv1, Inl e)
                      | None \<Rightarrow> (rv1\<lparr>rv_snapshots := (rv_snapshots rv)\<lparr>ft_rows := filter (\<lambda>r. \<not> old r) ss\<rparr>\<rparr>,
                                 Inr (length (filter old cs), length (filter old ss))))))"

section \<open>Lemmas\<close>

text \<open>Row numbers are unique and below the counter.\<close>

definition table_wf :: "failed_table \<Rightarrow> bool" where
  "table_wf t \<longleftrightarrow> distinct (map fr_id (ft_rows t)) \<and> (\<forall>r \<in> set (ft_rows t). fr_id r \<le> ft_last_id t)"

lemma table_wf_empty [simp]: "table_wf empty_table"
  by (simp add: table_wf_def empty_table_def)

lemma table_wf_ops:
  assumes "table_wf t"
  shows "table_wf (fst (insert_failed io now q d ts err t))" and "table_wf (remove_row i t)" and "table_wf (retry_row i err t)"
proof -
  show "table_wf (fst (insert_failed io now q d ts err t))"
    using assms by (fastforce simp: table_wf_def insert_failed_def split: sum.splits option.splits)
  show "table_wf (remove_row i t)"
    using assms by (auto simp: table_wf_def remove_row_def distinct_map intro: inj_on_subset)
  have "map fr_id (ft_rows (retry_row i err t)) = map fr_id (ft_rows t)" by (simp add: retry_row_def)
  with assms have "distinct (map fr_id (ft_rows (retry_row i err t)))" by (simp only: table_wf_def)
  moreover have "\<forall>r \<in> set (ft_rows (retry_row i err t)). fr_id r \<le> ft_last_id (retry_row i err t)"
    using assms by (auto simp: table_wf_def retry_row_def)
  ultimately show "table_wf (retry_row i err t)" unfolding table_wf_def by blast
qed

text \<open>What was saved is read back: same bytes, same sequence number, and the time in whole seconds.\<close>

lemma saved_changeset_read_back:
  assumes "save_failed_changeset io now c err rv = (rv', Inr ())" and "cg_timestamp c < 2 ^ 64"
  shows "\<exists>i xs. get_failed_changesets None rv' = Inr xs \<and> (i, c) \<in> set xs"
proof -
  have t: "0 \<le> cg_timestamp c" "io = None"
    using assms(1) by (auto simp: save_failed_changeset_def insert_failed_def since_epoch_def split: if_splits option.splits)
  have "uint (of_int (cg_timestamp c) :: u64) = cg_timestamp c" using t(1) assms(2) by (simp add: uint_word_of_int)
  then have "c = \<lparr>cg_data = cg_data c, cg_sequence = cg_sequence c, cg_timestamp = uint (of_int (cg_timestamp c) :: u64)\<rparr>" by simp
  with assms(1) t show ?thesis
    by (intro exI [of _ "ft_last_id (rv_changesets rv) + 1"])
      (auto simp: save_failed_changeset_def insert_failed_def since_epoch_def get_failed_changesets_def image_iff)
qed

end
