(* ===== verification/Web.thy ===== *)
theory Web
  imports Inbox
begin

text \<open>
  What the processes that talk to other services share: the replies of the reqwest client, the formats
  of addresses and hashes of the alloy crate, the ABI form of the attestation values, and the loop that
  waits for a transaction receipt (\<open>crates/synddb-bootstrap/src/submitter.rs\<close>,
  \<open>crates/synddb-relayer/src/submitter.rs\<close> and \<open>withdrawal.rs\<close>).
\<close>

section \<open>HTTP\<close>

text \<open>An error of sending a request, with its text, and a response, whose body may fail to arrive.\<close>

datatype send_error = SendTimeout string | SendConnect string | SendOther string

fun show_send_error :: "send_error \<Rightarrow> string" where
  "show_send_error (SendTimeout e) = e"
| "show_send_error (SendConnect e) = e"
| "show_send_error (SendOther e) = e"

record http_response =
  hr_status :: nat
  hr_status_text :: string
  hr_body :: "string + string"

type_synonym http_reply = "send_error + http_response"

definition hr_success :: "http_response \<Rightarrow> bool" where
  "hr_success r \<longleftrightarrow> 200 \<le> hr_status r \<and> hr_status r < 300"

text \<open>\<open>text().await.unwrap_or_default()\<close>\<close>

definition body_or_default :: "http_response \<Rightarrow> string" where
  "body_or_default r = (case hr_body r of Inl _ \<Rightarrow> [] | Inr s \<Rightarrow> s)"

section \<open>Durations and white space\<close>

text \<open>
  A \<open>Duration\<close> is its number of nanoseconds; its \<open>Debug\<close> form is a decimal number in the largest unit that
  has a digit before the point, without trailing zeros.\<close>

definition nanos_per_sec :: nat where "nanos_per_sec = 1000000000"

definition fmt_decimal :: "nat \<Rightarrow> nat \<Rightarrow> nat \<Rightarrow> string \<Rightarrow> string" where
  "fmt_decimal whole frac width unit_name =
     show_nat whole
     @ (if frac = 0 then []
        else CHR ''.'' # rev (dropWhile (\<lambda>c. c = CHR ''0'') (rev (zero_pad width (show_nat frac)))))
     @ unit_name"

definition show_duration :: "nat \<Rightarrow> string" where
  "show_duration d =
     (if nanos_per_sec \<le> d then fmt_decimal (d div nanos_per_sec) (d mod nanos_per_sec) 9 ''s''
      else if 1000000 \<le> d then fmt_decimal (d div 1000000) (d mod 1000000) 6 ''ms''
      else if 1000 \<le> d then fmt_decimal (d div 1000) (d mod 1000) 3 [CHR 0xC2, CHR 0xB5, CHR ''s'']
      else fmt_decimal d 0 1 ''ns'')"

text \<open>\<open>to_lowercase\<close> and \<open>to_uppercase\<close> on the characters that can make the compared ASCII words: letters, and the
  Kelvin sign, whose lower case is k.\<close>

fun str_lower :: "string \<Rightarrow> string" where
  "str_lower [] = []"
| "str_lower (c # s) =
     (if c = CHR 0xE2 \<and> take 2 s = [CHR 0x84, CHR 0xAA] then CHR ''k'' # str_lower (drop 2 s)
      else (if 65 \<le> (of_char c :: nat) \<and> (of_char c :: nat) \<le> 90 then char_of ((of_char c :: nat) + 32) else c) # str_lower s)"

definition str_upper :: "string \<Rightarrow> string" where
  "str_upper s = map (\<lambda>c. if 97 \<le> (of_char c :: nat) \<and> (of_char c :: nat) \<le> 122 then char_of ((of_char c :: nat) - 32) else c) s"

text \<open>\<open>str::trim\<close>: the characters of Unicode's White\_Space property, in UTF-8.\<close>

definition unicode_whitespace :: "string list" where
  "unicode_whitespace =
     map (\<lambda>c. [char_of c]) ([9, 10, 11, 12, 13, 32] :: nat list)
     @ map (map char_of) ([[0xC2, 0x85], [0xC2, 0xA0], [0xE1, 0x9A, 0x80], [0xE2, 0x80, 0xA8], [0xE2, 0x80, 0xA9],
          [0xE2, 0x80, 0xAF], [0xE2, 0x81, 0x9F], [0xE3, 0x80, 0x80]] :: nat list list)
     @ map (\<lambda>c. map char_of [0xE2, 0x80, c]) [0x80 ..< 0x8B :: nat]"

function trim_matches :: "string list \<Rightarrow> string \<Rightarrow> string" where
  "trim_matches ws s =
     (case find (\<lambda>w. w \<noteq> [] \<and> starts_with w s) ws of
        Some w \<Rightarrow> trim_matches ws (drop (length w) s)
      | None \<Rightarrow> s)"
  by auto
termination
  by (relation "measure (\<lambda>(ws, s). length s)")
    (auto simp: find_Some_iff starts_with_def strip_prefix_Some)

declare trim_matches.simps [simp del]

definition str_trim :: "string \<Rightarrow> string" where
  "str_trim s = rev (trim_matches (map rev unicode_whitespace) (rev (trim_matches unicode_whitespace s)))"

definition quoted :: "string \<Rightarrow> string" where
  "quoted s = CHR 0x27 # s @ [CHR 0x27]"

subsection \<open>Solid characters\<close>

text \<open>Printable ASCII characters other than the blank take part in no white space.\<close>

definition solid :: "char \<Rightarrow> bool" where
  "solid c \<longleftrightarrow> 33 \<le> (of_char c :: nat) \<and> (of_char c :: nat) < 127"

lemma whitespace_ends:
  "\<forall>w \<in> set unicode_whitespace. w \<noteq> [] \<and> \<not> solid (hd w) \<and> \<not> solid (last w)"
  by code_simp

lemma starts_with_Cons: "starts_with w (c # s) \<Longrightarrow> w \<noteq> [] \<Longrightarrow> hd w = c"
  by (cases w) (auto simp: starts_with_def split: option.splits if_splits)

lemma solid_no_whitespace:
  assumes "solid c"
  shows "w \<in> set unicode_whitespace \<Longrightarrow> \<not> starts_with w (c # s)"
    and "w \<in> set unicode_whitespace \<Longrightarrow> \<not> starts_with (rev w) (c # s)"
  using assms whitespace_ends by (metis starts_with_Cons, metis starts_with_Cons hd_rev rev_is_Nil_conv)

lemma trim_matches_Nil [simp]: "trim_matches ws [] = []"
  by (subst trim_matches.simps) (auto split: option.splits simp: find_Some_iff starts_with_def strip_prefix_Some)

lemma trim_matches_stop: "(\<And>w. w \<in> set ws \<Longrightarrow> \<not> starts_with w s) \<Longrightarrow> trim_matches ws s = s"
  by (subst trim_matches.simps) (auto split: option.splits simp: find_Some_iff)

lemma trim_matches_solid:
  "s \<noteq> [] \<Longrightarrow> solid (hd s) \<Longrightarrow> trim_matches unicode_whitespace s = s"
  "s \<noteq> [] \<Longrightarrow> solid (hd s) \<Longrightarrow> trim_matches (map rev unicode_whitespace) s = s"
  by (cases s; auto intro!: trim_matches_stop dest: solid_no_whitespace)+

lemma find_blank_rev: "find (\<lambda>w. w \<noteq> [] \<and> starts_with w (CHR '' '' # s)) (map rev unicode_whitespace) = Some '' ''"
proof -
  have "map (\<lambda>c. [char_of c]) ([9, 10, 11, 12, 13, 32] :: nat list)
      = [[CHR 0x09], [CHR 0x0A], [CHR 0x0B], [CHR 0x0C], [CHR 0x0D], '' '']"
    by code_simp
  then show ?thesis unfolding unicode_whitespace_def by (simp only:) (simp add: starts_with_def)
qed

lemma find_blank: "find (\<lambda>w. w \<noteq> [] \<and> starts_with w (CHR '' '' # s)) unicode_whitespace = Some '' ''"
proof -
  have "map (\<lambda>c. [char_of c]) ([9, 10, 11, 12, 13, 32] :: nat list)
      = [[CHR 0x09], [CHR 0x0A], [CHR 0x0B], [CHR 0x0C], [CHR 0x0D], '' '']"
    by code_simp
  then show ?thesis unfolding unicode_whitespace_def by (simp only:) (simp add: starts_with_def)
qed

lemma trim_matches_blank [simp]:
  "trim_matches unicode_whitespace (CHR '' '' # s) = trim_matches unicode_whitespace s"
  by (subst trim_matches.simps) (simp only: find_blank option.case, simp)

lemma trim_matches_blank_rev [simp]:
  "trim_matches (map rev unicode_whitespace) (CHR '' '' # s) = trim_matches (map rev unicode_whitespace) s"
  by (subst trim_matches.simps) (simp only: find_blank_rev option.case, simp)

lemma str_trim_solid:
  assumes "s \<noteq> []" "solid (hd s)" "solid (last s)"
  shows "str_trim s = s" and "str_trim (CHR '' '' # s) = s"
  using assms trim_matches_solid by (simp_all add: str_trim_def hd_rev)

lemma str_trim_blank_end:
  assumes "s \<noteq> []" "solid (hd s)" "solid (last s)"
  shows "str_trim (s @ '' '') = s"
  using assms trim_matches_solid [of "s @ '' ''"] trim_matches_solid [of "rev s"] by (simp add: str_trim_def hd_rev)

lemma length_trim_matches: "length (trim_matches ws s) \<le> length s"
proof (induction ws s rule: trim_matches.induct)
  case (1 ws s)
  then show ?case by (subst trim_matches.simps) (fastforce split: option.splits)
qed

lemma set_trim_matches: "set (trim_matches ws s) \<subseteq> set s"
proof (induction ws s rule: trim_matches.induct)
  case (1 ws s)
  show ?case
  proof (cases "find (\<lambda>w. w \<noteq> [] \<and> starts_with w s) ws")
    case None
    then show ?thesis by (subst trim_matches.simps) simp
  next
    case (Some w)
    with 1 show ?thesis using set_drop_subset [of "length w" s] by (subst trim_matches.simps) auto
  qed
qed

lemma set_str_trim: "set (str_trim s) \<subseteq> set s"
  using set_trim_matches [of unicode_whitespace s] set_trim_matches [of "map rev unicode_whitespace" "rev (trim_matches unicode_whitespace s)"]
  unfolding str_trim_def by auto

section \<open>Results of calls that may panic\<close>

definition bind_o :: "('e + 'a) outcome \<Rightarrow> ('a \<Rightarrow> ('e + 'b) outcome) \<Rightarrow> ('e + 'b) outcome" where
  "bind_o r f = (case r of Panics \<Rightarrow> Panics | Returns (Inl e) \<Rightarrow> Returns (Inl e) | Returns (Inr a) \<Rightarrow> f a)"

lemma bind_o_simps [simp]:
  "bind_o Panics f = Panics" "bind_o (Returns (Inl e)) f = Returns (Inl e)" "bind_o (Returns (Inr a)) f = f a"
  by (simp_all add: bind_o_def)

lemma bind_o_eq_Returns_Inr:
  "bind_o r f = Returns (Inr b) \<longleftrightarrow> (\<exists>a. r = Returns (Inr a) \<and> f a = Returns (Inr b))"
  by (auto simp: bind_o_def split: outcome.splits sum.splits)

text \<open>\<open>unwrap()\<close> of an option.\<close>

definition unwrap_o :: "'a option \<Rightarrow> ('e + 'a) outcome" where
  "unwrap_o v = (case v of None \<Rightarrow> Panics | Some a \<Rightarrow> Returns (Inr a))"

lemma unwrap_o_simps [simp]: "unwrap_o None = Panics" "unwrap_o (Some a) = Returns (Inr a)"
  by (simp_all add: unwrap_o_def)

section \<open>Addresses\<close>

text \<open>alloy's parsing of an address, its printed form, and the validity check of a URL.\<close>

record alloy =
  al_parse_address :: "string \<Rightarrow> string + bytes"
  al_show_address :: "bytes \<Rightarrow> string"
  al_url_error :: "string \<Rightarrow> string option"

section \<open>Waiting for a receipt\<close>

datatype receipt_poll = Receipt bool | NoReceipt | PollError string

datatype confirmation = Confirmed | Reverted | TimedOut

text \<open>
  Poll \<open>i\<close> sees the time elapsed since the start, in milliseconds, and the node's answer. \<open>None\<close> is
  a loop that has not ended within the fuel.\<close>

fun confirmation_loop :: "nat \<Rightarrow> nat \<Rightarrow> (nat \<Rightarrow> nat \<times> receipt_poll) \<Rightarrow> nat \<Rightarrow> confirmation option" where
  "confirmation_loop 0 timeout polls i = None"
| "confirmation_loop (Suc k) timeout polls i =
     (if timeout < fst (polls i) then Some TimedOut
      else case snd (polls i) of
             Receipt ok \<Rightarrow> Some (if ok then Confirmed else Reverted)
           | NoReceipt \<Rightarrow> confirmation_loop k timeout polls (i + 1)
           | PollError e \<Rightarrow> confirmation_loop k timeout polls (i + 1))"

text \<open>The loop sleeps two seconds between polls.\<close>

definition polls_paced :: "(nat \<Rightarrow> nat \<times> receipt_poll) \<Rightarrow> bool" where
  "polls_paced polls \<longleftrightarrow> (\<forall>i. 2000 * i \<le> fst (polls i))"

lemma confirmation_loop_ends:
  assumes "polls_paced polls" and "timeout < 2000 * (i + k)"
  shows "\<exists>c. confirmation_loop (Suc k) timeout polls i = Some c"
  using assms(2)
proof (induction k arbitrary: i)
  case 0
  moreover have "2000 * i \<le> fst (polls i)" using assms(1) unfolding polls_paced_def by blast
  ultimately show ?case by simp
next
  case (Suc k)
  from Suc.prems have "timeout < 2000 * (Suc i + k)" by simp
  from Suc.IH [OF this] show ?case by (simp split: receipt_poll.splits)
qed

lemma confirmation_loop_sound:
  "confirmation_loop k timeout polls i = Some c \<Longrightarrow>
     (case c of TimedOut \<Rightarrow> \<exists>j \<ge> i. timeout < fst (polls j)
      | _ \<Rightarrow> \<exists>j \<ge> i. snd (polls j) = Receipt (c = Confirmed) \<and> fst (polls j) \<le> timeout)"
proof (induction k arbitrary: i)
  case (Suc k)
  have IH: "case c of TimedOut \<Rightarrow> \<exists>j \<ge> i. timeout < fst (polls j)
      | _ \<Rightarrow> \<exists>j \<ge> i. snd (polls j) = Receipt (c = Confirmed) \<and> fst (polls j) \<le> timeout"
    if "confirmation_loop k timeout polls (i + 1) = Some c"
    using Suc.IH [OF that] by (cases c) (auto dest: Suc_leD)
  with Suc.prems show ?case
    by (auto split: if_splits receipt_poll.splits confirmation.splits)
qed simp

section \<open>Retries\<close>

text \<open>
  \<open>for attempt in 1..=max_retries\<close> with a call whose errors may be retryable: the delays slept, in seconds, and
  the outcome; \<open>Inl (Inl e)\<close> is an error that is not retried, \<open>Inl (Inr e)\<close> the last error after all attempts.\<close>

fun retry_loop :: "('e \<Rightarrow> bool) \<Rightarrow> nat \<Rightarrow> (nat \<Rightarrow> 'e + 'a) \<Rightarrow> nat \<Rightarrow> nat \<Rightarrow> 'e option
  \<Rightarrow> nat list \<times> (('e + 'e option) + 'a)" where
  "retry_loop retryable step call 0 attempt last_error = ([], Inl (Inr last_error))"
| "retry_loop retryable step call (Suc k) attempt last_error =
     (case call attempt of
        Inr a \<Rightarrow> ([], Inr a)
      | Inl e \<Rightarrow>
          if retryable e
          then let (ds, r) = retry_loop retryable step call k (attempt + 1) (Some e) in ((step * attempt) # ds, r)
          else ([], Inl (Inl e)))"

text \<open>The result of the loop is that of the first attempt that is not a retryable error.\<close>

definition retryable_reply :: "('e \<Rightarrow> bool) \<Rightarrow> 'e + 'a \<Rightarrow> bool" where
  "retryable_reply retryable r \<longleftrightarrow> (case r of Inl e \<Rightarrow> retryable e | Inr _ \<Rightarrow> False)"

lemma retry_loop_first:
  assumes "\<forall>j < i. retryable_reply retryable (call (a + j))" and "\<not> retryable_reply retryable (call (a + i))" and "i < k"
  shows "retry_loop retryable step call k a l = (map (\<lambda>j. step * (a + j)) [0 ..< i],
     case call (a + i) of Inl e \<Rightarrow> Inl (Inl e) | Inr x \<Rightarrow> Inr x)"
  using assms
proof (induction k arbitrary: a i l)
  case (Suc k)
  show ?case
  proof (cases i)
    case 0
    with Suc.prems show ?thesis by (auto simp: retryable_reply_def split: sum.splits)
  next
    case (Suc i')
    from Suc.prems(1) Suc have "retryable_reply retryable (call (a + 0))" by blast
    then obtain e where e: "call a = Inl e" "retryable e" by (auto simp: retryable_reply_def split: sum.splits)
    have "\<forall>j < i'. retryable_reply retryable (call (a + 1 + j))"
    proof (intro allI impI)
      fix j assume "j < i'"
      then have "Suc j < i" using Suc by simp
      with Suc.prems(1) have "retryable_reply retryable (call (a + Suc j))" by blast
      then show "retryable_reply retryable (call (a + 1 + j))" by simp
    qed
    moreover have "\<not> retryable_reply retryable (call (a + 1 + i'))" using Suc.prems(2) Suc by simp
    moreover have "i' < k" using Suc.prems(3) Suc by simp
    ultimately have ih: "retry_loop retryable step call k (a + 1) (Some e) = (map (\<lambda>j. step * (a + 1 + j)) [0 ..< i'],
       case call (a + 1 + i') of Inl e \<Rightarrow> Inl (Inl e) | Inr x \<Rightarrow> Inr x)" by (rule Suc.IH)
    have "[0 ..< i] = 0 # map Suc [0 ..< i']" using Suc by (simp add: map_Suc_upt upt_conv_Cons del: upt_Suc)
    then have "map (\<lambda>j. step * (a + j)) [0 ..< i] = step * a # map (\<lambda>j. step * (a + 1 + j)) [0 ..< i']" by simp
    with e ih Suc show ?thesis by simp
  qed
qed simp

lemma retry_loop_exhausted:
  assumes "\<forall>j < k. retryable_reply retryable (call (a + j))"
  shows "retry_loop retryable step call k a l = (map (\<lambda>j. step * (a + j)) [0 ..< k],
     Inl (Inr (if k = 0 then l else (case call (a + k - 1) of Inl e \<Rightarrow> Some e | Inr _ \<Rightarrow> None))))"
  using assms
proof (induction k arbitrary: a l)
  case (Suc k)
  then have "retryable_reply retryable (call (a + 0))" by blast
  then obtain e where e: "call a = Inl e" "retryable e" by (auto simp: retryable_reply_def split: sum.splits)
  have "\<forall>j < k. retryable_reply retryable (call (a + 1 + j))"
  proof (intro allI impI)
    fix j assume "j < k"
    then have "retryable_reply retryable (call (a + Suc j))" using Suc.prems by blast
    then show "retryable_reply retryable (call (a + 1 + j))" by simp
  qed
  from Suc.IH [OF this, of "Some e"]
  have ih: "retry_loop retryable step call k (a + 1) (Some e) = (map (\<lambda>j. step * (a + 1 + j)) [0 ..< k],
     Inl (Inr (if k = 0 then Some e else (case call (a + k) of Inl e \<Rightarrow> Some e | Inr _ \<Rightarrow> None))))" by simp
  have "[0 ..< Suc k] = 0 # map Suc [0 ..< k]" by (simp add: map_Suc_upt upt_conv_Cons del: upt_Suc)
  then have "map (\<lambda>j. step * (a + j)) [0 ..< Suc k] = step * a # map (\<lambda>j. step * (a + 1 + j)) [0 ..< k]" by simp
  with e ih show ?case by simp
qed simp

text \<open>The delays of the loop grow linearly, one for each retryable error.\<close>

lemma retry_loop_delays:
  "\<exists>n \<le> k. fst (retry_loop retryable step call k a l) = map (\<lambda>j. step * (a + j)) [0 ..< n]"
proof (induction k arbitrary: a l)
  case (Suc k)
  show ?case
  proof (cases "\<exists>e. call a = Inl e \<and> retryable e")
    case True
    then obtain e where e: "call a = Inl e" "retryable e" by blast
    obtain n where n: "n \<le> k" "fst (retry_loop retryable step call k (a + 1) (Some e)) = map (\<lambda>j. step * (a + 1 + j)) [0 ..< n]"
      using Suc.IH by blast
    have "[0 ..< Suc n] = 0 # map Suc [0 ..< n]" by (simp add: map_Suc_upt upt_conv_Cons del: upt_Suc)
    then have "fst (retry_loop retryable step call (Suc k) a l) = map (\<lambda>j. step * (a + j)) [0 ..< Suc n]"
      using e n(2) by (simp add: split_beta comp_def del: upt_Suc)
    with n(1) show ?thesis by (intro exI [of _ "Suc n"]) simp
  next
    case False
    then have "fst (retry_loop retryable step call (Suc k) a l) = []" by (auto split: sum.splits)
    then show ?thesis by (intro exI [of _ 0]) simp
  qed
qed simp

lemma sum_list_linear: "sum_list (map (\<lambda>j. step * (1 + j)) [0 ..< n]) * 2 = step * (n * (n + 1))" for step :: nat
  by (induction n) (simp_all add: algebra_simps)

lemma retry_loop_total_delay:
  "sum_list (fst (retry_loop retryable step call k 1 l)) * 2 \<le> step * (k * (k + 1))"
proof -
  obtain n where n: "n \<le> k" "fst (retry_loop retryable step call k 1 l) = map (\<lambda>j. step * (1 + j)) [0 ..< n]"
    using retry_loop_delays by blast
  have "step * (n * (n + 1)) \<le> step * (k * (k + 1))" using n(1) by (intro mult_le_mono) simp_all
  with n(2) sum_list_linear [of step n] show ?thesis by simp
qed

lemma retry_loop_Inr:
  assumes "snd (retry_loop retryable step call k a l) = Inr x"
  shows "\<exists>i. a \<le> i \<and> i < a + k \<and> call i = Inr x"
  using assms
proof (induction k arbitrary: a l)
  case (Suc k)
  show ?case
  proof (cases "call a")
    case (Inl e)
    with Suc.prems have "snd (retry_loop retryable step call k (a + 1) (Some e)) = Inr x"
      by (simp add: split_beta split: if_splits)
    from Suc.IH [OF this] obtain i where "a + 1 \<le> i" "i < a + 1 + k" "call i = Inr x" by blast
    then show ?thesis by (intro exI [of _ i]) simp
  next
    case (Inr y)
    with Suc.prems show ?thesis by (intro exI [of _ a]) simp
  qed
qed simp

end
