(* ===== verification/Attestation_Client.thy ===== *)
theory Attestation_Client
  imports Web Gcp_Attestation
begin

text \<open>
  The client of the Confidential Space attestation service, \<open>crates/synddb-client/src/attestation.rs\<close>: the reading
  of the service's reply, the token cache shared by the clones of a client, and the checks of nonces.
  The socket's answer is a parameter; time is a number of seconds of the monotonic clock.
\<close>

section \<open>Lossy UTF-8\<close>

text \<open>
  \<open>String::from_utf8_lossy\<close>: each maximal ill-formed piece is replaced by U+FFFD. \<open>utf8_second\<close> is the check of
  the second byte of a sequence of three or four bytes.\<close>

definition replacement :: bytes where "replacement = [0xEF, 0xBF, 0xBD]"

definition utf8_second :: "u8 \<Rightarrow> u8 \<Rightarrow> bool" where
  "utf8_second a b \<longleftrightarrow>
     (if a = 0xE0 then 0xA0 \<le> b \<and> b \<le> 0xBF
      else if a = 0xED then 0x80 \<le> b \<and> b \<le> 0x9F
      else if a = 0xF0 then 0x90 \<le> b \<and> b \<le> 0xBF
      else if a = 0xF4 then 0x80 \<le> b \<and> b \<le> 0x8F
      else utf8_tail b)"

fun utf8_lossy :: "bytes \<Rightarrow> bytes" where
  "utf8_lossy [] = []"
| "utf8_lossy (a # rest) =
     (if a < 0x80 then a # utf8_lossy rest
      else if 0xC2 \<le> a \<and> a \<le> 0xDF then
        (case rest of
           b # rest1 \<Rightarrow> if utf8_tail b then a # b # utf8_lossy rest1 else replacement @ utf8_lossy rest
         | [] \<Rightarrow> replacement)
      else if 0xE0 \<le> a \<and> a \<le> 0xEF then
        (case rest of
           b # rest1 \<Rightarrow>
             if utf8_second a b then
               (case rest1 of
                  c # rest2 \<Rightarrow> if utf8_tail c then a # b # c # utf8_lossy rest2 else replacement @ utf8_lossy rest1
                | [] \<Rightarrow> replacement)
             else replacement @ utf8_lossy rest
         | [] \<Rightarrow> replacement)
      else if 0xF0 \<le> a \<and> a \<le> 0xF4 then
        (case rest of
           b # rest1 \<Rightarrow>
             if utf8_second a b then
               (case rest1 of
                  c # rest2 \<Rightarrow>
                    if utf8_tail c then
                      (case rest2 of
                         d # rest3 \<Rightarrow> if utf8_tail d then a # b # c # d # utf8_lossy rest3 else replacement @ utf8_lossy rest2
                       | [] \<Rightarrow> replacement)
                    else replacement @ utf8_lossy rest1
                | [] \<Rightarrow> replacement)
             else replacement @ utf8_lossy rest
         | [] \<Rightarrow> replacement)
      else replacement @ utf8_lossy rest)"

text \<open>A slice \<open>&s[..n]\<close> panics unless \<open>n\<close> is the boundary of a character.\<close>

definition is_char_boundary :: "bytes \<Rightarrow> nat \<Rightarrow> bool" where
  "is_char_boundary bs n \<longleftrightarrow> n = 0 \<or> n = length bs \<or> (n < length bs \<and> \<not> utf8_tail (bs ! n))"

section \<open>The reply\<close>

datatype token_type = Oidc | Pki | AwsPrincipaltags

record attestation_request =
  ar_audience :: string
  ar_token_type :: token_type
  ar_nonces :: "string list"

text \<open>\<open>json\<close> is serde\_json's reading of an object with a \<open>token\<close> field, \<open>None\<close> for an error.\<close>

definition parse_attestation_response :: "(bytes \<Rightarrow> string option) \<Rightarrow> bytes \<Rightarrow> (string + string) outcome" where
  "parse_attestation_response json body =
     (let body_str = utf8_lossy body
      in case json body of
           Some token \<Rightarrow> Returns (Inr token)
         | None \<Rightarrow>
             (let trimmed = str_trim (bytes_str body_str)
              in if starts_with ''eyJ'' trimmed \<and> CHR ''.'' \<in> set trimmed then Returns (Inr trimmed)
                 else if 100 < length body_str
                 then (if is_char_boundary body_str 100
                       then Returns (Inl (''Response is neither JSON with 'token' field nor a raw JWT. Body preview: ''
                              @ bytes_str (take 100 body_str)))
                       else Panics)
                 else Returns (Inl (''Response is neither JSON with 'token' field nor a raw JWT. Body preview: ''
                        @ bytes_str body_str))))"

section \<open>The client\<close>

record token_cache =
  tc_token :: "string option"
  tc_expires_at :: "nat option"

record attestation_client =
  ac_audience :: string
  ac_token_type :: token_type
  ac_cache :: token_cache
  ac_cache_duration :: nat

definition ATTESTATION_SOCKET_PATH :: string where
  "ATTESTATION_SOCKET_PATH = ''/run/container_launcher/teeserver.sock''"

definition DEFAULT_CACHE_DURATION :: nat where "DEFAULT_CACHE_DURATION = 50 * 60"

definition new_attestation_client :: "bool \<Rightarrow> string \<Rightarrow> token_type \<Rightarrow> string + attestation_client" where
  "new_attestation_client socket_exists audience token_type =
     (if \<not> socket_exists
      then Inl (''Confidential Space attestation socket not found at '' @ ATTESTATION_SOCKET_PATH
             @ ''. Are you running in GCP Confidential Space?'')
      else Inr \<lparr>ac_audience = audience, ac_token_type = token_type,
                ac_cache = \<lparr>tc_token = None, tc_expires_at = None\<rparr>, ac_cache_duration = DEFAULT_CACHE_DURATION\<rparr>)"

text \<open>
  The attestation service: what becomes of a request, an error before the reply (with its context) or a status
  with its text and a body, which may fail to arrive.\<close>

record attestation_service =
  as_serialize_error :: "attestation_request \<Rightarrow> bool"
  as_request :: "attestation_request \<Rightarrow> string + (nat \<times> string \<times> (string + bytes))"
  as_json :: "bytes \<Rightarrow> string option"

definition fetch_token_internal :: "attestation_service \<Rightarrow> string list \<Rightarrow> attestation_client \<Rightarrow> (string + string) outcome" where
  "fetch_token_internal srv nonces cl =
     (let request = \<lparr>ar_audience = ac_audience cl, ar_token_type = ac_token_type cl, ar_nonces = nonces\<rparr>
      in if as_serialize_error srv request then Returns (Inl ''Failed to serialize attestation request'')
         else case as_request srv request of
           Inl context_error \<Rightarrow> Returns (Inl context_error)
         | Inr (status, status_text, body) \<Rightarrow>
             if \<not> (200 \<le> status \<and> status < 300)
             then Returns (Inl (''Attestation service returned error: '' @ status_text))
             else (case body of
                     Inl _ \<Rightarrow> Returns (Inl ''Failed to read attestation response body'')
                   | Inr body_bytes \<Rightarrow>
                      (case parse_attestation_response (as_json srv) body_bytes of
                         Returns (Inl _) \<Rightarrow> Returns (Inl ''Failed to parse attestation response'')
                       | r \<Rightarrow> r)))"

text \<open>\<open>now\<close> is the time of the check, \<open>later\<close> that of the store after the reply.\<close>

definition get_token :: "nat \<Rightarrow> nat \<Rightarrow> attestation_service \<Rightarrow> attestation_client
  \<Rightarrow> attestation_client \<times> (string + string) outcome" where
  "get_token now later srv cl =
     (case (tc_token (ac_cache cl), tc_expires_at (ac_cache cl)) of
        (Some token, Some expires_at) \<Rightarrow>
          if now < expires_at then (cl, Returns (Inr token))
          else (case fetch_token_internal srv [] cl of
                  Returns (Inr token) \<Rightarrow>
                    (cl\<lparr>ac_cache := \<lparr>tc_token = Some token, tc_expires_at = Some (later + ac_cache_duration cl)\<rparr>\<rparr>,
                     Returns (Inr token))
                | r \<Rightarrow> (cl, r))
      | _ \<Rightarrow>
          (case fetch_token_internal srv [] cl of
             Returns (Inr token) \<Rightarrow>
               (cl\<lparr>ac_cache := \<lparr>tc_token = Some token, tc_expires_at = Some (later + ac_cache_duration cl)\<rparr>\<rparr>,
                Returns (Inr token))
           | r \<Rightarrow> (cl, r)))"

fun check_nonces :: "nat \<Rightarrow> string list \<Rightarrow> string + unit" where
  "check_nonces i [] = Inr ()"
| "check_nonces i (nonce # rest) =
     (if \<not> (10 \<le> length nonce \<and> length nonce \<le> 74)
      then Inl (''Nonce '' @ show_nat i @ '' has invalid length: '' @ show_nat (length nonce) @ '' (must be 10-74 bytes)'')
      else check_nonces (i + 1) rest)"

definition get_token_with_nonces :: "attestation_service \<Rightarrow> string list \<Rightarrow> attestation_client \<Rightarrow> (string + string) outcome" where
  "get_token_with_nonces srv nonces cl =
     (if 6 < length nonces then Returns (Inl (''Too many nonces: '' @ show_nat (length nonces) @ '' (max 6)''))
      else case check_nonces 0 nonces of
             Inl e \<Rightarrow> Returns (Inl e)
           | Inr _ \<Rightarrow> fetch_token_internal srv nonces cl)"

definition invalidate_cache :: "attestation_client \<Rightarrow> attestation_client" where
  "invalidate_cache cl = cl\<lparr>ac_cache := \<lparr>tc_token = None, tc_expires_at = None\<rparr>\<rparr>"

definition is_confidential_space :: "bool \<Rightarrow> bool" where
  "is_confidential_space socket_exists = socket_exists"

section \<open>The reply is read without loss\<close>

text \<open>The second byte by the length of the sequence, as \<open>valid_utf8\<close> checks it.\<close>

lemma utf8_second_three:
  assumes "a \<le> 0xEF"
  shows "utf8_second a b \<longleftrightarrow>
     (if a = 0xE0 then 0xA0 \<le> b \<and> b \<le> 0xBF else if a = 0xED then 0x80 \<le> b \<and> b \<le> 0x9F else utf8_tail b)"
proof -
  have "a \<noteq> 0xF0" "a \<noteq> 0xF4" using assms by auto
  then show ?thesis by (simp add: utf8_second_def)
qed

lemma utf8_second_four:
  assumes "0xF0 \<le> a"
  shows "utf8_second a b \<longleftrightarrow>
     (if a = 0xF0 then 0x90 \<le> b \<and> b \<le> 0xBF else if a = 0xF4 then 0x80 \<le> b \<and> b \<le> 0x8F else utf8_tail b)"
proof -
  have "a \<noteq> 0xE0" "a \<noteq> 0xED" using assms by auto
  then show ?thesis by (simp add: utf8_second_def)
qed

text \<open>The kinds of first bytes exclude each other.\<close>

lemma lead_two: "0xC2 \<le> a \<Longrightarrow> \<not> a < (0x80 :: u8)"
  and lead_three: "0xE0 \<le> a \<Longrightarrow> \<not> a < (0x80 :: u8)" "0xE0 \<le> a \<Longrightarrow> \<not> a \<le> (0xDF :: u8)"
  and lead_four: "0xF0 \<le> a \<Longrightarrow> \<not> a < (0x80 :: u8)" "0xF0 \<le> a \<Longrightarrow> \<not> a \<le> (0xDF :: u8)" "0xF0 \<le> a \<Longrightarrow> \<not> a \<le> (0xEF :: u8)"
  by unat_arith+

declare valid_utf8.simps(2) [simp del]

lemma valid_utf8_one: "a < 0x80 \<Longrightarrow> valid_utf8 (a # rest) = valid_utf8 rest"
  by (simp add: valid_utf8.simps(2))

lemma valid_utf8_two:
  "0xC2 \<le> a \<Longrightarrow> a \<le> 0xDF \<Longrightarrow>
     valid_utf8 (a # rest) = (case rest of b # rest1 \<Rightarrow> utf8_tail b \<and> valid_utf8 rest1 | [] \<Rightarrow> False)"
  by (cases rest; subst valid_utf8.simps(2); simp add: lead_two)

lemma valid_utf8_three:
  "0xE0 \<le> a \<Longrightarrow> a \<le> 0xEF \<Longrightarrow>
     valid_utf8 (a # rest) = (case rest of b # c # rest2 \<Rightarrow> utf8_second a b \<and> utf8_tail c \<and> valid_utf8 rest2 | _ \<Rightarrow> False)"
  by (cases rest; cases "tl rest"; subst valid_utf8.simps(2); simp add: lead_three utf8_second_three)

lemma valid_utf8_four:
  "0xF0 \<le> a \<Longrightarrow> a \<le> 0xF4 \<Longrightarrow>
     valid_utf8 (a # rest) =
       (case rest of b # c # d # rest3 \<Rightarrow> utf8_second a b \<and> utf8_tail c \<and> utf8_tail d \<and> valid_utf8 rest3 | _ \<Rightarrow> False)"
  by (cases rest; cases "tl rest"; cases "tl (tl rest)"; subst valid_utf8.simps(2); simp add: lead_four utf8_second_four)

lemma valid_utf8_bad:
  "\<not> a < 0x80 \<Longrightarrow> \<not> (0xC2 \<le> a \<and> a \<le> 0xDF) \<Longrightarrow> \<not> (0xE0 \<le> a \<and> a \<le> 0xEF) \<Longrightarrow> \<not> (0xF0 \<le> a \<and> a \<le> 0xF4) \<Longrightarrow>
     valid_utf8 (a # rest) = False"
  by (cases rest; cases "tl rest"; cases "tl (tl rest)"; subst valid_utf8.simps(2);
      simp only: if_False list.case list.sel; blast)

lemmas valid_utf8_steps = valid_utf8_one valid_utf8_two valid_utf8_three valid_utf8_four valid_utf8_bad

declare utf8_lossy.simps(2) [simp del]

text \<open>Case analysis on the first byte and, for each kind, on how far its sequence goes.\<close>

lemma lead_cases:
  obtains (one) "a < (0x80 :: u8)"
    | (two) "0xC2 \<le> a" "a \<le> 0xDF"
    | (three) "0xE0 \<le> a" "a \<le> 0xEF"
    | (four) "0xF0 \<le> a" "a \<le> 0xF4"
    | (bad) "\<not> a < 0x80" "\<not> (0xC2 \<le> a \<and> a \<le> 0xDF)" "\<not> (0xE0 \<le> a \<and> a \<le> 0xEF)" "\<not> (0xF0 \<le> a \<and> a \<le> 0xF4)"
  by blast

lemmas lead_simps = lead_two lead_three lead_four valid_utf8_steps

lemma utf8_lossy_valid: "valid_utf8 bs \<Longrightarrow> utf8_lossy bs = bs"
proof (induction bs rule: length_induct)
  case (1 bs)
  show ?case
  proof (cases bs)
    case (Cons a rest)
    have IH: "utf8_lossy ys = ys" if "valid_utf8 ys" "length ys < Suc (length rest)" for ys
      using "1.IH" that Cons by simp
    have v: "valid_utf8 (a # rest)" using "1.prems" Cons by simp
    have "utf8_lossy (a # rest) = a # rest"
    proof (cases a rule: lead_cases)
      case one
      with v show ?thesis by (subst utf8_lossy.simps(2)) (simp add: lead_simps IH)
    next
      case two
      with v show ?thesis by (subst utf8_lossy.simps(2)) (simp add: lead_simps IH split: list.split_asm list.split)
    next
      case three
      with v show ?thesis by (subst utf8_lossy.simps(2)) (simp add: lead_simps IH split: list.split_asm list.split)
    next
      case four
      with v show ?thesis by (subst utf8_lossy.simps(2)) (simp add: lead_simps IH split: list.split_asm list.split)
    next
      case bad
      with v show ?thesis by (subst utf8_lossy.simps(2)) (simp add: lead_simps IH)
    qed
    with Cons show ?thesis by simp
  qed simp
qed

lemma valid_utf8_replacement [simp]: "valid_utf8 (replacement @ bs) = valid_utf8 bs"
proof -
  have "utf8_second 0xEF 0xBF" by (simp add: utf8_second_def utf8_tail_def)
  then show ?thesis by (simp add: replacement_def valid_utf8_steps utf8_tail_def)
qed

lemma valid_utf8_replacement_only [simp]: "valid_utf8 replacement"
  using valid_utf8_replacement [of "[]"] by simp

lemma utf8_lossy_is_valid: "valid_utf8 (utf8_lossy bs)"
proof (induction bs rule: length_induct)
  case (1 bs)
  show ?case
  proof (cases bs)
    case (Cons a rest)
    have IH: "valid_utf8 (utf8_lossy ys)" if "length ys < Suc (length rest)" for ys
      using "1.IH" that Cons by simp
    have "valid_utf8 (utf8_lossy (a # rest))"
    proof (cases a rule: lead_cases)
      case one
      then show ?thesis by (subst utf8_lossy.simps(2)) (simp add: lead_simps IH)
    next
      case two
      then show ?thesis by (subst utf8_lossy.simps(2)) (simp add: lead_simps IH split: list.split_asm list.split)
    next
      case three
      then show ?thesis by (subst utf8_lossy.simps(2)) (simp add: lead_simps IH split: list.split_asm list.split)
    next
      case four
      then show ?thesis by (subst utf8_lossy.simps(2)) (simp add: lead_simps IH split: list.split_asm list.split)
    next
      case bad
      then have "utf8_lossy (a # rest) = replacement @ utf8_lossy rest" by (simp only: utf8_lossy.simps(2) if_False)
      then show ?thesis by (simp add: IH)
    qed
    with Cons show ?thesis by simp
  qed simp
qed

section \<open>The cache\<close>

datatype client_call = GetToken nat nat attestation_service | Invalidate

lemma fetch_keeps_cache [simp]: "fetch_token_internal srv ns (cl\<lparr>ac_cache := c\<rparr>) = fetch_token_internal srv ns cl"
  by (simp add: fetch_token_internal_def)

text \<open>The two branches of \<open>get_token\<close>: a cached token, or a fetch.\<close>

definition cached :: "nat \<Rightarrow> attestation_client \<Rightarrow> string option" where
  "cached now cl =
     (case (tc_token (ac_cache cl), tc_expires_at (ac_cache cl)) of
        (Some t, Some e) \<Rightarrow> if now < e then Some t else None | _ \<Rightarrow> None)"

lemma get_token_cached: "cached now cl = Some t \<Longrightarrow> get_token now later srv cl = (cl, Returns (Inr t))"
  by (auto simp: cached_def get_token_def split: option.splits if_splits)

lemma get_token_fetch:
  "cached now cl = None \<Longrightarrow> get_token now later srv cl =
     (case fetch_token_internal srv [] cl of
        Returns (Inr token) \<Rightarrow>
          (cl\<lparr>ac_cache := \<lparr>tc_token = Some token, tc_expires_at = Some (later + ac_cache_duration cl)\<rparr>\<rparr>, Returns (Inr token))
      | r \<Rightarrow> (cl, r))"
  by (auto simp: cached_def get_token_def split: option.splits if_splits)

text \<open>A client with the log of the tokens it fetched: a run records a token when a fetch stores it.\<close>

definition client_step :: "client_call \<Rightarrow> attestation_client \<times> (string \<times> nat) list \<Rightarrow> attestation_client \<times> (string \<times> nat) list" where
  "client_step c st =
     (case c of
        Invalidate \<Rightarrow> (invalidate_cache (fst st), snd st)
      | GetToken now later srv \<Rightarrow>
          (case get_token now later srv (fst st) of
             (cl, Returns (Inr token)) \<Rightarrow>
               (cl, if cached now (fst st) = None then snd st @ [(token, later)] else snd st)
           | (cl, _) \<Rightarrow> (cl, snd st)))"

definition cache_inv :: "attestation_client \<times> (string \<times> nat) list \<Rightarrow> bool" where
  "cache_inv st \<longleftrightarrow>
     (\<forall>t e. tc_token (ac_cache (fst st)) = Some t \<longrightarrow> tc_expires_at (ac_cache (fst st)) = Some e \<longrightarrow>
        (\<exists>at. (t, at) \<in> set (snd st) \<and> e = at + ac_cache_duration (fst st)))"

lemma client_step_inv: "cache_inv st \<Longrightarrow> cache_inv (client_step c st)"
proof (cases c)
  case (GetToken now later srv)
  assume inv: "cache_inv st"
  show ?thesis
  proof (cases "cached now (fst st)")
    case None
    with inv GetToken show ?thesis
      by (auto simp: client_step_def get_token_fetch cache_inv_def split: outcome.splits sum.splits)
  next
    case (Some t)
    with inv GetToken show ?thesis by (simp add: client_step_def get_token_cached)
  qed
qed (simp add: client_step_def cache_inv_def invalidate_cache_def)

interpretation token_client: machine client_step cache_inv "\<lambda>_ _. True"
  by unfold_locales (rule client_step_inv)

lemma run_ok_always [simp]: "run_ok step (\<lambda>_ _. True) es s"
  by (induction es arbitrary: s) auto

lemma client_duration [simp]: "ac_cache_duration (fst (run client_step calls st)) = ac_cache_duration (fst st)"
proof (induction calls arbitrary: st)
  case (Cons c calls)
  have "ac_cache_duration (fst (client_step c st)) = ac_cache_duration (fst st)"
  proof (cases c)
    case (GetToken now later srv)
    then show ?thesis
      by (cases "cached now (fst st)") (auto simp: client_step_def get_token_cached get_token_fetch split: outcome.splits sum.splits)
  qed (simp add: client_step_def invalidate_cache_def)
  with Cons show ?case by simp
qed simp

text \<open>A token that the attestation client hands out is either the reply to a request made in that call, or
  was stored less than 50 minutes earlier by an earlier call: after any sequence of requests and invalidations
  a cached token is never older than the cache duration.\<close>

theorem cached_tokens_fresh:
  assumes "new_attestation_client socket_exists audience token_type = Inr cl"
    and "st = run client_step calls (cl, [])"
    and "get_token now later srv (fst st) = (cl', Returns (Inr token))"
  shows "fetch_token_internal srv [] (fst st) = Returns (Inr token)
    \<or> (\<exists>at. (token, at) \<in> set (snd st) \<and> now < at + 50 * 60)"
proof (cases "cached now (fst st)")
  case None
  with assms(3) show ?thesis by (auto simp: get_token_fetch split: outcome.splits sum.splits)
next
  case (Some t)
  have cl: "ac_cache_duration cl = 50 * 60" "cache_inv (cl, [])"
    using assms(1) by (auto simp: new_attestation_client_def DEFAULT_CACHE_DURATION_def cache_inv_def split: if_splits)
  then have "cache_inv st" and "ac_cache_duration (fst st) = 50 * 60"
    using token_client.run_inv [of "(cl, [])" calls] assms(2) by simp_all
  moreover have "token = t" using assms(3) Some by (simp add: get_token_cached)
  moreover obtain e where "tc_token (ac_cache (fst st)) = Some t" "tc_expires_at (ac_cache (fst st)) = Some e" "now < e"
    using Some by (auto simp: cached_def split: option.splits if_splits)
  ultimately show ?thesis unfolding cache_inv_def by auto
qed

definition demo_service :: attestation_service where
  "demo_service = \<lparr>as_serialize_error = (\<lambda>_. False),
     as_request = (\<lambda>r. Inr (200, ''200 OK'', Inr (str_bytes ''eyJh.eyJp.c2ln ''))), as_json = (\<lambda>_. None)\<rparr>"

lemma utf8_lossy_ascii: "list_all (\<lambda>a. a < 0x80) bs \<Longrightarrow> utf8_lossy (bs @ rest) = bs @ utf8_lossy rest"
  by (induction bs) (simp_all add: utf8_lossy.simps(2))

lemma bytes_str_str_bytes [simp]: "bytes_str (str_bytes s) = s"
proof -
  have "unat (of_nat (of_char c) :: u8) = of_char c" for c :: char
    by (simp add: unat_of_nat take_bit_eq_mod)
  then show ?thesis by (induction s) (simp_all add: bytes_str_def str_bytes_def)
qed

lemma demo_reply:
  "str_trim (bytes_str (utf8_lossy (str_bytes ''eyJh.eyJp.c2ln ''))) = ''eyJh.eyJp.c2ln''"
  "starts_with ''eyJ'' ''eyJh.eyJp.c2ln''"
proof -
  have "list_all (\<lambda>a. a < 0x80) (str_bytes ''eyJh.eyJp.c2ln '')" by (simp add: str_bytes_def)
  from utf8_lossy_ascii [OF this, of "[]"] have "utf8_lossy (str_bytes ''eyJh.eyJp.c2ln '') = str_bytes ''eyJh.eyJp.c2ln ''" by simp
  then show "str_trim (bytes_str (utf8_lossy (str_bytes ''eyJh.eyJp.c2ln ''))) = ''eyJh.eyJp.c2ln''"
    using str_trim_blank_end [of "''eyJh.eyJp.c2ln''"] by (simp add: solid_def)
  show "starts_with ''eyJ'' ''eyJh.eyJp.c2ln''" by (simp add: starts_with_def)
qed

lemma demo_fetch: "fetch_token_internal demo_service [] cl = Returns (Inr ''eyJh.eyJp.c2ln'')"
proof -
  have "parse_attestation_response (\<lambda>_. None) (str_bytes ''eyJh.eyJp.c2ln '') = Returns (Inr ''eyJh.eyJp.c2ln'')"
    unfolding parse_attestation_response_def Let_def using demo_reply by simp
  then show ?thesis by (simp add: fetch_token_internal_def demo_service_def)
qed

theorem cached_tokens_fresh_witness:
  "(let cl = \<lparr>ac_audience = ''a'', ac_token_type = Oidc, ac_cache = \<lparr>tc_token = None, tc_expires_at = None\<rparr>,
       ac_cache_duration = 3000\<rparr>; st = run client_step [GetToken 5 7 demo_service] (cl, [])
    in get_token 20 30 demo_service (fst st) = (fst st, Returns (Inr ''eyJh.eyJp.c2ln''))
       \<and> (fetch_token_internal demo_service [] (fst st) = Returns (Inr ''eyJh.eyJp.c2ln'')
          \<or> (\<exists>at. (''eyJh.eyJp.c2ln'', at) \<in> set (snd st) \<and> 20 < at + 50 * 60)))"
proof -
  define cl where "cl = \<lparr>ac_audience = ''a'', ac_token_type = Oidc, ac_cache = \<lparr>tc_token = None, tc_expires_at = None\<rparr>,
       ac_cache_duration = 3000\<rparr>"
  define st where "st = run client_step [GetToken 5 7 demo_service] (cl, [])"
  have new: "new_attestation_client True ''a'' Oidc = Inr cl"
    by (simp add: new_attestation_client_def cl_def DEFAULT_CACHE_DURATION_def)
  have "cached 5 cl = None" by (simp add: cached_def cl_def)
  then have st: "st = (cl\<lparr>ac_cache := \<lparr>tc_token = Some ''eyJh.eyJp.c2ln'', tc_expires_at = Some 3007\<rparr>\<rparr>, [(''eyJh.eyJp.c2ln'', 7)])"
    by (simp add: st_def client_step_def get_token_fetch demo_fetch) (simp add: cl_def)
  then have "cached 20 (fst st) = Some ''eyJh.eyJp.c2ln''" by (simp add: cached_def)
  then have get: "get_token 20 30 demo_service (fst st) = (fst st, Returns (Inr ''eyJh.eyJp.c2ln''))"
    by (rule get_token_cached)
  with cached_tokens_fresh [OF new st_def get] show ?thesis by (simp add: st_def cl_def Let_def)
qed

text \<open>
  A rejected reply longer than 100 bytes is cut at byte 100 for the error text. The cut is inside a character when byte
  100 continues a UTF-8 sequence, and the slice then panics instead of returning the error.\<close>

lemma parse_reply_panics_iff:
  "parse_attestation_response json body = Panics \<longleftrightarrow>
     json body = None \<and> \<not> (starts_with ''eyJ'' (str_trim (bytes_str (utf8_lossy body))) \<and> CHR ''.'' \<in> set (str_trim (bytes_str (utf8_lossy body))))
     \<and> 100 < length (utf8_lossy body) \<and> utf8_tail (utf8_lossy body ! 100)"
  by (auto simp: parse_attestation_response_def Let_def is_char_boundary_def split: option.splits)

lemma preview_panics: "parse_attestation_response (\<lambda>_. None) (replicate 99 97 @ [0xC3, 0xA9]) = Panics"
proof -
  have "utf8_lossy [0xC3, 0xA9] = [0xC3, 0xA9]" by code_simp
  then have u: "utf8_lossy (replicate 99 97 @ [0xC3, 0xA9]) = replicate 99 97 @ [0xC3, 0xA9]"
    by (subst utf8_lossy_ascii) (simp_all add: list_all_iff)
  have "char_of (97 :: nat) = CHR ''a''" "char_of (195 :: nat) = CHR 0xC3" "char_of (169 :: nat) = CHR 0xA9" by code_simp+
  then have "bytes_str (replicate 99 97 @ [0xC3, 0xA9]) = replicate 99 (CHR ''a'') @ [CHR 0xC3, CHR 0xA9]" by (simp add: bytes_str_def)
  then have "CHR ''.'' \<notin> set (str_trim (bytes_str (replicate 99 97 @ [0xC3, 0xA9])))" using set_str_trim by fastforce
  moreover have "utf8_tail ((replicate 99 97 @ [0xC3, 0xA9]) ! 100)"
    by (simp only: nth_append length_replicate) (simp add: utf8_tail_def)
  ultimately show ?thesis unfolding parse_reply_panics_iff u by simp
qed

text \<open>A reply of the attestation service can abort the client: 99 ASCII bytes followed by a two-byte character,
  which is neither JSON nor a token, makes the error path panic, because the preview of the body is cut at byte 100
  in the middle of the character.\<close>

theorem attestation_preview_panics:
  "parse_attestation_response (\<lambda>_. None) (replicate 99 97 @ [0xC3, 0xA9]) = Panics"
  by (rule preview_panics)

text \<open>Requests with nonces reach the attestation service only with at most six nonces of 10 to 74 bytes each;
  otherwise the call returns an error without a request.\<close>

theorem nonces_checked:
  "get_token_with_nonces srv nonces cl =
     (if length nonces \<le> 6 \<and> (\<forall>n \<in> set nonces. 10 \<le> length n \<and> length n \<le> 74)
      then fetch_token_internal srv nonces cl
      else Returns (Inl (if 6 < length nonces then ''Too many nonces: '' @ show_nat (length nonces) @ '' (max 6)''
        else (let i = length (takeWhile (\<lambda>n. 10 \<le> length n \<and> length n \<le> 74) nonces)
              in ''Nonce '' @ show_nat i @ '' has invalid length: '' @ show_nat (length (nonces ! i))
                 @ '' (must be 10-74 bytes)''))))"
proof -
  have "check_nonces k nonces =
     (if (\<forall>n \<in> set nonces. 10 \<le> length n \<and> length n \<le> 74) then Inr ()
      else (let i = length (takeWhile (\<lambda>n. 10 \<le> length n \<and> length n \<le> 74) nonces)
            in Inl (''Nonce '' @ show_nat (k + i) @ '' has invalid length: '' @ show_nat (length (nonces ! i))
                 @ '' (must be 10-74 bytes)'')))" for k
    by (induction k nonces rule: check_nonces.induct) (auto simp: Let_def)
  from this [of 0] show ?thesis by (auto simp: get_token_with_nonces_def Let_def)
qed

end
