(* ===== verification/Client_Sender.thy ===== *)
theory Client_Sender
  imports Client_Recovery Attestation_Client Payloads "HOL-Library.Multiset"
begin

text \<open>
  The background senders of the client library, \<open>crates/synddb-client/src/sender.rs\<close> and \<open>snapshot_sender.rs\<close>: they
  receive changesets and snapshots from the session, batch them, post them to the sequencer with retries, and save
  to the recovery database what could not be sent. The thread's loop is a function of the list of events that its
  \<open>select!\<close> chose; what the attestation service, the sequencer and SQLite answer is part of each event.
\<close>

section \<open>Requests\<close>

datatype client_send_error = SendHttp string | SendCbor string | SendInvalidUrl string

fun show_client_send_error :: "client_send_error \<Rightarrow> string" where
  "show_client_send_error (SendHttp e) = ''HTTP error: '' @ e"
| "show_client_send_error (SendCbor e) = ''CBOR serialization error: '' @ e"
| "show_client_send_error (SendInvalidUrl e) = ''Invalid URL: '' @ e"

definition epoch_secs :: "int \<Rightarrow> u64" where
  "epoch_secs t = (case since_epoch t of Inl e \<Rightarrow> 0 | Inr s \<Rightarrow> s)"

definition changeset_data_of :: "changeset \<Rightarrow> changeset_data" where
  "changeset_data_of c = \<lparr>cd_data = cg_data c, cd_sequence = cg_sequence c, cd_timestamp = epoch_secs (cg_timestamp c)\<rparr>"

definition snapshot_data_of :: "snapshot \<Rightarrow> snapshot_data" where
  "snapshot_data_of s = \<lparr>sn_data = sp_data s, sn_timestamp = epoch_secs (sp_timestamp s), sn_sequence = sp_sequence s\<rparr>"

record client_config =
  co_sequencer_url :: string
  co_buffer_size :: nat
  co_push_interval :: nat
  co_max_batch_size :: nat
  co_max_retries :: nat
  co_snapshot_request_timeout :: nat
  co_snapshot_interval :: u64
  co_enable_recovery :: bool
  co_disable_attestation :: bool
  co_attestation_token_type :: token_type

text \<open>The parts outside: joining a path to a URL and posting bytes, with the number of the attempt.\<close>

record network =
  nw_join :: "string \<Rightarrow> string \<Rightarrow> string + string"
  nw_post :: "nat \<Rightarrow> string \<Rightarrow> bytes \<Rightarrow> http_reply"

text \<open>\<open>send().await\<close> and \<open>error_for_status()\<close>.\<close>

definition post_ok :: "http_reply \<Rightarrow> client_send_error + unit" where
  "post_ok reply =
     (case reply of
        Inl e \<Rightarrow> Inl (SendHttp (show_send_error e))
      | Inr r \<Rightarrow> if 400 \<le> hr_status r \<and> hr_status r < 600 then Inl (SendHttp (hr_status_text r)) else Inr ())"

definition send_batch :: "payload_codec \<Rightarrow> network \<Rightarrow> client_config \<Rightarrow> changeset_batch_request \<Rightarrow> nat \<Rightarrow> client_send_error + unit" where
  "send_batch codec net config batch attempt =
     bind_r (map_err SendInvalidUrl (nw_join net (co_sequencer_url config) ''changesets'')) (\<lambda>url.
     bind_r (map_err SendCbor (changesets_to_cbor codec batch)) (\<lambda>cbor_bytes.
     post_ok (nw_post net attempt url cbor_bytes)))"

definition send_snapshot_internal :: "payload_codec \<Rightarrow> network \<Rightarrow> client_config \<Rightarrow> snapshot_request \<Rightarrow> nat \<Rightarrow> client_send_error + unit" where
  "send_snapshot_internal codec net config request attempt =
     bind_r (map_err SendInvalidUrl (nw_join net (co_sequencer_url config) ''snapshots'')) (\<lambda>url.
     bind_r (map_err SendCbor (snapshot_to_cbor codec request)) (\<lambda>cbor_bytes.
     post_ok (nw_post net attempt url cbor_bytes)))"

text \<open>The token of a request: an error of the attestation service leaves the request without one. The client keeps its cache.\<close>

record token_io =
  ti_now :: nat
  ti_later :: nat
  ti_service :: attestation_service

definition request_token :: "token_io \<Rightarrow> attestation_client option \<Rightarrow> (attestation_client option \<times> string option) outcome" where
  "request_token io attestation =
     (case attestation of
        None \<Rightarrow> Returns (None, None)
      | Some cl \<Rightarrow>
          (case get_token (ti_now io) (ti_later io) (ti_service io) cl of
             (cl1, Panics) \<Rightarrow> Panics
           | (cl1, Returns (Inr token)) \<Rightarrow> Returns (Some cl1, Some token)
           | (cl1, Returns (Inl e)) \<Rightarrow> Returns (Some cl1, None)))"

section \<open>The changeset sender\<close>

record changeset_sender =
  se_config :: client_config
  se_buffer :: "changeset list"
  se_buffer_size :: nat
  se_last_flush :: nat
  se_recovery :: "recovery option"
  se_attestation :: "attestation_client option"
  se_stats :: replication_stats

definition new_changeset_sender ::
  "string option \<Rightarrow> nat \<Rightarrow> client_config \<Rightarrow> recovery option \<Rightarrow> attestation_client option \<Rightarrow> replication_stats \<Rightarrow> client_send_error + changeset_sender" where
  "new_changeset_sender build_error now config recovery attestation stats =
     (case build_error of
        Some e \<Rightarrow> Inl (SendHttp e)
      | None \<Rightarrow> Inr \<lparr>se_config = config, se_buffer = [], se_buffer_size = 0, se_last_flush = now, se_recovery = recovery,
                     se_attestation = attestation, se_stats = stats\<rparr>)"

record flush_io =
  fi_token :: token_io
  fi_batch_id :: string
  fi_net :: network
  fi_save :: "nat \<Rightarrow> string option"
  fi_failed_at :: int
  fi_now :: nat

text \<open>Times of the monotonic clock are in milliseconds.\<close>

definition should_flush :: "nat \<Rightarrow> changeset_sender \<Rightarrow> bool" where
  "should_flush now s \<longleftrightarrow> co_buffer_size (se_config s) \<le> length (se_buffer s)
     \<or> co_max_batch_size (se_config s) \<le> se_buffer_size s
     \<or> co_push_interval (se_config s) \<le> now - se_last_flush s"

fun save_all :: "(nat \<Rightarrow> string option) \<Rightarrow> int \<Rightarrow> nat \<Rightarrow> changeset list \<Rightarrow> recovery \<Rightarrow> recovery" where
  "save_all ios now k [] rv = rv"
| "save_all ios now k (c # cs) rv = save_all ios now (k + 1) cs (fst (save_failed_changeset (ios k) now c ''Max retries exceeded'' rv))"

text \<open>The second component is what the sequencer has acknowledged in this flush.\<close>

definition flush :: "payload_codec \<Rightarrow> flush_io \<Rightarrow> changeset_sender \<Rightarrow> (changeset_sender \<times> changeset list) outcome" where
  "flush codec io s =
     (if se_buffer s = [] then Returns (s, [])
      else case request_token (fi_token io) (se_attestation s) of
             Panics \<Rightarrow> Panics
           | Returns (att, token) \<Rightarrow>
               (let changesets_raw = se_buffer s;
                    batch = \<lparr>cr_batch_id = fi_batch_id io, cr_changesets = map changeset_data_of changesets_raw, cr_attestation_token = token\<rparr>;
                    s1 = s\<lparr>se_buffer := [], se_attestation := att\<rparr>;
                    batch_count = length changesets_raw
                in case snd (retry_with_backoff (co_max_retries (se_config s)) (send_batch codec (fi_net io) (se_config s) batch)) of
                     Panics \<Rightarrow> Panics
                   | Returns (Inr _) \<Rightarrow>
                       Returns (s1\<lparr>se_stats := record_push (fi_now io) batch_count (se_stats s1), se_buffer_size := 0, se_last_flush := fi_now io\<rparr>,
                                changesets_raw)
                   | Returns (Inl e) \<Rightarrow>
                       Returns (s1\<lparr>se_recovery := map_option (save_all (fi_save io) (fi_failed_at io) 0 changesets_raw) (se_recovery s1),
                                   se_stats := decrement_pending batch_count (record_failure (se_stats s1))\<rparr>, [])))"

definition buffer_changeset :: "changeset \<Rightarrow> changeset_sender \<Rightarrow> changeset_sender" where
  "buffer_changeset c s = s\<lparr>se_stats := increment_pending (se_stats s), se_buffer_size := se_buffer_size s + length (cg_data c),
     se_buffer := se_buffer s @ [c]\<rparr>"

text \<open>What \<open>select!\<close> sees: a changeset with the time at which it is looked at, the channel closed, or the shutdown signal with
  the changesets still in the channel.\<close>

datatype sender_event =
    Received changeset nat flush_io
  | ChannelClosed
  | ShutdownReceived "changeset list" flush_io

text \<open>The state, what was acknowledged, and whether the loop has ended.\<close>

fun sender_loop ::
  "payload_codec \<Rightarrow> sender_event list \<Rightarrow> changeset_sender \<times> changeset list \<Rightarrow> (changeset_sender \<times> changeset list \<times> bool) outcome" where
  "sender_loop codec [] (s, acks) = Returns (s, acks, False)"
| "sender_loop codec (Received c now io # es) (s, acks) =
     (let s1 = buffer_changeset c s
      in if should_flush now s1
         then (case flush codec io s1 of
                 Panics \<Rightarrow> Panics
               | Returns (s2, got) \<Rightarrow> sender_loop codec es (s2, acks @ got))
         else sender_loop codec es (s1, acks))"
| "sender_loop codec (ChannelClosed # es) (s, acks) = Returns (s, acks, True)"
| "sender_loop codec (ShutdownReceived cs io # es) (s, acks) =
     (case flush codec io (fold buffer_changeset cs s) of
        Panics \<Rightarrow> Panics
      | Returns (s2, got) \<Rightarrow> Returns (s2, acks @ got, True))"

section \<open>Retrying what earlier runs left\<close>

record retry_io =
  ry_token :: token_io
  ry_batch_id :: string
  ry_net :: network
  ry_update :: "string option"

fun retry_rows ::
  "payload_codec \<Rightarrow> client_config \<Rightarrow> (nat \<Rightarrow> retry_io) \<Rightarrow> nat \<Rightarrow> (nat \<times> changeset) list \<Rightarrow> recovery \<times> attestation_client option
   \<Rightarrow> (recovery \<times> attestation_client option) outcome" where
  "retry_rows codec config ios k [] st = Returns st"
| "retry_rows codec config ios k ((i, c) # rows) (rv, att) =
     (case request_token (ry_token (ios k)) att of
        Panics \<Rightarrow> Panics
      | Returns (att1, token) \<Rightarrow>
          (let batch = \<lparr>cr_batch_id = ry_batch_id (ios k), cr_changesets = [changeset_data_of c], cr_attestation_token = token\<rparr>
           in case snd (retry_with_backoff (co_max_retries config) (send_batch codec (ry_net (ios k)) config batch)) of
                Panics \<Rightarrow> Panics
              | Returns (Inr _) \<Rightarrow> retry_rows codec config ios (k + 1) rows (remove_changeset (ry_update (ios k)) i rv, att1)
              | Returns (Inl e) \<Rightarrow>
                  retry_rows codec config ios (k + 1) rows (increment_changeset_retry (ry_update (ios k)) i (show_client_send_error e) rv, att1)))"

definition retry_failed_changesets ::
  "payload_codec \<Rightarrow> string option \<times> string option \<Rightarrow> string option \<Rightarrow> int \<Rightarrow> (nat \<Rightarrow> retry_io) \<Rightarrow> changeset_sender \<Rightarrow> changeset_sender outcome" where
  "retry_failed_changesets codec cleanup load now ios s =
     (case se_recovery s of
        None \<Rightarrow> Returns s
      | Some rv \<Rightarrow>
          (let rv1 = fst (cleanup_old_failures cleanup now 7 rv)
           in case get_failed_changesets load rv1 of
                Inl e \<Rightarrow> Returns (s\<lparr>se_recovery := Some rv1\<rparr>)
              | Inr failed \<Rightarrow>
                  (case retry_rows codec (se_config s) ios 0 failed (rv1, se_attestation s) of
                     Panics \<Rightarrow> Panics
                   | Returns (rv2, att) \<Rightarrow> Returns (s\<lparr>se_recovery := Some rv2, se_attestation := att\<rparr>))))"

section \<open>The snapshot sender\<close>

record snapshot_sender =
  ss_config :: client_config
  ss_recovery :: "recovery option"
  ss_attestation :: "attestation_client option"

definition new_snapshot_sender ::
  "string option \<Rightarrow> client_config \<Rightarrow> recovery option \<Rightarrow> attestation_client option \<Rightarrow> client_send_error + snapshot_sender" where
  "new_snapshot_sender build_error config recovery attestation =
     (case build_error of
        Some e \<Rightarrow> Inl (SendHttp e)
      | None \<Rightarrow> Inr \<lparr>ss_config = config, ss_recovery = recovery, ss_attestation = attestation\<rparr>)"

text \<open>The second component tells whether the sequencer acknowledged the snapshot.\<close>

definition send_snapshot :: "payload_codec \<Rightarrow> flush_io \<Rightarrow> snapshot \<Rightarrow> snapshot_sender \<Rightarrow> (snapshot_sender \<times> bool) outcome" where
  "send_snapshot codec io s sd =
     (case request_token (fi_token io) (ss_attestation sd) of
        Panics \<Rightarrow> Panics
      | Returns (att, token) \<Rightarrow>
          (let request = \<lparr>sq_snapshot = snapshot_data_of s, sq_message_id = fi_batch_id io, sq_attestation_token = token\<rparr>;
               sd1 = sd\<lparr>ss_attestation := att\<rparr>
           in case snd (retry_with_backoff (co_max_retries (ss_config sd)) (send_snapshot_internal codec (fi_net io) (ss_config sd) request)) of
                Panics \<Rightarrow> Panics
              | Returns (Inr _) \<Rightarrow> Returns (sd1, True)
              | Returns (Inl e) \<Rightarrow>
                  Returns (sd1\<lparr>ss_recovery := map_option (\<lambda>rv. fst (save_failed_snapshot (fi_save io 0) (fi_failed_at io) s ''Max retries exceeded'' rv)) (ss_recovery sd1)\<rparr>,
                           False)))"

datatype snapshot_event = SnapshotReceived snapshot flush_io | SnapshotChannelClosed | SnapshotShutdown

fun snapshot_loop ::
  "payload_codec \<Rightarrow> snapshot_event list \<Rightarrow> snapshot_sender \<times> snapshot list \<Rightarrow> (snapshot_sender \<times> snapshot list \<times> bool) outcome" where
  "snapshot_loop codec [] (s, acks) = Returns (s, acks, False)"
| "snapshot_loop codec (SnapshotReceived p io # es) (s, acks) =
     (case send_snapshot codec io p s of
        Panics \<Rightarrow> Panics
      | Returns (s1, ok) \<Rightarrow> snapshot_loop codec es (s1, if ok then acks @ [p] else acks))"
| "snapshot_loop codec (SnapshotChannelClosed # es) (s, acks) = Returns (s, acks, True)"
| "snapshot_loop codec (SnapshotShutdown # es) (s, acks) = Returns (s, acks, True)"

fun retry_snapshot_rows ::
  "payload_codec \<Rightarrow> client_config \<Rightarrow> (nat \<Rightarrow> retry_io) \<Rightarrow> nat \<Rightarrow> (nat \<times> snapshot) list \<Rightarrow> recovery \<times> attestation_client option
   \<Rightarrow> (recovery \<times> attestation_client option) outcome" where
  "retry_snapshot_rows codec config ios k [] st = Returns st"
| "retry_snapshot_rows codec config ios k ((i, s) # rows) (rv, att) =
     (case request_token (ry_token (ios k)) att of
        Panics \<Rightarrow> Panics
      | Returns (att1, token) \<Rightarrow>
          (let request = \<lparr>sq_snapshot = snapshot_data_of s, sq_message_id = ry_batch_id (ios k), sq_attestation_token = token\<rparr>
           in case snd (retry_with_backoff (co_max_retries config) (send_snapshot_internal codec (ry_net (ios k)) config request)) of
                Panics \<Rightarrow> Panics
              | Returns (Inr _) \<Rightarrow> retry_snapshot_rows codec config ios (k + 1) rows (remove_snapshot (ry_update (ios k)) i rv, att1)
              | Returns (Inl e) \<Rightarrow>
                  retry_snapshot_rows codec config ios (k + 1) rows (increment_snapshot_retry (ry_update (ios k)) i (show_client_send_error e) rv, att1)))"

definition retry_failed_snapshots ::
  "payload_codec \<Rightarrow> string option \<Rightarrow> (nat \<Rightarrow> retry_io) \<Rightarrow> snapshot_sender \<Rightarrow> snapshot_sender outcome" where
  "retry_failed_snapshots codec load ios s =
     (case ss_recovery s of
        None \<Rightarrow> Returns s
      | Some rv \<Rightarrow>
          (case get_failed_snapshots load rv of
             Inl e \<Rightarrow> Returns s
           | Inr failed \<Rightarrow>
               (case retry_snapshot_rows codec (ss_config s) ios 0 failed (rv, ss_attestation s) of
                  Panics \<Rightarrow> Panics
                | Returns (rv2, att) \<Rightarrow> Returns (s\<lparr>ss_recovery := Some rv2, ss_attestation := att\<rparr>))))"

section \<open>Nothing is lost with a recovery database\<close>

text \<open>What identifies a changeset in memory and in the recovery table.\<close>

definition changeset_key :: "changeset \<Rightarrow> bytes \<times> u64" where "changeset_key c = (cg_data c, cg_sequence c)"
definition row_key :: "failed_row \<Rightarrow> bytes \<times> u64" where "row_key r = (fr_data r, fr_sequence r)"

definition recovered :: "changeset_sender \<Rightarrow> (bytes \<times> u64) multiset" where
  "recovered s = (case se_recovery s of None \<Rightarrow> {#} | Some rv \<Rightarrow> image_mset row_key (mset (ft_rows (rv_changesets rv))))"

definition flush_io_ok :: "flush_io \<Rightarrow> bool" where
  "flush_io_ok io \<longleftrightarrow> (\<forall>k. fi_save io k = None)"

lemma save_all_rows:
  "(\<forall>k. ios k = None) \<Longrightarrow> \<forall>c \<in> set cs. 0 \<le> cg_timestamp c \<Longrightarrow>
     map row_key (ft_rows (rv_changesets (save_all ios now k cs rv))) = map row_key (ft_rows (rv_changesets rv)) @ map changeset_key cs"
  by (induction cs arbitrary: k rv)
    (simp_all add: save_failed_changeset_def insert_failed_def since_epoch_def row_key_def changeset_key_def)

lemma flush_cases:
  assumes "flush codec io s = Returns (s', got)" "flush_io_ok io" "se_recovery s \<noteq> None" "\<forall>c \<in> set (se_buffer s). 0 \<le> cg_timestamp c"
  shows "se_buffer s' = []" "se_config s' = se_config s" "se_recovery s' \<noteq> None"
    "image_mset changeset_key (mset got) + recovered s' = image_mset changeset_key (mset (se_buffer s)) + recovered s"
proof -
  have "se_buffer s' = [] \<and> se_config s' = se_config s \<and> se_recovery s' \<noteq> None \<and>
    image_mset changeset_key (mset got) + recovered s' = image_mset changeset_key (mset (se_buffer s)) + recovered s"
  proof (cases "se_buffer s = []")
    case True
    with assms(1,3) show ?thesis by (auto simp: flush_def)
  next
    case False
    obtain rv where rv: "se_recovery s = Some rv" using assms(3) by blast
    obtain att token where tok: "request_token (fi_token io) (se_attestation s) = Returns (att, token)"
      using assms(1) False by (auto simp: flush_def split: outcome.splits)
    let ?batch = "\<lparr>cr_batch_id = fi_batch_id io, cr_changesets = map changeset_data_of (se_buffer s), cr_attestation_token = token\<rparr>"
    obtain q where q: "snd (retry_with_backoff (co_max_retries (se_config s)) (send_batch codec (fi_net io) (se_config s) ?batch)) = Returns q"
      using assms(1) False tok by (auto simp: flush_def Let_def split: outcome.splits)
    show ?thesis
    proof (cases q)
      case (Inr u)
      with assms(1) False tok q rv show ?thesis by (auto simp: flush_def Let_def recovered_def)
    next
      case (Inl e)
      have rows: "mset (map row_key (ft_rows (rv_changesets (save_all (fi_save io) (fi_failed_at io) 0 (se_buffer s) rv))))
          = mset (map row_key (ft_rows (rv_changesets rv)) @ map changeset_key (se_buffer s))"
        using save_all_rows [OF assms(2) [unfolded flush_io_ok_def] assms(4)] by (rule arg_cong)
      from assms(1) False tok q Inl rv
      have s': "se_buffer s' = []" "se_config s' = se_config s" "got = []"
          "se_recovery s' = Some (save_all (fi_save io) (fi_failed_at io) 0 (se_buffer s) rv)"
        by (auto simp: flush_def Let_def)
      with rows rv show ?thesis by (simp add: recovered_def add.commute)
    qed
  qed
  then show "se_buffer s' = []" "se_config s' = se_config s" "se_recovery s' \<noteq> None"
    "image_mset changeset_key (mset got) + recovered s' = image_mset changeset_key (mset (se_buffer s)) + recovered s" by auto
qed

lemma buffer_changeset_fields [simp]:
  "se_buffer (buffer_changeset c s) = se_buffer s @ [c]" "se_recovery (buffer_changeset c s) = se_recovery s"
  "se_config (buffer_changeset c s) = se_config s" "recovered (buffer_changeset c s) = recovered s"
  by (simp_all add: buffer_changeset_def recovered_def)

lemma fold_buffer_fields:
  "se_buffer (fold buffer_changeset cs s) = se_buffer s @ cs" "se_recovery (fold buffer_changeset cs s) = se_recovery s"
  "recovered (fold buffer_changeset cs s) = recovered s"
  by (induction cs arbitrary: s) simp_all

fun event_changesets :: "sender_event \<Rightarrow> changeset list" where
  "event_changesets (Received c now io) = [c]"
| "event_changesets ChannelClosed = []"
| "event_changesets (ShutdownReceived cs io) = cs"

fun event_ok :: "sender_event \<Rightarrow> bool" where
  "event_ok (Received c now io) \<longleftrightarrow> flush_io_ok io \<and> 0 \<le> cg_timestamp c"
| "event_ok ChannelClosed \<longleftrightarrow> True"
| "event_ok (ShutdownReceived cs io) \<longleftrightarrow> flush_io_ok io \<and> (\<forall>c \<in> set cs. 0 \<le> cg_timestamp c)"

definition accounted :: "changeset_sender \<Rightarrow> changeset list \<Rightarrow> (bytes \<times> u64) multiset" where
  "accounted s acks = image_mset changeset_key (mset acks) + recovered s + image_mset changeset_key (mset (se_buffer s))"

text \<open>A run that ends with the shutdown signal has taken every event; one that ends otherwise keeps its buffer.\<close>

lemma sender_loop_accounts:
  "sender_loop codec es (s, acks) = Returns (s', acks', stopped) \<Longrightarrow> \<forall>e \<in> set es. event_ok e \<Longrightarrow> se_recovery s \<noteq> None
   \<Longrightarrow> \<forall>c \<in> set (se_buffer s). 0 \<le> cg_timestamp c \<Longrightarrow> \<forall>e \<in> set (butlast es). \<exists>c now io. e = Received c now io \<Longrightarrow>
     accounted s' acks' = accounted s acks + image_mset changeset_key (mset (concat (map event_changesets es)))
     \<and> ((\<exists>cs io. es \<noteq> [] \<and> last es = ShutdownReceived cs io) \<longrightarrow> se_buffer s' = [] \<and> stopped)"
proof (induction codec es "(s, acks)" arbitrary: s acks rule: sender_loop.induct)
  case (2 codec c now io es s acks)
  let ?s1 = "buffer_changeset c s"
  have butl: "\<forall>e \<in> set (butlast es). \<exists>c now io. e = Received c now io" using "2.prems"(5) by (cases es) auto
  have acc1: "accounted ?s1 acks = accounted s acks + {#changeset_key c#}" by (simp add: accounted_def)
  show ?case
  proof (cases "should_flush now ?s1")
    case False
    with "2.prems" butl "2.hyps"(2) [OF refl False] acc1 show ?thesis by (auto split: if_splits)
  next
    case True
    then obtain s2 got where f: "flush codec io ?s1 = Returns (s2, got)"
      using "2.prems"(1) by (auto simp: Let_def split: outcome.splits)
    note fc = flush_cases [OF f]
    have fl: "se_buffer s2 = []" "se_recovery s2 \<noteq> None"
      "image_mset changeset_key (mset got) + recovered s2 = image_mset changeset_key (mset (se_buffer ?s1)) + recovered ?s1"
      using fc "2.prems" by auto
    have acc2: "accounted s2 (acks @ got) = accounted ?s1 acks"
      using fl(1,3) by (simp add: accounted_def ac_simps)
    have "sender_loop codec es (s2, acks @ got) = Returns (s', acks', stopped)"
      using "2.prems"(1) True f by simp
    from "2.hyps"(1) [OF refl True f refl this] "2.prems"(2) fl butl acc2 acc1 show ?thesis
      by (auto split: if_splits)
  qed
next
  case (4 codec cs io es s acks)
  have es: "es = []" using "4.prems"(5) by (cases es) auto
  obtain s2 got where f: "flush codec io (fold buffer_changeset cs s) = Returns (s2, got)" "s' = s2" "acks' = acks @ got" "stopped"
    using "4.prems"(1) by (auto split: outcome.splits)
  note fc = flush_cases [OF f(1)]
  have "se_buffer s2 = []"
    "image_mset changeset_key (mset got) + recovered s2 = image_mset changeset_key (mset (se_buffer s @ cs)) + recovered s"
    using fc "4.prems" by (auto simp: fold_buffer_fields)
  then show ?case using f es by (simp add: accounted_def ac_simps)
qed (auto simp: accounted_def)


section \<open>The sender keeps running\<close>

lemma flush_returns:
  assumes "se_attestation s = None" "0 < co_max_retries (se_config s)"
  shows "\<exists>s' got. flush codec io s = Returns (s', got) \<and> se_attestation s' = None \<and> se_config s' = se_config s"
proof (cases "se_buffer s = []")
  case False
  let ?batch = "\<lparr>cr_batch_id = fi_batch_id io, cr_changesets = map changeset_data_of (se_buffer s), cr_attestation_token = None\<rparr>"
  obtain q where "snd (retry_with_backoff (co_max_retries (se_config s)) (send_batch codec (fi_net io) (se_config s) ?batch)) = Returns q"
    using retry_result [OF assms(2)] by blast
  with assms(1) False show ?thesis by (cases q) (simp_all add: flush_def request_token_def Let_def)
qed (use assms in \<open>simp add: flush_def\<close>)

text \<open>Without attestation and with at least one attempt per batch, the sender never panics: no answer of the sequencer or of the
  recovery database stops it.\<close>

lemma sender_loop_returns:
  "se_attestation s = None \<Longrightarrow> 0 < co_max_retries (se_config s) \<Longrightarrow> sender_loop codec es (s, acks) \<noteq> Panics"
proof (induction es arbitrary: s acks)
  case (Cons e es)
  show ?case
  proof (cases e)
    case (Received c now io)
    have b: "se_attestation (buffer_changeset c s) = None" "0 < co_max_retries (se_config (buffer_changeset c s))"
      using Cons.prems by (simp_all add: buffer_changeset_def)
    obtain s2 got where f: "flush codec io (buffer_changeset c s) = Returns (s2, got)" "se_attestation s2 = None" "se_config s2 = se_config (buffer_changeset c s)"
      using flush_returns [OF b] by blast
    show ?thesis
    proof (cases "should_flush now (buffer_changeset c s)")
      case True
      with Cons.IH [of s2 "acks @ got"] f b Received show ?thesis by simp
    next
      case False
      with Cons.IH [OF b] Received show ?thesis by simp
    qed
  next
    case (ShutdownReceived cs io)
    have "se_attestation (fold buffer_changeset cs s) = None \<and> se_config (fold buffer_changeset cs s) = se_config s"
      using Cons.prems(1) by (induction cs arbitrary: s) (simp_all add: buffer_changeset_def)
    with flush_returns [of "fold buffer_changeset cs s" codec io] Cons.prems(2) ShutdownReceived show ?thesis by auto
  next
    case ChannelClosed
    then show ?thesis by simp
  qed
qed simp

section \<open>An example\<close>

definition demo_client_config :: client_config where
  "demo_client_config = \<lparr>co_sequencer_url = ''http://s/'', co_buffer_size = 2, co_push_interval = 1000, co_max_batch_size = 1048576,
     co_max_retries = 3, co_snapshot_request_timeout = 10, co_snapshot_interval = 100, co_enable_recovery = True,
     co_disable_attestation = True, co_attestation_token_type = Oidc\<rparr>"

definition demo_changeset :: "u64 \<Rightarrow> changeset" where
  "demo_changeset n = \<lparr>cg_data = [1, 2], cg_sequence = n, cg_timestamp = 7\<rparr>"

text \<open>A sequencer that cannot be reached.\<close>

definition demo_flush_io :: flush_io where
  "demo_flush_io = \<lparr>fi_token = \<lparr>ti_now = 0, ti_later = 0, ti_service = demo_service\<rparr>, fi_batch_id = ''b1'',
     fi_net = \<lparr>nw_join = (\<lambda>u p. Inr (u @ p)), nw_post = (\<lambda>_ _ _. Inl (SendConnect ''refused''))\<rparr>,
     fi_save = (\<lambda>_. None), fi_failed_at = 8, fi_now = 20\<rparr>"

definition demo_recovery :: recovery where
  "demo_recovery = \<lparr>rv_changesets = empty_table, rv_snapshots = empty_table\<rparr>"

definition demo_sender :: changeset_sender where
  "demo_sender = \<lparr>se_config = demo_client_config, se_buffer = [], se_buffer_size = 0, se_last_flush = 0,
     se_recovery = Some demo_recovery, se_attestation = None, se_stats = new_replication_stats\<rparr>"

definition demo_sender_events :: "sender_event list" where
  "demo_sender_events = [Received (demo_changeset 1) 10 demo_flush_io, ShutdownReceived [demo_changeset 2] demo_flush_io]"


section \<open>What is lost\<close>

text \<open>When the channel closes before the shutdown signal is chosen, the sender stops with its buffer: the changesets
  waiting there are neither sent nor saved. Dropping the client closes the channel first.\<close>

theorem closed_channel_loses_buffer:
  assumes "\<not> should_flush now (buffer_changeset c s)"
  shows "sender_loop codec (Received c now io # ChannelClosed # es) (s, acks) = Returns (buffer_changeset c s, acks, True)
    \<and> c \<in> set (se_buffer (buffer_changeset c s)) \<and> recovered (buffer_changeset c s) = recovered s"
  using assms by simp

theorem closed_channel_loses_buffer_witness:
  "sender_loop demo_codec [Received (demo_changeset 1) 10 demo_flush_io, ChannelClosed] (demo_sender, [])
     = Returns (buffer_changeset (demo_changeset 1) demo_sender, [], True)"
proof -
  have "\<not> should_flush 10 (buffer_changeset (demo_changeset 1) demo_sender)"
    by (simp add: should_flush_def buffer_changeset_def demo_sender_def demo_client_config_def demo_changeset_def)
  from closed_channel_loses_buffer [OF this, of demo_codec demo_flush_io "[]" "[]"] show ?thesis by simp
qed

text \<open>The byte count of the buffer is not reset by a flush that fails, so it no longer matches the empty buffer, and later
  changesets are flushed one by one once it has passed the batch limit.\<close>

theorem failed_flush_keeps_byte_count:
  assumes "flush codec io s = Returns (s', [])" and "se_buffer s \<noteq> []"
  shows "se_buffer s' = [] \<and> se_buffer_size s' = se_buffer_size s \<and> se_last_flush s' = se_last_flush s"
  using assms by (auto simp: flush_def Let_def split: outcome.splits sum.splits)

text \<open>The snapshot sender stops at the shutdown signal without draining its channel.\<close>

lemma snapshot_shutdown_drops: "snapshot_loop codec (SnapshotShutdown # es) (s, acks) = Returns (s, acks, True)"
  by simp

text \<open>A configuration with no retries makes the first flush panic.\<close>

theorem zero_retries_panics:
  assumes "co_max_retries (se_config s) = 0" and "se_buffer s \<noteq> []"
  shows "flush codec io s = Panics"
  using assms by (auto simp: flush_def Let_def no_retries_panics split: outcome.splits)

end
