(* ===== verification/Eth_Client.thy ===== *)
theory Eth_Client
  imports Rust_Std
begin

text \<open>
  The Ethereum client of the chain monitor, \<open>crates/synddb-chain-monitor/src/eth_client.rs\<close>: requests that are
  repeated until they succeed, and the log query that halves its block range when the provider refuses it.
  The provider is a function of the number of the request, so its answers may change from call to call.
  Block numbers are \<open>u64\<close> and the middle of a range is computed with wrap-around; a query that has not
  ended within the fuel is \<open>None\<close>.
\<close>

section \<open>Logs and filters\<close>

record eth_log =
  lg_transaction_hash :: "bytes option"
  lg_block_number :: "u64 option"
  lg_log_index :: "u64 option"
  lg_address :: bytes
  lg_topics :: "bytes list"
  lg_data :: bytes

datatype block_tag = Number u64 | Tag string

datatype block_option = Range "block_tag option" "block_tag option" | AtBlockHash bytes

record log_filter =
  lf_block_option :: block_option
  lf_address :: "bytes option"
  lf_event_signature :: "bytes option"

fun range_from :: "block_option \<Rightarrow> block_tag option" where
  "range_from (Range a b) = a"
| "range_from (AtBlockHash h) = None"

fun range_to :: "block_option \<Rightarrow> block_tag option" where
  "range_to (Range a b) = b"
| "range_to (AtBlockHash h) = None"

definition with_from_block :: "u64 \<Rightarrow> log_filter \<Rightarrow> log_filter" where
  "with_from_block n f = f\<lparr>lf_block_option := Range (Some (Number n)) (range_to (lf_block_option f))\<rparr>"

definition with_to_block :: "u64 \<Rightarrow> log_filter \<Rightarrow> log_filter" where
  "with_to_block n f = f\<lparr>lf_block_option := Range (range_from (lf_block_option f)) (Some (Number n))\<rparr>"

definition get_from_block :: "log_filter \<Rightarrow> u64 option" where
  "get_from_block f = (case range_from (lf_block_option f) of Some (Number n) \<Rightarrow> Some n | _ \<Rightarrow> None)"

section \<open>Requests\<close>

datatype rpc_error = ErrorResp string | Transport string | OtherRpc string

datatype 'a rpc_reply = RpcTimeout | RpcFail rpc_error | RpcOk 'a

text \<open>\<open>get_latest_block\<close>, \<open>get_block\<close>, \<open>subscribe_logs\<close> and \<open>get_chain_id\<close> share one loop: a request is
  repeated after a timeout or an error. \<open>replies i\<close> answers request \<open>i\<close>; the result carries the number of the next one.\<close>

fun request_loop :: "nat \<Rightarrow> (nat \<Rightarrow> 'a rpc_reply) \<Rightarrow> nat \<Rightarrow> (nat \<times> 'a) option" where
  "request_loop 0 replies i = None"
| "request_loop (Suc k) replies i =
     (case replies i of
        RpcOk a \<Rightarrow> Some (i + 1, a)
      | RpcTimeout \<Rightarrow> request_loop k replies (i + 1)
      | RpcFail e \<Rightarrow> request_loop k replies (i + 1))"

definition get_latest_block :: "nat \<Rightarrow> (nat \<Rightarrow> 'b option rpc_reply) \<Rightarrow> nat \<Rightarrow> (nat \<times> 'b option) option" where
  "get_latest_block fuel replies i = request_loop fuel replies i"

definition get_block :: "nat \<Rightarrow> (block_tag \<Rightarrow> nat \<Rightarrow> 'b option rpc_reply) \<Rightarrow> block_tag \<Rightarrow> nat \<Rightarrow> (nat \<times> 'b option) option" where
  "get_block fuel replies block_identifier i = request_loop fuel (replies block_identifier) i"

definition subscribe_logs :: "nat \<Rightarrow> (log_filter \<Rightarrow> nat \<Rightarrow> 's rpc_reply) \<Rightarrow> log_filter \<Rightarrow> nat \<Rightarrow> (nat \<times> 's) option" where
  "subscribe_logs fuel replies flt i = request_loop fuel (replies flt) i"

definition get_chain_id :: "nat \<Rightarrow> (nat \<Rightarrow> u64 rpc_reply) \<Rightarrow> nat \<Rightarrow> (nat \<times> u64) option" where
  "get_chain_id fuel replies i = request_loop fuel replies i"

definition try_subscribe_logs :: "(log_filter \<Rightarrow> (rpc_error + 's)) \<Rightarrow> (rpc_error \<Rightarrow> string) \<Rightarrow> log_filter \<Rightarrow> string + 's" where
  "try_subscribe_logs subscribe show_err flt =
     map_err (\<lambda>e. ''Failed to subscribe to logs: '' @ show_err e) (subscribe flt)"

text \<open>\<open>EthClient::new\<close>: every URL in turn, round after round; \<open>connect r u\<close> is the result for URL \<open>u\<close> in round \<open>r\<close>.\<close>

fun try_urls :: "('u \<Rightarrow> 'c rpc_reply) \<Rightarrow> 'u list \<Rightarrow> 'c option" where
  "try_urls connect [] = None"
| "try_urls connect (u # us) =
     (case connect u of
        RpcOk c \<Rightarrow> Some c
      | RpcTimeout \<Rightarrow> try_urls connect us
      | RpcFail e \<Rightarrow> try_urls connect us)"

fun eth_client_new :: "nat \<Rightarrow> (nat \<Rightarrow> 'u \<Rightarrow> 'c rpc_reply) \<Rightarrow> 'u list \<Rightarrow> nat \<Rightarrow> 'c option" where
  "eth_client_new 0 connect ws_urls r = None"
| "eth_client_new (Suc k) connect ws_urls r =
     (case try_urls (connect r) ws_urls of
        Some c \<Rightarrow> Some c
      | None \<Rightarrow> eth_client_new k connect ws_urls (r + 1))"

section \<open>Log queries\<close>

definition split_bounds :: "log_filter \<Rightarrow> u64 \<times> u64" where
  "split_bounds f =
     (case lf_block_option f of
        Range (Some (Number a)) (Some (Number b)) \<Rightarrow> (a, b)
      | _ \<Rightarrow> (0, 0))"

text \<open>The result is the number of the next request and the logs or the error.\<close>

fun get_logs :: "nat \<Rightarrow> (nat \<Rightarrow> log_filter \<Rightarrow> eth_log list rpc_reply) \<Rightarrow> nat \<Rightarrow> log_filter \<Rightarrow> (nat \<times> (rpc_error + eth_log list)) option"
  and handle_split_range ::
    "nat \<Rightarrow> (nat \<Rightarrow> log_filter \<Rightarrow> eth_log list rpc_reply) \<Rightarrow> nat \<Rightarrow> log_filter \<Rightarrow> rpc_error \<Rightarrow> (nat \<times> (rpc_error + eth_log list)) option"
where
  "get_logs 0 node i f = None"
| "get_logs (Suc k) node i f =
     (case node i f of
        RpcTimeout \<Rightarrow> handle_split_range k node (i + 1) f (Transport ''request timed out'')
      | RpcOk ls \<Rightarrow> Some (i + 1, Inr ls)
      | RpcFail (ErrorResp e) \<Rightarrow> handle_split_range k node (i + 1) f (ErrorResp e)
      | RpcFail e \<Rightarrow> Some (i + 1, Inl e))"
| "handle_split_range k node i f err =
     (let (from_block, to_block) = split_bounds f
      in if to_block \<le> from_block then Some (i, Inl err)
         else let mid = (from_block + to_block) div 2
              in case get_logs k node i (with_to_block mid (with_from_block from_block f)) of
                   None \<Rightarrow> None
                 | Some (i1, Inl e) \<Rightarrow> Some (i1, Inl e)
                 | Some (i1, Inr lower_range) \<Rightarrow>
                     (case get_logs k node i1 (with_to_block to_block (with_from_block (mid + 1) f)) of
                        None \<Rightarrow> None
                      | Some (i2, Inl e) \<Rightarrow> Some (i2, Inl e)
                      | Some (i2, Inr upper_range) \<Rightarrow> Some (i2, Inr (lower_range @ upper_range))))"

declare get_logs.simps [simp del] handle_split_range.simps [simp del]

section \<open>Requests that are repeated\<close>

lemma request_loop_first:
  "(\<forall>j < n. \<forall>a. replies (i + j) \<noteq> RpcOk a) \<Longrightarrow> replies (i + n) = RpcOk a \<Longrightarrow> n < k
     \<Longrightarrow> request_loop k replies i = Some (i + n + 1, a)"
proof (induction k arbitrary: i n)
  case (Suc k)
  show ?case
  proof (cases n)
    case (Suc m)
    have "\<forall>j < m. \<forall>a. replies (i + 1 + j) \<noteq> RpcOk a" using Suc.prems(1) unfolding Suc by (metis Suc_less_eq add_Suc_shift plus_1_eq_Suc add.commute)
    from Suc.IH [OF this] Suc.prems Suc have "request_loop k replies (i + 1) = Some (i + n + 1, a)" by simp
    moreover have "\<forall>b. replies i \<noteq> RpcOk b" using Suc.prems(1) Suc by fastforce
    ultimately show ?thesis by (cases "replies i") auto
  qed (use Suc.prems in simp)
qed simp

lemma request_loop_sound: "request_loop k replies i = Some (j, a) \<Longrightarrow> i < j \<and> replies (j - 1) = RpcOk a"
  by (induction k arbitrary: i) (auto split: rpc_reply.splits intro: Suc_lessD)

lemma try_urls_sound: "try_urls connect us = Some c \<Longrightarrow> \<exists>u \<in> set us. connect u = RpcOk c"
  by (induction us) (auto split: rpc_reply.splits)

text \<open>An empty list of URLs is never connected: the constructor loops for ever.\<close>

lemma no_urls_never_connects: "eth_client_new k connect [] r = None"
  by (induction k arbitrary: r) auto

section \<open>Splitting a range\<close>

definition range_filter :: "u64 \<Rightarrow> u64 \<Rightarrow> log_filter \<Rightarrow> log_filter" where
  "range_filter a b f = with_to_block b (with_from_block a f)"

lemma range_filter_simps [simp]:
  "split_bounds (range_filter a b f) = (a, b)"
  "with_to_block d (with_from_block c (range_filter a b f)) = range_filter c d f"
  by (simp_all add: range_filter_def with_to_block_def with_from_block_def split_bounds_def)

lemma mid_between:
  assumes "(a :: u64) < b" and "b < 2 ^ 63"
  shows "a \<le> (a + b) div 2" "(a + b) div 2 < b" "unat ((a + b) div 2) = (unat a + unat b) div 2"
proof -
  have "unat a < unat b" "unat b < 2 ^ 63" using assms by (simp_all add: word_less_nat_alt)
  then have "unat (a + b) = unat a + unat b" by (subst unat_add_lem [THEN iffD1]) auto
  then show m: "unat ((a + b) div 2) = (unat a + unat b) div 2" by (simp add: unat_div)
  show "a \<le> (a + b) div 2" "(a + b) div 2 < b"
    using m \<open>unat a < unat b\<close> by (auto simp: word_le_nat_alt word_less_nat_alt)
qed

text \<open>What the chain holds, in order, and a provider that answers with it or not at all.\<close>

definition logs_between :: "eth_log list \<Rightarrow> u64 \<Rightarrow> u64 \<Rightarrow> eth_log list" where
  "logs_between chain a b = filter (\<lambda>l. case lg_block_number l of None \<Rightarrow> False | Some n \<Rightarrow> a \<le> n \<and> n \<le> b) chain"

definition chain_ordered :: "eth_log list \<Rightarrow> bool" where
  "chain_ordered chain \<longleftrightarrow> sorted_wrt (\<lambda>k l. the (lg_block_number k) \<le> the (lg_block_number l)) chain \<and> (\<forall>l \<in> set chain. lg_block_number l \<noteq> None)"

definition truthful :: "(nat \<Rightarrow> log_filter \<Rightarrow> eth_log list rpc_reply) \<Rightarrow> eth_log list \<Rightarrow> log_filter \<Rightarrow> bool" where
  "truthful node chain f \<longleftrightarrow> (\<forall>i a b ls. node i (range_filter a b f) = RpcOk ls \<longrightarrow> ls = logs_between chain a b)"

definition answers_blocks :: "(nat \<Rightarrow> log_filter \<Rightarrow> eth_log list rpc_reply) \<Rightarrow> log_filter \<Rightarrow> bool" where
  "answers_blocks node f \<longleftrightarrow>
     (\<forall>i a. \<exists>ls. node i (range_filter a a f) = RpcOk ls)
     \<and> (\<forall>i a b e. node i (range_filter a b f) = RpcFail e \<longrightarrow> (\<exists>m. e = ErrorResp m))"

lemma answers_blocks_fail:
  "answers_blocks node f \<Longrightarrow> node i (range_filter a b f) = RpcFail e \<Longrightarrow> \<exists>m. e = ErrorResp m"
  unfolding answers_blocks_def by blast

lemma filter_split_sorted:
  assumes "sorted_wrt (\<lambda>x y. key x \<le> key y) xs" and "(a :: u64) \<le> m" "m < b"
  shows "filter (\<lambda>x. a \<le> key x \<and> key x \<le> m) xs @ filter (\<lambda>x. m < key x \<and> key x \<le> b) xs = filter (\<lambda>x. a \<le> key x \<and> key x \<le> b) xs"
  using assms(1)
proof (induction xs)
  case (Cons x xs)
  show ?case
  proof (cases "key x \<le> m")
    case True
    with Cons assms(2,3) show ?thesis by auto
  next
    case False
    with Cons.prems have "filter (\<lambda>x. a \<le> key x \<and> key x \<le> m) xs = []" by (auto simp: filter_empty_conv)
    with False Cons assms(2,3) show ?thesis by auto
  qed
qed simp

lemma logs_between_key:
  "chain_ordered chain \<Longrightarrow> logs_between chain a b = filter (\<lambda>l. a \<le> the (lg_block_number l) \<and> the (lg_block_number l) \<le> b) chain"
  by (auto simp: logs_between_def chain_ordered_def intro!: filter_cong split: option.splits)

lemma logs_between_split:
  assumes "chain_ordered chain" "a \<le> m" "m < b"
  shows "logs_between chain a m @ logs_between chain (m + 1) b = logs_between chain a b"
proof -
  have "logs_between chain (m + 1) b = filter (\<lambda>l. m < the (lg_block_number l) \<and> the (lg_block_number l) \<le> b) chain"
    using word_Suc_le_iff [OF assms(3)] by (simp add: logs_between_key [OF assms(1)])
  with filter_split_sorted [of "\<lambda>l. the (lg_block_number l)" chain a m b] assms show ?thesis
    by (simp add: logs_between_key chain_ordered_def)
qed

text \<open>
  The result of a query: the logs of the range when it succeeds, and it succeeds when the provider answers
  every query for a single block.\<close>

definition query_ok ::
  "(nat \<Rightarrow> log_filter \<Rightarrow> eth_log list rpc_reply) \<Rightarrow> eth_log list \<Rightarrow> log_filter \<Rightarrow> u64 \<Rightarrow> u64 \<Rightarrow> (nat \<times> (rpc_error + eth_log list)) option \<Rightarrow> bool" where
  "query_ok node chain f a b res \<longleftrightarrow>
     (\<exists>i r. res = Some (i, r) \<and> (\<forall>ls. r = Inr ls \<longrightarrow> ls = logs_between chain a b)
        \<and> (answers_blocks node f \<and> a \<le> b \<longrightarrow> (\<exists>ls. r = Inr ls)))"

lemma query_okE:
  assumes "query_ok node chain f a b res"
  obtains (error) i e where "res = Some (i, Inl e)" "answers_blocks node f \<Longrightarrow> b < a"
    | (logs) i where "res = Some (i, Inr (logs_between chain a b))"
proof -
  obtain i r where q: "res = Some (i, r)" "\<forall>ls. r = Inr ls \<longrightarrow> ls = logs_between chain a b"
      "answers_blocks node f \<and> a \<le> b \<longrightarrow> (\<exists>ls. r = Inr ls)"
    using assms unfolding query_ok_def by blast
  show ?thesis
  proof (cases r)
    case (Inl e)
    with q show ?thesis by (intro error) (auto simp: not_le)
  qed (use q logs in simp)
qed

lemma handle_split_range_ok:
  assumes ch: "chain_ordered chain" and b: "b < 2 ^ 63"
    and sub: "\<And>c d j. a \<le> c \<Longrightarrow> d \<le> b \<Longrightarrow> c \<le> d \<Longrightarrow> unat d - unat c < unat b - unat a
        \<Longrightarrow> query_ok node chain f c d (get_logs k node j (range_filter c d f))"
    and single: "answers_blocks node f \<Longrightarrow> a \<noteq> b"
  shows "query_ok node chain f a b (handle_split_range k node i (range_filter a b f) err)"
proof (cases "a < b")
  case False
  then have "handle_split_range k node i (range_filter a b f) err = Some (i, Inl err)"
    by (subst handle_split_range.simps) (simp add: not_less)
  with False single show ?thesis by (auto simp: query_ok_def)
next
  case True
  define mid where "mid = (a + b) div 2"
  note m = mid_between [OF True b, folded mid_def]
  have suc: "unat (mid + 1) = Suc (unat mid)" using m(2) by (rule unat_Suc_less)
  have ord: "unat a \<le> unat mid" "unat mid < unat b" using m by (simp_all add: word_le_nat_alt word_less_nat_alt)
  have low: "query_ok node chain f a mid (get_logs k node i (range_filter a mid f))"
    using m ord by (intro sub) auto
  have up: "query_ok node chain f (mid + 1) b (get_logs k node j (range_filter (mid + 1) b f))" for j
    using m ord suc by (intro sub) (auto simp: word_le_nat_alt)
  have h: "handle_split_range k node i (range_filter a b f) err =
    (case get_logs k node i (range_filter a mid f) of
       None \<Rightarrow> None | Some (i1, Inl e) \<Rightarrow> Some (i1, Inl e)
     | Some (i1, Inr lower_range) \<Rightarrow>
         (case get_logs k node i1 (range_filter (mid + 1) b f) of
            None \<Rightarrow> None | Some (i2, Inl e) \<Rightarrow> Some (i2, Inl e)
          | Some (i2, Inr upper_range) \<Rightarrow> Some (i2, Inr (lower_range @ upper_range))))"
    using True [unfolded less_le_not_le] unfolding mid_def handle_split_range.simps range_filter_simps by (simp add: Let_def)
  from low show ?thesis
  proof (cases rule: query_okE)
    case (error j e)
    then show ?thesis using m(1) by (auto simp: h query_ok_def)
  next
    case (logs j)
    note lower = this
    from up [of j] show ?thesis
    proof (cases rule: query_okE)
      case (error j' e)
      moreover have "\<not> b < mid + 1" using ord suc by (simp add: word_less_nat_alt)
      ultimately show ?thesis using lower by (auto simp: h query_ok_def)
    next
      case (logs j')
      then show ?thesis using lower logs_between_split [OF ch m(1,2)] by (simp add: h query_ok_def)
    qed
  qed
qed

lemma get_logs_ok:
  assumes "chain_ordered chain" and "truthful node chain f"
  shows "b < 2 ^ 63 \<Longrightarrow> unat b - unat a < k \<Longrightarrow> query_ok node chain f a b (get_logs k node i (range_filter a b f))"
proof (induction k arbitrary: a b i)
  case (Suc k)
  have split: "query_ok node chain f a b (handle_split_range k node j (range_filter a b f) err)"
    if "\<forall>ls. node i (range_filter a b f) \<noteq> RpcOk ls" for j err
  proof (rule handle_split_range_ok [OF assms(1) Suc.prems(1)])
    show "query_ok node chain f c d (get_logs k node j' (range_filter c d f))"
      if "a \<le> c" "d \<le> b" "c \<le> d" "unat d - unat c < unat b - unat a" for c d j'
      using Suc.IH [of d c j'] Suc.prems that by simp
    show "a \<noteq> b" if "answers_blocks node f"
      using \<open>\<forall>ls. node i (range_filter a b f) \<noteq> RpcOk ls\<close> that unfolding answers_blocks_def by metis
  qed
  show ?case
  proof (cases "node i (range_filter a b f)")
    case (RpcOk ls)
    with assms(2) show ?thesis by (subst get_logs.simps) (auto simp: truthful_def query_ok_def)
  next
    case RpcTimeout
    with split show ?thesis by (subst get_logs.simps) auto
  next
    case (RpcFail e)
    show ?thesis
    proof (cases e)
      case (ErrorResp m)
      with RpcFail split show ?thesis by (subst get_logs.simps) auto
    qed (use RpcFail in \<open>auto simp: get_logs.simps query_ok_def dest: answers_blocks_fail\<close>)
  qed
qed simp

text \<open>C21: A log query that the provider refuses or lets time out is split in halves until it is answered. For a
  range of block numbers below \<open>2^63\<close> the splitting ends within as many levels as the range has blocks, whatever
  the provider answers; what is returned is exactly the logs of the whole range in chain order, none lost or doubled at the
  boundaries; and it is returned whenever the provider answers queries for single blocks.\<close>

theorem get_logs_exact:
  assumes "chain_ordered chain" and "truthful node chain f" and "b < 2 ^ 63" and "a \<le> b" and "unat b - unat a < fuel"
  shows "\<exists>j r. get_logs fuel node i (with_to_block b (with_from_block a f)) = Some (j, r)
    \<and> (\<forall>ls. r = Inr ls \<longrightarrow> ls = logs_between chain a b)
    \<and> (answers_blocks node f \<longrightarrow> r = Inr (logs_between chain a b))"
  using get_logs_ok [OF assms(1,2,3,5), of i] assms(4) by (auto simp: query_ok_def range_filter_def)

definition demo_log :: "u64 \<Rightarrow> u8 \<Rightarrow> eth_log" where
  "demo_log n t = \<lparr>lg_transaction_hash = Some (replicate 32 t), lg_block_number = Some n, lg_log_index = Some 0,
     lg_address = [], lg_topics = [], lg_data = []\<rparr>"

definition demo_filter :: log_filter where
  "demo_filter = \<lparr>lf_block_option = Range None None, lf_address = None, lf_event_signature = None\<rparr>"

text \<open>A provider that answers ranges of at most two blocks.\<close>

definition narrow_node :: "eth_log list \<Rightarrow> nat \<Rightarrow> log_filter \<Rightarrow> eth_log list rpc_reply" where
  "narrow_node chain i f =
     (let (a, b) = split_bounds f
      in if b \<le> a \<or> b - a \<le> 1 then RpcOk (logs_between chain a b) else RpcFail (ErrorResp ''range too wide''))"

lemma narrow_node_ok: "truthful (narrow_node chain) chain f" "answers_blocks (narrow_node chain) f"
proof -
  show "truthful (narrow_node chain) chain f" by (auto simp: truthful_def narrow_node_def split: if_splits)
  show "answers_blocks (narrow_node chain) f" by (auto simp: answers_blocks_def narrow_node_def)
qed

theorem get_logs_exact_witness:
  "(let chain = [demo_log 3 1, demo_log 5 2, demo_log 9 3]
    in \<exists>j. get_logs 10 (narrow_node chain) 0 (with_to_block 9 (with_from_block 1 demo_filter)) = Some (j, Inr chain))"
proof -
  let ?chain = "[demo_log 3 1, demo_log 5 2, demo_log 9 3]"
  have "chain_ordered ?chain" by (simp add: chain_ordered_def demo_log_def)
  moreover have "logs_between ?chain 1 9 = ?chain" by (simp add: logs_between_def demo_log_def)
  ultimately show ?thesis
    using get_logs_exact [of ?chain "narrow_node ?chain" demo_filter 9 1 10 0] narrow_node_ok [of ?chain demo_filter] by auto
qed

end
