(* ===== verification/Event_Store.thy ===== *)
theory Event_Store
  imports Crates_Model
begin

text \<open>
  Events that the chain monitor has handled and the block it has reached,
  \<open>crates/synddb-chain-monitor/src/event_store.rs\<close>: the table \<open>processed_events\<close>, with the transaction hash as primary
  key, and the row \<open>last_block\<close> of \<open>monitor_state\<close>. Block numbers and log indices are stored as \<open>i64\<close>,
  which keeps their 64 bits. What the SQLite engine reports for a statement is an argument (\<open>None\<close> for success).
\<close>

section \<open>The store\<close>

record event_row =
  er_block_number :: u64
  er_log_index :: "u64 option"
  er_processed_at :: nat

record event_store =
  es_processed_events :: "(string \<times> event_row) list"
  es_last_block :: "u64 option"

text \<open>\<open>EventStore::new\<close>: tables that exist are kept. \<open>disk\<close> is the database found at the path.\<close>

definition new_event_store :: "string option \<Rightarrow> event_store option \<Rightarrow> string + event_store" where
  "new_event_store io disk =
     (case io of
        Some e \<Rightarrow> Inl e
      | None \<Rightarrow> Inr (case disk of None \<Rightarrow> \<lparr>es_processed_events = [], es_last_block = None\<rparr> | Some st \<Rightarrow> st))"

definition hash_text :: "('vk, 'sg) ext \<Rightarrow> bytes \<Rightarrow> string" where
  "hash_text x h = ''0x'' @ hex_encode x h"

definition is_processed :: "('vk, 'sg) ext \<Rightarrow> string option \<Rightarrow> bytes \<Rightarrow> event_store \<Rightarrow> string + bool" where
  "is_processed x io tx_hash st =
     (case io of Some e \<Rightarrow> Inl e | None \<Rightarrow> Inr (map_of (es_processed_events st) (hash_text x tx_hash) \<noteq> None))"

definition mark_processed ::
  "('vk, 'sg) ext \<Rightarrow> string option \<Rightarrow> nat \<Rightarrow> bytes \<Rightarrow> u64 \<Rightarrow> u64 option \<Rightarrow> event_store \<Rightarrow> event_store \<times> (string + unit)" where
  "mark_processed x io now tx_hash block_number log_index st =
     (case io of
        Some e \<Rightarrow> (st, Inl e)
      | None \<Rightarrow>
          (if map_of (es_processed_events st) (hash_text x tx_hash) \<noteq> None then (st, Inr ())
           else (st\<lparr>es_processed_events := es_processed_events st
                    @ [(hash_text x tx_hash, \<lparr>er_block_number = block_number, er_log_index = log_index, er_processed_at = now\<rparr>)]\<rparr>,
                 Inr ())))"

definition get_last_processed_block :: "string option \<Rightarrow> event_store \<Rightarrow> string + u64 option" where
  "get_last_processed_block io st = (case io of Some e \<Rightarrow> Inl e | None \<Rightarrow> Inr (es_last_block st))"

definition set_last_processed_block :: "string option \<Rightarrow> u64 \<Rightarrow> event_store \<Rightarrow> event_store \<times> (string + unit)" where
  "set_last_processed_block io block st =
     (case io of Some e \<Rightarrow> (st, Inl e) | None \<Rightarrow> (st\<lparr>es_last_block := Some block\<rparr>, Inr ()))"

definition count_processed_events :: "string option \<Rightarrow> event_store \<Rightarrow> string + u64" where
  "count_processed_events io st =
     (case io of Some e \<Rightarrow> Inl e | None \<Rightarrow> Inr (of_nat (length (es_processed_events st))))"

section \<open>Lemmas\<close>

text \<open>Each transaction has one row.\<close>

definition store_wf :: "event_store \<Rightarrow> bool" where
  "store_wf st \<longleftrightarrow> distinct (map fst (es_processed_events st))"

definition processed :: "('vk, 'sg) ext \<Rightarrow> event_store \<Rightarrow> bytes \<Rightarrow> bool" where
  "processed x st h \<longleftrightarrow> hash_text x h \<in> fst ` set (es_processed_events st)"

lemma is_processed_iff: "is_processed x None h st = Inr (processed x st h)"
  by (simp add: is_processed_def processed_def map_of_eq_None_iff)

lemma mark_processed_None:
  "mark_processed x None now h n i st = (if processed x st h then (st, Inr ())
     else (st\<lparr>es_processed_events := es_processed_events st @ [(hash_text x h, \<lparr>er_block_number = n, er_log_index = i, er_processed_at = now\<rparr>)]\<rparr>, Inr ()))"
proof -
  have "map_of (es_processed_events st) (hash_text x h) \<noteq> None \<longleftrightarrow> processed x st h"
    by (simp add: processed_def map_of_eq_None_iff)
  then show ?thesis unfolding mark_processed_def by (simp only: option.case)
qed

lemma mark_processed_wf: "store_wf st \<Longrightarrow> store_wf (fst (mark_processed x io now h n i st))"
  by (cases io) (auto simp: mark_processed_None mark_processed_def store_wf_def processed_def)

lemma hash_text_inj: "hex_codec_ok x \<Longrightarrow> hash_text x a = hash_text x b \<longleftrightarrow> a = b"
  unfolding hash_text_def hex_codec_ok_def by (metis same_append_eq sum.inject(2))

lemma processed_mark:
  "hex_codec_ok x \<Longrightarrow> processed x (fst (mark_processed x None now h n i st)) h' \<longleftrightarrow> processed x st h' \<or> h' = h"
  by (auto simp: mark_processed_None) (auto simp: processed_def hash_text_inj)

lemma last_block_mark [simp]: "es_last_block (fst (mark_processed x io now h n i st)) = es_last_block st"
  by (cases io) (auto simp: mark_processed_None mark_processed_def)

lemma processed_set_last [simp]: "processed x (fst (set_last_processed_block io n st)) h \<longleftrightarrow> processed x st h"
  by (cases io) (simp_all add: set_last_processed_block_def processed_def)

text \<open>A row is written once and never changed: a second mark of the same transaction keeps the first block number
  and log index.\<close>

lemma mark_processed_keeps: "map_of (es_processed_events st) k = Some r \<Longrightarrow> map_of (es_processed_events (fst (mark_processed x io now h n i st))) k = Some r"
  by (cases io) (auto simp: mark_processed_None mark_processed_def map_add_Some_iff)

end
