(* ===== verification/Event_Signature.thy ===== *)
theory Event_Signature
  imports Web Crates_Model
begin

text \<open>
  Parsing of configuration values, \<open>crates/synddb-shared/src/parse.rs\<close>: a 256-bit hash given in hex or as
  a Solidity event definition, whose canonical signature is hashed. The hex parser of alloy and keccak256 are
  parameters. A slice whose start lies behind its end panics.
\<close>

section \<open>Strings\<close>

text \<open>\<open>str::find\<close> and \<open>str::rfind\<close> of an ASCII character.\<close>

definition str_find :: "char \<Rightarrow> string \<Rightarrow> nat option" where
  "str_find c s = (if c \<in> set s then Some (length (takeWhile (\<lambda>d. d \<noteq> c) s)) else None)"

definition str_rfind :: "char \<Rightarrow> string \<Rightarrow> nat option" where
  "str_rfind c s = (if c \<in> set s then Some (length s - 1 - length (takeWhile (\<lambda>d. d \<noteq> c) (rev s))) else None)"

text \<open>\<open>str::split_whitespace\<close>: white space in front is skipped, then a word runs to the next white space.\<close>

fun split_word :: "string \<Rightarrow> string \<times> string" where
  "split_word [] = ([], [])"
| "split_word (c # s) =
     (if (\<exists>w \<in> set unicode_whitespace. starts_with w (c # s)) then ([], c # s)
      else (c # fst (split_word s), snd (split_word s)))"

lemma length_split_word: "length (snd (split_word s)) \<le> length s"
  by (induction s rule: split_word.induct) auto

function split_whitespace :: "string \<Rightarrow> string list" where
  "split_whitespace s =
     (case trim_matches unicode_whitespace s of
        [] \<Rightarrow> []
      | c # t \<Rightarrow> (c # fst (split_word t)) # split_whitespace (snd (split_word t)))"
  by auto
termination
proof (relation "measure length", goal_cases)
  case (2 s c t)
  then show ?case using length_split_word [of t] length_trim_matches [of unicode_whitespace s] by simp
qed simp

declare split_whitespace.simps [simp del]

fun join :: "string \<Rightarrow> string list \<Rightarrow> string" where
  "join sep [] = []"
| "join sep [s] = s"
| "join sep (s # t # ss) = s @ sep @ join sep (t # ss)"

section \<open>Event definitions\<close>

definition param_type :: "string \<Rightarrow> string option" where
  "param_type param0 =
     (let param = str_trim param0
      in if param = [] then None
         else case split_whitespace param of
                [] \<Rightarrow> None
              | p # parts \<Rightarrow> if p = ''indexed'' then (case parts of [] \<Rightarrow> None | q # _ \<Rightarrow> Some q) else Some p)"

definition extract_canonical_signature :: "string \<Rightarrow> string option outcome" where
  "extract_canonical_signature s =
     (case strip_prefix ''event '' s of
        None \<Rightarrow> Returns None
      | Some rest \<Rightarrow>
          (let event_def = str_trim rest
           in case str_find (CHR ''('') event_def of
                None \<Rightarrow> Returns None
              | Some paren_start \<Rightarrow>
                  (case str_rfind (CHR '')'') event_def of
                     None \<Rightarrow> Returns None
                   | Some paren_end \<Rightarrow>
                       if paren_end < paren_start + 1 then Panics
                       else Returns (Some
                         (let name = str_trim (take paren_start event_def);
                              params = drop (paren_start + 1) (take paren_end event_def);
                              types = List.map_filter param_type (split_on (CHR '','') params)
                          in name @ ''('' @ join '','' types @ '')'')))))"

definition parse_event_signature_from_definition ::
  "('vk, 'sg) ext \<Rightarrow> string \<Rightarrow> (string + bytes) outcome" where
  "parse_event_signature_from_definition x s0 =
     (let s = str_trim s0
      in if starts_with ''event '' s
         then (case extract_canonical_signature s of
                 Panics \<Rightarrow> Panics
               | Returns None \<Rightarrow> Returns (Inl (''Invalid event definition: '' @ s))
               | Returns (Some signature) \<Rightarrow> Returns (Inr (keccak256 x (str_bytes signature))))
         else if CHR ''('' \<in> set s \<and> CHR '')'' \<in> set s then Returns (Inr (keccak256 x (str_bytes s)))
         else Returns (Inl ''Invalid format. Expected hex string (0x...) or event definition (event Name(...))''))"

definition parse_b256_or_event ::
  "('vk, 'sg) ext \<Rightarrow> (string \<Rightarrow> bytes option) \<Rightarrow> string \<Rightarrow> (string + bytes) outcome" where
  "parse_b256_or_event x parse_hex s =
     (case parse_hex s of
        Some hash \<Rightarrow> Returns (Inr hash)
      | None \<Rightarrow> parse_event_signature_from_definition x s)"

definition parse_url :: "(string \<Rightarrow> string + 'u) \<Rightarrow> string \<Rightarrow> string + 'u" where
  "parse_url url_parse s = map_err (\<lambda>e. ''Invalid URL: '' @ e) (url_parse s)"

definition parse_address :: "alloy \<Rightarrow> string \<Rightarrow> string + bytes" where
  "parse_address al s = map_err (\<lambda>e. ''Invalid address: '' @ e) (al_parse_address al s)"

section \<open>Definitions and their signatures\<close>

text \<open>
  A parameter of an event: its type, whether it is indexed, and its name. The definition of an event is written with
  single blanks and a comma and a blank between parameters, as in the documentation of the parser.\<close>

type_synonym event_param = "string \<times> bool \<times> string"

definition word_ok :: "string \<Rightarrow> bool" where
  "word_ok s \<longleftrightarrow> s \<noteq> [] \<and> list_all (\<lambda>c. solid c \<and> c \<notin> {CHR '','', CHR ''('', CHR '')''}) s"

fun param_ok :: "event_param \<Rightarrow> bool" where
  "param_ok (ty, indexed, name) \<longleftrightarrow> word_ok ty \<and> ty \<noteq> ''indexed'' \<and> word_ok name"

fun render_param :: "event_param \<Rightarrow> string" where
  "render_param (ty, indexed, name) = ty @ (if indexed then '' indexed'' else []) @ '' '' @ name"

definition render_event :: "string \<Rightarrow> event_param list \<Rightarrow> string" where
  "render_event name ps = ''event '' @ name @ ''('' @ join '', '' (map render_param ps) @ '')''"

lemma word_okD: "word_ok s \<Longrightarrow> c \<in> set s \<Longrightarrow> solid c"
  by (simp add: word_ok_def list_all_iff)

lemma word_ok_ends: "word_ok s \<Longrightarrow> s \<noteq> []" "word_ok s \<Longrightarrow> solid (hd s)" "word_ok s \<Longrightarrow> solid (last s)"
  by (auto simp: word_ok_def list_all_iff)

lemma split_word_solid:
  "list_all solid s \<Longrightarrow> split_word (s @ CHR '' '' # t) = (s, CHR '' '' # t)"
proof (induction s)
  case Nil
  have "'' '' \<in> set unicode_whitespace" by code_simp
  moreover have "starts_with '' '' (CHR '' '' # t)" by (simp add: starts_with_def)
  ultimately show ?case by auto
next
  case (Cons c s)
  then have "\<not> (\<exists>w \<in> set unicode_whitespace. starts_with w (c # s @ CHR '' '' # t))"
    using solid_no_whitespace(1) by auto
  with Cons show ?case by simp
qed

lemma split_whitespace_first:
  assumes "word_ok s"
  shows "split_whitespace (s @ CHR '' '' # t) = s # split_whitespace (CHR '' '' # t)"
proof -
  obtain c r where s: "s = c # r" using assms by (cases s) (auto simp: word_ok_def)
  have "list_all solid r" using assms by (auto simp: s word_ok_def list_all_iff)
  from split_word_solid [OF this, of t] trim_matches_solid(1) [of "s @ CHR '' '' # t"] assms
  show ?thesis by (subst split_whitespace.simps) (simp add: s word_ok_def)
qed

lemma param_type_render:
  assumes "param_ok p"
  shows "param_type (render_param p) = Some (fst p)" and "param_type (CHR '' '' # render_param p) = Some (fst p)"
proof -
  obtain ty indexed name where p: "p = (ty, indexed, name)" by (cases p) auto
  have ok: "word_ok ty" "word_ok name" "ty \<noteq> ''indexed''" using assms p by auto
  have ends: "render_param p \<noteq> []" "solid (hd (render_param p))" "solid (last (render_param p))"
    using ok word_ok_ends [of ty] word_ok_ends [of name] by (auto simp: p)
  have "split_whitespace (render_param p) = ty # split_whitespace (drop (length ty) (render_param p))"
    using split_whitespace_first [OF ok(1)] by (auto simp: p)
  with ends ok str_trim_solid [OF ends] show "param_type (render_param p) = Some (fst p)"
    and "param_type (CHR '' '' # render_param p) = Some (fst p)"
    by (simp_all add: param_type_def Let_def p)
qed

lemma render_param_chars: "param_ok p \<Longrightarrow> c \<in> {CHR '','', CHR ''('', CHR '')''} \<Longrightarrow> c \<notin> set (render_param p)"
  by (cases p) (auto simp: word_ok_def list_all_iff)

lemma split_params:
  assumes "\<forall>p \<in> set (p # ps). param_ok p"
  shows "split_on (CHR '','') (join '', '' (map render_param (p # ps))) = render_param p # map (\<lambda>q. CHR '' '' # render_param q) ps"
    and "split_on (CHR '','') (CHR '' '' # join '', '' (map render_param (p # ps))) = map (\<lambda>q. CHR '' '' # render_param q) (p # ps)"
  using assms
proof (induction ps arbitrary: p)
  case Nil
  { case 1 then show ?case using render_param_chars [of p "CHR '',''"] by (simp add: split_on_no_delim) }
  { case 2 then show ?case using render_param_chars [of p "CHR '',''"] by (simp add: split_on_no_delim) }
next
  case (Cons q ps)
  { case 1
    then have c: "CHR '','' \<notin> set (render_param p)" using render_param_chars [of p] by simp
    from split_on_append_delim [OF c] Cons(2) [of q] 1 show ?case by simp }
  { case 2
    then have c: "CHR '','' \<notin> set (CHR '' '' # render_param p)" using render_param_chars [of p] by simp
    from split_on_append_delim [OF c] Cons(2) [of q] 2 show ?case by simp }
qed

lemma param_types_render:
  assumes "\<forall>p \<in> set ps. param_ok p"
  shows "List.map_filter param_type (split_on (CHR '','') (join '', '' (map render_param ps))) = map fst ps"
proof (cases ps)
  case Nil
  have "param_type [] = None" by (simp add: param_type_def str_trim_def)
  then show ?thesis by (simp add: Nil List.map_filter_simps)
next
  case (Cons p qs)
  have "List.map_filter param_type (map (\<lambda>q. CHR '' '' # render_param q) qs) = map fst qs"
    using assms unfolding Cons by (induction qs) (auto simp: param_type_render List.map_filter_simps)
  moreover have "split_on (CHR '','') (join '', '' (map render_param ps)) = render_param p # map (\<lambda>q. CHR '' '' # render_param q) qs"
    using split_params(1) [of p qs] assms unfolding Cons by simp
  ultimately show ?thesis using assms by (simp add: Cons param_type_render List.map_filter_simps)
qed

lemma set_join: "set (join sep ss) \<subseteq> set sep \<union> (\<Union>s \<in> set ss. set s)"
  by (induction sep ss rule: join.induct) auto

lemma str_find_append: "c \<notin> set a \<Longrightarrow> str_find c (a @ c # b) = Some (length a)"
  by (auto simp: str_find_def takeWhile_tail intro!: arg_cong [of _ _ length] takeWhile_eq_all_conv [THEN iffD2])

lemma str_rfind_end: "str_rfind c (a @ [c]) = Some (length a)"
  by (simp add: str_rfind_def)

lemma extract_rendered:
  assumes "word_ok name" and "\<forall>p \<in> set ps. param_ok p"
  shows "extract_canonical_signature (render_event name ps) = Returns (Some (name @ ''('' @ join '','' (map fst ps) @ '')''))"
proof -
  let ?params = "join '', '' (map render_param ps)"
  let ?def = "name @ CHR ''('' # ?params @ [CHR '')'']"
  have solid_paren: "solid (CHR '')'')" by (simp add: solid_def)
  have trim: "str_trim ?def = ?def" "str_trim name = name"
    using assms(1) word_ok_ends [OF assms(1)] solid_paren by (auto intro!: str_trim_solid)
  have "CHR ''('' \<notin> set name" using assms(1) by (auto simp: word_ok_def list_all_iff)
  then have start: "str_find (CHR ''('') ?def = Some (length name)" by (rule str_find_append)
  have stop: "str_rfind (CHR '')'') ?def = Some (length name + 1 + length ?params)"
    using str_rfind_end [of "CHR '')''" "name @ CHR ''('' # ?params"] by simp
  have strip: "strip_prefix ''event '' (render_event name ps) = Some ?def"
    using strip_prefix_append [of "''event ''" ?def] by (simp add: render_event_def)
  show ?thesis
    unfolding extract_canonical_signature_def strip option.case Let_def trim start stop
    using trim(2) param_types_render [OF assms(2)] by simp
qed

text \<open>The hash configured by an event definition is the hash of its canonical signature: for every event
  name and every list of parameters, with or without \<open>indexed\<close>, the parser accepts the Solidity definition and hashes
  exactly the name followed by the parameter types, which is what a contract puts into the first topic of its logs.\<close>

theorem event_definition_hash:
  assumes "word_ok name" and "\<forall>p \<in> set ps. param_ok p"
    and "parse_hex (render_event name ps) = None"
  shows "parse_b256_or_event x parse_hex (render_event name ps)
    = Returns (Inr (keccak256 x (str_bytes (name @ ''('' @ join '','' (map fst ps) @ '')''))))"
proof -
  have "str_trim (render_event name ps) = render_event name ps"
    by (rule str_trim_solid) (auto simp: render_event_def solid_def)
  moreover have "starts_with ''event '' (render_event name ps)" by (simp add: starts_with_def render_event_def)
  ultimately show ?thesis
    using assms(3) extract_rendered [OF assms(1,2)]
    by (simp add: parse_b256_or_event_def parse_event_signature_from_definition_def)
qed

theorem event_definition_hash_witness:
  "parse_b256_or_event demo_ext (\<lambda>_. None) ''event Deposit(address indexed from, uint256 amount)''
     = Returns (Inr (keccak256 demo_ext (str_bytes ''Deposit(address,uint256)'')))"
proof -
  let ?ps = "[(''address'', True, ''from''), (''uint256'', False, ''amount'')]"
  have "word_ok ''Deposit''" "\<forall>p \<in> set ?ps. param_ok p" by (simp_all add: word_ok_def solid_def)
  from event_definition_hash [OF this, of "\<lambda>_. None" demo_ext] show ?thesis by (simp add: render_event_def)
qed

text \<open>A definition whose last closing parenthesis stands before its first opening one makes the parser panic
  instead of returning an error, because the parameters are cut out of the string without comparing the positions.\<close>

theorem event_parenthesis_panics:
  "parse_b256_or_event x (\<lambda>_. None) ''event )(''  = Panics"
proof -
  have "str_trim ''event )('' = ''event )(''" "str_trim '')('' = '')(''"
    by (rule str_trim_solid; simp add: solid_def)+
  then show ?thesis
    by (simp add: parse_b256_or_event_def parse_event_signature_from_definition_def extract_canonical_signature_def
        starts_with_def Let_def str_find_def str_rfind_def)
qed

text \<open>A signature given without the keyword is hashed as it stands: blanks and parameter names are not removed.\<close>

theorem plain_signature_verbatim:
  "parse_b256_or_event x (\<lambda>_. None) ''Deposit(address indexed from)''
     = Returns (Inr (keccak256 x (str_bytes ''Deposit(address indexed from)'')))"
proof -
  have "str_trim ''Deposit(address indexed from)'' = ''Deposit(address indexed from)''"
    by (rule str_trim_solid; simp add: solid_def)
  then show ?thesis
    by (simp add: parse_b256_or_event_def parse_event_signature_from_definition_def starts_with_def Let_def)
qed

end
