(* ===== verification/Chain_Monitor.thy ===== *)
theory Chain_Monitor
  imports Eth_Client Event_Store Event_Signature
begin

text \<open>
  The chain monitor, \<open>crates/synddb-chain-monitor/src/monitor.rs\<close>, its configuration (\<open>config.rs\<close>) and the
  interface of the application's handler (\<open>handler.rs\<close>). The handler is a record of functions on a state of its own.
  One iteration of each of the two endless loops is a function of what the outside world answers in it; a run of a loop
  takes the list of these answers. Durations are in seconds.
\<close>

section \<open>Configuration\<close>

record chain_monitor_config =
  cc_ws_urls :: "string list"
  cc_contract_address :: bytes
  cc_start_block :: u64
  cc_event_signature :: "bytes option"
  cc_monitor_request_timeout :: nat
  cc_get_logs_timeout :: nat
  cc_channel_size :: nat
  cc_retry_interval :: nat
  cc_event_store_path :: string

definition default_request_timeout :: nat where "default_request_timeout = 10"
definition default_get_logs_timeout :: nat where "default_get_logs_timeout = 300"
definition default_channel_size :: nat where "default_channel_size = 1024"
definition default_retry_interval :: nat where "default_retry_interval = 1"
definition default_event_store_path :: string where "default_event_store_path = ''./chain_events.db''"

text \<open>
  \<open>ChainMonitorConfig::new\<close> parses a fixed command line; a field that is not on it comes from its environment variable
  when that is set, and from the default otherwise. \<open>None\<close> is clap ending the process on a value that does not parse.\<close>

definition from_env_or :: "(string \<Rightarrow> string option) \<Rightarrow> string \<Rightarrow> (string \<Rightarrow> 'a option) \<Rightarrow> 'a \<Rightarrow> 'a option" where
  "from_env_or env name parse dflt = (case env name of None \<Rightarrow> Some dflt | Some v \<Rightarrow> parse v)"

definition config_new ::
  "(string \<Rightarrow> string option) \<Rightarrow> (string \<Rightarrow> bytes option) \<Rightarrow> (string \<Rightarrow> nat option) \<Rightarrow> string list \<Rightarrow> bytes \<Rightarrow> u64 \<Rightarrow> chain_monitor_config option" where
  "config_new env parse_sig parse_duration ws_urls contract_address start_block =
     Option.bind (from_env_or env ''EVENT_SIGNATURE'' (\<lambda>v. map_option Some (parse_sig v)) None) (\<lambda>event_signature.
     Option.bind (from_env_or env ''MONITOR_REQUEST_TIMEOUT'' parse_duration default_request_timeout) (\<lambda>monitor_request_timeout.
     Option.bind (from_env_or env ''GET_LOGS_TIMEOUT'' parse_duration default_get_logs_timeout) (\<lambda>get_logs_timeout.
     Option.bind (from_env_or env ''CHANNEL_SIZE'' (\<lambda>v. map_option unat (parse_u64 v)) default_channel_size) (\<lambda>channel_size.
     Option.bind (from_env_or env ''RETRY_INTERVAL'' parse_duration default_retry_interval) (\<lambda>retry_interval.
     Option.bind (from_env_or env ''EVENT_STORE_PATH'' Some default_event_store_path) (\<lambda>event_store_path.
     Some \<lparr>cc_ws_urls = ws_urls, cc_contract_address = contract_address, cc_start_block = start_block,
       cc_event_signature = event_signature, cc_monitor_request_timeout = monitor_request_timeout,
       cc_get_logs_timeout = get_logs_timeout, cc_channel_size = channel_size, cc_retry_interval = retry_interval,
       cc_event_store_path = event_store_path\<rparr>))))))"

definition with_event_signature :: "bytes \<Rightarrow> chain_monitor_config \<Rightarrow> chain_monitor_config" where
  "with_event_signature signature c = c\<lparr>cc_event_signature := Some signature\<rparr>"

definition with_event_store_path :: "string \<Rightarrow> chain_monitor_config \<Rightarrow> chain_monitor_config" where
  "with_event_store_path path c = c\<lparr>cc_event_store_path := path\<rparr>"

definition with_request_timeout :: "nat \<Rightarrow> chain_monitor_config \<Rightarrow> chain_monitor_config" where
  "with_request_timeout timeout c = c\<lparr>cc_monitor_request_timeout := timeout\<rparr>"

definition with_get_logs_timeout :: "nat \<Rightarrow> chain_monitor_config \<Rightarrow> chain_monitor_config" where
  "with_get_logs_timeout timeout c = c\<lparr>cc_get_logs_timeout := timeout\<rparr>"

definition with_channel_size :: "nat \<Rightarrow> chain_monitor_config \<Rightarrow> chain_monitor_config" where
  "with_channel_size sz c = c\<lparr>cc_channel_size := sz\<rparr>"

definition with_retry_interval :: "nat \<Rightarrow> chain_monitor_config \<Rightarrow> chain_monitor_config" where
  "with_retry_interval interval c = c\<lparr>cc_retry_interval := interval\<rparr>"

section \<open>The monitor\<close>

record 'h message_handler =
  mh_handle_event :: "eth_log \<Rightarrow> 'h \<Rightarrow> 'h \<times> (string + bool)"
  mh_event_signature :: "bytes option"
  mh_on_start :: "'h \<Rightarrow> 'h \<times> (string + unit)"
  mh_on_stop :: "'h \<Rightarrow> 'h \<times> (string + unit)"

record 'h monitor =
  mo_contract_address :: bytes
  mo_filter :: log_filter
  mo_handler :: 'h
  mo_event_store :: event_store

definition monitor_filter :: "chain_monitor_config \<Rightarrow> 'h message_handler \<Rightarrow> log_filter" where
  "monitor_filter config h =
     \<lparr>lf_block_option = Range (Some (Number (cc_start_block config))) None,
      lf_address = Some (cc_contract_address config),
      lf_event_signature = (case cc_event_signature config of Some sig \<Rightarrow> Some sig | None \<Rightarrow> mh_event_signature h)\<rparr>"

definition monitor_new ::
  "string option \<Rightarrow> event_store option \<Rightarrow> chain_monitor_config \<Rightarrow> 'h message_handler \<Rightarrow> 'h \<Rightarrow> string + 'h monitor" where
  "monitor_new io disk config h hs =
     bind_r (new_event_store io disk) (\<lambda>store.
       (case mh_on_start h hs of
          (hs1, Inl e) \<Rightarrow> Inl e
        | (hs1, Inr _) \<Rightarrow> Inr \<lparr>mo_contract_address = cc_contract_address config, mo_filter = monitor_filter config h,
                           mo_handler = hs1, mo_event_store = store\<rparr>))"

text \<open>The results of the two statements of one event, and the time of the second.\<close>

record event_io =
  io_check :: "string option"
  io_mark :: "string option"
  io_now :: nat

definition process_event ::
  "('vk, 'sg) ext \<Rightarrow> 'h message_handler \<Rightarrow> event_io \<Rightarrow> eth_log \<Rightarrow> 'h \<times> event_store \<Rightarrow> ('h \<times> event_store) \<times> (string + unit)" where
  "process_event x h io log s =
     (let deliver =
        (case mh_handle_event h log (fst s) of
           (hs, Inl e) \<Rightarrow> ((hs, snd s), Inl e)
         | (hs, Inr handled) \<Rightarrow>
             if handled
             then (case lg_transaction_hash log of
                     None \<Rightarrow> ((hs, snd s), Inr ())
                   | Some tx_hash \<Rightarrow>
                       (case mark_processed x (io_mark io) (io_now io) tx_hash
                               (case lg_block_number log of None \<Rightarrow> 0 | Some n \<Rightarrow> n) (lg_log_index log) (snd s) of
                          (st, r) \<Rightarrow> ((hs, st), r)))
             else ((hs, snd s), Inr ()))
      in case lg_transaction_hash log of
           None \<Rightarrow> deliver
         | Some tx_hash \<Rightarrow>
             (case is_processed x (io_check io) tx_hash (snd s) of
                Inl e \<Rightarrow> (s, Inl e)
              | Inr True \<Rightarrow> (s, Inr ())
              | Inr False \<Rightarrow> deliver))"

section \<open>RPC polling\<close>

datatype poll_error = NoLatestBlock | PollRpc rpc_error

text \<open>\<open>latest\<close> is what \<open>get_latest_block\<close> returned.\<close>

definition poll_for_events ::
  "nat \<Rightarrow> (nat \<Rightarrow> log_filter \<Rightarrow> eth_log list rpc_reply) \<Rightarrow> u64 option \<Rightarrow> log_filter \<Rightarrow> u64 \<Rightarrow> u64 \<Rightarrow> nat
   \<Rightarrow> (nat \<times> (poll_error + eth_log list \<times> u64)) option" where
  "poll_for_events fuel node latest f start_block window i =
     (case latest of
        None \<Rightarrow> Some (i, Inl NoLatestBlock)
      | Some latest_block_number \<Rightarrow>
          (let end_block = min (start_block + window) latest_block_number
           in if end_block \<le> start_block then Some (i, Inr ([], start_block))
              else case get_logs fuel node i (with_to_block end_block (with_from_block start_block f)) of
                     None \<Rightarrow> None
                   | Some (j, Inl e) \<Rightarrow> Some (j, Inl (PollRpc e))
                   | Some (j, Inr logs) \<Rightarrow> Some (j, Inr (logs, end_block))))"

text \<open>Errors of single events are logged and the loop goes on; \<open>ios k\<close> is for the event with number \<open>k\<close>.\<close>

fun process_logs ::
  "('vk, 'sg) ext \<Rightarrow> 'h message_handler \<Rightarrow> (nat \<Rightarrow> event_io) \<Rightarrow> eth_log list \<Rightarrow> nat \<Rightarrow> 'h \<times> event_store \<Rightarrow> 'h \<times> event_store" where
  "process_logs x h ios [] k s = s"
| "process_logs x h ios (log # logs) k s = process_logs x h ios logs (k + 1) (fst (process_event x h (ios k) log s))"

record 'h rpc_state =
  rs_handler :: 'h
  rs_store :: event_store
  rs_current_block :: u64
  rs_consecutive_errors :: "32 word"
  rs_requests :: nat

record rpc_input =
  ri_latest :: "u64 option"
  ri_events :: "nat \<Rightarrow> event_io"
  ri_save :: "string option"

definition polling_window :: u64 where "polling_window = 100"

definition saturating_pow2 :: "32 word \<Rightarrow> nat" where
  "saturating_pow2 n = min (2 ^ unat n) (2 ^ 32 - 1)"

definition backoff :: "32 word \<Rightarrow> nat" where
  "backoff consecutive_errors = min (5 * saturating_pow2 (consecutive_errors - 1)) 60"

text \<open>One iteration: \<open>None\<close> for a query that does not end, otherwise the new state and the time to sleep, or the error
  with which the monitor stops.\<close>

definition rpc_round ::
  "nat \<Rightarrow> ('vk, 'sg) ext \<Rightarrow> 'h message_handler \<Rightarrow> (nat \<Rightarrow> log_filter \<Rightarrow> eth_log list rpc_reply) \<Rightarrow> log_filter
   \<Rightarrow> rpc_input \<Rightarrow> 'h rpc_state \<Rightarrow> ('h rpc_state \<times> (string + nat)) option" where
  "rpc_round fuel x h node f inp s =
     (case poll_for_events fuel node (ri_latest inp) f (rs_current_block s) polling_window (rs_requests s) of
        None \<Rightarrow> None
      | Some (i, Inr (logs, end_block)) \<Rightarrow>
          (let (hs, st) = process_logs x h (ri_events inp) logs 0 (rs_handler s, rs_store s);
               (st1, saved) = set_last_processed_block (ri_save inp) end_block st;
               s1 = s\<lparr>rs_handler := hs, rs_store := st1, rs_current_block := end_block, rs_requests := i\<rparr>
           in case saved of
                Inl e \<Rightarrow> Some (s1, Inl e)
              | Inr _ \<Rightarrow> Some (s1\<lparr>rs_consecutive_errors := 0\<rparr>, Inr 5))
      | Some (i, Inl e) \<Rightarrow>
          (let n = rs_consecutive_errors s + 1
           in Some (s\<lparr>rs_consecutive_errors := n, rs_requests := i\<rparr>, Inr (backoff n))))"

text \<open>The shutdown flag is read before each round and while the loop sleeps.\<close>

datatype rpc_event = PollRound rpc_input | ShutdownSignal

text \<open>The result is \<open>None\<close> while the loop goes on after the given events; a query that does not end stays in its round.\<close>

fun rpc_loop ::
  "nat \<Rightarrow> ('vk, 'sg) ext \<Rightarrow> 'h message_handler \<Rightarrow> (nat \<Rightarrow> log_filter \<Rightarrow> eth_log list rpc_reply) \<Rightarrow> log_filter
   \<Rightarrow> rpc_event list \<Rightarrow> 'h rpc_state \<Rightarrow> 'h rpc_state \<times> (string + unit) option" where
  "rpc_loop fuel x h node f [] s = (s, None)"
| "rpc_loop fuel x h node f (ShutdownSignal # es) s = (s, Some (Inr ()))"
| "rpc_loop fuel x h node f (PollRound inp # es) s =
     (case rpc_round fuel x h node f inp s of
        None \<Rightarrow> (s, None)
      | Some (s1, Inl e) \<Rightarrow> (s1, Some (Inl e))
      | Some (s1, Inr _) \<Rightarrow> rpc_loop fuel x h node f es s1)"

definition run_rpc_monitor ::
  "nat \<Rightarrow> ('vk, 'sg) ext \<Rightarrow> 'h message_handler \<Rightarrow> (nat \<Rightarrow> log_filter \<Rightarrow> eth_log list rpc_reply) \<Rightarrow> string option
   \<Rightarrow> rpc_event list \<Rightarrow> 'h monitor \<Rightarrow> 'h rpc_state option \<times> (string + unit) option" where
  "run_rpc_monitor fuel x h node io es m =
     (let start_block_from_filter = (case get_from_block (mo_filter m) of None \<Rightarrow> 0 | Some n \<Rightarrow> n)
      in case get_last_processed_block io (mo_event_store m) of
           Inl e \<Rightarrow> (None, Some (Inl e))
         | Inr l \<Rightarrow>
             (case rpc_loop fuel x h node (mo_filter m) es
                \<lparr>rs_handler = mo_handler m, rs_store = mo_event_store m,
                 rs_current_block = (case l of None \<Rightarrow> start_block_from_filter | Some n \<Rightarrow> n),
                 rs_consecutive_errors = 0, rs_requests = 0\<rparr> of
                (s, r) \<Rightarrow> (Some s, r)))"

section \<open>WebSocket mode\<close>

datatype ws_event = WsLog eth_log "string option" event_io | WsError | WsHeartbeat | WsShutdown

record 'h ws_state =
  ws_handler :: 'h
  ws_store :: event_store
  ws_last_checkpoint :: "u64 option"

text \<open>A log first moves the checkpoint, when its block is beyond the last one saved in this run, and is then processed;
  the string option of the event is the result of saving the checkpoint.\<close>

definition ws_checkpoint :: "string option \<Rightarrow> eth_log \<Rightarrow> 'h ws_state \<Rightarrow> 'h ws_state" where
  "ws_checkpoint save log s =
     (case lg_block_number log of
        None \<Rightarrow> s
      | Some block_number \<Rightarrow>
          if (case ws_last_checkpoint s of None \<Rightarrow> True | Some c \<Rightarrow> c < block_number)
          then s\<lparr>ws_store := fst (set_last_processed_block save block_number (ws_store s)),
                 ws_last_checkpoint := Some block_number\<rparr>
          else s)"

fun ws_loop :: "('vk, 'sg) ext \<Rightarrow> 'h message_handler \<Rightarrow> ws_event list \<Rightarrow> 'h ws_state \<Rightarrow> 'h ws_state \<times> (string + unit) option" where
  "ws_loop x h [] s = (s, None)"
| "ws_loop x h (WsShutdown # es) s = (s, Some (Inr ()))"
| "ws_loop x h (WsError # es) s = ws_loop x h es s"
| "ws_loop x h (WsHeartbeat # es) s = ws_loop x h es s"
| "ws_loop x h (WsLog log save io # es) s =
     (let s1 = ws_checkpoint save log s;
          ((hs, st), r) = process_event x h io log (ws_handler s1, ws_store s1)
      in ws_loop x h es (s1\<lparr>ws_handler := hs, ws_store := st\<rparr>))"

text \<open>\<open>run\<close>: WebSocket when a first subscription succeeds, polling otherwise, and the handler's cleanup at the end,
  whose error is only logged.\<close>

definition monitor_run ::
  "nat \<Rightarrow> ('vk, 'sg) ext \<Rightarrow> 'h message_handler \<Rightarrow> (nat \<Rightarrow> log_filter \<Rightarrow> eth_log list rpc_reply) \<Rightarrow> (string + unit) \<Rightarrow> string option
   \<Rightarrow> ws_event list \<Rightarrow> rpc_event list \<Rightarrow> 'h monitor \<Rightarrow> ('h \<times> event_store) \<times> (string + unit) option" where
  "monitor_run fuel x h node subscribed io wses rpces m =
     (let (s, result) =
        (case subscribed of
           Inr _ \<Rightarrow>
             (case ws_loop x h wses \<lparr>ws_handler = mo_handler m, ws_store = mo_event_store m, ws_last_checkpoint = None\<rparr> of
                (w, r) \<Rightarrow> ((ws_handler w, ws_store w), r))
         | Inl e \<Rightarrow>
             (case run_rpc_monitor fuel x h node io rpces m of
                (None, r) \<Rightarrow> ((mo_handler m, mo_event_store m), r)
              | (Some w, r) \<Rightarrow> ((rs_handler w, rs_store w), r)))
      in case result of
           None \<Rightarrow> (s, None)
         | Some r \<Rightarrow> ((fst (mh_on_stop h (fst s)), snd s), Some r))"

section \<open>Single events\<close>

definition io_ok :: "event_io \<Rightarrow> bool" where
  "io_ok io \<longleftrightarrow> io_check io = None \<and> io_mark io = None"

lemma process_event_processed:
  "io_ok io \<Longrightarrow> lg_transaction_hash l = Some t \<Longrightarrow> processed x (snd s) t \<Longrightarrow> process_event x h io l s = (s, Inr ())"
  by (simp add: process_event_def io_ok_def is_processed_iff)

lemma process_event_fresh:
  "io_ok io \<Longrightarrow> lg_transaction_hash l = Some t \<Longrightarrow> \<not> processed x (snd s) t \<Longrightarrow> process_event x h io l s =
     (case mh_handle_event h l (fst s) of
        (hs, Inl e) \<Rightarrow> ((hs, snd s), Inl e)
      | (hs, Inr True) \<Rightarrow> ((hs, fst (mark_processed x None (io_now io) t
            (case lg_block_number l of None \<Rightarrow> 0 | Some n \<Rightarrow> n) (lg_log_index l) (snd s))), Inr ())
      | (hs, Inr False) \<Rightarrow> ((hs, snd s), Inr ()))"
  by (auto simp: process_event_def io_ok_def is_processed_iff mark_processed_None Let_def split: prod.splits sum.splits bool.splits)

lemma process_event_store:
  "snd (fst (process_event x h io l s)) = snd s
   \<or> (\<exists>t now n. lg_transaction_hash l = Some t \<and> snd (fst (process_event x h io l s)) = fst (mark_processed x (io_mark io) now t n (lg_log_index l) (snd s)))"
  by (auto simp: process_event_def Let_def split: prod.splits sum.splits bool.splits option.splits) (metis fst_conv)+

lemma processed_mark_mono: "processed x st t \<Longrightarrow> processed x (fst (mark_processed x io now h n i st)) t"
  by (cases io) (auto simp: mark_processed_None mark_processed_def processed_def)

lemma process_event_mono: "processed x (snd s) t \<Longrightarrow> processed x (snd (fst (process_event x h io l s))) t"
  using process_event_store [of x h io l s] processed_mark_mono by metis

lemma process_event_wf: "store_wf (snd s) \<Longrightarrow> store_wf (snd (fst (process_event x h io l s)))"
  using process_event_store [of x h io l s] mark_processed_wf by metis

lemma process_event_last_block [simp]: "es_last_block (snd (fst (process_event x h io l s))) = es_last_block (snd s)"
  using process_event_store [of x h io l s] last_block_mark by metis

lemma process_event_accepted:
  assumes "hex_codec_ok x" "io_ok io" "lg_transaction_hash l = Some t" "snd (mh_handle_event h l (fst s)) = Inr True"
  shows "processed x (snd (fst (process_event x h io l s))) t"
proof (cases "processed x (snd s) t")
  case False
  obtain hs where "mh_handle_event h l (fst s) = (hs, Inr True)" using assms(4) by (metis prod.collapse)
  with process_event_fresh [OF assms(2,3) False, of h] show ?thesis by (simp add: processed_mark [OF assms(1)])
qed (use assms in \<open>simp add: process_event_processed\<close>)

text \<open>The handler is called once or not at all.\<close>

lemma process_event_handler:
  "fst (fst (process_event x h io l s)) = fst s \<or> fst (fst (process_event x h io l s)) = fst (mh_handle_event h l (fst s))"
  by (auto simp: process_event_def Let_def split: prod.splits sum.splits bool.splits option.splits)

lemma process_logs_mono: "processed x (snd s) t \<Longrightarrow> processed x (snd (process_logs x h ios logs k s)) t"
  by (induction logs arbitrary: k s) (simp_all add: process_event_mono)

lemma process_logs_store [simp]:
  "es_last_block (snd (process_logs x h ios logs k s)) = es_last_block (snd s)"
  by (induction logs arbitrary: k s) simp_all

lemma process_logs_cong:
  "(\<And>l. l \<in> set logs \<Longrightarrow> mh_handle_event h l = mh_handle_event h' l) \<Longrightarrow> process_logs x h ios logs k s = process_logs x h' ios logs k s"
proof (induction logs arbitrary: k s)
  case (Cons l logs)
  then have "process_event x h (ios k) l s = process_event x h' (ios k) l s" by (simp add: process_event_def)
  with Cons show ?case by simp
qed simp

section \<open>Polling rounds\<close>

definition input_ok :: "rpc_input \<Rightarrow> bool" where
  "input_ok inp \<longleftrightarrow> (\<forall>k. io_ok (ri_events inp k)) \<and> ri_save inp = None \<and> (\<forall>n. ri_latest inp = Some n \<longrightarrow> n < 2 ^ 63)"

text \<open>What a poll asks for: nothing, or the blocks from the current one to the end of the window.\<close>

lemma poll_end:
  fixes start :: u64
  assumes "end_block = min (start + window) latest" "\<not> end_block \<le> start" "latest < 2 ^ 63" "window = 100"
  shows "start < end_block" "end_block < 2 ^ 63" "unat end_block - unat start \<le> 100" "end_block \<le> latest"
    "unat end_block = min (unat start + 100) (unat latest)"
proof -
  show "start < end_block" using assms(2) by (simp only: not_le)
  show "end_block \<le> latest" using assms(1) by simp
  then show "end_block < 2 ^ 63" using assms(3) by simp
  have "unat start < 2 ^ 63" using \<open>start < end_block\<close> \<open>end_block < 2 ^ 63\<close> by (simp add: word_less_nat_alt)
  then have "unat (start + window) = unat start + 100" using assms(4) by (subst unat_add_lem [THEN iffD1]) auto
  then show "unat end_block = min (unat start + 100) (unat latest)"
    using assms(1) by (simp add: min_def word_le_nat_alt)
  then show "unat end_block - unat start \<le> 100" by simp
qed

lemma poll_cases:
  assumes "chain_ordered chain" "truthful node chain f" "\<forall>n. latest = Some n \<longrightarrow> n < 2 ^ 63"
    and "poll_for_events fuel node latest f start polling_window i = Some (j, Inr (logs, end_block))" and "100 < fuel"
  shows "(end_block = start \<and> logs = [] \<and> (\<forall>n. latest = Some n \<longrightarrow> \<not> start < n \<or> 2 ^ 64 - 100 \<le> unat start))
    \<or> (start < end_block \<and> end_block < 2 ^ 63 \<and> logs = logs_between chain start end_block \<and> (\<exists>n. latest = Some n \<and> unat end_block = min (unat start + 100) (unat n)))"
proof (cases latest)
  case None
  with assms(4) show ?thesis by (simp add: poll_for_events_def)
next
  case (Some n)
  define e where "e = min (start + polling_window) n"
  show ?thesis
  proof (cases "e \<le> start")
    case True
    have "\<not> start < n \<or> 2 ^ 64 - 100 \<le> unat start"
    proof (rule ccontr)
      assume "\<not> ?thesis"
      then have "start < n" "unat start < 2 ^ 64 - 100" by auto
      then have "unat (start + polling_window) = unat start + 100"
        by (subst unat_add_lem [THEN iffD1]) (auto simp: polling_window_def)
      then have "start < start + polling_window" by (simp add: word_less_nat_alt)
      with \<open>start < n\<close> True show False by (auto simp: e_def min_le_iff_disj)
    qed
    with True assms(4) Some show ?thesis by (auto simp: poll_for_events_def e_def Let_def)
  next
    case False
    note e = poll_end [OF e_def False assms(3) [rule_format, OF Some] polling_window_def]
    have "query_ok node chain f start e (get_logs fuel node i (range_filter start e f))"
      using get_logs_ok [OF assms(1,2)] e assms(5) by simp
    then show ?thesis
    proof (cases rule: query_okE)
      case (logs j)
      with assms(4) Some False e show ?thesis
        by (auto simp: poll_for_events_def Let_def range_filter_def simp flip: e_def)
    next
      case (error j d)
      with assms(4) Some False show ?thesis by (simp add: poll_for_events_def Let_def range_filter_def flip: e_def)
    qed
  qed
qed

text \<open>A round that ends without an error of the store: the block reached, and what it did to the store.\<close>

lemma rpc_round_cases:
  assumes "chain_ordered chain" "truthful node chain f" "input_ok inp" "100 < fuel"
    and "rpc_round fuel x h node f inp s = Some (s', r)"
  obtains (failed) "rs_current_block s' = rs_current_block s" "rs_handler s' = rs_handler s" "rs_store s' = rs_store s"
      "rs_consecutive_errors s' = rs_consecutive_errors s + 1" "r = Inr (backoff (rs_consecutive_errors s'))"
    | (idle) "rs_current_block s' = rs_current_block s" "rs_handler s' = rs_handler s"
      "rs_store s' = rs_store s\<lparr>es_last_block := Some (rs_current_block s)\<rparr>" "rs_consecutive_errors s' = 0" "r = Inr 5"
      "\<forall>n. ri_latest inp = Some n \<longrightarrow> \<not> rs_current_block s < n \<or> 2 ^ 64 - 100 \<le> unat (rs_current_block s)"
    | (polled) n where "ri_latest inp = Some n" "rs_current_block s < rs_current_block s'" "rs_current_block s' < 2 ^ 63"
      "unat (rs_current_block s') = min (unat (rs_current_block s) + 100) (unat n)"
      "rs_handler s' = fst (process_logs x h (ri_events inp) (logs_between chain (rs_current_block s) (rs_current_block s')) 0 (rs_handler s, rs_store s))"
      "rs_store s' = snd (process_logs x h (ri_events inp) (logs_between chain (rs_current_block s) (rs_current_block s')) 0 (rs_handler s, rs_store s))
           \<lparr>es_last_block := Some (rs_current_block s')\<rparr>" "rs_consecutive_errors s' = 0" "r = Inr 5"
proof -
  have latest: "\<forall>n. ri_latest inp = Some n \<longrightarrow> n < 2 ^ 63" and save: "ri_save inp = None"
    using assms(3) by (simp_all add: input_ok_def)
  obtain i p where poll: "poll_for_events fuel node (ri_latest inp) f (rs_current_block s) polling_window (rs_requests s) = Some (i, p)"
    using assms(5) by (auto simp: rpc_round_def split: option.splits)
  show ?thesis
  proof (cases p)
    case (Inl e)
    with poll assms(5) show ?thesis by (intro failed) (auto simp: rpc_round_def Let_def)
  next
    case (Inr le)
    obtain logs end_block where le: "le = (logs, end_block)" by (cases le)
    note poll = poll [unfolded Inr le]
    obtain hs st where pl: "process_logs x h (ri_events inp) logs 0 (rs_handler s, rs_store s) = (hs, st)" by fastforce
    have s': "s' = s\<lparr>rs_handler := hs, rs_store := st\<lparr>es_last_block := Some end_block\<rparr>, rs_current_block := end_block,
        rs_requests := i, rs_consecutive_errors := 0\<rparr>" "r = Inr 5"
      using assms(5) poll pl save by (auto simp: rpc_round_def set_last_processed_block_def Let_def)
    from poll_cases [OF assms(1,2) latest poll assms(4)] show ?thesis
    proof (elim disjE conjE exE)
      assume "end_block = rs_current_block s" "logs = []"
        "\<forall>n. ri_latest inp = Some n \<longrightarrow> \<not> rs_current_block s < n \<or> 2 ^ 64 - 100 \<le> unat (rs_current_block s)"
      with s' pl show ?thesis by (intro idle) auto
    next
      fix n
      assume "rs_current_block s < end_block" "end_block < 2 ^ 63" "ri_latest inp = Some n"
        "logs = logs_between chain (rs_current_block s) end_block" "unat end_block = min (unat (rs_current_block s) + 100) (unat n)"
      with s' pl show ?thesis by (intro polled [of n]) auto
    qed
  qed
qed

definition events_ok :: "rpc_event list \<Rightarrow> bool" where
  "events_ok es \<longleftrightarrow> (\<forall>e \<in> set es. case e of PollRound inp \<Rightarrow> input_ok inp | ShutdownSignal \<Rightarrow> True)"

lemma processed_last_block [simp]: "processed x (st\<lparr>es_last_block := b\<rparr>) t \<longleftrightarrow> processed x st t"
  by (simp add: processed_def)

lemma rpc_round_mono:
  assumes "chain_ordered chain" "truthful node chain f" "input_ok inp" "100 < fuel"
    and "rpc_round fuel x h node f inp s = Some (s', r)"
  shows "rs_current_block s \<le> rs_current_block s'" and "processed x (rs_store s) t \<Longrightarrow> processed x (rs_store s') t"
proof -
  from assms have "rs_current_block s \<le> rs_current_block s' \<and> (processed x (rs_store s) t \<longrightarrow> processed x (rs_store s') t)"
    by (cases rule: rpc_round_cases) (auto simp: process_logs_mono)
  then show "rs_current_block s \<le> rs_current_block s'" and "processed x (rs_store s) t \<Longrightarrow> processed x (rs_store s') t"
    by blast+
qed

section \<open>Runs of the polling loop\<close>

text \<open>Progress: while the provider answers, a round whose head is ahead moves the block by the window or to the head.\<close>

lemma rpc_round_progress:
  assumes "chain_ordered chain" "truthful node chain f" "answers_blocks node f" "input_ok inp" "100 < fuel"
    and "ri_latest inp = Some n" "rs_current_block s < 2 ^ 63"
  shows "\<exists>s'. rpc_round fuel x h node f inp s = Some (s', Inr 5) \<and> rs_current_block s' < 2 ^ 63
    \<and> min (unat (rs_current_block s) + 100) (unat n) \<le> unat (rs_current_block s')"
proof -
  let ?c = "rs_current_block s"
  define e where "e = min (?c + polling_window) n"
  have n: "n < 2 ^ 63" and save: "ri_save inp = None" using assms(4,6) by (auto simp: input_ok_def)
  obtain i logs b where poll: "poll_for_events fuel node (ri_latest inp) f ?c polling_window (rs_requests s) = Some (i, Inr (logs, b))"
  proof (cases "e \<le> ?c")
    case True
    then show thesis using that assms(6) by (auto simp: poll_for_events_def e_def Let_def)
  next
    case False
    note e = poll_end [OF e_def False n polling_window_def]
    have "query_ok node chain f ?c e (get_logs fuel node (rs_requests s) (range_filter ?c e f))"
      using get_logs_ok [OF assms(1,2)] e assms(5) by simp
    then show thesis
    proof (cases rule: query_okE)
      case (logs j)
      then show thesis using that False assms(6) by (simp add: poll_for_events_def Let_def range_filter_def flip: e_def)
    next
      case (error j d)
      then show thesis using assms(3) e(1) by simp
    qed
  qed
  obtain hs st where "process_logs x h (ri_events inp) logs 0 (rs_handler s, rs_store s) = (hs, st)" by fastforce
  with poll save obtain s' where s': "rpc_round fuel x h node f inp s = Some (s', Inr 5)"
    by (auto simp: rpc_round_def set_last_processed_block_def Let_def)
  have small: "\<not> 2 ^ 64 - 100 \<le> unat ?c" using assms(7) by (simp add: word_less_nat_alt)
  from assms(1,2,4,5) s' show ?thesis
  proof (cases rule: rpc_round_cases)
    case failed
    have "rs_consecutive_errors s' = 0" using s' poll save \<open>process_logs _ _ _ _ _ _ = _\<close>
      by (auto simp: rpc_round_def set_last_processed_block_def Let_def)
    moreover have "rs_current_block s' = b" using s' poll save \<open>process_logs _ _ _ _ _ _ = _\<close>
      by (auto simp: rpc_round_def set_last_processed_block_def Let_def)
    ultimately show ?thesis using s' poll_cases [OF assms(1,2) _ poll assms(5)] assms(6,7) failed(1) n small
      by (auto simp: min_def word_less_nat_alt)
  next
    case idle
    with s' small assms(6,7) show ?thesis by (auto simp: word_less_nat_alt)
  next
    case (polled m)
    with s' assms(6) show ?thesis by simp
  qed
qed

lemma rpc_loop_progress:
  assumes "chain_ordered chain" "truthful node chain f" "answers_blocks node f" "100 < fuel"
  shows "\<forall>inp \<in> set inps. input_ok inp \<and> (\<exists>n. ri_latest inp = Some n \<and> head \<le> n) \<Longrightarrow> rs_current_block s < 2 ^ 63
    \<Longrightarrow> \<exists>s'. rpc_loop fuel x h node f (map PollRound inps) s = (s', None)
         \<and> min (unat (rs_current_block s) + 100 * length inps) (unat head) \<le> unat (rs_current_block s')"
proof (induction inps arbitrary: s)
  case (Cons inp inps)
  then obtain n where n: "input_ok inp" "ri_latest inp = Some n" "unat head \<le> unat n" by (auto simp: word_le_nat_alt)
  obtain s1 where s1: "rpc_round fuel x h node f inp s = Some (s1, Inr 5)" "rs_current_block s1 < 2 ^ 63"
      "min (unat (rs_current_block s) + 100) (unat n) \<le> unat (rs_current_block s1)"
    using rpc_round_progress [OF assms(1-3) n(1) assms(4) n(2) Cons.prems(2)] by blast
  moreover have "\<forall>inp \<in> set inps. input_ok inp \<and> (\<exists>n. ri_latest inp = Some n \<and> head \<le> n)" using Cons.prems(1) by simp
  ultimately obtain s' where "rpc_loop fuel x h node f (map PollRound inps) s1 = (s', None)"
      "min (unat (rs_current_block s1) + 100 * length inps) (unat head) \<le> unat (rs_current_block s')"
    using Cons.IH by blast
  with s1 n(3) show ?case by (auto simp: min_def split: if_splits)
qed simp

section \<open>Handlers that accept\<close>

text \<open>
  What the monitor may rely on in a handler: an invariant of its state that every event keeps, and the events that it
  accepts in a state with the invariant.\<close>

locale event_handler =
  fixes h :: "'h message_handler" and hinv :: "'h \<Rightarrow> bool" and good :: "eth_log \<Rightarrow> bool"
  assumes hinv_kept: "hinv hs \<Longrightarrow> hinv (fst (mh_handle_event h l hs))"
    and good_accepted: "hinv hs \<Longrightarrow> good l \<Longrightarrow> snd (mh_handle_event h l hs) = Inr True"
begin

lemma process_event_hinv: "hinv (fst s) \<Longrightarrow> hinv (fst (fst (process_event x h io l s)))"
  using process_event_handler [of x h io l s] hinv_kept by metis

lemma process_logs_hinv: "hinv (fst s) \<Longrightarrow> hinv (fst (process_logs x h ios logs k s))"
  by (induction logs arbitrary: k s) (simp_all add: process_event_hinv)

lemma process_logs_accepts:
  assumes "hex_codec_ok x" "\<forall>k. io_ok (ios k)" "lg_transaction_hash l = Some t" "good l"
  shows "hinv (fst s) \<Longrightarrow> l \<in> set logs \<Longrightarrow> processed x (snd (process_logs x h ios logs k s)) t"
proof (induction logs arbitrary: k s)
  case (Cons l' logs)
  show ?case
  proof (cases "l = l'")
    case True
    from process_event_accepted [OF assms(1) _ assms(3) good_accepted [OF Cons.prems(1) assms(4)]] assms(2)
    show ?thesis by (simp add: True process_logs_mono)
  qed (use Cons in \<open>simp add: process_event_hinv\<close>)
qed simp

lemma rpc_round_covers:
  assumes "chain_ordered chain" "truthful node chain f" "input_ok inp" "100 < fuel" "hex_codec_ok x" "hinv (rs_handler s)"
    and "rpc_round fuel x h node f inp s = Some (s', r)"
  shows "hinv (rs_handler s')"
    and "l \<in> set chain \<Longrightarrow> lg_block_number l = Some n \<Longrightarrow> lg_transaction_hash l = Some t \<Longrightarrow> good l
      \<Longrightarrow> rs_current_block s < n \<Longrightarrow> n \<le> rs_current_block s' \<Longrightarrow> processed x (rs_store s') t"
proof -
  have ios: "\<forall>k. io_ok (ri_events inp k)" using assms(3) by (simp add: input_ok_def)
  from assms(1-4,7) have "hinv (rs_handler s') \<and> (l \<in> set chain \<and> lg_block_number l = Some n \<and> lg_transaction_hash l = Some t \<and> good l
        \<and> rs_current_block s < n \<and> n \<le> rs_current_block s' \<longrightarrow> processed x (rs_store s') t)"
  proof (cases rule: rpc_round_cases)
    case (polled m)
    moreover have "l \<in> set (logs_between chain (rs_current_block s) (rs_current_block s'))"
      if "l \<in> set chain" "lg_block_number l = Some n" "rs_current_block s < n" "n \<le> rs_current_block s'"
      using that by (simp add: logs_between_def)
    ultimately show ?thesis
      using assms(6) by (auto simp: process_logs_hinv intro!: process_logs_accepts [OF assms(5) ios])
  qed (use assms(6) in auto)
  then show "hinv (rs_handler s')"
    and "l \<in> set chain \<Longrightarrow> lg_block_number l = Some n \<Longrightarrow> lg_transaction_hash l = Some t \<Longrightarrow> good l
      \<Longrightarrow> rs_current_block s < n \<Longrightarrow> n \<le> rs_current_block s' \<Longrightarrow> processed x (rs_store s') t"
    by blast+
qed

lemma rpc_loop_covers:
  assumes "chain_ordered chain" "truthful node chain f" "100 < fuel" "hex_codec_ok x"
  shows "events_ok es \<Longrightarrow> hinv (rs_handler s) \<Longrightarrow> rpc_loop fuel x h node f es s = (s', r) \<Longrightarrow>
    rs_current_block s \<le> rs_current_block s'
    \<and> (\<forall>t. processed x (rs_store s) t \<longrightarrow> processed x (rs_store s') t)
    \<and> (\<forall>l \<in> set chain. \<forall>n t. lg_block_number l = Some n \<and> lg_transaction_hash l = Some t \<and> good l
        \<and> rs_current_block s < n \<and> n \<le> rs_current_block s' \<longrightarrow> processed x (rs_store s') t)"
proof (induction es arbitrary: s)
  case (Cons e es)
  show ?case
  proof (cases e)
    case (PollRound inp)
    have ok: "input_ok inp" "events_ok es" using Cons.prems(1) PollRound by (auto simp: events_ok_def)
    show ?thesis
    proof (cases "rpc_round fuel x h node f inp s")
      case None
      with Cons.prems(3) PollRound show ?thesis by auto
    next
      case (Some sr)
      obtain s1 q where sr: "sr = (s1, q)" by fastforce
      note m = rpc_round_mono [OF assms(1,2) ok(1) assms(3) Some [unfolded sr]]
      note c = rpc_round_covers [OF assms(1,2) ok(1) assms(3,4) Cons.prems(2) Some [unfolded sr]]
      show ?thesis
      proof (cases q)
        case (Inl e)
        with Cons.prems(3) PollRound Some sr have "s' = s1" by simp
        with m c show ?thesis by blast
      next
        case (Inr d)
        with Cons.prems(3) PollRound Some sr have "rpc_loop fuel x h node f es s1 = (s', r)" by simp
        from Cons.IH [OF ok(2) c(1) this] m c show ?thesis by (meson order_trans not_le)
      qed
    qed
  qed (use Cons.prems in auto)
qed auto

text \<open>Enough rounds bring the monitor to the head, and every good event on the way is then recorded.\<close>

lemma rpc_reaches_head:
  assumes "chain_ordered chain" and "truthful node chain f" and "answers_blocks node f" and "100 < fuel" and "hex_codec_ok x"
    and "\<forall>inp \<in> set inps. input_ok inp \<and> (\<exists>n. ri_latest inp = Some n \<and> head \<le> n)"
    and "rs_current_block s < 2 ^ 63" and "unat head \<le> unat (rs_current_block s) + 100 * length inps" and "hinv (rs_handler s)"
  shows "\<exists>s'. rpc_loop fuel x h node f (map PollRound inps) s = (s', None) \<and> head \<le> rs_current_block s'
    \<and> (\<forall>l \<in> set chain. \<forall>n t. lg_block_number l = Some n \<and> lg_transaction_hash l = Some t \<and> good l
        \<and> rs_current_block s < n \<and> n \<le> head \<longrightarrow> is_processed x None t (rs_store s') = Inr True)"
proof -
  obtain s' where s': "rpc_loop fuel x h node f (map PollRound inps) s = (s', None)"
      "min (unat (rs_current_block s) + 100 * length inps) (unat head) \<le> unat (rs_current_block s')"
    using rpc_loop_progress [OF assms(1-4,6,7)] by blast
  then have head: "head \<le> rs_current_block s'" using assms(8) by (simp add: word_le_nat_alt)
  have "events_ok (map PollRound inps)" using assms(6) by (auto simp: events_ok_def)
  from rpc_loop_covers [OF assms(1,2,4,5) this assms(9) s'(1)] head s'(1) show ?thesis
    by (auto simp: is_processed_iff intro!: exI [of _ s'])
qed

end

section \<open>An example\<close>

definition demo_io :: event_io where
  "demo_io = \<lparr>io_check = None, io_mark = None, io_now = 7\<rparr>"

definition demo_input :: "u64 \<Rightarrow> rpc_input" where
  "demo_input n = \<lparr>ri_latest = Some n, ri_events = (\<lambda>_. demo_io), ri_save = None\<rparr>"

text \<open>A handler that counts and accepts.\<close>

definition counting_handler :: "nat message_handler" where
  "counting_handler = \<lparr>mh_handle_event = (\<lambda>_ n. (n + 1, Inr True)), mh_event_signature = None,
     mh_on_start = (\<lambda>n. (n, Inr ())), mh_on_stop = (\<lambda>n. (n, Inr ()))\<rparr>"

definition demo_rpc_state :: "nat rpc_state" where
  "demo_rpc_state = \<lparr>rs_handler = 0, rs_store = \<lparr>es_processed_events = [], es_last_block = None\<rparr>,
     rs_current_block = 1, rs_consecutive_errors = 0, rs_requests = 0\<rparr>"

lemma demo_input_ok: "n < 2 ^ 63 \<Longrightarrow> input_ok (demo_input n)"
  by (simp add: input_ok_def demo_input_def io_ok_def demo_io_def)

section \<open>Bounds of the backoff\<close>

lemma saturating_pow2_ge: "1 \<le> saturating_pow2 n"
  by (simp add: saturating_pow2_def)

text \<open>The polling loop never hammers the provider and never pauses for long: every round sleeps at least 5 and at
  most 60 seconds, exactly 5 after a success, and after the \<open>n\<close>-th error in a row \<open>5 * 2^(n-1)\<close> seconds
  up to the fourth and 60 from the fifth on.\<close>

theorem backoff_bounds:
  assumes "rpc_round fuel x h node f inp s = Some (s', Inr d)"
  shows "5 \<le> d \<and> d \<le> 60 \<and> (d = 5 \<or> d = backoff (rs_consecutive_errors s + 1))
    \<and> (\<forall>n. 1 \<le> n \<and> n \<le> 4 \<longrightarrow> backoff n = 5 * 2 ^ (unat n - 1)) \<and> (\<forall>n. 5 \<le> n \<longrightarrow> backoff n = 60)"
proof -
  have range: "5 \<le> backoff n \<and> backoff n \<le> 60" for n using saturating_pow2_ge [of "n - 1"] by (simp add: backoff_def)
  have "d = 5 \<or> d = backoff (rs_consecutive_errors s + 1)"
    using assms by (auto simp: rpc_round_def Let_def split: option.splits sum.splits prod.splits)
  moreover have "backoff n = 5 * 2 ^ (unat n - 1)" if "1 \<le> n" "n \<le> 4" for n
  proof -
    have "1 \<le> unat n" "unat n \<le> 4" using that by (simp_all add: word_le_nat_alt)
    then have "unat (n - 1) = unat n - 1" using that by (simp add: unat_sub)
    moreover have "unat n - 1 = 0 \<or> unat n - 1 = 1 \<or> unat n - 1 = 2 \<or> unat n - 1 = 3" using \<open>unat n \<le> 4\<close> by linarith
    ultimately show ?thesis by (auto simp: backoff_def saturating_pow2_def)
  qed
  moreover have "backoff n = 60" if "5 \<le> n" for n
  proof -
    have "5 \<le> unat n" using that by (simp add: word_le_nat_alt)
    moreover have "1 \<le> n" using that by (rule order_trans [rotated]) simp
    ultimately have "4 \<le> unat (n - 1)" by (simp add: unat_sub)
    then have "(2 :: nat) ^ 4 \<le> 2 ^ unat (n - 1)" by (intro power_increasing) simp_all
    then show ?thesis by (simp add: backoff_def saturating_pow2_def)
  qed
  ultimately show ?thesis using range by auto
qed

theorem backoff_bounds_witness:
  "\<exists>s' d. rpc_round 101 demo_ext counting_handler (\<lambda>_ _. RpcFail (Transport ''closed'')) demo_filter (demo_input 50) demo_rpc_state = Some (s', Inr d)
     \<and> 5 \<le> d \<and> d \<le> 60"
proof -
  have g: "get_logs 101 (\<lambda>_ _. RpcFail (Transport ''closed'')) i g = Some (i + 1, Inl (Transport ''closed''))" for i g
    using get_logs.simps(2) [of 100] by simp
  have "\<exists>s' d. rpc_round 101 demo_ext counting_handler (\<lambda>_ _. RpcFail (Transport ''closed'')) demo_filter (demo_input 50) demo_rpc_state = Some (s', Inr d)"
    by (simp add: rpc_round_def poll_for_events_def demo_input_def demo_rpc_state_def polling_window_def g Let_def set_last_processed_block_def)
  with backoff_bounds show ?thesis by blast
qed

section \<open>What is not delivered again\<close>

text \<open>The part of a round that depends on the handler.\<close>

lemma rpc_round_cong:
  assumes "chain_ordered chain" "truthful node chain f" "input_ok inp" "100 < fuel"
    and "\<And>l n. lg_block_number l = Some n \<Longrightarrow> rs_current_block s \<le> n \<Longrightarrow> mh_handle_event h l = mh_handle_event h' l"
  shows "rpc_round fuel x h node f inp s = rpc_round fuel x h' node f inp s"
proof (cases "poll_for_events fuel node (ri_latest inp) f (rs_current_block s) polling_window (rs_requests s)")
  case (Some p)
  obtain i q where p: "p = (i, q)" by fastforce
  show ?thesis
  proof (cases q)
    case (Inr le)
    obtain logs b where le: "le = (logs, b)" by fastforce
    have "\<forall>n. ri_latest inp = Some n \<longrightarrow> n < 2 ^ 63" using assms(3) by (simp add: input_ok_def)
    from poll_cases [OF assms(1,2) this Some [unfolded p Inr le] assms(4)]
    have "mh_handle_event h l = mh_handle_event h' l" if "l \<in> set logs" for l
      using that assms(5) by (auto simp: logs_between_def split: option.splits)
    then have "process_logs x h (ri_events inp) logs 0 z = process_logs x h' (ri_events inp) logs 0 z" for z
      by (rule process_logs_cong)
    with Some p Inr le show ?thesis by (simp add: rpc_round_def)
  qed (use Some p in \<open>simp add: rpc_round_def\<close>)
qed (simp add: rpc_round_def)

text \<open>C36: An event that the handler failed on, or left unmarked, is not delivered again once the polling loop has
  passed its block: the rest of the run does not depend on what the handler does with events of earlier blocks. The
  interface promises that such events "will be retried".\<close>

theorem failed_events_not_retried:
  assumes "chain_ordered chain" and "truthful node chain f" and "100 < fuel" and "events_ok es"
    and "\<And>l n. lg_block_number l = Some n \<Longrightarrow> rs_current_block s \<le> n \<Longrightarrow> mh_handle_event h l = mh_handle_event h' l"
  shows "rpc_loop fuel x h node f es s = rpc_loop fuel x h' node f es s"
  using assms(4,5)
proof (induction es arbitrary: s)
  case (Cons e es)
  show ?case
  proof (cases e)
    case (PollRound inp)
    have ok: "input_ok inp" "events_ok es" using Cons.prems(1) PollRound by (auto simp: events_ok_def)
    have eq: "rpc_round fuel x h node f inp s = rpc_round fuel x h' node f inp s"
      using rpc_round_cong [OF assms(1,2) ok(1) assms(3)] Cons.prems(2) by blast
    have "rpc_loop fuel x h node f es s1 = rpc_loop fuel x h' node f es s1"
      if "rpc_round fuel x h node f inp s = Some (s1, q)" for s1 q
      using Cons.IH [OF ok(2)] Cons.prems(2) rpc_round_mono(1) [OF assms(1,2) ok(1) assms(3) that] by (meson order_trans)
    with eq PollRound show ?thesis by (auto split: option.splits sum.splits)
  qed simp
qed simp

definition failing_handler :: "nat message_handler" where
  "failing_handler = counting_handler\<lparr>mh_handle_event := (\<lambda>l n. if lg_block_number l = Some 3 then (n, Inl ''busy'') else (n + 1, Inr True))\<rparr>"

text \<open>The event of block 3, on which the handler failed in the first round, is never delivered to the recovered handler.\<close>

theorem failed_events_not_retried_witness:
  "(let chain = [demo_log 3 1, demo_log 150 2]; s = demo_rpc_state\<lparr>rs_current_block := 101\<rparr>; es = map PollRound [demo_input 160, demo_input 190]
    in rpc_loop 101 demo_ext counting_handler (narrow_node chain) demo_filter es s
        = rpc_loop 101 demo_ext failing_handler (narrow_node chain) demo_filter es s)"
proof -
  let ?chain = "[demo_log 3 1, demo_log 150 2]"
  have ch: "chain_ordered ?chain" by (simp add: chain_ordered_def demo_log_def)
  have ok: "events_ok (map PollRound [demo_input 160, demo_input 190])" by (simp add: events_ok_def demo_input_ok)
  have "mh_handle_event counting_handler l = mh_handle_event failing_handler l"
    if "lg_block_number l = Some n" "rs_current_block (demo_rpc_state\<lparr>rs_current_block := 101\<rparr>) \<le> n" for l n
    using that by (auto simp: failing_handler_def counting_handler_def fun_eq_iff)
  then show ?thesis
    unfolding Let_def by (intro failed_events_not_retried [OF ch narrow_node_ok(1) _ ok]) simp_all
qed

text \<open>Only one event of a transaction is handled: once an event of a transaction is accepted, every further event
  of the same transaction is skipped without reaching the handler, because the store remembers transactions and
  not events.\<close>

theorem one_event_per_transaction:
  assumes "hex_codec_ok x" and "\<forall>k. io_ok (ios k)" and "snd (mh_handle_event h l (fst s)) = Inr True" and "lg_transaction_hash l = Some t"
    and "\<forall>l' \<in> set rest. lg_transaction_hash l' = Some t"
  shows "process_logs x h ios (l # rest) k s = process_logs x h ios [l] k s"
proof -
  have "process_logs x h ios rest j s1 = s1" if "processed x (snd s1) t" for j s1
    using assms(5) that by (induction rest arbitrary: j) (simp_all add: process_event_processed assms(2))
  moreover have "processed x (snd (fst (process_event x h (ios k) l s))) t"
    using process_event_accepted assms by blast
  ultimately show ?thesis by simp
qed

theorem one_event_per_transaction_witness:
  "process_logs demo_ext counting_handler (\<lambda>_. demo_io)
     [demo_log 3 1, (demo_log 3 1)\<lparr>lg_log_index := Some 1\<rparr>] 0 (0, \<lparr>es_processed_events = [], es_last_block = None\<rparr>)
   = process_logs demo_ext counting_handler (\<lambda>_. demo_io) [demo_log 3 1] 0 (0, \<lparr>es_processed_events = [], es_last_block = None\<rparr>)"
proof -
  have "\<forall>k :: nat. io_ok demo_io" by (simp add: io_ok_def demo_io_def)
  moreover have "lg_transaction_hash (demo_log 3 1) = Some (replicate 32 1)"
    "\<forall>l \<in> set [(demo_log 3 1)\<lparr>lg_log_index := Some 1\<rparr>]. lg_transaction_hash l = Some (replicate 32 1)"
    by (simp_all add: demo_log_def)
  ultimately show ?thesis by (intro one_event_per_transaction [OF demo_hex, where t = "replicate 32 1"]) (simp_all add: counting_handler_def demo_log_def)
qed

section \<open>WebSocket mode\<close>

text \<open>The checkpoint is written before the event is handled, so it covers events whose handler fails.\<close>

theorem ws_checkpoint_covers_failed_event:
  assumes "lg_block_number l = Some n" and "ws_last_checkpoint s = None" and "mh_handle_event h l (ws_handler s) = (hs, Inl e)"
    and "io_ok io" and "lg_transaction_hash l = Some t" and "\<not> processed x (ws_store s) t"
  shows "\<exists>s'. ws_loop x h [WsLog l None io] s = (s', None) \<and> es_last_block (ws_store s') = Some n \<and> \<not> processed x (ws_store s') t"
proof -
  let ?st = "(ws_store s)\<lparr>es_last_block := Some n\<rparr>"
  have c: "ws_checkpoint None l s = s\<lparr>ws_store := ?st, ws_last_checkpoint := Some n\<rparr>"
    using assms(1,2) by (simp add: ws_checkpoint_def set_last_processed_block_def)
  have "process_event x h io l (ws_handler s, ?st) = ((hs, ?st), Inl e)"
    using process_event_fresh [OF assms(4,5), of x "(ws_handler s, ?st)" h] assms(3,6) by simp
  with c assms(6) show ?thesis by simp
qed

text \<open>The checkpoint of a run never moves back, and the store is well-formed throughout.\<close>

lemma ws_loop_wf: "store_wf (ws_store s) \<Longrightarrow> store_wf (ws_store (fst (ws_loop x h es s)))"
proof (induction x h es s rule: ws_loop.induct)
  case (5 x h log save io es s)
  let ?s = "ws_checkpoint save log s"
  have "store_wf (ws_store ?s)"
    using 5(2) by (cases save) (auto simp: ws_checkpoint_def set_last_processed_block_def store_wf_def split: option.splits)
  then have "store_wf (snd (fst (process_event x h io log (ws_handler ?s, ws_store ?s))))" by (intro process_event_wf) simp
  with 5(1) show ?case by (auto simp: Let_def split: prod.splits)
qed auto

lemma process_logs_wf: "store_wf (snd s) \<Longrightarrow> store_wf (snd (process_logs x h ios logs k s))"
  by (induction logs arbitrary: k s) (simp_all add: process_event_wf)

end
