(* ===== verification/Deposits.thy ===== *)
theory Deposits
  imports Chain_Monitor
begin

text \<open>
  Deposits from the chain into the application's database: the handler of
  \<open>crates/synddb-client/src/chain_handler.rs\<close>, which queues deposits on a bounded channel, and the integration of
  \<open>crates/synddb-client/src/chain_monitor_integration/active.rs\<close>, which inserts them. The handler runs in
  the monitor's thread and the insertion in the application's; a deposit is sent when the channel has room. The ABI
  decoder of the \<open>Deposit\<close> event and its signature hash are parameters.
\<close>

section \<open>The handler\<close>

record deposit_event =
  de_from :: bytes
  de_to :: bytes
  de_amount :: nat
  de_data :: bytes

record deposit_data =
  dd_tx_hash :: string
  dd_block_number :: u64
  dd_log_index :: "u64 option"
  dd_from :: string
  dd_to :: string
  dd_amount :: string
  dd_data :: bytes

text \<open>The channel: what was sent and not yet received, and whether the receiver still exists.\<close>

record deposit_handler =
  dh_channel :: "deposit_data list"
  dh_connected :: bool
  dh_processed_count :: u64

definition new_deposit_handler :: deposit_handler where
  "new_deposit_handler = \<lparr>dh_channel = [], dh_connected = True, dh_processed_count = 0\<rparr>"

definition get_processed_count :: "deposit_handler \<Rightarrow> u64" where
  "get_processed_count h = dh_processed_count h"

definition deposit_of :: "('vk, 'sg) ext \<Rightarrow> eth_log \<Rightarrow> deposit_event \<Rightarrow> deposit_data" where
  "deposit_of x log deposit =
     \<lparr>dd_tx_hash = (case lg_transaction_hash log of None \<Rightarrow> ''unknown'' | Some h \<Rightarrow> hash_text x h),
      dd_block_number = (case lg_block_number log of None \<Rightarrow> 0 | Some n \<Rightarrow> n),
      dd_log_index = lg_log_index log,
      dd_from = hash_text x (de_from deposit), dd_to = hash_text x (de_to deposit),
      dd_amount = show_nat (de_amount deposit), dd_data = de_data deposit\<rparr>"

definition deposit_handle_event ::
  "('vk, 'sg) ext \<Rightarrow> (eth_log \<Rightarrow> string + deposit_event) \<Rightarrow> eth_log \<Rightarrow> deposit_handler \<Rightarrow> deposit_handler \<times> (string + bool)" where
  "deposit_handle_event x decode_log log h =
     (case decode_log log of
        Inl e \<Rightarrow> (h, Inr False)
      | Inr deposit \<Rightarrow>
          if de_amount deposit = 0 then (h, Inr False)
          else if dh_connected h
          then (h\<lparr>dh_channel := dh_channel h @ [deposit_of x log deposit], dh_processed_count := dh_processed_count h + 1\<rparr>, Inr True)
          else (h, Inr False))"

definition deposit_message_handler ::
  "('vk, 'sg) ext \<Rightarrow> (eth_log \<Rightarrow> string + deposit_event) \<Rightarrow> bytes \<Rightarrow> deposit_handler message_handler" where
  "deposit_message_handler x decode_log signature_hash =
     \<lparr>mh_handle_event = deposit_handle_event x decode_log, mh_event_signature = Some signature_hash,
      mh_on_start = (\<lambda>h. (h, Inr ())), mh_on_stop = (\<lambda>h. (h, Inr ()))\<rparr>"

section \<open>The table of deposits\<close>

record deposit_row =
  dr_block_number :: u64
  dr_log_index :: "u64 option"
  dr_from_address :: string
  dr_to_address :: string
  dr_amount :: string
  dr_data :: bytes
  dr_processed_at :: nat

type_synonym deposits_table = "(string \<times> deposit_row) list"

definition insert_deposit :: "nat \<Rightarrow> deposit_data \<Rightarrow> deposits_table \<Rightarrow> deposits_table" where
  "insert_deposit processed_at deposit table =
     (if map_of table (dd_tx_hash deposit) \<noteq> None then table
      else table @ [(dd_tx_hash deposit,
             \<lparr>dr_block_number = dd_block_number deposit, dr_log_index = dd_log_index deposit, dr_from_address = dd_from deposit,
              dr_to_address = dd_to deposit, dr_amount = dd_amount deposit, dr_data = dd_data deposit, dr_processed_at = processed_at\<rparr>)])"

text \<open>Every deposit in the channel is received and inserted; the first failing statement ends the call. \<open>ios k\<close> is the
  clock and the result of statement \<open>k\<close>; the result is the rest of the channel, the table, and the count or the error.\<close>

fun process_deposits :: "(nat \<Rightarrow> nat \<times> string option) \<Rightarrow> nat \<Rightarrow> deposit_data list \<Rightarrow> deposits_table \<Rightarrow> deposit_data list \<times> deposits_table \<times> (string + nat)" where
  "process_deposits ios k [] table = ([], table, Inr k)"
| "process_deposits ios k (deposit # channel) table =
     (case snd (ios k) of
        Some e \<Rightarrow> (channel, table, Inl e)
      | None \<Rightarrow> process_deposits ios (k + 1) channel (insert_deposit (fst (ios k)) deposit table))"

section \<open>Both threads\<close>

record bridge_state =
  bs_handler :: deposit_handler
  bs_store :: event_store
  bs_table :: deposits_table

definition channel_capacity :: nat where "channel_capacity = 100"

text \<open>The monitor's thread takes one event when the channel has room for its deposit; the application's thread drains the
  channel. All statements succeed.\<close>

inductive bridge_step ::
  "('vk, 'sg) ext \<Rightarrow> (eth_log \<Rightarrow> string + deposit_event) \<Rightarrow> bytes \<Rightarrow> bridge_state \<Rightarrow> bridge_state \<Rightarrow> bool"
  for x decode signature_hash where
  deliver: "io_ok io \<Longrightarrow> length (dh_channel (bs_handler s)) < channel_capacity
    \<Longrightarrow> process_event x (deposit_message_handler x decode signature_hash) io l (bs_handler s, bs_store s) = ((h, st), r)
    \<Longrightarrow> bridge_step x decode signature_hash s (s\<lparr>bs_handler := h, bs_store := st\<rparr>)"
| insert_all: "(\<And>k. snd (ios k) = None)
    \<Longrightarrow> process_deposits ios 0 (dh_channel (bs_handler s)) (bs_table s) = (channel, table, r)
    \<Longrightarrow> bridge_step x decode signature_hash s
          (s\<lparr>bs_handler := (bs_handler s)\<lparr>dh_channel := channel\<rparr>, bs_table := table\<rparr>)"

inductive bridge_reachable ::
  "('vk, 'sg) ext \<Rightarrow> (eth_log \<Rightarrow> string + deposit_event) \<Rightarrow> bytes \<Rightarrow> bridge_state \<Rightarrow> bool"
  for x decode signature_hash where
  start: "bridge_reachable x decode signature_hash
     \<lparr>bs_handler = new_deposit_handler, bs_store = \<lparr>es_processed_events = [], es_last_block = None\<rparr>, bs_table = []\<rparr>"
| step: "bridge_reachable x decode signature_hash s \<Longrightarrow> bridge_step x decode signature_hash s s'
     \<Longrightarrow> bridge_reachable x decode signature_hash s'"

inductive_cases bridge_stepE: "bridge_step x decode signature_hash s s'"

section \<open>Nothing is lost while the process lives\<close>

definition table_keys :: "deposits_table \<Rightarrow> string set" where "table_keys t = fst ` set t"

lemma insert_deposit_keys: "table_keys (insert_deposit now d t) = insert (dd_tx_hash d) (table_keys t)"
  by (auto simp: insert_deposit_def table_keys_def map_of_eq_None_iff image_iff dest: map_of_SomeD)

lemma insert_deposit_distinct: "distinct (map fst t) \<Longrightarrow> distinct (map fst (insert_deposit now d t))"
  by (auto simp: insert_deposit_def map_of_eq_None_iff)

lemma insert_deposit_keeps: "map_of t k = Some r \<Longrightarrow> map_of (insert_deposit now d t) k = Some r"
  by (auto simp: insert_deposit_def map_add_Some_iff)

lemma process_deposits_ok:
  "(\<And>k. snd (ios k) = None) \<Longrightarrow> process_deposits ios k ds t = (ds', t', r) \<Longrightarrow>
     ds' = [] \<and> r = Inr (k + length ds) \<and> table_keys t' = table_keys t \<union> dd_tx_hash ` set ds
     \<and> (distinct (map fst t) \<longrightarrow> distinct (map fst t'))"
proof (induction ds arbitrary: k t)
  case (Cons d ds)
  from Cons.IH [OF Cons.prems(1), of "k + 1" "insert_deposit (fst (ios k)) d t"] Cons.prems show ?case
    by (auto simp: insert_deposit_keys insert_deposit_distinct)
qed simp

definition store_keys :: "event_store \<Rightarrow> string set" where "store_keys st = fst ` set (es_processed_events st)"

lemma processed_keys: "processed x st t \<longleftrightarrow> hash_text x t \<in> store_keys st"
  by (simp add: processed_def store_keys_def)

definition bridge_inv :: "bridge_state \<Rightarrow> bool" where
  "bridge_inv s \<longleftrightarrow>
     store_keys (bs_store s) \<subseteq> dd_tx_hash ` set (dh_channel (bs_handler s)) \<union> table_keys (bs_table s)
     \<and> length (dh_channel (bs_handler s)) \<le> channel_capacity \<and> distinct (map fst (bs_table s)) \<and> store_wf (bs_store s)"

lemma deliver_inv:
  assumes "bridge_inv s" "io_ok io" "length (dh_channel (bs_handler s)) < channel_capacity"
    and "process_event x (deposit_message_handler x decode sig) io l (bs_handler s, bs_store s) = ((h, st), r)"
  shows "bridge_inv (s\<lparr>bs_handler := h, bs_store := st\<rparr>)"
proof -
  have wf: "store_wf st" using process_event_wf [of "(bs_handler s, bs_store s)"] assms(1,4) by (metis bridge_inv_def fst_conv snd_conv)
  have "(h = bs_handler s \<and> st = bs_store s)
    \<or> (\<exists>d. dh_channel h = dh_channel (bs_handler s) @ [d]
         \<and> store_keys st \<subseteq> insert (dd_tx_hash d) (store_keys (bs_store s)))"
    using assms(2,4) by (auto simp: store_keys_def process_event_def deposit_message_handler_def deposit_handle_event_def io_ok_def Let_def
        is_processed_iff mark_processed_None deposit_of_def split: option.splits sum.splits if_splits bool.splits)
  then show ?thesis
  proof
    assume "h = bs_handler s \<and> st = bs_store s"
    then show ?thesis using assms(1) by simp
  next
    assume "\<exists>d. dh_channel h = dh_channel (bs_handler s) @ [d] \<and> store_keys st \<subseteq> insert (dd_tx_hash d) (store_keys (bs_store s))"
    then obtain d where d: "dh_channel h = dh_channel (bs_handler s) @ [d]" "store_keys st \<subseteq> insert (dd_tx_hash d) (store_keys (bs_store s))" by blast
    have "store_keys st \<subseteq> insert (dd_tx_hash d) (dd_tx_hash ` set (dh_channel (bs_handler s))) \<union> table_keys (bs_table s)"
      using assms(1) d(2) unfolding bridge_inv_def by blast
    with d(1) assms(1,3) wf show ?thesis by (simp add: bridge_inv_def)
  qed
qed

lemma bridge_step_inv: "bridge_inv s \<Longrightarrow> bridge_step x decode sig s s' \<Longrightarrow> bridge_inv s'"
proof (elim bridge_stepE, goal_cases)
  case (1 io l h st r)
  then show ?case using deliver_inv by blast
next
  case (2 ios channel table r)
  with process_deposits_ok [OF 2(3,4)] show ?case by (auto simp: bridge_inv_def)
qed


definition demo_decode :: "eth_log \<Rightarrow> string + deposit_event" where
  "demo_decode l = Inr \<lparr>de_from = [1], de_to = [2], de_amount = 5, de_data = []\<rparr>"

definition demo_deposit :: deposit_data where
  "demo_deposit = deposit_of demo_ext (demo_log 3 1) \<lparr>de_from = [1], de_to = [2], de_amount = 5, de_data = []\<rparr>"

lemma deposit_accepted:
  assumes "io_ok io" "lg_transaction_hash l = Some t" "\<not> processed x st t" "decode l = Inr d" "de_amount d \<noteq> 0" "dh_connected h"
  shows "process_event x (deposit_message_handler x decode sig) io l (h, st) =
    ((h\<lparr>dh_channel := dh_channel h @ [deposit_of x l d], dh_processed_count := dh_processed_count h + 1\<rparr>,
      fst (mark_processed x None (io_now io) t (case lg_block_number l of None \<Rightarrow> 0 | Some n \<Rightarrow> n) (lg_log_index l) st)), Inr ())"
  using process_event_fresh [OF assms(1,2), of x "(h, st)" "deposit_message_handler x decode sig"] assms(3-)
  by (simp add: deposit_message_handler_def deposit_handle_event_def)


section \<open>Polling for deposits\<close>

text \<open>While its receiver exists the handler accepts every log that decodes to a deposit of a positive amount.\<close>

interpretation dep: event_handler "deposit_message_handler x decode sig" dh_connected
  "\<lambda>l. \<exists>d. decode l = Inr d \<and> de_amount d \<noteq> 0" for x decode sig
  by unfold_locales (auto simp: deposit_message_handler_def deposit_handle_event_def split: sum.splits)


definition demo_rpc_deposits :: "deposit_handler rpc_state" where
  "demo_rpc_deposits = \<lparr>rs_handler = new_deposit_handler, rs_store = \<lparr>es_processed_events = [], es_last_block = None\<rparr>,
     rs_current_block = 1, rs_consecutive_errors = 0, rs_requests = 0\<rparr>"


section \<open>What a restart loses\<close>

text \<open>A deposit that waits in the channel is lost for ever by a restart: the monitor's database has recorded its
  transaction as processed when it was queued, so the event is skipped when it is delivered again to the restarted
  process, and it never reaches the table of deposits.\<close>

theorem restart_loses_queued_deposit:
  assumes "hex_codec_ok x" and "io_ok io" and "lg_transaction_hash l = Some t" and "\<not> processed x st t"
    and "decode l = Inr d" and "de_amount d \<noteq> 0"
  shows "\<exists>h st'. process_event x (deposit_message_handler x decode sig) io l (new_deposit_handler, st) = ((h, st'), Inr ())
    \<and> dh_channel h = [deposit_of x l d]
    \<and> (\<forall>io'. io_ok io' \<longrightarrow> process_event x (deposit_message_handler x decode sig) io' l (new_deposit_handler, st')
          = ((new_deposit_handler, st'), Inr ()))"
proof -
  let ?st' = "fst (mark_processed x None (io_now io) t (case lg_block_number l of None \<Rightarrow> 0 | Some n \<Rightarrow> n) (lg_log_index l) st)"
  have "processed x ?st' t" by (simp add: processed_mark [OF assms(1)])
  then have "process_event x (deposit_message_handler x decode sig) io' l (new_deposit_handler, ?st') = ((new_deposit_handler, ?st'), Inr ())"
    if "io_ok io'" for io' by (intro process_event_processed [OF that assms(3)]) simp
  with deposit_accepted [where decode = decode, OF assms(2-6), of new_deposit_handler sig] show ?thesis by (auto simp: new_deposit_handler_def)
qed

theorem restart_loses_queued_deposit_witness:
  "\<exists>h st'. process_event demo_ext (deposit_message_handler demo_ext demo_decode [9]) demo_io (demo_log 3 1)
       (new_deposit_handler, \<lparr>es_processed_events = [], es_last_block = None\<rparr>) = ((h, st'), Inr ())
     \<and> dh_channel h = [demo_deposit]
     \<and> process_event demo_ext (deposit_message_handler demo_ext demo_decode [9]) demo_io (demo_log 3 1) (new_deposit_handler, st')
         = ((new_deposit_handler, st'), Inr ())"
proof -
  have io: "io_ok demo_io" by (simp add: io_ok_def demo_io_def)
  have l: "lg_transaction_hash (demo_log 3 1) = Some (replicate 32 1)" by (simp add: demo_log_def)
  have "\<not> processed demo_ext \<lparr>es_processed_events = [], es_last_block = None\<rparr> (replicate 32 1)" by (simp add: processed_def)
  from restart_loses_queued_deposit [OF demo_hex io l this, of demo_decode "\<lparr>de_from = [1], de_to = [2], de_amount = 5, de_data = []\<rparr>" "[9]"] io
  show ?thesis by (auto simp: demo_decode_def demo_deposit_def)
qed

text \<open>A failing insert loses the deposit it was for: it is already taken from the channel.\<close>

lemma failed_insert_drops_deposit:
  assumes "snd (ios k) = None" "snd (ios (k + 1)) = Some e"
  shows "process_deposits ios k (a # b # ds) t = (ds, insert_deposit (fst (ios k)) a t, Inl e)"
  using assms by simp

text \<open>A row is never changed by a later deposit of the same transaction, which is dropped.\<close>

lemma second_deposit_dropped: "dd_tx_hash b = dd_tx_hash a \<Longrightarrow> insert_deposit n2 b (insert_deposit n1 a t) = insert_deposit n1 a t"
proof -
  assume eq: "dd_tx_hash b = dd_tx_hash a"
  have "dd_tx_hash a \<in> fst ` set (insert_deposit n1 a t)" using insert_deposit_keys [of n1 a t] by (simp add: table_keys_def)
  then have "map_of (insert_deposit n1 a t) (dd_tx_hash b) \<noteq> None" by (simp add: eq map_of_eq_None_iff)
  then show ?thesis by (simp add: insert_deposit_def [of n2 b])
qed

end
