(* ===== verification/Client.thy ===== *)
theory Client
  imports Client_Sender Deposits
begin

text \<open>
  The handle of the client library, \<open>crates/synddb-client/src/lib.rs\<close>, with the configuration (\<open>config.rs\<close>) and the
  marker file of pending schema changes (\<open>ddl_recovery.rs\<close>). The state is that of the handle, the marker file of its
  database, and both channels; the sender threads are those of \<open>Client_Sender\<close>.
\<close>

section \<open>Configuration\<close>

definition parse_token_type :: "string \<Rightarrow> string + token_type" where
  "parse_token_type s =
     (if str_lower s = ''oidc'' then Inr Oidc
      else if str_lower s = ''pki'' then Inr Pki
      else if str_lower s \<in> {''aws-principal-tags'', ''aws_principaltags'', ''awsprincipaltags''} then Inr AwsPrincipaltags
      else Inl (''Invalid token type '' @ quoted s @ ''. Expected: oidc, pki, or aws-principal-tags''))"

definition validate_client_config :: "client_config \<Rightarrow> string + unit" where
  "validate_client_config c =
     (if co_snapshot_interval c = 0
      then Inl ''snapshot_interval must be greater than 0. Use a high value (e.g., u64::MAX) if you want infrequent snapshots.''
      else if co_buffer_size c = 0
      then Inl ''buffer_size must be greater than 0. A zero-capacity channel causes blocking behavior.''
      else if co_push_interval c = 0
      then Inl ''push_interval must be greater than 0. Use a small value (e.g., 1ms) if you want fast pushing.''
      else Inr ())"

section \<open>The handle\<close>

record 'c syndb =
  sy_sequencer_url :: string
  sy_db_path :: "string option"
  sy_monitor :: "'c session_state option"
  sy_recovery :: "recovery option"
  sy_stats :: replication_stats
  sy_marker :: bool

text \<open>The marker file of this database; errors of the file system are only logged.\<close>

definition write_marker :: "string option \<Rightarrow> 'c syndb \<Rightarrow> 'c syndb" where
  "write_marker io d = (if io = None then d\<lparr>sy_marker := True\<rparr> else d)"

definition check_marker :: "'c syndb \<Rightarrow> bool" where
  "check_marker d = sy_marker d"

definition clear_marker :: "string option \<Rightarrow> 'c syndb \<Rightarrow> 'c syndb" where
  "clear_marker io d = (if sy_marker d \<and> io = None then d\<lparr>sy_marker := False\<rparr> else d)"

record snapshot_io =
  si_autocommit :: bool
  si_backup :: "string + bytes"
  si_now :: int
  si_message_id :: string
  si_clear :: "string option"
  si_net :: network

definition create_snapshot :: "snapshot_io \<Rightarrow> 'c syndb \<Rightarrow> string + snapshot" where
  "create_snapshot io d =
     (case sy_monitor d of
        None \<Rightarrow> Inl ''Monitor already shut down''
      | Some m \<Rightarrow> session_snapshot (si_autocommit io) (si_backup io) (si_now io) (Some m))"

definition client_snapshot :: "payload_codec \<Rightarrow> snapshot_io \<Rightarrow> 'c syndb \<Rightarrow> 'c syndb \<times> (string + snapshot)" where
  "client_snapshot codec io d =
     (case create_snapshot io d of
        Inl e \<Rightarrow> (d, Inl e)
      | Inr s \<Rightarrow>
          (let d1 = (if sy_db_path d \<noteq> None then clear_marker (si_clear io) d else d);
               request = \<lparr>sq_snapshot = snapshot_data_of s, sq_message_id = si_message_id io, sq_attestation_token = None\<rparr>
           in (d1, bind_r (map_err (\<lambda>e. ''Invalid URL: '' @ e) (nw_join (si_net io) (sy_sequencer_url d) ''snapshots'')) (\<lambda>url.
                   bind_r (map_err (\<lambda>e. ''Failed to serialize snapshot: '' @ e) (snapshot_to_cbor codec request)) (\<lambda>cbor_bytes.
                   (case nw_post (si_net io) 0 url cbor_bytes of
                      Inl e \<Rightarrow> Inl (''Failed to send snapshot: '' @ show_send_error e)
                    | Inr r \<Rightarrow> if 400 \<le> hr_status r \<and> hr_status r < 600
                              then Inl (''Sequencer rejected snapshot: '' @ hr_status_text r) else Inr s))))))"

definition client_push :: "('c list \<Rightarrow> bytes) \<Rightarrow> push_io \<Rightarrow> 'c syndb \<Rightarrow> ('c syndb \<times> (string + unit)) outcome" where
  "client_push encode io d =
     (case sy_monitor d of
        None \<Rightarrow> Returns (d, Inl ''Monitor already shut down'')
      | Some m \<Rightarrow>
          (case session_push encode io (Some m) of
             Panics \<Rightarrow> Panics
           | Returns (m1, r) \<Rightarrow> Returns (d\<lparr>sy_monitor := m1\<rparr>, r)))"

text \<open>
  A transaction: the closure's result, with the row changes it made, and the results of \<open>BEGIN\<close> and \<open>COMMIT\<close>. An
  error of the closure or of the commit rolls back.\<close>

definition client_transaction ::
  "('c list \<Rightarrow> bytes) \<Rightarrow> string option \<Rightarrow> string + ('c list \<times> 'a) \<Rightarrow> string option \<Rightarrow> push_io \<Rightarrow> 'c syndb \<Rightarrow> ('c syndb \<times> (string + 'a)) outcome" where
  "client_transaction encode begin_error f commit_error io d =
     (case begin_error of
        Some e \<Rightarrow> Returns (d, Inl e)
      | None \<Rightarrow>
          (case f of
             Inl e \<Rightarrow> Returns (d, Inl e)
           | Inr (changes, result) \<Rightarrow>
               (case commit_error of
                  Some e \<Rightarrow> Returns (d, Inl e)
                | None \<Rightarrow>
                    (case client_push encode io (d\<lparr>sy_monitor := map_option (update_hook changes) (sy_monitor d)\<rparr>) of
                       Panics \<Rightarrow> Panics
                     | Returns (d1, Inl e) \<Rightarrow> Returns (d1, Inl e)
                     | Returns (d1, Inr _) \<Rightarrow> Returns (d1, Inr result)))))"

section \<open>Schema changes\<close>

definition is_ddl :: "string \<Rightarrow> bool" where
  "is_ddl sql \<longleftrightarrow>
     (let upper = str_upper (trim_matches unicode_whitespace sql)
      in starts_with ''CREATE '' upper \<or> starts_with ''ALTER '' upper \<or> starts_with ''DROP '' upper)"

text \<open>\<open>exec\<close> is the result of the statements, with the row changes they make.\<close>

definition execute_ddl ::
  "payload_codec \<Rightarrow> string option \<Rightarrow> string + 'c list \<Rightarrow> snapshot_io \<Rightarrow> string \<Rightarrow> 'c syndb \<Rightarrow> 'c syndb \<times> (string + unit)" where
  "execute_ddl codec mark exec io sql d =
     (let ddl = is_ddl sql;
          d1 = (if ddl \<and> sy_db_path d \<noteq> None then write_marker mark d else d)
      in case exec of
           Inl e \<Rightarrow> (d1, Inl e)
         | Inr changes \<Rightarrow>
             (let d2 = d1\<lparr>sy_monitor := map_option (update_hook changes) (sy_monitor d1)\<rparr>
              in if ddl
                 then (case client_snapshot codec io d2 of
                         (d3, Inl e) \<Rightarrow> (d3, Inl e)
                       | (d3, Inr s) \<Rightarrow> (d3, Inr ()))
                 else (d2, Inr ())))"

section \<open>Attaching\<close>

record attach_io =
  aa_session_error :: "string option"
  aa_attach_error :: "string option"
  aa_schema_hash :: u64
  aa_recovery_error :: "string option"
  aa_recovery_disk :: "recovery option"
  aa_forced :: snapshot_io
  aa_has_tables :: bool
  aa_initial :: snapshot_io

definition snapshot_channel_capacity :: nat where "snapshot_channel_capacity = 10"

text \<open>The forced snapshot of a pending schema change, and the one of a database that already has tables; their errors are
  only logged. \<open>marker\<close> is what the previous run left.\<close>

definition attach_with_config ::
  "payload_codec \<Rightarrow> attach_io \<Rightarrow> string option \<Rightarrow> bool \<Rightarrow> client_config \<Rightarrow> string + 'c syndb" where
  "attach_with_config codec io db_path marker config =
     bind_r (validate_client_config config) (\<lambda>_.
     bind_r (new_session_monitor (aa_session_error io) (aa_attach_error io)
         \<lparr>ch_queue = [], ch_capacity = co_buffer_size config, ch_connected = True\<rparr> (co_snapshot_interval config)
         (Some \<lparr>ch_queue = [], ch_capacity = snapshot_channel_capacity, ch_connected = True\<rparr>) (aa_schema_hash io)) (\<lambda>m.
     let recovery = (if co_enable_recovery config then result_ok (new_recovery (aa_recovery_error io) (aa_recovery_disk io)) else None);
         needs_recovery_snapshot = (db_path \<noteq> None \<and> marker);
         d0 = \<lparr>sy_sequencer_url = co_sequencer_url config, sy_db_path = db_path, sy_monitor = Some m, sy_recovery = recovery,
               sy_stats = new_replication_stats, sy_marker = marker\<rparr>;
         d1 = (if needs_recovery_snapshot then fst (client_snapshot codec (aa_forced io) d0) else d0);
         d2 = (if aa_has_tables io then fst (client_snapshot codec (aa_initial io) d1) else d1)
     in Inr d2))"

section \<open>Reading\<close>

definition recovery_stats :: "string option \<Rightarrow> 'c syndb \<Rightarrow> string + (nat \<times> nat) option" where
  "recovery_stats io d =
     (case sy_recovery d of
        None \<Rightarrow> Inr None
      | Some rv \<Rightarrow> bind_r (get_failed_counts io rv) (\<lambda>c. Inr (Some c)))"

definition client_stats :: "'c syndb \<Rightarrow> stats_snapshot" where
  "client_stats d = from_stats (sy_stats d)"

definition client_is_healthy :: "'c syndb \<Rightarrow> bool" where
  "client_is_healthy d = rp_last_health_check_ok (sy_stats d)"

definition client_process_deposits ::
  "(nat \<Rightarrow> nat \<times> string option) \<Rightarrow> (deposit_data list \<times> deposits_table) option \<Rightarrow> (deposit_data list \<times> deposits_table) option \<times> (string + nat)" where
  "client_process_deposits ios monitor =
     (case monitor of
        None \<Rightarrow> (None, Inl ''Chain monitor not enabled or failed to start'')
      | Some (channel, table) \<Rightarrow> (case process_deposits ios 0 channel table of (c, t, r) \<Rightarrow> (Some (c, t), r)))"

section \<open>Ending\<close>

text \<open>
  \<open>shutdown\<close> sends both signals and joins the threads, panicking when one of them has, which empties the changeset channel and disconnects both; the
  handle is dropped afterwards, and that is when the monitor extracts for the last time. The result is what
  is then in the channel of the changesets, which has no receiver.\<close>

definition disconnect :: "'c session_state \<Rightarrow> 'c session_state" where
  "disconnect m = m\<lparr>ses_changeset_tx := (ses_changeset_tx m)\<lparr>ch_queue := [], ch_connected := False\<rparr>,
     ses_snapshot_tx := map_option (\<lambda>ch. ch\<lparr>ch_connected := False\<rparr>) (ses_snapshot_tx m)\<rparr>"

definition client_shutdown ::
  "('c list \<Rightarrow> bytes) \<Rightarrow> bool \<Rightarrow> bool \<Rightarrow> push_io \<Rightarrow> 'c syndb \<Rightarrow> (changeset channel \<times> snapshot channel option) option outcome" where
  "client_shutdown encode changeset_sender_ok snapshot_sender_ok io d =
     (if changeset_sender_ok \<and> snapshot_sender_ok
      then drop_monitor encode io (map_option disconnect (sy_monitor d)) else Panics)"

text \<open>Dropping the handle without \<open>shutdown\<close>: the last extraction still reaches the channel, which is then closed; the
  sender sees the changesets in it, then the closed channel or the shutdown signal.\<close>

definition client_drop ::
  "('c list \<Rightarrow> bytes) \<Rightarrow> push_io \<Rightarrow> 'c syndb \<Rightarrow> (changeset channel \<times> snapshot channel option) option outcome" where
  "client_drop encode io d = drop_monitor encode io (sy_monitor d)"

section \<open>Well-formed handles\<close>

text \<open>What the constructor establishes: the snapshot channel exists, the interval and the capacity are positive.\<close>

definition session_wf :: "'c session_state \<Rightarrow> bool" where
  "session_wf m \<longleftrightarrow> ses_snapshot_tx m \<noteq> None \<and> 0 < ses_snapshot_interval m \<and> 0 < ch_capacity (ses_changeset_tx m)"

definition client_wf :: "'c syndb \<Rightarrow> bool" where
  "client_wf d \<longleftrightarrow> (\<forall>m. sy_monitor d = Some m \<longrightarrow> session_wf m)"

datatype 'c client_call =
    CallPush push_io
  | CallTransaction "string option" "string + ('c list \<times> unit)" "string option" push_io
  | CallSnapshot snapshot_io
  | CallDdl "string option" "string + 'c list" snapshot_io string

fun do_call :: "('c list \<Rightarrow> bytes) \<Rightarrow> payload_codec \<Rightarrow> 'c client_call \<Rightarrow> 'c syndb \<Rightarrow> 'c syndb outcome" where
  "do_call encode codec (CallPush io) d =
     (case client_push encode io d of Panics \<Rightarrow> Panics | Returns (d1, r) \<Rightarrow> Returns d1)"
| "do_call encode codec (CallTransaction b f c io) d =
     (case client_transaction encode b f c io d of Panics \<Rightarrow> Panics | Returns (d1, r) \<Rightarrow> Returns d1)"
| "do_call encode codec (CallSnapshot io) d = Returns (fst (client_snapshot codec io d))"
| "do_call encode codec (CallDdl mark exec io sql) d = Returns (fst (execute_ddl codec mark exec io sql d))"

fun client_calls :: "('c list \<Rightarrow> bytes) \<Rightarrow> payload_codec \<Rightarrow> 'c client_call list \<Rightarrow> 'c syndb \<Rightarrow> 'c syndb outcome" where
  "client_calls encode codec [] d = Returns d"
| "client_calls encode codec (call # calls) d =
     (case do_call encode codec call d of Panics \<Rightarrow> Panics | Returns d1 \<Rightarrow> client_calls encode codec calls d1)"

lemma update_hook_wf [simp]: "session_wf (update_hook cs m) \<longleftrightarrow> session_wf m"
  by (simp add: session_wf_def update_hook_def)

lemma snapshots_wf:
  "session_wf m \<Longrightarrow> schema_snapshot io m = Returns m' \<Longrightarrow> session_wf m'"
  "session_wf m \<Longrightarrow> interval_snapshot io m = Returns m' \<Longrightarrow> session_wf m'"
  by (auto simp: schema_snapshot_def interval_snapshot_def session_wf_def split: if_splits sum.splits option.splits)

lemma queue_changeset_wf: "session_wf m \<Longrightarrow> session_wf (queue_changeset c m)"
  by (auto simp: queue_changeset_def session_wf_def try_send_def split: option.splits if_splits)

lemma extract_wf:
  assumes "session_wf m"
  shows "\<exists>m' r. extract_and_send_changeset encode io m = Returns (m', r) \<and> session_wf m'"
proof (cases "ses_has_changes m \<and> pu_autocommit io")
  case True
  have tx: "ses_snapshot_tx m \<noteq> None" using assms by (simp add: session_wf_def)
  obtain m1 where m1: "schema_snapshot io m = Returns m1" "session_wf m1"
    using snapshots_return(1) [OF tx, of io] snapshots_wf(1) [OF assms] by blast
  show ?thesis
  proof (cases "pu_changeset_error io \<noteq> None \<or> encode (ses_session m1) = []")
    case stop: True
    have "session_wf (m1\<lparr>ses_has_changes := False\<rparr>)" using m1(2) by (simp add: session_wf_def)
    with stop True m1 show ?thesis by (cases "pu_changeset_error io") (simp_all add: extract_and_send_changeset_def Let_def)
  next
    case False
    define m3 where "m3 = queue_changeset \<lparr>cg_data = encode (ses_session m1), cg_sequence = ses_sequence m1, cg_timestamp = pu_now io\<rparr>
      (m1\<lparr>ses_has_changes := False, ses_sequence := ses_sequence m1 + 1, ses_changesets_since_snapshot := ses_changesets_since_snapshot m1 + 1\<rparr>)"
    have m3: "session_wf m3" unfolding m3_def using m1(2) by (intro queue_changeset_wf) (simp add: session_wf_def)
    then have "ses_snapshot_tx m3 \<noteq> None" by (simp add: session_wf_def)
    then obtain m4 where m4: "interval_snapshot io m3 = Returns m4" "session_wf m4"
      using snapshots_return(2) [of m3 io] snapshots_wf(2) [OF m3] by blast
    have "extract_and_send_changeset encode io m = Returns (recreate_session (pu_new_session_error io) m4)"
      using True False m1(1) m4(1) by (simp add: extract_and_send_changeset_def Let_def flip: m3_def)
    moreover have "session_wf (fst (recreate_session (pu_new_session_error io) m4))"
      using m4(2) by (simp add: recreate_session_def session_wf_def split: option.splits)
    ultimately show ?thesis by (metis prod.collapse)
  qed
qed (use assms in \<open>auto simp: extract_and_send_changeset_def\<close>)

lemma client_push_wf: "client_wf d \<Longrightarrow> \<exists>d' r. client_push encode io d = Returns (d', r) \<and> client_wf d'"
proof (cases "sy_monitor d")
  case (Some m)
  assume "client_wf d"
  with Some extract_wf [of m encode io] obtain m' r where "extract_and_send_changeset encode io m = Returns (m', r)" "session_wf m'"
    by (auto simp: client_wf_def)
  with Some show ?thesis by (simp add: client_push_def session_push_def client_wf_def)
qed (simp add: client_push_def)

lemma client_snapshot_monitor [simp]: "sy_monitor (fst (client_snapshot codec io d)) = sy_monitor d"
  by (auto simp: client_snapshot_def clear_marker_def Let_def split: sum.splits)

lemma client_wf_monitor: "sy_monitor d' = sy_monitor d \<Longrightarrow> client_wf d' = client_wf d"
  by (simp add: client_wf_def)

lemma client_transaction_wf:
  assumes "client_wf d"
  shows "\<exists>d' r. client_transaction encode b f c io d = Returns (d', r) \<and> client_wf d'"
proof (cases "b = None \<and> c = None \<and> (\<exists>changes result. f = Inr (changes, result))")
  case True
  then obtain changes result where f: "f = Inr (changes, result)" "b = None" "c = None" by blast
  have "client_wf (d\<lparr>sy_monitor := map_option (update_hook changes) (sy_monitor d)\<rparr>)"
    using assms by (auto simp: client_wf_def)
  then obtain d' r where "client_push encode io (d\<lparr>sy_monitor := map_option (update_hook changes) (sy_monitor d)\<rparr>) = Returns (d', r)" "client_wf d'"
    using client_push_wf by blast
  then show ?thesis by (cases r) (simp_all add: client_transaction_def f)
next
  case False
  with assms show ?thesis by (auto simp: client_transaction_def split: option.splits sum.splits)
qed

lemma execute_ddl_wf: "client_wf d \<Longrightarrow> client_wf (fst (execute_ddl codec mark exec io sql d))"
proof -
  assume wf: "client_wf d"
  let ?d1 = "if is_ddl sql \<and> sy_db_path d \<noteq> None then write_marker mark d else d"
  have m: "sy_monitor ?d1 = sy_monitor d" by (simp add: write_marker_def)
  have wf2: "client_wf (?d1\<lparr>sy_monitor := map_option (update_hook cs) (sy_monitor ?d1)\<rparr>)" for cs
    using wf m by (auto simp: client_wf_def)
  have wf1: "client_wf ?d1" using wf client_wf_monitor [OF m] by blast
  show ?thesis
  proof (cases exec)
    case (Inl e)
    with wf1 show ?thesis by (simp add: execute_ddl_def Let_def)
  next
    case (Inr cs)
    let ?d2 = "?d1\<lparr>sy_monitor := map_option (update_hook cs) (sy_monitor ?d1)\<rparr>"
    obtain d3 q where s: "client_snapshot codec io ?d2 = (d3, q)" by fastforce
    then have "client_wf d3" using wf2 client_wf_monitor [of d3 ?d2] client_snapshot_monitor [of codec io ?d2] by (metis fst_conv)
    with s Inr wf2 [of cs] show ?thesis by (cases q) (auto simp: execute_ddl_def Let_def)
  qed
qed

lemma do_call_wf: "client_wf d \<Longrightarrow> \<exists>d'. do_call encode codec call d = Returns d' \<and> client_wf d'"
proof (cases call)
  case (CallPush io)
  assume "client_wf d"
  with CallPush client_push_wf [of d encode io] show ?thesis by auto
next
  case (CallTransaction b f c io)
  assume "client_wf d"
  with CallTransaction client_transaction_wf [of d encode b f c io] show ?thesis by auto
next
  case (CallSnapshot io)
  assume "client_wf d"
  with CallSnapshot show ?thesis using client_wf_monitor [OF client_snapshot_monitor, of codec io d] by simp
next
  case (CallDdl mark exec io sql)
  assume "client_wf d"
  with CallDdl execute_ddl_wf [of d] show ?thesis by simp
qed

lemma attach_wf: "attach_with_config codec io db_path marker config = Inr d \<Longrightarrow> client_wf d"
proof -
  assume a: "attach_with_config codec io db_path marker config = Inr d"
  have "validate_client_config config = Inr ()"
    using a by (auto simp: attach_with_config_def bind_r_eq_Inr)
  then have "0 < co_snapshot_interval config" "0 < co_buffer_size config"
    by (auto simp: validate_client_config_def word_gt_0 split: if_splits)
  with a show ?thesis
    by (auto simp: attach_with_config_def bind_r_eq_Inr Let_def new_session_monitor_def new_session_state_def client_wf_def session_wf_def
        split: if_splits)
qed


definition demo_snapshot_io :: snapshot_io where
  "demo_snapshot_io = \<lparr>si_autocommit = True, si_backup = Inr [9], si_now = 7, si_message_id = ''s1'', si_clear = None, si_net = fi_net demo_flush_io\<rparr>"

definition demo_attach_io :: attach_io where
  "demo_attach_io = \<lparr>aa_session_error = None, aa_attach_error = None, aa_schema_hash = 5, aa_recovery_error = None,
     aa_recovery_disk = None, aa_forced = demo_snapshot_io, aa_has_tables = False, aa_initial = demo_snapshot_io\<rparr>"

definition demo_client :: "u8 syndb" where
  "demo_client = \<lparr>sy_sequencer_url = ''http://s/'', sy_db_path = Some ''app.db'',
     sy_monitor = Some (new_session_state (demo_channel 2) 100 (Some (demo_channel 10)) 5), sy_recovery = Some demo_recovery,
     sy_stats = new_replication_stats, sy_marker = False\<rparr>"

lemma demo_attach: "attach_with_config demo_codec demo_attach_io (Some ''app.db'') False demo_client_config = Inr demo_client"
  by (simp add: attach_with_config_def validate_client_config_def demo_client_config_def new_session_monitor_def demo_attach_io_def
      demo_client_def demo_channel_def snapshot_channel_capacity_def new_recovery_def demo_recovery_def Let_def)


section \<open>The marker of a schema change\<close>

lemma client_snapshot_marker:
  "sy_marker (fst (client_snapshot codec io d)) \<longleftrightarrow>
     sy_marker d \<and> \<not> ((\<exists>s. create_snapshot io d = Inr s) \<and> sy_db_path d \<noteq> None \<and> si_clear io = None)"
  by (auto simp: client_snapshot_def clear_marker_def Let_def split: sum.splits)

lemma client_snapshot_path [simp]: "sy_db_path (fst (client_snapshot codec io d)) = sy_db_path d"
  by (auto simp: client_snapshot_def clear_marker_def Let_def split: sum.splits)

lemma create_snapshot_Inr:
  "create_snapshot io d = Inr s \<Longrightarrow> si_autocommit io \<and> si_backup io = Inr (sp_data s)"
  by (auto simp: create_snapshot_def session_snapshot_def create_snapshot_internal_def bind_r_eq_Inr split: option.splits if_splits)

lemma attach_clears_marker:
  assumes "attach_with_config codec aio (Some path) True config = Inr d'" "\<not> sy_marker d'"
  shows "\<exists>sio \<in> {aa_forced aio, aa_initial aio}. si_autocommit sio \<and> (\<exists>b. si_backup sio = Inr b)"
proof -
  obtain m :: "'a session_state" and r where
    "d' = (let d0 = \<lparr>sy_sequencer_url = co_sequencer_url config, sy_db_path = Some path, sy_monitor = Some m, sy_recovery = r,
         sy_stats = new_replication_stats, sy_marker = True\<rparr>;
         d1 = fst (client_snapshot codec (aa_forced aio) d0)
       in if aa_has_tables aio then fst (client_snapshot codec (aa_initial aio) d1) else d1)"
    using assms(1) by (cases "aa_has_tables aio") (auto simp: attach_with_config_def bind_r_eq_Inr Let_def)
  with assms(2) show ?thesis
    by (auto simp: Let_def client_snapshot_marker split: if_splits dest: create_snapshot_Inr)
qed

text \<open>C40: The marker of a schema change stands until a snapshot exists. When statements that change the schema run on a
  database with a path and the marker can be written, then after the call either the marker is on disk or the statements
  succeeded and a snapshot of the database was made; and an attach that finds the marker removes it only when one of its
  snapshots read the whole database outside of a transaction.\<close>

theorem ddl_marker_until_snapshot:
  assumes "is_ddl sql" "sy_db_path d = Some path"
  shows "(sy_marker (fst (execute_ddl codec None exec io sql d)) \<or>
      (\<exists>changes s. exec = Inr changes \<and>
         create_snapshot io (d\<lparr>sy_marker := True, sy_monitor := map_option (update_hook changes) (sy_monitor d)\<rparr>) = Inr s))
   \<and> (\<forall>d'. attach_with_config codec aio (Some path) True config = Inr (d' :: 'b syndb) \<longrightarrow>
        sy_marker d' \<or> (\<exists>sio \<in> {aa_forced aio, aa_initial aio}. si_autocommit sio \<and> (\<exists>b. si_backup sio = Inr b)))"
proof (intro conjI allI impI)
  show "sy_marker (fst (execute_ddl codec None exec io sql d)) \<or>
     (\<exists>changes s. exec = Inr changes \<and> create_snapshot io (d\<lparr>sy_marker := True, sy_monitor := map_option (update_hook changes) (sy_monitor d)\<rparr>) = Inr s)"
  proof (cases exec)
    case (Inl e)
    with assms show ?thesis by (simp add: execute_ddl_def write_marker_def Let_def)
  next
    case (Inr changes)
    let ?d2 = "d\<lparr>sy_marker := True, sy_monitor := map_option (update_hook changes) (sy_monitor d)\<rparr>"
    have "fst (execute_ddl codec None exec io sql d) = fst (client_snapshot codec io ?d2)"
      using assms Inr by (auto simp: execute_ddl_def write_marker_def Let_def split: prod.splits sum.splits)
    with Inr show ?thesis by (auto simp: client_snapshot_marker)
  qed
qed (use attach_clears_marker in blast)

lemma demo_is_ddl: "is_ddl '' create table t (x)''"
  by code_simp

theorem ddl_marker_until_snapshot_witness:
  "sy_marker (fst (execute_ddl demo_codec None (Inl ''locked'') demo_snapshot_io '' create table t (x)'' demo_client))"
  using conjunct1 [OF ddl_marker_until_snapshot [OF demo_is_ddl, of demo_client "''app.db''" demo_codec "Inl ''locked''" demo_snapshot_io]]
  by (simp add: demo_client_def)

section \<open>Snapshots and changes that are lost\<close>

text \<open>A snapshot that the sequencer does not receive is nevertheless the end of the marker: when the statements of a
  schema change succeed and the snapshot is made, the marker is gone whatever the network did; when the
  request failed, the caller gets an error, nothing is kept for recovery and no restart repeats the snapshot.\<close>

theorem marker_cleared_though_send_failed:
  assumes "is_ddl sql" "sy_db_path d = Some path" "si_clear io = None"
    "create_snapshot io (d\<lparr>sy_marker := True, sy_monitor := map_option (update_hook changes) (sy_monitor d)\<rparr>) = Inr s"
    "nw_join (si_net io) (sy_sequencer_url d) ''snapshots'' = Inr url"
    "\<forall>body. nw_post (si_net io) 0 url body = Inl e"
    "snapshot_to_cbor codec \<lparr>sq_snapshot = snapshot_data_of s, sq_message_id = si_message_id io, sq_attestation_token = None\<rparr> = Inr bytes"
  shows "\<exists>d'. execute_ddl codec None (Inr changes) io sql d = (d', Inl (''Failed to send snapshot: '' @ show_send_error e))
     \<and> \<not> sy_marker d' \<and> sy_recovery d' = sy_recovery d"
  using assms
  by (simp add: execute_ddl_def write_marker_def client_snapshot_def clear_marker_def Let_def)

text \<open>After \<open>shutdown\<close>, the changes that had not been pushed are not in any channel: the last extraction runs when the
  sender threads are gone, its changeset is dropped and the call still ends normally.\<close>

theorem shutdown_loses_unpushed_changes:
  assumes "client_wf d" "sy_monitor d = Some m"
  shows "\<exists>changesets snapshots. client_shutdown encode True True io d = Returns (Some (changesets, snapshots)) \<and> ch_queue changesets = []"
proof -
  have disc: "session_wf (disconnect m)" using assms by (simp add: client_wf_def session_wf_def disconnect_def)
  obtain m' r where m': "extract_and_send_changeset encode io (disconnect m) = Returns (m', r)"
    using extract_wf [OF disc] by blast
  have "ch_queue (ses_changeset_tx m') = []"
    using m' by (auto simp: extract_and_send_changeset_def disconnect_def schema_snapshot_def interval_snapshot_def queue_changeset_def
        try_send_def recreate_session_def Let_def split: if_splits option.splits sum.splits outcome.splits)
  with m' assms(2) show ?thesis by (simp add: client_shutdown_def drop_monitor_def)
qed

end
