(* ===== verification/Client_Ffi.thy ===== *)
theory Client_Ffi
  imports Client
begin

text \<open>
  The C interface of the client library, \<open>crates/synddb-client/src/ffi.rs\<close>. A C string is its bytes or the null pointer, a
  handle the address of a boxed client or null; the state holds the boxed clients, the error of the last call and the number
  of connections that were opened, which are leaked on purpose. Using an address that holds no client is undefined behaviour and
  has the value \<open>None\<close>.
\<close>

section \<open>State\<close>

datatype synddb_error =
    FfiSuccess | FfiInvalidPointer | FfiInvalidUtf8 | FfiDatabaseError | FfiAttachError | FfiPublishError | FfiSnapshotError | FfiInvalidUrl

fun error_code :: "synddb_error \<Rightarrow> nat" where
  "error_code FfiSuccess = 0"
| "error_code FfiInvalidPointer = 1"
| "error_code FfiInvalidUtf8 = 2"
| "error_code FfiDatabaseError = 3"
| "error_code FfiAttachError = 4"
| "error_code FfiPublishError = 5"
| "error_code FfiSnapshotError = 6"
| "error_code FfiInvalidUrl = 7"

record 'c ffi_state =
  ff_last_error :: "string option"
  ff_handles :: "nat \<Rightarrow> 'c syndb option"
  ff_next :: nat
  ff_connections :: nat

type_synonym ('c, 'r) ffi_result = "('c ffi_state \<times> 'r) outcome option"

definition ffi_start :: "'c ffi_state" where
  "ffi_start = \<lparr>ff_last_error = None, ff_handles = (\<lambda>_. None), ff_next = 1, ff_connections = 0\<rparr>"

text \<open>A text with a null character cannot be a C string.\<close>

definition set_last_error :: "string \<Rightarrow> 'c ffi_state \<Rightarrow> 'c ffi_state" where
  "set_last_error err st =
     st\<lparr>ff_last_error := Some (if CHR 0x00 \<in> set err then ''Failed to format error message'' else err)\<rparr>"

definition clear_last_error :: "'c ffi_state \<Rightarrow> 'c ffi_state" where
  "clear_last_error st = st\<lparr>ff_last_error := None\<rparr>"

definition synddb_last_error :: "'c ffi_state \<Rightarrow> string option" where
  "synddb_last_error st = ff_last_error st"

text \<open>\<open>CStr::to_str\<close>; \<open>describe\<close> is the text of the error.\<close>

definition c_to_str :: "(bytes \<Rightarrow> string) \<Rightarrow> bytes \<Rightarrow> string + string" where
  "c_to_str describe b = (if valid_utf8 b then Inr (map (\<lambda>w. char_of (unat w)) b) else Inl (describe b))"

definition ffi_fail :: "'r \<Rightarrow> string \<Rightarrow> 'c ffi_state \<Rightarrow> ('c, 'r) ffi_result" where
  "ffi_fail r msg st = Some (Returns (set_last_error msg st, r))"

definition ffi_ok :: "'r \<Rightarrow> 'c ffi_state \<Rightarrow> ('c, 'r) ffi_result" where
  "ffi_ok r st = Some (Returns (st, r))"

definition put_handle :: "nat \<Rightarrow> 'c syndb \<Rightarrow> 'c ffi_state \<Rightarrow> 'c ffi_state" where
  "put_handle a d st = st\<lparr>ff_handles := (ff_handles st)(a \<mapsto> d)\<rparr>"

text \<open>The null check of a handle and its use.\<close>

definition with_handle :: "nat option \<Rightarrow> 'r \<Rightarrow> 'c ffi_state \<Rightarrow> (nat \<Rightarrow> 'c syndb \<Rightarrow> ('c, 'r) ffi_result) \<Rightarrow> ('c, 'r) ffi_result" where
  "with_handle handle null_result st f =
     (case handle of
        None \<Rightarrow> ffi_fail null_result ''Null handle provided'' st
      | Some a \<Rightarrow> (case ff_handles st a of None \<Rightarrow> None | Some d \<Rightarrow> f a d))"

section \<open>Attaching\<close>

text \<open>What the environment answers to an attach: opening the database, its path, the marker of an earlier run, and the rest.\<close>

record ffi_attach_io =
  fa_open_error :: "string option"
  fa_path :: "string option"
  fa_marker :: bool
  fa_io :: attach_io

definition allocate :: "'c syndb \<Rightarrow> 'c ffi_state \<Rightarrow> ('c, synddb_error \<times> nat option) ffi_result" where
  "allocate d st = ffi_ok (FfiSuccess, Some (ff_next st)) (put_handle (ff_next st) d (st\<lparr>ff_next := ff_next st + 1\<rparr>))"

definition synddb_attach ::
  "(bytes \<Rightarrow> string) \<Rightarrow> (string \<Rightarrow> string + string) \<Rightarrow> payload_codec \<Rightarrow> client_config \<Rightarrow> ffi_attach_io \<Rightarrow> bytes option \<Rightarrow> bytes option \<Rightarrow> bool
    \<Rightarrow> 'c ffi_state \<Rightarrow> ('c, synddb_error \<times> nat option) ffi_result" where
  "synddb_attach describe url_parse codec default_config io db_path sequencer_url out_handle st0 =
     (let st = clear_last_error st0
      in case (db_path, sequencer_url) of
           (Some path, Some url) \<Rightarrow>
             if \<not> out_handle then ffi_fail (FfiInvalidPointer, None) ''Null pointer provided'' st
             else case c_to_str describe path of
                    Inl e \<Rightarrow> ffi_fail (FfiInvalidUtf8, None) (''Invalid UTF-8 in db_path: '' @ e) st
                  | Inr path_str \<Rightarrow>
                      (case c_to_str describe url of
                         Inl e \<Rightarrow> ffi_fail (FfiInvalidUtf8, None) (''Invalid UTF-8 in sequencer_url: '' @ e) st
                       | Inr url_str \<Rightarrow>
                           (case fa_open_error io of
                              Some e \<Rightarrow> ffi_fail (FfiDatabaseError, None) (''Failed to open database: '' @ e) st
                            | None \<Rightarrow>
                                (let st1 = st\<lparr>ff_connections := ff_connections st + 1\<rparr>
                                 in case bind_r (Event_Signature.parse_url url_parse url_str) (\<lambda>u.
                                      attach_with_config codec (fa_io io) (fa_path io) (fa_marker io) (default_config\<lparr>co_sequencer_url := u\<rparr>)) of
                                      Inl e \<Rightarrow> ffi_fail (FfiAttachError, None) (''Failed to attach SyndDB: '' @ e) st1
                                    | Inr d \<Rightarrow> allocate d st1)))
         | _ \<Rightarrow> ffi_fail (FfiInvalidPointer, None) ''Null pointer provided'' st)"

text \<open>Durations are in milliseconds here, as in \<open>Client\<close>.\<close>

definition synddb_attach_with_config ::
  "(bytes \<Rightarrow> string) \<Rightarrow> (string \<Rightarrow> string + string) \<Rightarrow> payload_codec \<Rightarrow> client_config \<Rightarrow> ffi_attach_io \<Rightarrow> bytes option \<Rightarrow> bytes option \<Rightarrow> u64 \<Rightarrow> u64 \<Rightarrow> bool
    \<Rightarrow> 'c ffi_state \<Rightarrow> ('c, synddb_error \<times> nat option) ffi_result" where
  "synddb_attach_with_config describe url_parse codec default_config io db_path sequencer_url push_interval_ms snapshot_interval out_handle st0 =
     (let st = clear_last_error st0
      in case (db_path, sequencer_url) of
           (Some path, Some url) \<Rightarrow>
             if \<not> out_handle then ffi_fail (FfiInvalidPointer, None) ''Null pointer provided'' st
             else case c_to_str describe path of
                    Inl e \<Rightarrow> ffi_fail (FfiInvalidUtf8, None) (''Invalid UTF-8 in db_path: '' @ e) st
                  | Inr path_str \<Rightarrow>
                      (case c_to_str describe url of
                         Inl e \<Rightarrow> ffi_fail (FfiInvalidUtf8, None) (''Invalid UTF-8 in sequencer_url: '' @ e) st
                       | Inr url_str \<Rightarrow>
                           (case fa_open_error io of
                              Some e \<Rightarrow> ffi_fail (FfiDatabaseError, None) (''Failed to open database: '' @ e) st
                            | None \<Rightarrow>
                                (let st1 = st\<lparr>ff_connections := ff_connections st + 1\<rparr>
                                 in case url_parse url_str of
                                      Inl e \<Rightarrow> ffi_fail (FfiInvalidUrl, None) (''Invalid sequencer URL: '' @ e) st1
                                    | Inr u \<Rightarrow>
                                        (case attach_with_config codec (fa_io io) (fa_path io) (fa_marker io)
                                             (default_config\<lparr>co_sequencer_url := u, co_push_interval := unat push_interval_ms,
                                                co_snapshot_interval := snapshot_interval\<rparr>) of
                                           Inl e \<Rightarrow> ffi_fail (FfiAttachError, None) (''Failed to attach SyndDB: '' @ e) st1
                                         | Inr d \<Rightarrow> allocate d st1))))
         | _ \<Rightarrow> ffi_fail (FfiInvalidPointer, None) ''Null pointer provided'' st)"

section \<open>Calls on a handle\<close>

definition synddb_push :: "('c list \<Rightarrow> bytes) \<Rightarrow> push_io \<Rightarrow> nat option \<Rightarrow> 'c ffi_state \<Rightarrow> ('c, synddb_error) ffi_result" where
  "synddb_push encode io handle st0 =
     (let st = clear_last_error st0
      in with_handle handle FfiInvalidPointer st (\<lambda>a d.
           case client_push encode io d of
             Panics \<Rightarrow> Some Panics
           | Returns (d1, Inr _) \<Rightarrow> ffi_ok FfiSuccess (put_handle a d1 st)
           | Returns (d1, Inl e) \<Rightarrow> ffi_fail FfiPublishError (''Failed to push changeset: '' @ e) (put_handle a d1 st)))"

definition synddb_snapshot :: "payload_codec \<Rightarrow> snapshot_io \<Rightarrow> nat option \<Rightarrow> bool \<Rightarrow> 'c ffi_state \<Rightarrow> ('c, synddb_error \<times> nat option) ffi_result" where
  "synddb_snapshot codec io handle out_size st0 =
     (let st = clear_last_error st0
      in with_handle handle (FfiInvalidPointer, None) st (\<lambda>a d.
           case client_snapshot codec io d of
             (d1, Inr s) \<Rightarrow> ffi_ok (FfiSuccess, if out_size then Some (length (sp_data s)) else None) (put_handle a d1 st)
           | (d1, Inl e) \<Rightarrow> ffi_fail (FfiSnapshotError, None) (''Failed to create snapshot: '' @ e) (put_handle a d1 st)))"

definition synddb_detach :: "('c list \<Rightarrow> bytes) \<Rightarrow> push_io \<Rightarrow> nat option \<Rightarrow> 'c ffi_state \<Rightarrow> ('c, unit) ffi_result" where
  "synddb_detach encode io handle st =
     (case handle of
        None \<Rightarrow> ffi_ok () st
      | Some a \<Rightarrow>
          (case ff_handles st a of
             None \<Rightarrow> None
           | Some d \<Rightarrow>
               (case client_drop encode io d of
                  Panics \<Rightarrow> Some Panics
                | Returns _ \<Rightarrow> ffi_ok () (st\<lparr>ff_handles := (ff_handles st)(a := None)\<rparr>))))"

text \<open>A statement: its error, or the number of rows and the row changes that it commits.\<close>

definition run_statement :: "string + (nat \<times> 'c list) \<Rightarrow> 'c syndb \<Rightarrow> string + (nat \<times> 'c syndb)" where
  "run_statement exec d =
     bind_r exec (\<lambda>(rows, changes). Inr (rows, d\<lparr>sy_monitor := map_option (update_hook changes) (sy_monitor d)\<rparr>))"

definition synddb_execute :: "(bytes \<Rightarrow> string) \<Rightarrow> (string \<Rightarrow> string + (nat \<times> 'c list)) \<Rightarrow> nat option \<Rightarrow> bytes option \<Rightarrow> 'c ffi_state \<Rightarrow> ('c, 64 word) ffi_result" where
  "synddb_execute describe exec handle sql st0 =
     (let st = clear_last_error st0
      in case handle of
           None \<Rightarrow> ffi_fail (-1) ''Null handle provided'' st
         | Some _ \<Rightarrow>
             (case sql of
                None \<Rightarrow> ffi_fail (-1) ''Null SQL string provided'' st
              | Some sql_bytes \<Rightarrow>
                  (case c_to_str describe sql_bytes of
                     Inl e \<Rightarrow> ffi_fail (-1) (''Invalid UTF-8 in SQL: '' @ e) st
                   | Inr sql_str \<Rightarrow>
                       with_handle handle (-1) st (\<lambda>a d.
                         case run_statement (exec sql_str) d of
                           Inr (rows, d1) \<Rightarrow> ffi_ok (of_nat rows) (put_handle a d1 st)
                         | Inl e \<Rightarrow> ffi_fail (-1) (''SQL execution failed: '' @ e) st))))"

definition synddb_execute_batch ::
  "(bytes \<Rightarrow> string) \<Rightarrow> payload_codec \<Rightarrow> (string \<Rightarrow> string + (nat \<times> 'c list)) \<Rightarrow> snapshot_io \<Rightarrow> nat option \<Rightarrow> bytes option \<Rightarrow> 'c ffi_state \<Rightarrow> ('c, synddb_error) ffi_result" where
  "synddb_execute_batch describe codec exec io handle sql st0 =
     (let st = clear_last_error st0
      in case handle of
           None \<Rightarrow> ffi_fail FfiInvalidPointer ''Null handle provided'' st
         | Some _ \<Rightarrow>
             (case sql of
                None \<Rightarrow> ffi_fail FfiInvalidPointer ''Null SQL string provided'' st
              | Some sql_bytes \<Rightarrow>
                  (case c_to_str describe sql_bytes of
                     Inl e \<Rightarrow> ffi_fail FfiInvalidUtf8 (''Invalid UTF-8 in SQL: '' @ e) st
                   | Inr sql_str \<Rightarrow>
                       with_handle handle FfiInvalidPointer st (\<lambda>a d.
                         case run_statement (exec sql_str) d of
                           Inl e \<Rightarrow> ffi_fail FfiDatabaseError (''SQL batch execution failed: '' @ e) st
                         | Inr (rows, d1) \<Rightarrow>
                             ffi_ok FfiSuccess (put_handle a (if is_ddl sql_str then fst (client_snapshot codec io d1) else d1) st)))))"

definition transaction_call :: "string \<Rightarrow> string + (nat \<times> 'c list) \<Rightarrow> nat option \<Rightarrow> 'c ffi_state \<Rightarrow> ('c, synddb_error) ffi_result" where
  "transaction_call what exec handle st0 =
     (let st = clear_last_error st0
      in with_handle handle FfiInvalidPointer st (\<lambda>a d.
           case run_statement exec d of
             Inr (rows, d1) \<Rightarrow> ffi_ok FfiSuccess (put_handle a d1 st)
           | Inl e \<Rightarrow> ffi_fail FfiDatabaseError (''Failed to '' @ what @ '' transaction: '' @ e) st))"

definition synddb_begin :: "(string \<Rightarrow> string + (nat \<times> 'c list)) \<Rightarrow> nat option \<Rightarrow> 'c ffi_state \<Rightarrow> ('c, synddb_error) ffi_result" where
  "synddb_begin exec = transaction_call ''begin'' (exec ''BEGIN'')"

definition synddb_commit :: "(string \<Rightarrow> string + (nat \<times> 'c list)) \<Rightarrow> nat option \<Rightarrow> 'c ffi_state \<Rightarrow> ('c, synddb_error) ffi_result" where
  "synddb_commit exec = transaction_call ''commit'' (exec ''COMMIT'')"

definition synddb_rollback :: "(string \<Rightarrow> string + (nat \<times> 'c list)) \<Rightarrow> nat option \<Rightarrow> 'c ffi_state \<Rightarrow> ('c, synddb_error) ffi_result" where
  "synddb_rollback exec = transaction_call ''rollback'' (exec ''ROLLBACK'')"

section \<open>Sequences of calls\<close>

text \<open>A call with everything the environment answers to it. The value is its code, and the handle that an attach returns.\<close>

datatype 'c ffi_call =
    FfiAttach ffi_attach_io "bytes option" "bytes option" bool
  | FfiAttachWith ffi_attach_io "bytes option" "bytes option" u64 u64 bool
  | FfiPush push_io "nat option"
  | FfiSnapshot snapshot_io "nat option" bool
  | FfiExecute "string \<Rightarrow> string + (nat \<times> 'c list)" "nat option" "bytes option"
  | FfiExecuteBatch "string \<Rightarrow> string + (nat \<times> 'c list)" snapshot_io "nat option" "bytes option"
  | FfiBegin "string \<Rightarrow> string + (nat \<times> 'c list)" "nat option"
  | FfiCommit "string \<Rightarrow> string + (nat \<times> 'c list)" "nat option"
  | FfiRollback "string \<Rightarrow> string + (nat \<times> 'c list)" "nat option"
  | FfiDetach push_io "nat option"

record 'c ffi_env =
  fe_describe :: "bytes \<Rightarrow> string"
  fe_url_parse :: "string \<Rightarrow> string + string"
  fe_codec :: payload_codec
  fe_encode :: "'c list \<Rightarrow> bytes"
  fe_default :: client_config

definition ffi_map :: "('r \<Rightarrow> 'q) \<Rightarrow> ('c, 'r) ffi_result \<Rightarrow> ('c, 'q) ffi_result" where
  "ffi_map f r = map_option (\<lambda>o'. case o' of Panics \<Rightarrow> Panics | Returns (st, v) \<Rightarrow> Returns (st, f v)) r"

text \<open>The result of a call as success or failure; detaching has none.\<close>

fun ffi_step :: "'c ffi_env \<Rightarrow> 'c ffi_call \<Rightarrow> 'c ffi_state \<Rightarrow> ('c, bool option) ffi_result" where
  "ffi_step v (FfiAttach io p u out) st =
     ffi_map (\<lambda>r. Some (fst r = FfiSuccess)) (synddb_attach (fe_describe v) (fe_url_parse v) (fe_codec v) (fe_default v) io p u out st)"
| "ffi_step v (FfiAttachWith io p u pi si out) st =
     ffi_map (\<lambda>r. Some (fst r = FfiSuccess)) (synddb_attach_with_config (fe_describe v) (fe_url_parse v) (fe_codec v) (fe_default v) io p u pi si out st)"
| "ffi_step v (FfiPush io h) st = ffi_map (\<lambda>r. Some (r = FfiSuccess)) (synddb_push (fe_encode v) io h st)"
| "ffi_step v (FfiSnapshot io h out) st = ffi_map (\<lambda>r. Some (fst r = FfiSuccess)) (synddb_snapshot (fe_codec v) io h out st)"
| "ffi_step v (FfiExecute exec h sql) st = ffi_map (\<lambda>r. Some (r \<noteq> -1)) (synddb_execute (fe_describe v) exec h sql st)"
| "ffi_step v (FfiExecuteBatch exec io h sql) st =
     ffi_map (\<lambda>r. Some (r = FfiSuccess)) (synddb_execute_batch (fe_describe v) (fe_codec v) exec io h sql st)"
| "ffi_step v (FfiBegin exec h) st = ffi_map (\<lambda>r. Some (r = FfiSuccess)) (synddb_begin exec h st)"
| "ffi_step v (FfiCommit exec h) st = ffi_map (\<lambda>r. Some (r = FfiSuccess)) (synddb_commit exec h st)"
| "ffi_step v (FfiRollback exec h) st = ffi_map (\<lambda>r. Some (r = FfiSuccess)) (synddb_rollback exec h st)"
| "ffi_step v (FfiDetach io h) st = ffi_map (\<lambda>r. None) (synddb_detach (fe_encode v) io h st)"

text \<open>The handle that a call uses, and the numbers of rows that an \<open>i64\<close> can hold.\<close>

fun call_handle :: "'c ffi_call \<Rightarrow> nat option" where
  "call_handle (FfiPush io h) = h"
| "call_handle (FfiSnapshot io h out) = h"
| "call_handle (FfiExecute exec h sql) = h"
| "call_handle (FfiExecuteBatch exec io h sql) = h"
| "call_handle (FfiBegin exec h) = h"
| "call_handle (FfiCommit exec h) = h"
| "call_handle (FfiRollback exec h) = h"
| "call_handle (FfiDetach io h) = h"
| "call_handle _ = None"

fun rows_ok :: "'c ffi_call \<Rightarrow> bool" where
  "rows_ok (FfiExecute exec h sql) \<longleftrightarrow> (\<forall>q rows changes. exec q = Inr (rows, changes) \<longrightarrow> rows < 2 ^ 63)"
| "rows_ok _ \<longleftrightarrow> True"

text \<open>The protocol of the interface: a handle is null or one that an attach returned and no detach freed.\<close>

definition live :: "nat option \<Rightarrow> 'c ffi_state \<Rightarrow> bool" where
  "live h st \<longleftrightarrow> (\<forall>a. h = Some a \<longrightarrow> ff_handles st a \<noteq> None)"

definition ffi_inv :: "'c ffi_state \<Rightarrow> bool" where
  "ffi_inv st \<longleftrightarrow> (\<forall>a d. ff_handles st a = Some d \<longrightarrow> client_wf d \<and> a < ff_next st) \<and> 0 < ff_next st"

text \<open>What a call that ends does to the state: the client of another handle is untouched, and the last error is set exactly on
  failure.\<close>

definition call_effect :: "nat option \<Rightarrow> 'c ffi_state \<Rightarrow> ('c, bool option) ffi_result \<Rightarrow> bool" where
  "call_effect h st r \<longleftrightarrow>
     (\<exists>st' ok. r = Some (Returns (st', ok)) \<and> ffi_inv st' \<and> ff_next st \<le> ff_next st' \<and> ff_connections st \<le> ff_connections st'
        \<and> (\<forall>a. Some a \<noteq> h \<and> a < ff_next st \<longrightarrow> ff_handles st' a = ff_handles st a)
        \<and> (\<forall>b. ok = Some b \<longrightarrow> (ff_last_error st' = None \<longleftrightarrow> b)))"

lemma ffi_inv_simps [simp]:
  "ffi_inv (clear_last_error st) \<longleftrightarrow> ffi_inv st" "ffi_inv (set_last_error e st) \<longleftrightarrow> ffi_inv st"
  "ff_handles (clear_last_error st) = ff_handles st" "ff_handles (set_last_error e st) = ff_handles st"
  "ff_next (clear_last_error st) = ff_next st" "ff_next (set_last_error e st) = ff_next st" "ff_next (put_handle a d st) = ff_next st"
  "ff_connections (clear_last_error st) = ff_connections st" "ff_connections (set_last_error e st) = ff_connections st"
  "ff_connections (put_handle a d st) = ff_connections st"
  "ff_last_error (clear_last_error st) = None" "\<exists>y. ff_last_error (set_last_error e st) = Some y" "ff_last_error (put_handle a d st) = ff_last_error st"
  "ff_handles (put_handle a d st) = (ff_handles st)(a \<mapsto> d)"
  by (simp_all add: ffi_inv_def clear_last_error_def set_last_error_def put_handle_def)

lemma ffi_inv_put: "ffi_inv st \<Longrightarrow> client_wf d \<Longrightarrow> ff_handles st a \<noteq> None \<Longrightarrow> ffi_inv (put_handle a d st)"
  by (auto simp: ffi_inv_def)

lemma effect_fail: "ffi_inv st \<Longrightarrow> f r = Some False \<Longrightarrow> call_effect h st (ffi_map f (ffi_fail r e (clear_last_error st)))"
  by (auto simp: call_effect_def ffi_map_def ffi_fail_def)

lemma effect_fail_put:
  "ffi_inv st \<Longrightarrow> f r = Some False \<Longrightarrow> client_wf d \<Longrightarrow> ff_handles st a \<noteq> None
     \<Longrightarrow> call_effect (Some a) st (ffi_map f (ffi_fail r e (put_handle a d (clear_last_error st))))"
  by (auto simp: call_effect_def ffi_map_def ffi_fail_def ffi_inv_put)

lemma effect_ok_put:
  "ffi_inv st \<Longrightarrow> f r = Some True \<Longrightarrow> client_wf d \<Longrightarrow> ff_handles st a \<noteq> None
     \<Longrightarrow> call_effect (Some a) st (ffi_map f (ffi_ok r (put_handle a d (clear_last_error st))))"
  by (auto simp: call_effect_def ffi_map_def ffi_ok_def ffi_inv_put)

lemma effect_with_handle:
  assumes "ffi_inv st" "live h st" "f n = Some False"
    and "\<And>a d. h = Some a \<Longrightarrow> ff_handles st a = Some d \<Longrightarrow> client_wf d \<Longrightarrow> call_effect (Some a) st (ffi_map f (g a d))"
  shows "call_effect h st (ffi_map f (with_handle h n (clear_last_error st) g))"
proof (cases h)
  case None
  with assms(1,3) show ?thesis by (simp add: with_handle_def effect_fail)
next
  case (Some a)
  then obtain d where "ff_handles st a = Some d" using assms(2) by (auto simp: live_def)
  with Some assms show ?thesis by (simp add: with_handle_def ffi_inv_def)
qed

lemma run_statement_wf: "client_wf d \<Longrightarrow> run_statement exec d = Inr (rows, d') \<Longrightarrow> client_wf d'"
  by (auto simp: run_statement_def bind_r_eq_Inr client_wf_def)

lemma client_snapshot_wf: "client_wf d \<Longrightarrow> client_wf (fst (client_snapshot codec io d))"
  using client_wf_monitor [OF client_snapshot_monitor, of codec io d] by simp

section \<open>Each call keeps the protocol\<close>

lemma push_effect_ffi: "ffi_inv st \<Longrightarrow> live h st \<Longrightarrow> call_effect h st (ffi_map (\<lambda>r. Some (r = FfiSuccess)) (synddb_push encode io h st))"
  unfolding synddb_push_def Let_def
proof (rule effect_with_handle)
  fix a d assume "ffi_inv st" "ff_handles st a = Some d" and wf: "client_wf d"
  moreover obtain d1 r where "client_push encode io d = Returns (d1, r)" "client_wf d1" using client_push_wf [OF wf] by blast
  ultimately show "call_effect (Some a) st (ffi_map (\<lambda>r. Some (r = FfiSuccess))
      (case client_push encode io d of Panics \<Rightarrow> Some Panics
       | Returns (d1, Inr _) \<Rightarrow> ffi_ok FfiSuccess (put_handle a d1 (clear_last_error st))
       | Returns (d1, Inl e) \<Rightarrow> ffi_fail FfiPublishError (''Failed to push changeset: '' @ e) (put_handle a d1 (clear_last_error st))))"
    by (cases r) (simp_all add: effect_ok_put effect_fail_put)
qed simp_all

lemma snapshot_effect_ffi:
  "ffi_inv st \<Longrightarrow> live h st \<Longrightarrow> call_effect h st (ffi_map (\<lambda>r. Some (fst r = FfiSuccess)) (synddb_snapshot codec io h out st))"
  unfolding synddb_snapshot_def Let_def
proof (rule effect_with_handle)
  fix a d assume a: "ffi_inv st" "ff_handles st a = Some d" "client_wf d"
  obtain d1 r where s: "client_snapshot codec io d = (d1, r)" by fastforce
  then have "client_wf d1" using client_snapshot_wf [OF a(3), of codec io] by simp
  with a s show "call_effect (Some a) st (ffi_map (\<lambda>r. Some (fst r = FfiSuccess))
      (case client_snapshot codec io d of
         (d1, Inr s) \<Rightarrow> ffi_ok (FfiSuccess, if out then Some (length (sp_data s)) else None) (put_handle a d1 (clear_last_error st))
       | (d1, Inl e) \<Rightarrow> ffi_fail (FfiSnapshotError, None) (''Failed to create snapshot: '' @ e) (put_handle a d1 (clear_last_error st))))"
    by (cases r) (simp_all add: effect_ok_put effect_fail_put)
qed simp_all

lemma transaction_effect_ffi:
  "ffi_inv st \<Longrightarrow> live h st \<Longrightarrow> call_effect h st (ffi_map (\<lambda>r. Some (r = FfiSuccess)) (transaction_call what exec h st))"
  unfolding transaction_call_def Let_def
proof (rule effect_with_handle)
  fix a d assume "ffi_inv st" "ff_handles st a = Some d" "client_wf d"
  then show "call_effect (Some a) st (ffi_map (\<lambda>r. Some (r = FfiSuccess))
      (case run_statement exec d of
         Inr (rows, d1) \<Rightarrow> ffi_ok FfiSuccess (put_handle a d1 (clear_last_error st))
       | Inl e \<Rightarrow> ffi_fail FfiDatabaseError (''Failed to '' @ what @ '' transaction: '' @ e) (clear_last_error st)))"
    by (auto simp: effect_ok_put effect_fail run_statement_wf split: sum.splits)
qed simp_all

lemma small_rows: "rows < 9223372036854775808 \<Longrightarrow> (of_nat rows :: 64 word) \<noteq> -1"
proof
  assume "rows < 9223372036854775808" "(of_nat rows :: 64 word) = -1"
  moreover have "unat (-1 :: 64 word) = 18446744073709551615" by (simp add: unsigned_minus_1_eq_mask mask_eq_exp_minus_1)
  moreover have "unat (of_nat rows :: 64 word) = rows mod 18446744073709551616" by (simp add: unat_of_nat)
  ultimately show False by simp
qed

lemma execute_effect_ffi:
  assumes "ffi_inv st" "live h st" "\<forall>q rows changes. exec q = Inr (rows, changes) \<longrightarrow> rows < 2 ^ 63"
  shows "call_effect h st (ffi_map (\<lambda>r. Some (r \<noteq> -1)) (synddb_execute describe exec h sql st))"
proof (cases "h = None \<or> sql = None \<or> (\<exists>b e. sql = Some b \<and> c_to_str describe b = Inl e)")
  case True
  with assms(1) show ?thesis
    by (auto simp: synddb_execute_def Let_def effect_fail split: option.splits)
next
  case False
  then obtain b q where q: "sql = Some b" "c_to_str describe b = Inr q" by (cases sql) (auto, metis sum.exhaust)
  have "call_effect h st (ffi_map (\<lambda>r. Some (r \<noteq> -1)) (with_handle h (-1 :: 64 word) (clear_last_error st) (\<lambda>a d.
       case run_statement (exec q) d of
         Inr (rows, d1) \<Rightarrow> ffi_ok (of_nat rows) (put_handle a d1 (clear_last_error st))
       | Inl e \<Rightarrow> ffi_fail (-1 :: 64 word) (''SQL execution failed: '' @ e) (clear_last_error st))))"
  proof (rule effect_with_handle [OF assms(1,2)])
    fix a d assume "ff_handles st a = Some d" "client_wf d"
    moreover have "rows < 2 ^ 63" if "run_statement (exec q) d = Inr (rows, d1)" for rows d1
      using that assms(3) by (auto simp: run_statement_def bind_r_eq_Inr)
    ultimately show "call_effect (Some a) st (ffi_map (\<lambda>r. Some (r \<noteq> -1))
        (case run_statement (exec q) d of
           Inr (rows, d1) \<Rightarrow> ffi_ok (of_nat rows) (put_handle a d1 (clear_last_error st))
         | Inl e \<Rightarrow> ffi_fail (-1 :: 64 word) (''SQL execution failed: '' @ e) (clear_last_error st)))"
      using assms(1) by (auto simp: run_statement_wf split: sum.splits simp: effect_ok_put effect_fail small_rows)
  qed simp
  with False q show ?thesis by (auto simp: synddb_execute_def Let_def split: option.splits)
qed

lemma execute_batch_effect_ffi:
  assumes "ffi_inv st" "live h st"
  shows "call_effect h st (ffi_map (\<lambda>r. Some (r = FfiSuccess)) (synddb_execute_batch describe codec exec io h sql st))"
proof (cases "h = None \<or> sql = None \<or> (\<exists>b e. sql = Some b \<and> c_to_str describe b = Inl e)")
  case True
  with assms(1) show ?thesis
    by (auto simp: synddb_execute_batch_def Let_def effect_fail split: option.splits)
next
  case False
  then obtain b q where q: "sql = Some b" "c_to_str describe b = Inr q" by (cases sql) (auto, metis sum.exhaust)
  have "call_effect h st (ffi_map (\<lambda>r. Some (r = FfiSuccess)) (with_handle h FfiInvalidPointer (clear_last_error st) (\<lambda>a d.
       case run_statement (exec q) d of
         Inl e \<Rightarrow> ffi_fail FfiDatabaseError (''SQL batch execution failed: '' @ e) (clear_last_error st)
       | Inr (rows, d1) \<Rightarrow> ffi_ok FfiSuccess (put_handle a (if is_ddl q then fst (client_snapshot codec io d1) else d1) (clear_last_error st)))))"
  proof (rule effect_with_handle [OF assms(1,2)])
    fix a d assume "ff_handles st a = Some d" "client_wf d"
    with assms(1) show "call_effect (Some a) st (ffi_map (\<lambda>r. Some (r = FfiSuccess))
        (case run_statement (exec q) d of
           Inl e \<Rightarrow> ffi_fail FfiDatabaseError (''SQL batch execution failed: '' @ e) (clear_last_error st)
         | Inr (rows, d1) \<Rightarrow> ffi_ok FfiSuccess (put_handle a (if is_ddl q then fst (client_snapshot codec io d1) else d1) (clear_last_error st))))"
      by (auto simp: effect_ok_put effect_fail run_statement_wf client_snapshot_wf split: sum.splits)
  qed simp
  with False q show ?thesis by (auto simp: synddb_execute_batch_def Let_def split: option.splits)
qed

lemma detach_effect_ffi:
  assumes "ffi_inv st" "live h st"
  shows "call_effect h st (ffi_map (\<lambda>r. None) (synddb_detach encode io h st))"
proof (cases h)
  case None
  with assms(1) show ?thesis by (simp add: synddb_detach_def call_effect_def ffi_map_def ffi_ok_def)
next
  case (Some a)
  then obtain d where d: "ff_handles st a = Some d" "client_wf d" using assms by (auto simp: live_def ffi_inv_def)
  have "\<exists>r. client_drop encode io d = Returns r"
    using d(2) extract_wf [of _ encode io] by (fastforce simp: client_drop_def drop_monitor_def client_wf_def split: option.splits)
  then obtain r where "client_drop encode io d = Returns r" ..
  with Some d assms(1) show ?thesis
    by (auto simp: synddb_detach_def call_effect_def ffi_map_def ffi_ok_def ffi_inv_def)
qed

lemma allocate_effect:
  assumes "ffi_inv st" "client_wf d"
  shows "call_effect None st (ffi_map (\<lambda>r. Some (fst r = FfiSuccess)) (allocate d ((clear_last_error st)\<lparr>ff_connections := Suc (ff_connections st)\<rparr>)))"
  using assms by (fastforce simp: call_effect_def ffi_map_def allocate_def ffi_ok_def ffi_inv_def put_handle_def clear_last_error_def)

lemma effect_fail_opened:
  "ffi_inv st \<Longrightarrow> f r = Some False
     \<Longrightarrow> call_effect h st (ffi_map f (ffi_fail r e ((clear_last_error st)\<lparr>ff_connections := Suc (ff_connections st)\<rparr>)))"
  by (auto simp: call_effect_def ffi_map_def ffi_fail_def ffi_inv_def set_last_error_def clear_last_error_def)

lemma attach_effect_ffi:
  assumes "ffi_inv st"
  shows "call_effect None st (ffi_map (\<lambda>r. Some (fst r = FfiSuccess)) (synddb_attach describe url_parse codec default_config io p u out st))"
  unfolding synddb_attach_def Let_def using assms
  by (auto split: option.splits sum.splits intro!: effect_fail effect_fail_opened allocate_effect attach_wf simp: bind_r_eq_Inr)

lemma attach_with_config_effect_ffi:
  assumes "ffi_inv st"
  shows "call_effect None st (ffi_map (\<lambda>r. Some (fst r = FfiSuccess)) (synddb_attach_with_config describe url_parse codec default_config io p u pi si out st))"
  unfolding synddb_attach_with_config_def Let_def using assms
  by (auto split: option.splits sum.splits intro!: effect_fail effect_fail_opened allocate_effect attach_wf)

lemma ffi_step_effect:
  "ffi_inv st \<Longrightarrow> live (call_handle c) st \<Longrightarrow> rows_ok c \<Longrightarrow> call_effect (call_handle c) st (ffi_step v c st)"
  by (cases c)
    (simp_all add: push_effect_ffi snapshot_effect_ffi execute_effect_ffi execute_batch_effect_ffi transaction_effect_ffi
      detach_effect_ffi attach_effect_ffi attach_with_config_effect_ffi synddb_begin_def synddb_commit_def synddb_rollback_def)

section \<open>Programs of calls\<close>

fun ffi_run :: "'c ffi_env \<Rightarrow> 'c ffi_call list \<Rightarrow> 'c ffi_state \<Rightarrow> ('c, bool option list) ffi_result" where
  "ffi_run v [] st = Some (Returns (st, []))"
| "ffi_run v (c # cs) st =
     (case ffi_step v c st of
        None \<Rightarrow> None
      | Some Panics \<Rightarrow> Some Panics
      | Some (Returns (st1, ok)) \<Rightarrow> ffi_map ((#) ok) (ffi_run v cs st1))"

text \<open>A program keeps to the protocol when each of its calls uses null or a live handle.\<close>

fun protocol :: "'c ffi_env \<Rightarrow> 'c ffi_call list \<Rightarrow> 'c ffi_state \<Rightarrow> bool" where
  "protocol v [] st \<longleftrightarrow> True"
| "protocol v (c # cs) st \<longleftrightarrow>
     live (call_handle c) st \<and> rows_ok c \<and> (case ffi_step v c st of Some (Returns (st1, ok)) \<Rightarrow> protocol v cs st1 | _ \<Rightarrow> True)"

lemma ffi_run_safe:
  "ffi_inv st \<Longrightarrow> protocol v cs st \<Longrightarrow> \<exists>st' oks. ffi_run v cs st = Some (Returns (st', oks)) \<and> ffi_inv st' \<and> length oks = length cs
     \<and> (cs \<noteq> [] \<longrightarrow> (\<forall>b. last oks = Some b \<longrightarrow> (ff_last_error st' = None \<longleftrightarrow> b)))"
proof (induction cs arbitrary: st)
  case (Cons c cs)
  then obtain st1 ok where step: "ffi_step v c st = Some (Returns (st1, ok))" "ffi_inv st1" "\<forall>b. ok = Some b \<longrightarrow> (ff_last_error st1 = None \<longleftrightarrow> b)"
    using ffi_step_effect [of st c v] unfolding call_effect_def by auto
  have "protocol v cs st1" using Cons.prems(2) step(1) by simp
  from Cons.IH [OF step(2) this] obtain st' oks where rest: "ffi_run v cs st1 = Some (Returns (st', oks))" "ffi_inv st'" "length oks = length cs"
    "cs \<noteq> [] \<longrightarrow> (\<forall>b. last oks = Some b \<longrightarrow> (ff_last_error st' = None \<longleftrightarrow> b))" by blast
  have "ffi_run v (c # cs) st = Some (Returns (st', ok # oks))" using step(1) rest(1) by (simp add: ffi_map_def)
  moreover have "\<forall>b. last (ok # oks) = Some b \<longrightarrow> (ff_last_error st' = None \<longleftrightarrow> b)"
  proof (cases "cs = []")
    case True
    with rest(1,3) step(3) show ?thesis by simp
  next
    case False
    with rest(3) have "oks \<noteq> []" by auto
    with False rest(4) show ?thesis by simp
  qed
  ultimately show ?case using rest(2,3) by auto
qed simp


text \<open>A schema change through \<open>synddb_execute_batch\<close> has no marker: when the automatic snapshot fails, for whatever reason, the call
  succeeds, there is no last error, and the next run does not know that a snapshot is missing.\<close>

theorem ffi_ddl_unprotected:
  assumes "ff_handles st a = Some d" "c_to_str describe b = Inr sql" "is_ddl sql" "exec sql = Inr (rows, changes)" "\<not> sy_marker d"
  shows "\<exists>st' d'. synddb_execute_batch describe codec exec io (Some a) (Some b) st = Some (Returns (st', FfiSuccess))
     \<and> synddb_last_error st' = None \<and> ff_handles st' a = Some d' \<and> \<not> sy_marker d'"
  using assms by (simp add: synddb_execute_batch_def with_handle_def run_statement_def ffi_ok_def synddb_last_error_def client_snapshot_marker)

section \<open>Witnesses\<close>

definition demo_ffi_env :: "u8 ffi_env" where
  "demo_ffi_env = \<lparr>fe_describe = (\<lambda>b. ''invalid utf-8''), fe_url_parse = Inr, fe_codec = demo_codec, fe_encode = (\<lambda>bs. bs), fe_default = demo_client_config\<rparr>"

definition demo_ffi_attach :: ffi_attach_io where
  "demo_ffi_attach = \<lparr>fa_open_error = None, fa_path = Some ''app.db'', fa_marker = False, fa_io = demo_attach_io\<rparr>"

lemma demo_ffi_attached:
  "\<exists>st. ffi_step demo_ffi_env (FfiAttach demo_ffi_attach (Some [97]) (Some [104]) True) ffi_start = Some (Returns (st, Some True))
     \<and> ff_handles st 1 \<noteq> None"
proof -
  have "valid_utf8 [97]" "valid_utf8 [104]" "map (\<lambda>w :: u8. char_of (unat w)) [97] = ''a''"
    "map (\<lambda>w :: u8. char_of (unat w)) [104] = ''h''" by code_simp+
  then have "c_to_str d [97] = Inr ''a''" "c_to_str d [104] = Inr ''h''" for d by (simp_all only: c_to_str_def simp_thms if_True)
  moreover have "attach_with_config demo_codec demo_attach_io (Some ''app.db'') False (demo_client_config\<lparr>co_sequencer_url := ''h''\<rparr>) = Inr (demo_client\<lparr>sy_sequencer_url := ''h''\<rparr>)"
    by (simp add: attach_with_config_def validate_client_config_def demo_client_config_def new_session_monitor_def demo_attach_io_def
      demo_client_def demo_channel_def snapshot_channel_capacity_def new_recovery_def demo_recovery_def Let_def)
  ultimately show ?thesis
    by (simp add: demo_ffi_env_def demo_ffi_attach_def synddb_attach_def Event_Signature.parse_url_def allocate_def ffi_ok_def ffi_map_def ffi_start_def
        put_handle_def clear_last_error_def)
qed


end
