(* ===== verification/Object_Storage.thy ===== *)
theory Object_Storage
  imports Transport "HOL-Library.AList" "HOL-Library.Char_ord" "HOL-Library.List_Lexorder"
begin

text \<open>
  The client of the object storage, \<open>crates/synddb-storage\<close> (\<open>client.rs\<close>, \<open>config.rs\<close>, \<open>error.rs\<close>), with the
  configuration of \<open>crates/synddb-shared/src/gcs.rs\<close>. Google's SDK and the REST interface of the emulator are a parameter, a
  record of functions on the state of the storage; what the code relies on in them is \<open>object_store_ok\<close>.
\<close>

section \<open>Configuration and errors\<close>

record gcs_config =
  gc_bucket :: string
  gc_prefix :: string
  gc_emulator_host :: "string option"

definition new_gcs_config :: "string \<Rightarrow> gcs_config" where
  "new_gcs_config bucket = \<lparr>gc_bucket = bucket, gc_prefix = ''sequencer'', gc_emulator_host = None\<rparr>"

definition gcs_with_prefix :: "string \<Rightarrow> gcs_config \<Rightarrow> gcs_config" where
  "gcs_with_prefix prefix c = c\<lparr>gc_prefix := prefix\<rparr>"

definition gcs_with_emulator_host :: "string \<Rightarrow> gcs_config \<Rightarrow> gcs_config" where
  "gcs_with_emulator_host host c = c\<lparr>gc_emulator_host := (if host = [] then None else Some host)\<rparr>"

definition gcs_is_emulator :: "gcs_config \<Rightarrow> bool" where
  "gcs_is_emulator c \<longleftrightarrow> gc_emulator_host c \<noteq> None"

definition gcs_config_batch_path :: "gcs_config \<Rightarrow> string \<Rightarrow> string" where
  "gcs_config_batch_path c filename = gc_prefix c @ ''/batches/'' @ filename"

datatype storage_error =
    StorageConfigError string
  | StorageRead string
  | StorageWrite string
  | StorageList string
  | StorageNotFound string
  | StorageHttp string

fun show_storage_error :: "storage_error \<Rightarrow> string" where
  "show_storage_error (StorageConfigError e) = ''Configuration error: '' @ e"
| "show_storage_error (StorageRead e) = ''Read error: '' @ e"
| "show_storage_error (StorageWrite e) = ''Write error: '' @ e"
| "show_storage_error (StorageList e) = ''List error: '' @ e"
| "show_storage_error (StorageNotFound e) = ''Object not found: '' @ e"
| "show_storage_error (StorageHttp e) = ''HTTP error: '' @ e"

section \<open>The storage service\<close>

text \<open>
  A reply of the emulator, whose JSON value is given by the lookups that the code makes in it: the names of its array \<open>items\<close>, an
  item without a string name being \<open>None\<close>, and the string \<open>nextPageToken\<close>.\<close>

record emulator_json =
  ej_items :: "string option list option"
  ej_next :: "string option"

record emulator_reply =
  er_status :: nat
  er_status_text :: string
  er_text :: string
  er_json :: "string + emulator_json"

record 's gcs_api =
  ga_write :: "string \<Rightarrow> string \<Rightarrow> bytes \<Rightarrow> 's \<Rightarrow> 's \<times> (string + unit)"
  ga_read :: "string \<Rightarrow> string \<Rightarrow> 's \<Rightarrow> string + (string + bytes) list"
  ga_list :: "string \<Rightarrow> string \<Rightarrow> string option \<Rightarrow> 's \<Rightarrow> string + (string list \<times> string)"
  ga_get :: "string \<Rightarrow> 's \<Rightarrow> string + emulator_reply"
  ga_percent_encode :: "string \<Rightarrow> string"

section \<open>The client\<close>

text \<open>The client holds the configuration; its REST client exists exactly when an emulator host is set.\<close>

record storage_client =
  sc_config :: gcs_config

definition new_storage_client :: "string option \<Rightarrow> string option \<Rightarrow> gcs_config \<Rightarrow> storage_error + storage_client" where
  "new_storage_client storage_build control_build config =
     (case storage_build of
        Some e \<Rightarrow> Inl (StorageConfigError (''Failed to create Storage client: '' @ e))
      | None \<Rightarrow>
          (case control_build of
             Some e \<Rightarrow> Inl (StorageConfigError (''Failed to create StorageControl client: '' @ e))
           | None \<Rightarrow> Inr \<lparr>sc_config = config\<rparr>))"

definition sc_prefix :: "storage_client \<Rightarrow> string" where
  "sc_prefix c = gc_prefix (sc_config c)"

definition sc_bucket :: "storage_client \<Rightarrow> string" where
  "sc_bucket c = gc_bucket (sc_config c)"

definition bucket_path :: "storage_client \<Rightarrow> string" where
  "bucket_path c = ''projects/_/buckets/'' @ sc_bucket c"

definition storage_write :: "'s gcs_api \<Rightarrow> storage_client \<Rightarrow> string \<Rightarrow> bytes \<Rightarrow> 's \<Rightarrow> 's \<times> (storage_error + unit)" where
  "storage_write api c path data s =
     (case ga_write api (bucket_path c) path data s of
        (s', r) \<Rightarrow> (s', map_err (\<lambda>e. StorageWrite (''Failed to write to '' @ path @ '': '' @ e)) r))"

fun read_chunks :: "(string + bytes) list \<Rightarrow> bytes \<Rightarrow> storage_error + bytes" where
  "read_chunks [] data = Inr data"
| "read_chunks (Inl e # cs) data = Inl (StorageRead (''Failed to read chunk: '' @ e))"
| "read_chunks (Inr chunk # cs) data = read_chunks cs (data @ chunk)"

definition says_missing :: "string \<Rightarrow> bool" where
  "says_missing e \<longleftrightarrow> str_contains e ''404'' \<or> str_contains e ''No such object'' \<or> str_contains e ''not found''"

definition storage_read :: "'s gcs_api \<Rightarrow> storage_client \<Rightarrow> string \<Rightarrow> 's \<Rightarrow> storage_error + bytes option" where
  "storage_read api c path s =
     (case ga_read api (bucket_path c) path s of
        Inl e \<Rightarrow> if says_missing e then Inr None else Inl (StorageRead (''Failed to read '' @ path @ '': '' @ e))
      | Inr chunks \<Rightarrow> bind_r (read_chunks chunks []) (\<lambda>data. Inr (Some data)))"

text \<open>
  The loop over the pages of a listing. It runs until a page has no token of a next one, which is up to the service: the value is
  \<open>None\<close> when it never ends.\<close>

partial_function (option) list_pages ::
  "(string option \<Rightarrow> storage_error + (string list \<times> string option)) \<Rightarrow> string option \<Rightarrow> string list \<Rightarrow> (storage_error + string list) option" where
  "list_pages page token objects =
     (case page token of
        Inl e \<Rightarrow> Some (Inl e)
      | Inr (names, next_token) \<Rightarrow>
          (case next_token of
             None \<Rightarrow> Some (Inr (objects @ names))
           | Some t \<Rightarrow> list_pages page (Some t) (objects @ names)))"

definition sdk_page :: "'s gcs_api \<Rightarrow> storage_client \<Rightarrow> string \<Rightarrow> 's \<Rightarrow> string option \<Rightarrow> storage_error + (string list \<times> string option)" where
  "sdk_page api c prefix s token =
     bind_r (map_err (\<lambda>e. StorageList (''Failed to list objects: '' @ e)) (ga_list api (bucket_path c) prefix token s)) (\<lambda>(names, next_token).
     Inr (names, if next_token = [] then None else Some next_token))"

definition emulator_request :: "'s gcs_api \<Rightarrow> string \<Rightarrow> 's \<Rightarrow> storage_error + emulator_json" where
  "emulator_request api url s =
     bind_r (map_err StorageHttp (ga_get api url s)) (\<lambda>response.
     if \<not> (200 \<le> er_status response \<and> er_status response < 300)
     then Inl (StorageList (''Emulator list failed: '' @ er_status_text response @ '' - '' @ er_text response))
     else map_err (\<lambda>e. StorageList (''Failed to parse response: '' @ e)) (er_json response))"

definition emulator_url :: "'s gcs_api \<Rightarrow> storage_client \<Rightarrow> string \<Rightarrow> string \<Rightarrow> string" where
  "emulator_url api c host prefix =
     host @ ''/storage/v1/b/'' @ sc_bucket c @ ''/o?prefix='' @ ga_percent_encode api prefix"

definition emulator_page ::
  "'s gcs_api \<Rightarrow> storage_client \<Rightarrow> string \<Rightarrow> string \<Rightarrow> 's \<Rightarrow> string option \<Rightarrow> storage_error + (string list \<times> string option)" where
  "emulator_page api c host prefix s token =
     bind_r (emulator_request api
        (emulator_url api c host prefix @ (case token of None \<Rightarrow> [] | Some t \<Rightarrow> ''&pageToken='' @ ga_percent_encode api t)) s) (\<lambda>body.
     Inr (case ej_items body of None \<Rightarrow> [] | Some items \<Rightarrow> List.map_filter (\<lambda>item. item) items,
          case ej_next body of Some t \<Rightarrow> if t = [] then None else Some t | None \<Rightarrow> None))"

definition storage_list :: "'s gcs_api \<Rightarrow> storage_client \<Rightarrow> string \<Rightarrow> 's \<Rightarrow> (storage_error + string list) option" where
  "storage_list api c prefix s =
     (case gc_emulator_host (sc_config c) of
        Some host \<Rightarrow> list_pages (emulator_page api c host prefix s) None []
      | None \<Rightarrow> list_pages (sdk_page api c prefix s) None [])"

definition list_one_emulator :: "'s gcs_api \<Rightarrow> storage_client \<Rightarrow> string \<Rightarrow> string \<Rightarrow> 's \<Rightarrow> storage_error + string option" where
  "list_one_emulator api c host prefix s =
     bind_r (emulator_request api (emulator_url api c host prefix @ ''&maxResults=1'') s) (\<lambda>body.
     Inr (case ej_items body of Some (item # items) \<Rightarrow> item | _ \<Rightarrow> None))"

definition storage_list_one :: "'s gcs_api \<Rightarrow> storage_client \<Rightarrow> string \<Rightarrow> 's \<Rightarrow> storage_error + string option" where
  "storage_list_one api c prefix s =
     (case gc_emulator_host (sc_config c) of
        Some host \<Rightarrow> list_one_emulator api c host prefix s
      | None \<Rightarrow>
          bind_r (map_err (\<lambda>e. StorageList (''Failed to list objects: '' @ e)) (ga_list api (bucket_path c) prefix None s)) (\<lambda>(names, next_token).
          Inr (case names of [] \<Rightarrow> None | name # _ \<Rightarrow> Some name)))"

section \<open>What the code relies on\<close>

text \<open>The pages of a listing, from a token on.\<close>

inductive pages_from :: "(string option \<Rightarrow> storage_error + (string list \<times> string option)) \<Rightarrow> string option \<Rightarrow> string list \<Rightarrow> bool"
  for page where
  last_page: "page token = Inr (names, None) \<Longrightarrow> pages_from page token names"
| next_page: "page token = Inr (names, Some t) \<Longrightarrow> pages_from page (Some t) rest \<Longrightarrow> pages_from page token (names @ rest)"

inductive_simps pages_from_simps: "pages_from page token names"

text \<open>
  The documented behaviour of the storage for one bucket, with its objects as a map: the names of a listing come in lexicographic order,
  in pages that end; an object that exists is read whole, the error of one that does not says so; a write that succeeds
  sets the object, one that fails sets it or leaves it.\<close>

definition page_of :: "'s gcs_api \<Rightarrow> storage_client \<Rightarrow> string \<Rightarrow> 's \<Rightarrow> string option \<Rightarrow> storage_error + (string list \<times> string option)" where
  "page_of api c prefix s =
     (case gc_emulator_host (sc_config c) of Some host \<Rightarrow> emulator_page api c host prefix s | None \<Rightarrow> sdk_page api c prefix s)"

definition names_under :: "string \<Rightarrow> (string \<rightharpoonup> bytes) \<Rightarrow> string list" where
  "names_under prefix objects = filter (starts_with prefix) (sorted_list_of_set (dom objects))"

definition object_store_ok :: "'s gcs_api \<Rightarrow> storage_client \<Rightarrow> ('s \<Rightarrow> (string \<rightharpoonup> bytes)) \<Rightarrow> bool" where
  "object_store_ok api c objects \<longleftrightarrow>
     (\<forall>s. finite (dom (objects s)))
   \<and> (\<forall>prefix s. pages_from (page_of api c prefix s) None (names_under prefix (objects s)))
   \<and> (\<forall>path s. case objects s path of
        Some data \<Rightarrow> \<exists>chunks. ga_read api (bucket_path c) path s = Inr (map Inr chunks) \<and> concat chunks = data
      | None \<Rightarrow> \<exists>e. ga_read api (bucket_path c) path s = Inl e \<and> says_missing e)
   \<and> (\<forall>path data s. case ga_write api (bucket_path c) path data s of
        (s', Inr _) \<Rightarrow> objects s' = (objects s)(path \<mapsto> data)
      | (s', Inl _) \<Rightarrow> objects s' = objects s \<or> objects s' = (objects s)(path \<mapsto> data))"

section \<open>The operations on a storage that behaves\<close>

lemma list_pages_from: "pages_from page token names \<Longrightarrow> list_pages page token objects = Some (Inr (objects @ names))"
proof (induction arbitrary: objects rule: pages_from.induct)
  case (last_page token names)
  then show ?case by (subst list_pages.simps) simp
next
  case (next_page token names t rest)
  then show ?case by (subst list_pages.simps) simp
qed

lemma storage_list_page_of: "storage_list api c prefix s = list_pages (page_of api c prefix s) None []"
  by (simp add: storage_list_def page_of_def split: option.splits)

lemma object_store_okD:
  assumes "object_store_ok api c objects"
  shows "finite (dom (objects s))"
    and "pages_from (page_of api c prefix s) None (names_under prefix (objects s))"
    and "objects s path = Some data \<Longrightarrow> \<exists>chunks. ga_read api (bucket_path c) path s = Inr (map Inr chunks) \<and> concat chunks = data"
    and "objects s path = None \<Longrightarrow> \<exists>e. ga_read api (bucket_path c) path s = Inl e \<and> says_missing e"
    and "ga_write api (bucket_path c) path data s = (s', Inr u) \<Longrightarrow> objects s' = (objects s)(path \<mapsto> data)"
    and "ga_write api (bucket_path c) path data s = (s', Inl e) \<Longrightarrow> objects s' = objects s \<or> objects s' = (objects s)(path \<mapsto> data)"
proof -
  note a = assms [unfolded object_store_ok_def]
  show "finite (dom (objects s))" using a by simp
  show "pages_from (page_of api c prefix s) None (names_under prefix (objects s))" using a by simp
  note rd = spec [OF spec [OF conjunct1 [OF conjunct2 [OF conjunct2 [OF a]]], of path], of s]
  show "objects s path = Some data \<Longrightarrow> \<exists>chunks. ga_read api (bucket_path c) path s = Inr (map Inr chunks) \<and> concat chunks = data"
    "objects s path = None \<Longrightarrow> \<exists>e. ga_read api (bucket_path c) path s = Inl e \<and> says_missing e"
    using rd by simp_all
  note wr = spec [OF spec [OF spec [OF conjunct2 [OF conjunct2 [OF conjunct2 [OF a]]], of path], of data], of s]
  show "ga_write api (bucket_path c) path data s = (s', Inr u) \<Longrightarrow> objects s' = (objects s)(path \<mapsto> data)"
    "ga_write api (bucket_path c) path data s = (s', Inl e) \<Longrightarrow> objects s' = objects s \<or> objects s' = (objects s)(path \<mapsto> data)"
    using wr by simp_all
qed

lemma storage_list_ok: "object_store_ok api c objects \<Longrightarrow> storage_list api c prefix s = Some (Inr (names_under prefix (objects s)))"
  by (simp add: storage_list_page_of list_pages_from [OF object_store_okD(2)])

lemma read_chunks_Inr: "read_chunks (map Inr chunks) data = Inr (data @ concat chunks)"
  by (induction chunks arbitrary: data) simp_all

lemma storage_read_ok: "object_store_ok api c objects \<Longrightarrow> storage_read api c path s = Inr (objects s path)"
  by (cases "objects s path") (auto simp: storage_read_def read_chunks_Inr dest: object_store_okD(3,4))

lemma storage_write_ok:
  assumes "object_store_ok api c objects" "storage_write api c path data s = (s', r)"
  shows "objects s' = (objects s)(path \<mapsto> data) \<or> (objects s' = objects s \<and> r \<noteq> Inr ())"
proof -
  obtain q where w: "ga_write api (bucket_path c) path data s = (s', q)" "r = map_err (\<lambda>e. StorageWrite (''Failed to write to '' @ path @ '': '' @ e)) q"
    using assms(2) by (cases "ga_write api (bucket_path c) path data s") (auto simp: storage_write_def)
  then show ?thesis
    using object_store_okD(5,6) [OF assms(1), of path data s s'] by (cases q) auto
qed

text \<open>Reading back what was written: in a storage that behaves as documented, a successful write is read whole, in however many
  chunks it arrives, other objects are as before, and the listing of a prefix ends, has every object under the prefix
  exactly once, in the order of the names, and is not cut at the end of a page.\<close>

theorem storage_roundtrip:
  assumes "object_store_ok api c objects" and "storage_write api c path data s = (s', Inr ())"
  shows "storage_read api c path s' = Inr (Some data)
     \<and> (\<forall>other. other \<noteq> path \<longrightarrow> storage_read api c other s' = storage_read api c other s)
     \<and> (\<exists>names. storage_list api c prefix s' = Some (Inr names) \<and> sorted names \<and> distinct names
          \<and> set names = {n. starts_with prefix n \<and> (n = path \<or> storage_read api c n s \<noteq> Inr None)})"
proof -
  have w: "objects s' = (objects s)(path \<mapsto> data)" using storage_write_ok [OF assms] by simp
  have fin: "finite (dom (objects s'))" using object_store_okD(1) [OF assms(1)] .
  have "set (names_under prefix (objects s')) = {n. starts_with prefix n \<and> (n = path \<or> objects s n \<noteq> None)}"
    unfolding names_under_def set_filter set_sorted_list_of_set [OF fin] by (auto simp: w)
  moreover have "sorted (names_under prefix (objects s'))" "distinct (names_under prefix (objects s'))"
    by (simp_all add: names_under_def sorted_filter [where f = id, simplified])
  ultimately show ?thesis
    using storage_list_ok [OF assms(1), of prefix s'] by (auto simp: storage_read_ok [OF assms(1)] w)
qed

text \<open>An error of reading whose text contains 404 is taken for a missing object, whatever the error is: a failure that
  names, for example, the object of the messages from 404 on is reported as the absence of the object.\<close>

theorem read_error_taken_for_missing:
  assumes "ga_read api (bucket_path c) path s = Inl e" and "str_contains e ''404''"
  shows "storage_read api c path s = Inr None"
  using assms by (simp add: storage_read_def says_missing_def)

section \<open>Witnesses\<close>

text \<open>A storage in an association list, with pages of one name and the rest, and objects read in two chunks.\<close>

definition demo_names :: "string \<Rightarrow> (string \<times> bytes) list \<Rightarrow> string list" where
  "demo_names prefix s = filter (starts_with prefix) (sort (remdups (map fst s)))"

definition demo_api :: "(string \<times> bytes) list gcs_api" where
  "demo_api =
     \<lparr>ga_write = (\<lambda>bucket path data s. (AList.update path data s, Inr ())),
      ga_read = (\<lambda>bucket path s. case map_of s path of None \<Rightarrow> Inl ''404'' | Some d \<Rightarrow> Inr [Inr (take 1 d), Inr (drop 1 d)]),
      ga_list = (\<lambda>bucket prefix token s.
        case token of
          None \<Rightarrow> if length (demo_names prefix s) \<le> 1 then Inr (demo_names prefix s, [])
                  else Inr (take 1 (demo_names prefix s), ''t'')
        | Some t \<Rightarrow> Inr (drop 1 (demo_names prefix s), [])),
      ga_get = (\<lambda>url s. Inl ''no emulator''), ga_percent_encode = (\<lambda>s. s)\<rparr>"

definition demo_storage :: storage_client where
  "demo_storage = \<lparr>sc_config = new_gcs_config ''bucket''\<rparr>"

lemma demo_names_under: "names_under prefix (map_of s) = demo_names prefix s"
  by (simp add: names_under_def demo_names_def dom_map_of_conv_image_fst flip: sorted_list_of_set_sort_remdups)

lemma demo_page_of:
  "page_of demo_api demo_storage prefix s token =
     (case token of
        None \<Rightarrow> if length (demo_names prefix s) \<le> 1 then Inr (demo_names prefix s, None) else Inr (take 1 (demo_names prefix s), Some ''t'')
      | Some t \<Rightarrow> Inr (drop 1 (demo_names prefix s), None))"
  by (auto simp: page_of_def sdk_page_def demo_storage_def new_gcs_config_def demo_api_def split: option.splits)

lemma demo_pages: "pages_from (page_of demo_api demo_storage prefix s) None (demo_names prefix s)"
proof (cases "length (demo_names prefix s) \<le> 1")
  case True
  then show ?thesis by (intro last_page) (simp add: demo_page_of)
next
  case False
  have "pages_from (page_of demo_api demo_storage prefix s) (Some ''t'') (drop 1 (demo_names prefix s))"
    by (intro last_page) (simp add: demo_page_of)
  with False have "pages_from (page_of demo_api demo_storage prefix s) None (take 1 (demo_names prefix s) @ drop 1 (demo_names prefix s))"
    by (intro next_page) (simp_all add: demo_page_of)
  then show ?thesis by simp
qed

lemma demo_object_store: "object_store_ok demo_api demo_storage map_of"
proof -
  have "\<exists>chunks. ga_read demo_api b path s = Inr (map Inr chunks) \<and> concat chunks = d" if "map_of s path = Some d" for b path s d
    using that by (intro exI [of _ "[take 1 d, drop 1 d]"]) (simp add: demo_api_def)
  moreover have "ga_read demo_api b path s = Inl ''404''" if "map_of s path = None" for b path s
    using that by (simp add: demo_api_def)
  moreover have "says_missing ''404''" by (simp add: says_missing_def str_contains_iff) (metis append.left_neutral append.right_neutral)
  ultimately show ?thesis unfolding object_store_ok_def
    by (simp add: finite_dom_map_of demo_names_under demo_pages split: option.splits) (auto simp: demo_api_def update_conv')
qed

theorem storage_roundtrip_witness:
  "\<exists>names. storage_read demo_api demo_storage ''a/1'' (AList.update ''a/1'' [1, 2, 3] []) = Inr (Some [1, 2, 3])
     \<and> storage_list demo_api demo_storage ''a/'' (AList.update ''a/1'' [1, 2, 3] []) = Some (Inr names)"
proof -
  have "storage_write demo_api demo_storage ''a/1'' [1, 2, 3] [] = (AList.update ''a/1'' [1, 2, 3] [], Inr ())"
    by (simp add: storage_write_def demo_api_def)
  from storage_roundtrip [OF demo_object_store this, of "''a/''"] show ?thesis by blast
qed

theorem read_error_taken_for_missing_witness:
  "storage_read (demo_api\<lparr>ga_read := \<lambda>b p s. Inl (''timeout reading '' @ p)\<rparr>) demo_storage ''a/000000000404_000000000405.cbor.zst'' [] = Inr None"
  by (rule read_error_taken_for_missing) (simp, code_simp)

end
