(* ===== verification/Stylus_Json.thy ===== *)
theory Stylus_Json
  imports Gcp_Attestation
begin

text \<open>
  The parsing code of the on-chain verifier, \<open>contracts/stylus/attestation-verifier/src/lib.rs\<close>: the
  PKCS#1 v1.5 padding check, its own copy of the base64url decoder and of the JWT parser, and the
  extraction of single claims from JSON text without a JSON parser. Positions in a byte slice are
  natural numbers, as the source's indices.

  The padding check accepts exactly the encoding of RFC 8017; the decoder equals the one of the
  gcp-attestation crate; the key search returns the first position at which the quoted key is
  followed by a colon, and numbers are read exactly or refused.
\<close>

section \<open>PKCS#1 v1.5\<close>

definition PKCS1_SHA256_DIGEST_INFO :: bytes where
  "PKCS1_SHA256_DIGEST_INFO = [0x30, 0x31] @ [0x30, 0x0d] @ [0x06, 0x09, 0x60, 0x86, 0x48] @ [0x01, 0x65, 0x03, 0x04, 0x02, 0x01]
     @ [0x05, 0x00] @ [0x04, 0x20]"

text \<open>The loop over the padding: \<open>None\<close> for a byte that is neither padding nor separator, and at the end.\<close>

fun find_separator :: "nat \<Rightarrow> bytes \<Rightarrow> nat option" where
  "find_separator i [] = None"
| "find_separator i (b # bs) = (if b = 0 then Some i else if b \<noteq> 0xFF then None else find_separator (i + 1) bs)"

definition verify_pkcs1v15_sha256 :: "bytes \<Rightarrow> bytes \<Rightarrow> bool" where
  "verify_pkcs1v15_sha256 decrypted expected_hash =
     (let len = length decrypted
      in if len < 62 then False
         else if decrypted ! 0 \<noteq> 0 \<or> decrypted ! 1 \<noteq> 1 then False
         else case find_separator 2 (drop 2 decrypted) of
                None \<Rightarrow> False
              | Some separator_pos \<Rightarrow>
                  if separator_pos < 10 then False
                  else let digest_start = separator_pos + 1
                    in if len - digest_start \<noteq> length PKCS1_SHA256_DIGEST_INFO + 32 then False
                       else if take (length PKCS1_SHA256_DIGEST_INFO) (drop digest_start decrypted) \<noteq> PKCS1_SHA256_DIGEST_INFO
                       then False
                       else take 32 (drop (digest_start + length PKCS1_SHA256_DIGEST_INFO) decrypted) = expected_hash)"

section \<open>Base64url\<close>

definition BASE64_DECODE_TABLE :: "int list" where
  "BASE64_DECODE_TABLE = replicate 43 (- 1) @ [62] @ replicate 3 (- 1) @ [63] @ [52 .. 61] @ replicate 3 (- 1) @ [- 2]
     @ replicate 3 (- 1) @ [0 .. 25] @ replicate 6 (- 1) @ [26 .. 51] @ replicate 5 (- 1)"

definition stylus_value :: "u8 \<Rightarrow> int" where
  "stylus_value a = (if a < 128 then BASE64_DECODE_TABLE ! unat a else - 1)"

fun base64_groups :: "bytes \<Rightarrow> string + bytes" where
  "base64_groups (a # b # c # d # rest) =
     (let va = stylus_value a; vb = stylus_value b; vc = stylus_value c; vd = stylus_value d
      in if va < 0 \<or> vb < 0 then Inl invalid_character
         else let x = or (push_bit 2 (as_u8 va)) (drop_bit 4 (as_u8 vb))
           in if c = 61 then bind_r (base64_groups rest) (\<lambda>r. Inr (x # r))
              else if vc < 0 then Inl invalid_character
              else let y = or (push_bit 4 (as_u8 vb)) (drop_bit 2 (as_u8 vc))
                in if d = 61 then bind_r (base64_groups rest) (\<lambda>r. Inr (x # y # r))
                   else if vd < 0 then Inl invalid_character
                   else let z = or (push_bit 6 (as_u8 vc)) (as_u8 vd)
                        in bind_r (base64_groups rest) (\<lambda>r. Inr (x # y # z # r)))"
| "base64_groups _ = Inr []"

definition base64_decode :: "bytes \<Rightarrow> string + bytes" where
  "base64_decode input = (if length input mod 4 \<noteq> 0 then Inl ''Invalid base64 length'' else base64_groups input)"

definition base64url_decode :: "bytes \<Rightarrow> string + bytes" where
  "base64url_decode input =
     (let standard = map (\<lambda>c. if c = 45 then 43 else if c = 95 then 47 else c) input
      in base64_decode
           (if length standard mod 4 = 2 then standard @ [61, 61]
            else if length standard mod 4 = 3 then standard @ [61] else standard))"

section \<open>JWT\<close>

record stylus_jwt =
  sj_header_json :: bytes
  sj_payload_json :: bytes
  sj_signature :: bytes
  sj_signing_input :: bytes

text \<open>\<open>splitn(3, '.')\<close>: at most three parts, the last one the rest of the text.\<close>

definition splitn3 :: "u8 \<Rightarrow> bytes \<Rightarrow> bytes list" where
  "splitn3 d bs =
     (let cut = (\<lambda>s. (takeWhile (\<lambda>b. b \<noteq> d) s, dropWhile (\<lambda>b. b \<noteq> d) s));
          (first, rest1) = cut bs
      in case rest1 of
           [] \<Rightarrow> [first]
         | _ # rest \<Rightarrow>
            (let (second, rest2) = cut rest
             in case rest2 of [] \<Rightarrow> [first, second] | _ # third \<Rightarrow> [first, second, third]))"

definition stylus_parse_jwt :: "bytes \<Rightarrow> string + stylus_jwt" where
  "stylus_parse_jwt jwt_bytes =
     (if \<not> valid_utf8 jwt_bytes then Inl ''Invalid UTF-8''
      else case splitn3 46 jwt_bytes of
        [header_b64, payload_b64, signature_b64] \<Rightarrow>
          bind_r (base64url_decode header_b64) (\<lambda>header_json.
          bind_r (base64url_decode payload_b64) (\<lambda>payload_json.
          bind_r (base64url_decode signature_b64) (\<lambda>signature.
          Inr \<lparr>sj_header_json = header_json, sj_payload_json = payload_json, sj_signature = signature,
               sj_signing_input = header_b64 @ [46] @ payload_b64\<rparr>)))
      | [header_b64, payload_b64] \<Rightarrow> Inl ''Missing signature''
      | _ \<Rightarrow> Inl ''Missing payload'')"

section \<open>JSON\<close>

definition is_json_whitespace :: "u8 \<Rightarrow> bool" where
  "is_json_whitespace b \<longleftrightarrow> b = 32 \<or> b = 9 \<or> b = 10 \<or> b = 13"

function skip_ws :: "bytes \<Rightarrow> nat \<Rightarrow> nat" where
  "skip_ws json i = (if i < length json \<and> is_json_whitespace (json ! i) then skip_ws json (i + 1) else i)"
  by auto
termination by (relation "measure (\<lambda>(json, i). length json - i)") auto

text \<open>\<open>haystack.windows(n).position(..)\<close>\<close>

fun find_subsequence :: "bytes \<Rightarrow> bytes \<Rightarrow> nat option" where
  "find_subsequence [] needle = (if needle = [] then Some 0 else None)"
| "find_subsequence (h # hs) needle =
     (if take (length needle) (h # hs) = needle then Some 0 else map_option Suc (find_subsequence hs needle))"

function find_key_loop :: "bytes \<Rightarrow> bytes \<Rightarrow> nat \<Rightarrow> nat option" where
  "find_key_loop json pat search_start =
     (case find_subsequence (drop search_start json) pat of
        None \<Rightarrow> None
      | Some pos \<Rightarrow>
         (let abs_pos = search_start + pos;
              i = skip_ws json (abs_pos + length pat)
          in if i < length json \<and> json ! i = 58 then Some (i + 1)
             else if length json \<le> abs_pos + 1 then None
             else find_key_loop json pat (abs_pos + 1)))"
  by auto
termination by (relation "measure (\<lambda>(json, pat, i). length json - i)") auto

definition json_find_key :: "bytes \<Rightarrow> bytes \<Rightarrow> nat option" where
  "json_find_key json key = find_key_loop json ([34] @ key @ [34]) 0"

function backslashes :: "bytes \<Rightarrow> nat \<Rightarrow> nat \<Rightarrow> nat" where
  "backslashes json start j = (if start < j \<and> json ! (j - 1) = 92 then 1 + backslashes json start (j - 1) else 0)"
  by auto
termination by (relation "measure (\<lambda>(json, start, j). j)") auto

function find_close :: "bytes \<Rightarrow> nat \<Rightarrow> nat \<Rightarrow> bytes option" where
  "find_close json start i =
     (if i < length json
      then if json ! i = 34 \<and> even (backslashes json start i) then Some (take (i - start) (drop start json))
           else find_close json start (i + 1)
      else None)"
  by auto
termination by (relation "measure (\<lambda>(json, start, i). length json - i)") auto

declare skip_ws.simps [simp del] find_key_loop.simps [simp del] backslashes.simps [simp del] find_close.simps [simp del]

definition json_get_string :: "bytes \<Rightarrow> bytes \<Rightarrow> bytes option" where
  "json_get_string json key =
     (case json_find_key json key of
        None \<Rightarrow> None
      | Some after_colon \<Rightarrow>
         (let i = skip_ws json after_colon
          in if length json \<le> i \<or> json ! i \<noteq> 34 then None else find_close json (i + 1) (i + 1)))"

definition is_digit_byte :: "u8 \<Rightarrow> bool" where
  "is_digit_byte b \<longleftrightarrow> 48 \<le> b \<and> b \<le> 57"

definition checked_mul :: "u64 \<Rightarrow> u64 \<Rightarrow> u64 option" where
  "checked_mul a b = (if uint a * uint b < 2 ^ 64 then Some (a * b) else None)"

definition checked_add :: "u64 \<Rightarrow> u64 \<Rightarrow> u64 option" where
  "checked_add a b = (if uint a + uint b < 2 ^ 64 then Some (a + b) else None)"

text \<open>The digit loop: \<open>None\<close> for an overflow, which returns from the function, else the number and whether a digit was read.\<close>

fun digits_loop :: "u64 \<Rightarrow> bool \<Rightarrow> bytes \<Rightarrow> (u64 \<times> bool) option" where
  "digits_loop result found [] = Some (result, found)"
| "digits_loop result found (b # bs) =
     (if is_digit_byte b
      then (case checked_mul result 10 of None \<Rightarrow> None | Some r10 \<Rightarrow>
              (case checked_add r10 (ucast (b - 48)) of None \<Rightarrow> None | Some r \<Rightarrow> digits_loop r True bs))
      else Some (result, found))"

definition json_get_u64 :: "bytes \<Rightarrow> bytes \<Rightarrow> u64 option" where
  "json_get_u64 json key =
     (case json_find_key json key of
        None \<Rightarrow> None
      | Some after_colon \<Rightarrow>
         (case digits_loop 0 False (drop (skip_ws json after_colon) json) of
            None \<Rightarrow> None
          | Some (result, found) \<Rightarrow> if found then Some result else None))"

definition json_get_bool :: "bytes \<Rightarrow> bytes \<Rightarrow> bool option" where
  "json_get_bool json key =
     (case json_find_key json key of
        None \<Rightarrow> None
      | Some after_colon \<Rightarrow>
         (let i = skip_ws json after_colon
          in if i + 4 \<le> length json \<and> take 4 (drop i json) = str_bytes ''true'' then Some True
             else if i + 5 \<le> length json \<and> take 5 (drop i json) = str_bytes ''false'' then Some False
             else None))"

section \<open>The padding check\<close>

definition pkcs1_encoding :: "nat \<Rightarrow> bytes \<Rightarrow> bytes" where
  "pkcs1_encoding n h = [0, 1] @ replicate n 0xFF @ [0] @ PKCS1_SHA256_DIGEST_INFO @ h"

lemma find_separator_Some:
  "find_separator i bs = Some k \<longleftrightarrow> (\<exists>n rest. bs = replicate n 0xFF @ [0] @ rest \<and> k = i + n)"
proof (induction bs arbitrary: i)
  case (Cons b bs)
  show ?case
  proof (cases "b = 0xFF")
    case True
    have "(\<exists>n rest. b # bs = replicate n 0xFF @ [0] @ rest \<and> k = i + n)
        \<longleftrightarrow> (\<exists>n rest. bs = replicate n 0xFF @ [0] @ rest \<and> k = i + 1 + n)"
    proof (intro iffI; elim exE conjE)
      fix n rest assume "b # bs = replicate n 0xFF @ [0] @ rest" "k = i + n"
      then show "\<exists>n rest. bs = replicate n 0xFF @ [0] @ rest \<and> k = i + 1 + n" using True by (cases n) auto
    next
      fix n rest assume "bs = replicate n 0xFF @ [0] @ rest" "k = i + 1 + n"
      then show "\<exists>n rest. b # bs = replicate n 0xFF @ [0] @ rest \<and> k = i + n"
        using True by (intro exI [of _ "Suc n"] exI [of _ rest]) simp
    qed
    with Cons.IH [of "i + 1"] True show ?thesis by simp
  next
    case False
    then have "b # bs = replicate n 0xFF @ [0] @ rest \<longleftrightarrow> n = 0 \<and> b = 0 \<and> bs = rest" for n rest by (cases n) auto
    with False show ?thesis by auto
  qed
qed simp

lemma length_digest_info [simp]: "length PKCS1_SHA256_DIGEST_INFO = 19"
  by (simp add: PKCS1_SHA256_DIGEST_INFO_def)

lemma verify_pkcs1_iff:
  "verify_pkcs1v15_sha256 d h \<longleftrightarrow> length h = 32 \<and> (\<exists>n \<ge> 8. d = pkcs1_encoding n h)"
proof
  assume v: "verify_pkcs1v15_sha256 d h"
  then obtain k where len: "62 \<le> length d" and hd: "d ! 0 = 0" "d ! 1 = 1"
    and sep: "find_separator 2 (drop 2 d) = Some k" and k: "10 \<le> k" and l: "length d - (k + 1) = 51"
    and di: "take 19 (drop (k + 1) d) = PKCS1_SHA256_DIGEST_INFO" and h: "take 32 (drop (k + 1 + 19) d) = h"
    by (auto simp: verify_pkcs1v15_sha256_def Let_def split: if_splits option.splits)
  from len obtain a b rest where d: "d = a # b # rest" by (cases d; cases "List.tl d") auto
  from sep obtain n r where r: "rest = replicate n 0xFF @ [0] @ r" "k = 2 + n" unfolding find_separator_Some d by auto
  have drop: "drop (k + 1) d = r" using r d by simp
  have "length r = 51" using l r d by simp
  moreover have "take 19 r = PKCS1_SHA256_DIGEST_INFO" using di drop by simp
  moreover have "drop 19 r = h"
  proof -
    have "drop (k + 1 + 19) d = drop 19 r" unfolding drop [symmetric] by (simp add: add.commute)
    with h \<open>length r = 51\<close> show ?thesis by simp
  qed
  ultimately have "r = PKCS1_SHA256_DIGEST_INFO @ h" "length h = 32" by (metis append_take_drop_id, auto)
  with hd r k d show "length h = 32 \<and> (\<exists>n \<ge> 8. d = pkcs1_encoding n h)"
    by (intro conjI exI [of _ n]) (simp_all add: pkcs1_encoding_def)
next
  assume "length h = 32 \<and> (\<exists>n \<ge> 8. d = pkcs1_encoding n h)"
  then obtain n where n: "8 \<le> n" "d = pkcs1_encoding n h" and h: "length h = 32" by blast
  have sep: "find_separator 2 (drop 2 d) = Some (2 + n)"
    unfolding find_separator_Some using n(2) by (intro exI [of _ n] exI [of _ "PKCS1_SHA256_DIGEST_INFO @ h"]) (simp add: pkcs1_encoding_def)
  have drop: "drop (2 + n + 1) d = PKCS1_SHA256_DIGEST_INFO @ h" using n(2) by (simp add: pkcs1_encoding_def)
  have "drop (2 + n + 1 + 19) d = h" using drop by (metis drop_drop add.commute append_eq_conv_conj length_digest_info)
  with drop sep n h show "verify_pkcs1v15_sha256 d h"
    by (simp add: verify_pkcs1v15_sha256_def Let_def) (simp add: pkcs1_encoding_def)
qed

text \<open>C32: The padding check accepts exactly the PKCS#1 v1.5 encodings of the hash with at least eight padding bytes.\<close>

theorem pkcs1_check_exact:
  "verify_pkcs1v15_sha256 d h \<longleftrightarrow> length h = 32 \<and> (\<exists>n \<ge> 8. d = [0, 1] @ replicate n 0xFF @ [0] @ PKCS1_SHA256_DIGEST_INFO @ h)"
  by (simp add: verify_pkcs1_iff pkcs1_encoding_def)

section \<open>Equivalence with the gcp-attestation crate\<close>

lemma stylus_value_eq: "stylus_value = table_value"
  by (rule ext) (simp add: stylus_value_def table_value_def BASE64_DECODE_TABLE_def DECODE_TABLE_def)

lemma base64_groups_eq: "base64_groups bs = decode_quads bs"
  by (induction bs rule: base64_groups.induct) (simp_all add: stylus_value_eq Let_def)

lemma base64url_decode_eq: "base64url_decode = decode_base64url"
proof -
  have "(\<lambda>c. if c = 45 then 43 else if c = 95 then 47 else c) = url_to_standard"
    by (rule ext) (simp add: url_to_standard_def)
  then show ?thesis
    by (intro ext) (simp only: base64url_decode_def decode_base64url_def base64_decode_def decode_base64_standard_def base64_groups_eq)
qed

lemma split_on_Cons:
  assumes "split_on d s = a # b # ps"
  shows "\<exists>x r. takeWhile (\<lambda>c. c \<noteq> d) s = a \<and> dropWhile (\<lambda>c. c \<noteq> d) s = x # r \<and> split_on d r = b # ps"
  using assms by (subst (asm) split_on_first) (auto split: list.splits)

lemma splitn3_split_on:
  assumes "split_on d s = [a, b, c]"
  shows "splitn3 d s = [a, b, c]"
proof -
  obtain x r where 1: "takeWhile (\<lambda>c. c \<noteq> d) s = a" "dropWhile (\<lambda>c. c \<noteq> d) s = x # r" "split_on d r = [b, c]"
    using split_on_Cons [OF assms] by blast
  obtain y t where 2: "takeWhile (\<lambda>c. c \<noteq> d) r = b" "dropWhile (\<lambda>c. c \<noteq> d) r = y # t" "split_on d t = [c]"
    using split_on_Cons [OF 1(3)] by blast
  from 2(3) have "d \<notin> set t" by (subst (asm) split_on_first) (auto split: list.splits)
  with 2(3) have "t = c" by (simp add: split_on_no_delim)
  with 1 2 show ?thesis by (simp add: splitn3_def Let_def)
qed

text \<open>A token made of encoded parts is read back.\<close>

lemma encode_no_dot: "46 \<notin> set (base64url_encode bs)"
  using encode_ascii [of bs] unfolding list_all_iff by blast

lemma split_token:
  "split_on 46 (base64url_encode h @ 46 # base64url_encode c @ 46 # base64url_encode s)
     = [base64url_encode h, base64url_encode c, base64url_encode s]"
  by (simp add: split_on_append_delim split_on_no_delim encode_no_dot)

lemma valid_token: "valid_utf8 (base64url_encode h @ 46 # base64url_encode c @ 46 # base64url_encode s)"
proof (rule valid_utf8_ascii)
  have "list_all (\<lambda>c. c < 128) (base64url_encode bs)" for bs
    using encode_ascii [of bs] unfolding list_all_iff by blast
  then show "list_all (\<lambda>c. c < 128) (base64url_encode h @ 46 # base64url_encode c @ 46 # base64url_encode s)" by simp
qed

lemma stylus_parse_token:
  "stylus_parse_jwt (base64url_encode h @ 46 # base64url_encode c @ 46 # base64url_encode s)
     = Inr \<lparr>sj_header_json = h, sj_payload_json = c, sj_signature = s,
            sj_signing_input = base64url_encode h @ [46] @ base64url_encode c\<rparr>"
  by (simp add: stylus_parse_jwt_def valid_token splitn3_split_on [OF split_token] base64url_decode_eq decode_encode)

text \<open>
  What the gcp-attestation crate parses, the on-chain verifier parses too, into the same signature and
  signing input and the JSON texts that the crate read.\<close>

theorem stylus_parse_agrees:
  assumes "parse_jwt g token = Inr p"
  shows "\<exists>j. stylus_parse_jwt token = Inr j \<and> sj_signature j = pj_signature p \<and> sj_signing_input j = pj_signing_input p
     \<and> json_header g (sj_header_json j) = Some (pj_header p) \<and> json_claims g (sj_payload_json j) = Some (pj_claims p)"
proof -
  from assms obtain h c s where parts: "valid_utf8 token" "split_on 46 token = [h, c, s]"
    by (auto simp: parse_jwt_def result_simps split: if_splits list.splits)
  with assms show ?thesis
    by (auto simp: parse_jwt_def stylus_parse_jwt_def splitn3_split_on base64url_decode_eq bind_r_eq_Inr ok_or_eq_Inr)
qed

section \<open>Claims\<close>

lemma skip_ws_ge: "i \<le> skip_ws json i"
  by (induction json i rule: skip_ws.induct) (subst skip_ws.simps, auto)

text \<open>A key stands at a position if its quoted form is there and the next byte after white space is a colon.\<close>

definition key_at :: "bytes \<Rightarrow> bytes \<Rightarrow> nat \<Rightarrow> bool" where
  "key_at json pat i \<longleftrightarrow> i < length json \<and> take (length pat) (drop i json) = pat
     \<and> (let j = skip_ws json (i + length pat) in j < length json \<and> json ! j = 58)"

lemma find_subsequence_Some:
  assumes "needle \<noteq> []"
  shows "find_subsequence hs needle = Some k \<longleftrightarrow>
    k < length hs \<and> take (length needle) (drop k hs) = needle \<and> (\<forall>j < k. take (length needle) (drop j hs) \<noteq> needle)"
proof (induction hs arbitrary: k)
  case (Cons h hs)
  show ?case
  proof (cases k)
    case (Suc l)
    have "(\<forall>j < Suc l. take (length needle) (drop j (h # hs)) \<noteq> needle)
        \<longleftrightarrow> take (length needle) (h # hs) \<noteq> needle \<and> (\<forall>j < l. take (length needle) (drop j hs) \<noteq> needle)"
      by (auto simp: less_Suc_eq_0_disj)
    with Cons.IH [of l] Suc show ?thesis by auto
  qed auto
qed (use assms in simp)

lemma find_subsequence_None:
  "needle \<noteq> [] \<Longrightarrow> find_subsequence hs needle = None \<longleftrightarrow> (\<forall>j < length hs. take (length needle) (drop j hs) \<noteq> needle)"
proof (induction hs)
  case (Cons h hs)
  have "(\<forall>j < length (h # hs). take (length needle) (drop j (h # hs)) \<noteq> needle)
      \<longleftrightarrow> take (length needle) (h # hs) \<noteq> needle \<and> (\<forall>j < length hs. take (length needle) (drop j hs) \<noteq> needle)"
    by (auto simp: less_Suc_eq_0_disj)
  with Cons show ?case by auto
qed simp

lemma key_at_pat: "key_at json pat i \<Longrightarrow> i < length json \<and> take (length pat) (drop i json) = pat"
  by (simp add: key_at_def)

lemma find_key_loop_find:
  assumes "pat \<noteq> []" and "s \<le> length json"
  shows "find_key_loop json pat s =
    map_option (\<lambda>i. skip_ws json (i + length pat) + 1) (find (key_at json pat) [s ..< length json])"
  using assms
proof (induction json pat s rule: find_key_loop.induct)
  case (1 json pat s)
  show ?case
  proof (cases "find_subsequence (drop s json) pat")
    case None
    have "\<not> key_at json pat i" if "i \<in> set [s ..< length json]" for i
    proof
      assume "key_at json pat i"
      then have "take (length pat) (drop (i - s) (drop s json)) = pat" using that key_at_pat by fastforce
      moreover have "i - s < length (drop s json)" using that by auto
      ultimately show False using None 1(2) by (simp add: find_subsequence_None)
    qed
    then have "find (key_at json pat) [s ..< length json] = None" by (simp add: find_None_iff)
    with None show ?thesis by (simp add: find_key_loop.simps)
  next
    case (Some k)
    then have k: "k < length json - s" "take (length pat) (drop (s + k) json) = pat"
      "\<forall>j < k. take (length pat) (drop (s + j) json) \<noteq> pat"
      using find_subsequence_Some [OF 1(2), of "drop s json" k] by (auto simp: add.commute)
    have before: "find (key_at json pat) [s ..< s + k] = None"
    proof -
      have "\<not> key_at json pat i" if "s \<le> i" "i < s + k" for i
        using k(3) [rule_format, of "i - s"] that key_at_pat [of json pat i] by auto
      then show ?thesis by (simp add: find_None_iff)
    qed
    have split: "[s ..< length json] = [s ..< s + k] @ (s + k) # [s + k + 1 ..< length json]"
    proof -
      have "[s ..< length json] = [s ..< s + k] @ [s + k ..< length json]"
        using k(1) upt_add_eq_append [of s "s + k" "length json - (s + k)"] by simp
      moreover have "s + k < length json" using k(1) by simp
      ultimately show ?thesis by (simp add: upt_conv_Cons)
    qed
    have find: "find (key_at json pat) [s ..< length json] =
        (if key_at json pat (s + k) then Some (s + k) else find (key_at json pat) [s + k + 1 ..< length json])"
      unfolding split using before by (simp add: find_append_None)
    show ?thesis
    proof (cases "key_at json pat (s + k)")
      case True
      with Some find show ?thesis by (subst find_key_loop.simps) (simp add: key_at_def Let_def)
    next
      case False
      with k have no: "\<not> (skip_ws json (s + k + length pat) < length json \<and> json ! skip_ws json (s + k + length pat) = 58)"
        by (auto simp: key_at_def Let_def)
      show ?thesis
      proof (cases "length json \<le> s + k + 1")
        case True
        with Some no find False show ?thesis by (subst find_key_loop.simps) (simp add: Let_def)
      next
        case more: False
        have "find_key_loop json pat s = find_key_loop json pat (s + k + 1)"
          using Some no more by (subst find_key_loop.simps) (auto simp: Let_def)
        with 1(1) [OF Some refl refl no] more find False 1(2) show ?thesis by simp
      qed
    qed
  qed
qed

text \<open>
  The key search returns the position after the colon of the first occurrence of the quoted key that a
  colon follows, and nothing exactly when there is none.\<close>

theorem json_find_key_first:
  "json_find_key json key =
     map_option (\<lambda>i. skip_ws json (i + (length key + 2)) + 1) (find (key_at json ([34] @ key @ [34])) [0 ..< length json])"
  by (simp add: json_find_key_def find_key_loop_find)

text \<open>The value of a string of digits.\<close>

definition digits_value :: "bytes \<Rightarrow> nat" where
  "digits_value ds = foldl (\<lambda>n b. 10 * n + unat (b - 48)) 0 ds"

lemma digits_foldl_mono: "n \<le> foldl (\<lambda>n b. 10 * n + f b) n ds" for n :: nat
proof (induction ds arbitrary: n)
  case (Cons b ds)
  have "n \<le> 10 * n + f b" by simp
  also have "\<dots> \<le> foldl (\<lambda>n b. 10 * n + f b) (10 * n + f b) ds" by (rule Cons.IH)
  finally show ?case by simp
qed simp

lemma unat_ucast_u8 [simp]: "unat (ucast (x :: u8) :: u64) = unat x"
proof -
  have "unat x < 2 ^ 64" using unsigned_less [of x, where ?'a = nat] by simp
  then show ?thesis by (simp add: unsigned_ucast_eq take_bit_nat_eq_self)
qed

lemma int_less_2p64: "int n < 2 ^ 64 \<longleftrightarrow> n < 2 ^ 64"
  by simp

lemma checked_mul_unat: "checked_mul a b = (if unat a * unat b < 2 ^ 64 then Some (a * b) else None)"
proof -
  have "uint a * uint b = int (unat a * unat b)" by simp
  then show ?thesis by (simp only: checked_mul_def int_less_2p64)
qed

lemma checked_add_unat: "checked_add a b = (if unat a + unat b < 2 ^ 64 then Some (a + b) else None)"
proof -
  have "uint a + uint b = int (unat a + unat b)" by simp
  then show ?thesis by (simp only: checked_add_def int_less_2p64)
qed

lemma digits_loop_value:
  "digits_loop r found bs =
     (let ds = takeWhile is_digit_byte bs; v = foldl (\<lambda>n b. 10 * n + unat (b - 48)) (unat r) ds
      in if v < 2 ^ 64 then Some (of_nat v, found \<or> ds \<noteq> []) else None)"
proof (induction bs arbitrary: r found)
  case (Cons b bs)
  show ?case
  proof (cases "is_digit_byte b")
    case True
    let ?v = "10 * unat r + unat (b - 48)"
    have le: "?v \<le> foldl (\<lambda>n b. 10 * n + unat (b - 48)) ?v ds" for ds :: bytes by (rule digits_foldl_mono)
    show ?thesis
    proof (cases "?v < 2 ^ 64")
      case small: True
      then have "unat r * 10 < 2 ^ 64" by simp
      moreover from this have "unat (r * 10) = unat r * 10" by (simp add: unat_word_ariths)
      moreover have "unat (ucast (b - 48) :: u64) = unat (b - 48)"
        by (rule unat_ucast_u8)
      ultimately have "checked_mul r 10 = Some (r * 10)" "checked_add (r * 10) (ucast (b - 48)) = Some (r * 10 + ucast (b - 48))"
        "unat (r * 10 + ucast (b - 48)) = ?v"
        using small by (simp_all add: checked_mul_unat checked_add_unat unat_word_ariths)
      with True Cons.IH [of "r * 10 + ucast (b - 48)" True] show ?thesis by (simp add: Let_def)
    next
      case False
      then have "\<not> foldl (\<lambda>n b. 10 * n + unat (b - 48)) ?v ds < 2 ^ 64" for ds :: bytes using le [of ds] by linarith
      moreover have "(case checked_mul r 10 of None \<Rightarrow> None | Some r10 \<Rightarrow>
              (case checked_add r10 (ucast (b - 48)) of None \<Rightarrow> None | Some r \<Rightarrow> digits_loop r True bs)) = None"
      proof (cases "unat r * 10 < 2 ^ 64")
        case m: True
        then have "unat (r * 10) = unat r * 10" by (simp add: unat_word_ariths)
        moreover have "unat (ucast (b - 48) :: u64) = unat (b - 48)"
          by (rule unat_ucast_u8)
        ultimately show ?thesis using m False by (simp add: checked_mul_unat checked_add_unat)
      qed (simp add: checked_mul_unat)
      ultimately show ?thesis using True by (simp add: Let_def)
    qed
  qed (use unsigned_less [of r, where ?'a = nat] in \<open>simp add: Let_def\<close>)
next
  case Nil
  show ?case using unsigned_less [of r, where ?'a = nat] by (simp add: Let_def)
qed

text \<open>
  A number claim is the exact value of the digits after the key, and is refused when there is no digit or
  when the value does not fit 64 bits; it never wraps.\<close>

theorem json_get_u64_exact:
  "json_get_u64 json key =
     (case json_find_key json key of
        None \<Rightarrow> None
      | Some p \<Rightarrow>
          (let ds = takeWhile is_digit_byte (drop (skip_ws json p) json)
           in if ds \<noteq> [] \<and> digits_value ds < 2 ^ 64 then Some (of_nat (digits_value ds)) else None))"
  by (simp add: json_get_u64_def digits_loop_value digits_value_def Let_def split: option.splits)

lemma skip_ws_stop: "i < length json \<Longrightarrow> \<not> is_json_whitespace (json ! i) \<Longrightarrow> skip_ws json i = i"
  by (subst skip_ws.simps) simp

lemma backslashes_none: "j = start \<or> json ! (j - 1) \<noteq> 92 \<Longrightarrow> backslashes json start j = 0"
  by (subst backslashes.simps) auto

lemma upt_split: "a \<le> b \<Longrightarrow> [0 ..< b] = [0 ..< a] @ [a ..< b]"
  using upt_add_eq_append [of 0 a "b - a"] by simp

lemma nth_of_drop: "drop s xs = ys \<Longrightarrow> i < length ys \<Longrightarrow> s + i < length xs \<and> xs ! (s + i) = ys ! i"
  by auto

lemma drop_length_append: "drop (length xs) (xs @ ys) = ys"
  by simp

lemma find_close_value:
  assumes "drop start json = v @ [34] @ rest" and "34 \<notin> set v" and "92 \<notin> set v" and "k \<le> length v"
  shows "find_close json start (start + k) = Some v"
  using assms(4)
proof (induction "length v - k" arbitrary: k)
  case 0
  then have k: "k = length v" by simp
  have "start + k < length json" "json ! (start + k) = 34" using nth_of_drop [OF assms(1), of k] k by simp_all
  moreover have "backslashes json start (start + k) = 0"
  proof (rule backslashes_none, cases k)
    case (Suc l)
    then have "json ! (start + l) = v ! l" "v ! l \<in> set v" using nth_of_drop [OF assms(1), of l] k by (simp_all add: nth_append)
    then have "json ! (start + l) \<noteq> 92" using assms(3) by auto
    then show "start + k = start \<or> json ! (start + k - 1) \<noteq> 92" using Suc by simp
  qed simp
  moreover have "take k (drop start json) = v" using assms(1) k by simp
  ultimately show ?case by (subst find_close.simps) simp
next
  case (Suc n)
  then have k: "k < length v" by simp
  then have "json ! (start + k) = v ! k" "v ! k \<in> set v" "start + k < length json"
    using nth_of_drop [OF assms(1), of k] by (simp_all add: nth_append)
  moreover from this have "json ! (start + k) \<noteq> 34" using assms(2) by auto
  moreover have "find_close json start (start + Suc k) = Some v" using Suc(1) [of "Suc k"] Suc(2) k by simp
  ultimately show ?case by (subst find_close.simps) simp
qed

text \<open>
  A string claim written as a quoted key, a colon and a quoted value without quotes and backslashes reads
  back, if no earlier occurrence of the quoted key is followed by a colon.\<close>

theorem json_get_string_roundtrip:
  assumes "34 \<notin> set v" and "92 \<notin> set v"
    and "\<forall>i < length pre. \<not> key_at (pre @ [34] @ key @ [34, 58, 34] @ v @ [34] @ post) ([34] @ key @ [34]) i"
  shows "json_get_string (pre @ [34] @ key @ [34, 58, 34] @ v @ [34] @ post) key = Some v"
proof -
  let ?json = "pre @ [34] @ key @ [34, 58, 34] @ v @ [34] @ post"
  let ?pat = "[34] @ key @ [34] :: bytes"
  let ?colon = "length pre + (length key + 2)"
  have colon: "?json ! ?colon = 58" "?colon < length ?json" by (simp_all add: nth_append)
  have quote: "?json ! (?colon + 1) = 34" by (simp add: nth_append)
  have ws1: "skip_ws ?json ?colon = ?colon" using colon by (intro skip_ws_stop) (simp_all add: is_json_whitespace_def)
  have ws2: "skip_ws ?json (?colon + 1) = ?colon + 1" using quote by (intro skip_ws_stop) (simp_all add: is_json_whitespace_def)
  have at: "key_at ?json ?pat (length pre)" using ws1 colon by (simp add: key_at_def Let_def)
  have before: "find (key_at ?json ?pat) [0 ..< length pre] = None" using assms(3) by (simp add: find_None_iff)
  have upt: "[0 ..< length ?json] = [0 ..< length pre] @ length pre # [Suc (length pre) ..< length ?json]"
    using upt_split [of "length pre" "length ?json"] upt_conv_Cons [of "length pre" "length ?json"] by simp
  have "find (key_at ?json ?pat) [0 ..< length ?json] = Some (length pre)"
    unfolding upt using at by (simp only: find_append_None [OF before] find.simps if_True)
  then have key: "json_find_key ?json key = Some (?colon + 1)"
    unfolding json_find_key_def using ws1 by (simp add: find_key_loop_find)
  have "drop (?colon + 2) ?json = v @ [34] @ post"
    using drop_length_append [of "pre @ [34] @ key @ [34, 58, 34]" "v @ [34] @ post"] by (simp add: numeral_eq_Suc)
  from find_close_value [OF this assms(1,2), of 0] have "find_close ?json (?colon + 2) (?colon + 2) = Some v" by simp
  with key ws2 quote colon show ?thesis by (simp add: json_get_string_def Let_def)
qed

end
