(* ===== verification/Stylus_Verifier.thy ===== *)
theory Stylus_Verifier
  imports Attestation Stylus_Json
begin

text \<open>
  The on-chain attestation verifier, the Stylus contract \<open>contracts/stylus/attestation-verifier/src/lib.rs\<close>:
  its storage, initialisation, the proof check, the owner's functions and the views; and the RISC Zero
  guest program \<open>crates/synddb-bootstrap/risc0/program/src/main.rs\<close> that makes the same public values off chain.

  A storage map is a function with a default value. The host (sender, block time, Keccak, the
  precompiles called with their address) and the ABI decoders are parameters. A call that fails returns an
  error; the contract's state is then rolled back by the chain, and the model keeps the old state. Additions
  on \<open>u64\<close> wrap, as in the release profile.
\<close>

section \<open>Data\<close>

record public_values =
  pv_jwk_key_hash :: bytes
  pv_validity_window_start :: u64
  pv_validity_window_end :: u64
  pv_image_digest_hash :: bytes
  pv_tee_signing_key :: bytes
  pv_secboot :: bool
  pv_dbgstat_disabled :: bool
  pv_audience_hash :: bytes
  pv_image_signature_v :: u8
  pv_image_signature_r :: bytes
  pv_image_signature_s :: bytes

record stylus_proof_data =
  sp_jwt :: bytes
  sp_jwk_modulus :: bytes
  sp_jwk_exponent :: bytes

datatype verifier_event =
    TrustedJwkAdded bytes bytes
  | TrustedJwkRemoved bytes
  | AllowedImageDigestHashAdded bytes
  | AllowedImageDigestHashRemoved bytes
  | TrustedImageSignerAdded bytes
  | TrustedImageSignerRemoved bytes
  | OwnershipTransferred bytes bytes

datatype stylus_error =
    NotOwner bytes
  | AlreadyInitialized
  | StyInvalidJwt
  | StyUnsupportedAlgorithm
  | UntrustedJwk bytes
  | JwkKeyMaterialMismatch bytes
  | RsaVerificationFailed
  | StyInvalidIssuer
  | ValidityWindowNotStarted u64 u64
  | ValidityWindowExpired u64 u64
  | ClaimsMismatch
  | StySecureBootRequired
  | DebugModeNotAllowed
  | UntrustedImageDigest bytes
  | UntrustedImageSigner bytes
  | ImageSignatureInvalid
  | EcrecoverFailed
  | InvalidProofData
  | InvalidPublicValues
  | PrecompileFailed
  | ZeroAddress
  | ToleranceExceedsOneDay

record stylus_verifier =
  st_owner :: bytes
  st_initialized :: bool
  st_expiration_tolerance :: u64
  st_trusted_jwk_hashes :: "bytes \<Rightarrow> bool"
  st_jwk_key_material_hashes :: "bytes \<Rightarrow> bytes"
  st_allowed_image_digest_hashes :: "bytes \<Rightarrow> bool"
  st_trusted_image_signers :: "bytes \<Rightarrow> bool"
  st_log :: "verifier_event list"

definition ZERO_ADDRESS :: bytes where "ZERO_ADDRESS = replicate 20 0"

definition ZERO_HASH :: bytes where "ZERO_HASH = replicate 32 0"

definition fresh_verifier :: stylus_verifier where
  "fresh_verifier = \<lparr>st_owner = ZERO_ADDRESS, st_initialized = False, st_expiration_tolerance = 0,
     st_trusted_jwk_hashes = (\<lambda>_. False), st_jwk_key_material_hashes = (\<lambda>_. ZERO_HASH),
     st_allowed_image_digest_hashes = (\<lambda>_. False), st_trusted_image_signers = (\<lambda>_. False), st_log = []\<rparr>"

record stylus_host =
  vm_keccak256 :: "bytes \<Rightarrow> bytes"
  vm_static_call :: "u8 \<Rightarrow> bytes \<Rightarrow> bytes option"
  abi_public_values :: "bytes \<Rightarrow> public_values option"
  abi_proof_data :: "bytes \<Rightarrow> stylus_proof_data option"

definition ECRECOVER :: u8 where "ECRECOVER = 1"
definition SHA256_PRECOMPILE :: u8 where "SHA256_PRECOMPILE = 2"
definition MODEXP_PRECOMPILE :: u8 where "MODEXP_PRECOMPILE = 5"

section \<open>Precompiles\<close>

definition ecrecover_call :: "stylus_host \<Rightarrow> bytes \<Rightarrow> u8 \<Rightarrow> bytes \<Rightarrow> bytes \<Rightarrow> stylus_error + bytes" where
  "ecrecover_call vm hash v r s =
     (case vm_static_call vm ECRECOVER (hash @ (replicate 31 0 @ [v]) @ r @ s) of
        Some result \<Rightarrow> if 32 \<le> length result then Inr (take 20 (drop 12 result)) else Inl EcrecoverFailed
      | None \<Rightarrow> Inl EcrecoverFailed)"

definition sha256_call :: "stylus_host \<Rightarrow> bytes \<Rightarrow> stylus_error + bytes" where
  "sha256_call vm data =
     (case vm_static_call vm SHA256_PRECOMPILE data of
        Some result \<Rightarrow> if length result = 32 then Inr result else Inl PrecompileFailed
      | None \<Rightarrow> Inl PrecompileFailed)"

text \<open>The length as a \<open>u32\<close>, big-endian in the last four of 32 bytes.\<close>

definition len_buf :: "bytes \<Rightarrow> bytes" where
  "len_buf data = (let w = (of_nat (length data) :: 32 word)
     in replicate 28 0 @ [ucast (drop_bit 24 w), ucast (drop_bit 16 w), ucast (drop_bit 8 w), ucast w])"

definition modexp_call :: "stylus_host \<Rightarrow> bytes \<Rightarrow> bytes \<Rightarrow> bytes \<Rightarrow> stylus_error + bytes" where
  "modexp_call vm b exponent modulus =
     ok_or PrecompileFailed (vm_static_call vm MODEXP_PRECOMPILE
       (len_buf b @ len_buf exponent @ len_buf modulus @ b @ exponent @ modulus))"

definition verify_rs256 :: "stylus_host \<Rightarrow> bytes \<Rightarrow> bytes \<Rightarrow> bytes \<Rightarrow> bytes \<Rightarrow> stylus_error + unit" where
  "verify_rs256 vm signing_input signature modulus exponent =
     bind_r (sha256_call vm signing_input) (\<lambda>hash.
     bind_r (modexp_call vm signature exponent modulus) (\<lambda>decrypted.
     if verify_pkcs1v15_sha256 decrypted hash then Inr () else Inl RsaVerificationFailed))"

section \<open>The proof check\<close>

definition ensure :: "bool \<Rightarrow> 'e \<Rightarrow> 'e + unit" where
  "ensure c e = (if c then Inr () else Inl e)"

definition check_header :: "stylus_host \<Rightarrow> stylus_verifier \<Rightarrow> stylus_proof_data \<Rightarrow> stylus_jwt \<Rightarrow> stylus_error + bytes" where
  "check_header vm st proof jwt =
     bind_r (ok_or StyInvalidJwt (json_get_string (sj_header_json jwt) (str_bytes ''alg''))) (\<lambda>alg.
     bind_r (ensure (alg = str_bytes ''RS256'') StyUnsupportedAlgorithm) (\<lambda>_.
     bind_r (ok_or StyInvalidJwt (json_get_string (sj_header_json jwt) (str_bytes ''kid''))) (\<lambda>kid.
     let kid_hash = vm_keccak256 vm kid
     in bind_r (ensure (st_trusted_jwk_hashes st kid_hash) (UntrustedJwk kid_hash)) (\<lambda>_.
        bind_r (ensure (st_jwk_key_material_hashes st kid_hash = vm_keccak256 vm (sp_jwk_modulus proof @ sp_jwk_exponent proof))
                  (JwkKeyMaterialMismatch kid_hash)) (\<lambda>_.
        Inr kid_hash)))))"

definition check_window :: "u64 \<Rightarrow> stylus_verifier \<Rightarrow> public_values \<Rightarrow> bytes \<Rightarrow> stylus_error + unit" where
  "check_window current_timestamp st values payload =
     bind_r (ok_or StyInvalidJwt (json_get_u64 payload (str_bytes ''iat''))) (\<lambda>iat.
     bind_r (ok_or StyInvalidJwt (json_get_u64 payload (str_bytes ''exp''))) (\<lambda>exp.
     bind_r (ensure (\<not> (iat \<noteq> pv_validity_window_start values \<or> exp \<noteq> pv_validity_window_end values)) ClaimsMismatch) (\<lambda>_.
     bind_r (ensure (\<not> current_timestamp < pv_validity_window_start values)
               (ValidityWindowNotStarted (pv_validity_window_start values) current_timestamp)) (\<lambda>_.
     ensure (\<not> pv_validity_window_end values + st_expiration_tolerance st < current_timestamp)
       (ValidityWindowExpired (pv_validity_window_end values) current_timestamp)))))"

definition check_payload :: "stylus_host \<Rightarrow> stylus_verifier \<Rightarrow> public_values \<Rightarrow> bytes \<Rightarrow> stylus_error + unit" where
  "check_payload vm st values payload =
     bind_r (ok_or StyInvalidJwt (json_get_string payload (str_bytes ''aud''))) (\<lambda>aud.
     bind_r (ensure (vm_keccak256 vm aud = pv_audience_hash values) ClaimsMismatch) (\<lambda>_.
     bind_r (ok_or StyInvalidJwt (json_get_bool payload (str_bytes ''secboot''))) (\<lambda>secboot.
     bind_r (ensure (secboot = pv_secboot values) ClaimsMismatch) (\<lambda>_.
     bind_r (ensure (pv_secboot values) StySecureBootRequired) (\<lambda>_.
     let dbgstat_disabled = (case json_get_string payload (str_bytes ''dbgstat'') of
                               None \<Rightarrow> False | Some d \<Rightarrow> d = str_bytes ''disabled-since-boot'')
     in bind_r (ensure (dbgstat_disabled = pv_dbgstat_disabled values) ClaimsMismatch) (\<lambda>_.
        bind_r (ensure (pv_dbgstat_disabled values) DebugModeNotAllowed) (\<lambda>_.
        bind_r (ok_or StyInvalidJwt (json_get_string payload (str_bytes ''image_digest''))) (\<lambda>image_digest.
        bind_r (ensure (vm_keccak256 vm image_digest = pv_image_digest_hash values) ClaimsMismatch) (\<lambda>_.
        ensure (st_allowed_image_digest_hashes st (pv_image_digest_hash values))
          (UntrustedImageDigest (pv_image_digest_hash values)))))))))))"

definition check_image_signer :: "stylus_host \<Rightarrow> stylus_verifier \<Rightarrow> public_values \<Rightarrow> stylus_error + unit" where
  "check_image_signer vm st values =
     bind_r (ecrecover_call vm (pv_image_digest_hash values) (pv_image_signature_v values)
               (pv_image_signature_r values) (pv_image_signature_s values)) (\<lambda>image_signer.
     bind_r (ensure (image_signer \<noteq> ZERO_ADDRESS) ImageSignatureInvalid) (\<lambda>_.
     ensure (st_trusted_image_signers st image_signer) (UntrustedImageSigner image_signer)))"

definition verify_attestation_proof :: "stylus_host \<Rightarrow> u64 \<Rightarrow> bytes \<Rightarrow> bytes \<Rightarrow> stylus_verifier \<Rightarrow> stylus_error + bytes" where
  "verify_attestation_proof vm block_timestamp pub proof_bytes st =
     bind_r (ok_or InvalidPublicValues (abi_public_values vm pub)) (\<lambda>values.
     bind_r (ok_or InvalidProofData (abi_proof_data vm proof_bytes)) (\<lambda>proof.
     bind_r (map_err (\<lambda>_. StyInvalidJwt) (stylus_parse_jwt (sp_jwt proof))) (\<lambda>jwt.
     bind_r (check_header vm st proof jwt) (\<lambda>kid_hash.
     bind_r (verify_rs256 vm (sj_signing_input jwt) (sj_signature jwt) (sp_jwk_modulus proof) (sp_jwk_exponent proof)) (\<lambda>_.
     bind_r (ok_or StyInvalidJwt (json_get_string (sj_payload_json jwt) (str_bytes ''iss''))) (\<lambda>iss.
     bind_r (ensure (iss = str_bytes ''https://confidentialcomputing.googleapis.com'') StyInvalidIssuer) (\<lambda>_.
     bind_r (check_window block_timestamp st values (sj_payload_json jwt)) (\<lambda>_.
     bind_r (check_payload vm st values (sj_payload_json jwt)) (\<lambda>_.
     bind_r (ensure (kid_hash = pv_jwk_key_hash values) ClaimsMismatch) (\<lambda>_.
     bind_r (check_image_signer vm st values) (\<lambda>_.
     Inr (pv_tee_signing_key values))))))))))))"

section \<open>The owner's functions\<close>

definition only_owner :: "bytes \<Rightarrow> stylus_verifier \<Rightarrow> stylus_error + unit" where
  "only_owner sender st = (if sender \<noteq> st_owner st then Inl (NotOwner sender) else Inr ())"

definition initialize :: "bytes \<Rightarrow> u64 \<Rightarrow> stylus_verifier \<Rightarrow> stylus_error + stylus_verifier" where
  "initialize sender expiration_tolerance st =
     (if st_initialized st then Inl AlreadyInitialized
      else if 86400 < expiration_tolerance then Inl ToleranceExceedsOneDay
      else Inr (st\<lparr>st_owner := sender, st_expiration_tolerance := expiration_tolerance, st_initialized := True\<rparr>))"

definition add_trusted_jwk :: "bytes \<Rightarrow> bytes \<Rightarrow> bytes \<Rightarrow> stylus_verifier \<Rightarrow> stylus_error + stylus_verifier" where
  "add_trusted_jwk sender kid_hash key_material_hash st =
     bind_r (only_owner sender st) (\<lambda>_. Inr (st\<lparr>st_trusted_jwk_hashes := (st_trusted_jwk_hashes st)(kid_hash := True),
       st_jwk_key_material_hashes := (st_jwk_key_material_hashes st)(kid_hash := key_material_hash),
       st_log := st_log st @ [TrustedJwkAdded kid_hash key_material_hash]\<rparr>))"

definition remove_trusted_jwk :: "bytes \<Rightarrow> bytes \<Rightarrow> stylus_verifier \<Rightarrow> stylus_error + stylus_verifier" where
  "remove_trusted_jwk sender kid_hash st =
     bind_r (only_owner sender st) (\<lambda>_. Inr (st\<lparr>st_trusted_jwk_hashes := (st_trusted_jwk_hashes st)(kid_hash := False),
       st_jwk_key_material_hashes := (st_jwk_key_material_hashes st)(kid_hash := ZERO_HASH),
       st_log := st_log st @ [TrustedJwkRemoved kid_hash]\<rparr>))"

definition add_allowed_image_digest_hash :: "bytes \<Rightarrow> bytes \<Rightarrow> stylus_verifier \<Rightarrow> stylus_error + stylus_verifier" where
  "add_allowed_image_digest_hash sender digest_hash st =
     bind_r (only_owner sender st) (\<lambda>_. Inr (st\<lparr>
       st_allowed_image_digest_hashes := (st_allowed_image_digest_hashes st)(digest_hash := True),
       st_log := st_log st @ [AllowedImageDigestHashAdded digest_hash]\<rparr>))"

definition remove_allowed_image_digest_hash :: "bytes \<Rightarrow> bytes \<Rightarrow> stylus_verifier \<Rightarrow> stylus_error + stylus_verifier" where
  "remove_allowed_image_digest_hash sender digest_hash st =
     bind_r (only_owner sender st) (\<lambda>_. Inr (st\<lparr>
       st_allowed_image_digest_hashes := (st_allowed_image_digest_hashes st)(digest_hash := False),
       st_log := st_log st @ [AllowedImageDigestHashRemoved digest_hash]\<rparr>))"

definition add_trusted_image_signer :: "bytes \<Rightarrow> bytes \<Rightarrow> stylus_verifier \<Rightarrow> stylus_error + stylus_verifier" where
  "add_trusted_image_signer sender signer st =
     bind_r (only_owner sender st) (\<lambda>_. Inr (st\<lparr>
       st_trusted_image_signers := (st_trusted_image_signers st)(signer := True),
       st_log := st_log st @ [TrustedImageSignerAdded signer]\<rparr>))"

definition remove_trusted_image_signer :: "bytes \<Rightarrow> bytes \<Rightarrow> stylus_verifier \<Rightarrow> stylus_error + stylus_verifier" where
  "remove_trusted_image_signer sender signer st =
     bind_r (only_owner sender st) (\<lambda>_. Inr (st\<lparr>
       st_trusted_image_signers := (st_trusted_image_signers st)(signer := False),
       st_log := st_log st @ [TrustedImageSignerRemoved signer]\<rparr>))"

definition transfer_ownership :: "bytes \<Rightarrow> bytes \<Rightarrow> stylus_verifier \<Rightarrow> stylus_error + stylus_verifier" where
  "transfer_ownership sender new_owner st =
     bind_r (only_owner sender st) (\<lambda>_.
     if new_owner = ZERO_ADDRESS then Inl ZeroAddress
     else Inr (st\<lparr>st_owner := new_owner, st_log := st_log st @ [OwnershipTransferred (st_owner st) new_owner]\<rparr>))"

datatype admin_call =
    Initialize u64
  | AddJwk bytes bytes
  | RemoveJwk bytes
  | AddDigest bytes
  | RemoveDigest bytes
  | AddSigner bytes
  | RemoveSigner bytes
  | TransferOwnership bytes

fun admin :: "bytes \<Rightarrow> admin_call \<Rightarrow> stylus_verifier \<Rightarrow> stylus_error + stylus_verifier" where
  "admin sender (Initialize t) st = initialize sender t st"
| "admin sender (AddJwk k h) st = add_trusted_jwk sender k h st"
| "admin sender (RemoveJwk k) st = remove_trusted_jwk sender k st"
| "admin sender (AddDigest h) st = add_allowed_image_digest_hash sender h st"
| "admin sender (RemoveDigest h) st = remove_allowed_image_digest_hash sender h st"
| "admin sender (AddSigner a) st = add_trusted_image_signer sender a st"
| "admin sender (RemoveSigner a) st = remove_trusted_image_signer sender a st"
| "admin sender (TransferOwnership a) st = transfer_ownership sender a st"

text \<open>A transaction: a call by a sender, rolled back on an error.\<close>

definition transact :: "bytes \<times> admin_call \<Rightarrow> stylus_verifier \<Rightarrow> stylus_verifier" where
  "transact tx st = (case admin (fst tx) (snd tx) st of Inl _ \<Rightarrow> st | Inr st' \<Rightarrow> st')"

section \<open>The guest program\<close>

definition parse_image_signature :: "bytes \<Rightarrow> (u8 \<times> bytes \<times> bytes) option" where
  "parse_image_signature bs = (if length bs \<noteq> 65 then None else Some (bs ! 64, take 32 bs, take 32 (drop 32 bs)))"

text \<open>\<open>None\<close> for a failed assertion or expectation, which aborts the proof.\<close>

definition guest_main :: "gcp_crates \<Rightarrow> (bytes \<Rightarrow> bytes) \<Rightarrow> bytes \<Rightarrow> jwk_key \<Rightarrow> string \<Rightarrow> bytes \<Rightarrow> bytes
  \<Rightarrow> public_values option" where
  "guest_main g keccak jwt_bytes jwk expected_audience evm_public_key image_signature =
     (if length evm_public_key \<noteq> 64 then None
      else case verify_attestation g jwt_bytes jwk (Some expected_audience) None of
             Inl _ \<Rightarrow> None
           | Inr result \<Rightarrow>
              (case parse_image_signature image_signature of
                 None \<Rightarrow> None
               | Some (sig_v, sig_r, sig_s) \<Rightarrow>
                   Some \<lparr>pv_jwk_key_hash = keccak (str_bytes (vr_signing_key_id result)),
                         pv_validity_window_start = vr_validity_window_start result,
                         pv_validity_window_end = vr_validity_window_end result,
                         pv_image_digest_hash = keccak (str_bytes (vr_image_digest result)),
                         pv_tee_signing_key = drop 12 (keccak evm_public_key),
                         pv_secboot = vr_secboot result,
                         pv_dbgstat_disabled = (vr_dbgstat result = ''disabled-since-boot''),
                         pv_audience_hash = keccak (str_bytes (vr_audience result)),
                         pv_image_signature_v = sig_v, pv_image_signature_r = sig_r, pv_image_signature_s = sig_s\<rparr>))"

section \<open>What the contract accepts\<close>

lemma ensure_Inr [result_simps]: "ensure c e = Inr u \<longleftrightarrow> c"
  by (simp add: ensure_def)

definition rsa_signature_ok :: "stylus_host \<Rightarrow> bytes \<Rightarrow> bytes \<Rightarrow> bytes \<Rightarrow> bytes \<Rightarrow> bool" where
  "rsa_signature_ok vm signing_input signature modulus exponent \<longleftrightarrow>
     (\<exists>hash n. vm_static_call vm SHA256_PRECOMPILE signing_input = Some hash \<and> length hash = 32 \<and> 8 \<le> n
        \<and> vm_static_call vm MODEXP_PRECOMPILE (len_buf signature @ len_buf exponent @ len_buf modulus @ signature @ exponent @ modulus)
            = Some (pkcs1_encoding n hash))"

lemma verify_rs256_ok: "verify_rs256 vm i s m e = Inr u \<longleftrightarrow> rsa_signature_ok vm i s m e"
  by (auto simp: verify_rs256_def rsa_signature_ok_def sha256_call_def modexp_call_def verify_pkcs1_iff result_simps
      split: option.splits if_splits)

definition header_ok :: "stylus_host \<Rightarrow> stylus_verifier \<Rightarrow> stylus_proof_data \<Rightarrow> bytes \<Rightarrow> bytes \<Rightarrow> bool" where
  "header_ok vm st proof header kid_hash \<longleftrightarrow>
     json_get_string header (str_bytes ''alg'') = Some (str_bytes ''RS256'')
     \<and> (\<exists>kid. json_get_string header (str_bytes ''kid'') = Some kid \<and> kid_hash = vm_keccak256 vm kid)
     \<and> st_trusted_jwk_hashes st kid_hash
     \<and> st_jwk_key_material_hashes st kid_hash = vm_keccak256 vm (sp_jwk_modulus proof @ sp_jwk_exponent proof)"

lemma check_header_ok: "check_header vm st proof jwt = Inr k \<longleftrightarrow> header_ok vm st proof (sj_header_json jwt) k"
  by (auto simp: check_header_def header_ok_def Let_def result_simps)

definition window_ok :: "u64 \<Rightarrow> stylus_verifier \<Rightarrow> public_values \<Rightarrow> bytes \<Rightarrow> bool" where
  "window_ok now st values payload \<longleftrightarrow>
     json_get_u64 payload (str_bytes ''iat'') = Some (pv_validity_window_start values)
     \<and> json_get_u64 payload (str_bytes ''exp'') = Some (pv_validity_window_end values)
     \<and> pv_validity_window_start values \<le> now \<and> now \<le> pv_validity_window_end values + st_expiration_tolerance st"

lemma check_window_ok: "check_window now st values payload = Inr u \<longleftrightarrow> window_ok now st values payload"
  by (auto simp: check_window_def window_ok_def result_simps not_less)

definition payload_ok :: "stylus_host \<Rightarrow> stylus_verifier \<Rightarrow> public_values \<Rightarrow> bytes \<Rightarrow> bool" where
  "payload_ok vm st values payload \<longleftrightarrow>
     (\<exists>aud. json_get_string payload (str_bytes ''aud'') = Some aud \<and> vm_keccak256 vm aud = pv_audience_hash values)
     \<and> json_get_bool payload (str_bytes ''secboot'') = Some True \<and> pv_secboot values
     \<and> json_get_string payload (str_bytes ''dbgstat'') = Some (str_bytes ''disabled-since-boot'') \<and> pv_dbgstat_disabled values
     \<and> (\<exists>digest. json_get_string payload (str_bytes ''image_digest'') = Some digest
          \<and> vm_keccak256 vm digest = pv_image_digest_hash values)
     \<and> st_allowed_image_digest_hashes st (pv_image_digest_hash values)"

lemma check_payload_ok: "check_payload vm st values payload = Inr u \<longleftrightarrow> payload_ok vm st values payload"
  by (auto simp: check_payload_def payload_ok_def Let_def result_simps split: option.splits)

definition signer_trusted :: "stylus_host \<Rightarrow> stylus_verifier \<Rightarrow> public_values \<Rightarrow> bool" where
  "signer_trusted vm st values \<longleftrightarrow>
     (\<exists>a. ecrecover_call vm (pv_image_digest_hash values) (pv_image_signature_v values) (pv_image_signature_r values)
            (pv_image_signature_s values) = Inr a \<and> a \<noteq> ZERO_ADDRESS \<and> st_trusted_image_signers st a)"

lemma check_image_signer_ok: "check_image_signer vm st values = Inr u \<longleftrightarrow> signer_trusted vm st values"
  by (auto simp: check_image_signer_def signer_trusted_def result_simps)

text \<open>Everything the contract checks of decoded inputs.\<close>

definition proof_ok :: "stylus_host \<Rightarrow> u64 \<Rightarrow> stylus_verifier \<Rightarrow> public_values \<Rightarrow> stylus_proof_data \<Rightarrow> bool" where
  "proof_ok vm now st values proof \<longleftrightarrow>
     (\<exists>jwt. stylus_parse_jwt (sp_jwt proof) = Inr jwt
        \<and> header_ok vm st proof (sj_header_json jwt) (pv_jwk_key_hash values)
        \<and> rsa_signature_ok vm (sj_signing_input jwt) (sj_signature jwt) (sp_jwk_modulus proof) (sp_jwk_exponent proof)
        \<and> json_get_string (sj_payload_json jwt) (str_bytes ''iss'') = Some (str_bytes ''https://confidentialcomputing.googleapis.com'')
        \<and> window_ok now st values (sj_payload_json jwt) \<and> payload_ok vm st values (sj_payload_json jwt))
     \<and> signer_trusted vm st values"

lemma verify_proof_iff:
  "verify_attestation_proof vm now pub proof_bytes st = Inr k \<longleftrightarrow>
     (\<exists>values proof. abi_public_values vm pub = Some values \<and> abi_proof_data vm proof_bytes = Some proof
        \<and> proof_ok vm now st values proof \<and> k = pv_tee_signing_key values)"
  unfolding verify_attestation_proof_def proof_ok_def bind_r_eq_Inr ok_or_eq_Inr map_err_eq_Inr ensure_Inr
    check_header_ok verify_rs256_ok check_window_ok check_payload_ok check_image_signer_ok
  by auto

text \<open>
  C11: The contract accepts a proof exactly when the token parses, names RS256 and a trusted key whose material
  was given, its RSA signature is the PKCS#1 encoding of the hash of the signed part, it is from the expected issuer
  and inside the validity window, and its audience, secure boot, debug status, image digest and image signer are
  those claimed and trusted.\<close>

theorem stylus_accepts_iff:
  "(\<exists>k. verify_attestation_proof vm now pub proof_bytes st = Inr k) \<longleftrightarrow>
     (\<exists>values proof. abi_public_values vm pub = Some values \<and> abi_proof_data vm proof_bytes = Some proof
        \<and> proof_ok vm now st values proof)"
  unfolding verify_proof_iff by auto

text \<open>
  C30: The address the contract returns is not bound to the token: whoever can have one proof accepted can have the
  same token accepted for any other address.\<close>

theorem tee_key_unbound:
  assumes "verify_attestation_proof vm now pub proof_bytes st = Inr k" and "abi_public_values vm pub = Some vals"
    and "abi_public_values vm pub' = Some (vals\<lparr>pv_tee_signing_key := k'\<rparr>)"
  shows "verify_attestation_proof vm now pub' proof_bytes st = Inr k'"
proof -
  from assms(1,2) obtain pf where "abi_proof_data vm proof_bytes = Some pf" "proof_ok vm now st vals pf"
    unfolding verify_proof_iff by auto
  moreover have "proof_ok vm now st (vals\<lparr>pv_tee_signing_key := k'\<rparr>) pf \<longleftrightarrow> proof_ok vm now st vals pf"
    by (simp add: proof_ok_def window_ok_def payload_ok_def signer_trusted_def)
  ultimately show ?thesis using assms(3) unfolding verify_proof_iff by auto
qed

text \<open>The same holds of the guest program: it commits the address of whatever key the prover gives it.\<close>

theorem guest_key_unbound:
  assumes "guest_main g keccak jwt jwk aud evm_key image_signature = Some pv" and "length evm_key' = 64"
  shows "guest_main g keccak jwt jwk aud evm_key' image_signature = Some (pv\<lparr>pv_tee_signing_key := drop 12 (keccak evm_key')\<rparr>)"
  using assms by (auto simp: guest_main_def split: if_splits sum.splits option.splits)

section \<open>The owner\<close>

lemma only_owner_Inr [result_simps]: "only_owner sender st = Inr u \<longleftrightarrow> sender = st_owner st"
  by (auto simp: only_owner_def)

lemmas admin_defs = add_trusted_jwk_def remove_trusted_jwk_def add_allowed_image_digest_hash_def
  remove_allowed_image_digest_hash_def add_trusted_image_signer_def remove_trusted_image_signer_def
  transfer_ownership_def initialize_def

definition verifier_inv :: "stylus_verifier \<Rightarrow> bool" where
  "verifier_inv st \<longleftrightarrow> st_expiration_tolerance st \<le> 86400 \<and> (st_initialized st \<longleftrightarrow> st_owner st \<noteq> ZERO_ADDRESS)
     \<and> (\<not> st_initialized st \<longrightarrow> (\<forall>h. \<not> st_trusted_jwk_hashes st h \<and> \<not> st_allowed_image_digest_hashes st h
          \<and> \<not> st_trusted_image_signers st h))"

lemma admin_inv:
  "verifier_inv st \<Longrightarrow> sender \<noteq> ZERO_ADDRESS \<Longrightarrow> admin sender c st = Inr st' \<Longrightarrow> verifier_inv st'"
  by (cases c) (auto simp: verifier_inv_def admin_defs only_owner_def bind_r_eq_Inr split: if_splits)

interpretation verifier: machine transact verifier_inv "\<lambda>tx _. fst tx \<noteq> ZERO_ADDRESS"
  by unfold_locales (auto simp: transact_def intro: admin_inv split: sum.splits)

lemma run_ok_senders: "list_all (\<lambda>tx. fst tx \<noteq> ZERO_ADDRESS) txs \<Longrightarrow> run_ok transact (\<lambda>tx _. fst tx \<noteq> ZERO_ADDRESS) txs st"
  by (induction txs arbitrary: st) auto

lemma fresh_inv: "verifier_inv fresh_verifier"
  by (simp add: verifier_inv_def fresh_verifier_def)

lemma admin_stranger:
  assumes "st_initialized st" and "sender \<noteq> st_owner st"
  shows "\<exists>e. admin sender c st = Inl e"
  using assms by (cases c) (auto simp: admin_defs only_owner_def)

text \<open>
  C31: After any transactions by real senders, the tolerance is at most a day, the contract has an owner exactly when
  it is initialised and trusts nothing before, and a transaction of anyone but the owner then changes nothing.\<close>

theorem verifier_admin_safety:
  assumes "list_all (\<lambda>tx. fst tx \<noteq> ZERO_ADDRESS) txs" and "st = run transact txs fresh_verifier"
  shows "verifier_inv st \<and> (st_initialized st \<and> sender \<noteq> st_owner st \<longrightarrow> transact (sender, c) st = st)"
proof -
  have "verifier_inv st" unfolding assms(2) by (rule verifier.run_inv [OF fresh_inv run_ok_senders [OF assms(1)]])
  moreover have "transact (sender, c) st = st" if "st_initialized st" "sender \<noteq> st_owner st"
    using admin_stranger [OF that, of c] by (auto simp: transact_def)
  ultimately show ?thesis by blast
qed

text \<open>
  A contract in a reachable state accepts no token before its issue or more than a day after its expiry, also
  where the addition of the tolerance wraps around.\<close>

theorem accepted_in_window:
  assumes "verifier_inv st" and "verify_attestation_proof vm now pub proof_bytes st = Inr k"
    and "abi_public_values vm pub = Some values"
  shows "pv_validity_window_start values \<le> now \<and> unat now \<le> unat (pv_validity_window_end values) + 86400"
proof -
  from assms(2,3) have "pv_validity_window_start values \<le> now" "now \<le> pv_validity_window_end values + st_expiration_tolerance st"
    unfolding verify_proof_iff by (auto simp: proof_ok_def window_ok_def)
  moreover have "unat (st_expiration_tolerance st) \<le> 86400" using assms(1) by (simp add: verifier_inv_def word_le_nat_alt)
  moreover have "unat (pv_validity_window_end values + st_expiration_tolerance st)
      \<le> unat (pv_validity_window_end values) + unat (st_expiration_tolerance st)" by (simp add: unat_word_ariths)
  ultimately show ?thesis by (simp add: word_le_nat_alt)
qed

section \<open>Witnesses\<close>

text \<open>A token with every claim, with a signature that the demonstration host accepts.\<close>

definition demo_header :: bytes where
  \<open>demo_header = str_bytes ''{"alg":"RS256","kid":"k"}''\<close>

definition demo_payload :: bytes where
  \<open>demo_payload = str_bytes (''{"iat":1,"exp":9,"aud":"a","image_digest":"d","secboot":true,''
     @ ''"dbgstat":"disabled-since-boot","iss":"https://confidentialcomputing.googleapis.com"}'')\<close>

definition demo_jwt :: bytes where
  "demo_jwt = base64url_encode demo_header @ 46 # base64url_encode demo_payload @ 46 # base64url_encode [0]"

definition demo_values :: public_values where
  "demo_values = \<lparr>pv_jwk_key_hash = [7], pv_validity_window_start = 1, pv_validity_window_end = 9, pv_image_digest_hash = [7],
     pv_tee_signing_key = [], pv_secboot = True, pv_dbgstat_disabled = True, pv_audience_hash = [7],
     pv_image_signature_v = 27, pv_image_signature_r = [], pv_image_signature_s = []\<rparr>"

definition demo_vm :: stylus_host where
  "demo_vm = \<lparr>vm_keccak256 = (\<lambda>_. [7]),
     vm_static_call = (\<lambda>a _. if a = 1 then Some (replicate 32 9) else if a = 2 then Some (replicate 32 5)
       else if a = 5 then Some (pkcs1_encoding 8 (replicate 32 5)) else None),
     abi_public_values = (\<lambda>b. Some (demo_values\<lparr>pv_tee_signing_key := b\<rparr>)),
     abi_proof_data = (\<lambda>b. Some \<lparr>sp_jwt = demo_jwt, sp_jwk_modulus = [1], sp_jwk_exponent = [3]\<rparr>)\<rparr>"

definition demo_admin :: "(bytes \<times> admin_call) list" where
  "demo_admin = [([1], Initialize 60), ([1], AddJwk [7] [7]), ([2], AddJwk [8] [8]), ([1], AddDigest [7]),
     ([1], AddSigner (replicate 20 9))]"

definition demo_contract :: stylus_verifier where
  "demo_contract = run transact demo_admin fresh_verifier"

lemma demo_parsed:
  "stylus_parse_jwt demo_jwt = Inr \<lparr>sj_header_json = demo_header, sj_payload_json = demo_payload, sj_signature = [0],
     sj_signing_input = base64url_encode demo_header @ [46] @ base64url_encode demo_payload\<rparr>"
  unfolding demo_jwt_def by (simp only: stylus_parse_token)

lemma demo_header_claims:
  "json_get_string demo_header (str_bytes ''alg'') = Some (str_bytes ''RS256'')"
  "json_get_string demo_header (str_bytes ''kid'') = Some (str_bytes ''k'')"
  by code_simp+

lemma demo_iss: "json_get_string demo_payload (str_bytes ''iss'') = Some (str_bytes ''https://confidentialcomputing.googleapis.com'')"
  by code_simp

lemma demo_iat: "json_get_u64 demo_payload (str_bytes ''iat'') = Some 1"
  by code_simp

lemma demo_exp: "json_get_u64 demo_payload (str_bytes ''exp'') = Some 9"
  by code_simp

lemma demo_aud: "json_get_string demo_payload (str_bytes ''aud'') = Some (str_bytes ''a'')"
  by code_simp

lemma demo_secboot: "json_get_bool demo_payload (str_bytes ''secboot'') = Some True"
  by code_simp

lemma demo_dbgstat: "json_get_string demo_payload (str_bytes ''dbgstat'') = Some (str_bytes ''disabled-since-boot'')"
  by code_simp

lemma demo_image_digest: "json_get_string demo_payload (str_bytes ''image_digest'') = Some (str_bytes ''d'')"
  by code_simp

lemmas demo_payload_claims = demo_iss demo_iat demo_exp demo_aud demo_secboot demo_dbgstat demo_image_digest

lemma demo_contract_fields:
  "st_trusted_jwk_hashes demo_contract [7]" "st_jwk_key_material_hashes demo_contract [7] = [7]"
  "st_allowed_image_digest_hashes demo_contract [7]" "st_trusted_image_signers demo_contract (replicate 20 9)"
  "st_expiration_tolerance demo_contract = 60" "st_initialized demo_contract" "st_owner demo_contract = [1]"
  by (simp_all add: demo_contract_def demo_admin_def transact_def admin_defs only_owner_def fresh_verifier_def)

lemma demo_accepted: "verify_attestation_proof demo_vm 5 [1] [] demo_contract = Inr [1]"
proof -
  have "header_ok demo_vm demo_contract \<lparr>sp_jwt = demo_jwt, sp_jwk_modulus = [1], sp_jwk_exponent = [3]\<rparr> demo_header [7]"
    by (simp add: header_ok_def demo_header_claims demo_contract_fields demo_vm_def)
  moreover have "rsa_signature_ok demo_vm i s m e" for i s m e
    unfolding rsa_signature_ok_def
    by (intro exI [of _ "replicate 32 5"] exI [of _ "8 :: nat"])
       (simp add: demo_vm_def SHA256_PRECOMPILE_def MODEXP_PRECOMPILE_def)
  moreover have "window_ok 5 demo_contract (demo_values\<lparr>pv_tee_signing_key := [1]\<rparr>) demo_payload"
    by (simp add: window_ok_def demo_payload_claims demo_contract_fields demo_values_def)
  moreover have "payload_ok demo_vm demo_contract (demo_values\<lparr>pv_tee_signing_key := [1]\<rparr>) demo_payload"
    by (simp add: payload_ok_def demo_payload_claims demo_contract_fields demo_values_def demo_vm_def)
  moreover have "signer_trusted demo_vm demo_contract (demo_values\<lparr>pv_tee_signing_key := [1]\<rparr>)"
    unfolding signer_trusted_def
    by (intro exI [of _ "replicate 20 9"])
       (simp add: ecrecover_call_def demo_vm_def ECRECOVER_def demo_contract_fields ZERO_ADDRESS_def)
  ultimately have "proof_ok demo_vm 5 demo_contract (demo_values\<lparr>pv_tee_signing_key := [1]\<rparr>)
      \<lparr>sp_jwt = demo_jwt, sp_jwk_modulus = [1], sp_jwk_exponent = [3]\<rparr>"
    unfolding proof_ok_def by (simp add: demo_parsed demo_payload_claims demo_values_def)
  then show ?thesis unfolding verify_proof_iff by (simp add: demo_vm_def)
qed

theorem tee_key_unbound_witness: "verify_attestation_proof demo_vm 5 [2] [] demo_contract = Inr [2]"
  by (rule tee_key_unbound [OF demo_accepted, where vals = "demo_values\<lparr>pv_tee_signing_key := [1]\<rparr>"])
     (simp_all add: demo_vm_def)

theorem verifier_admin_safety_witness:
  "verifier_inv demo_contract \<and> transact ([2], RemoveJwk [7]) demo_contract = demo_contract"
proof -
  have "list_all (\<lambda>tx. fst tx \<noteq> ZERO_ADDRESS) demo_admin" by (simp add: demo_admin_def ZERO_ADDRESS_def numeral_eq_Suc)
  moreover have "st_initialized demo_contract \<and> [2] \<noteq> st_owner demo_contract" by (simp add: demo_contract_fields)
  ultimately show ?thesis using verifier_admin_safety [OF _ demo_contract_def, of "[2]" "RemoveJwk [7]"] by blast
qed

theorem accepted_in_window_witness:
  "pv_validity_window_start demo_values \<le> 5 \<and> unat (5 :: u64) \<le> unat (pv_validity_window_end demo_values) + 86400"
proof -
  have "list_all (\<lambda>tx. fst tx \<noteq> ZERO_ADDRESS) demo_admin" by (simp add: demo_admin_def ZERO_ADDRESS_def numeral_eq_Suc)
  then have "verifier_inv demo_contract"
    unfolding demo_contract_def by (intro verifier.run_inv fresh_inv run_ok_senders)
  from accepted_in_window [OF this demo_accepted, of "demo_values\<lparr>pv_tee_signing_key := [1]\<rparr>"]
  show ?thesis by (simp add: demo_vm_def)
qed

theorem stylus_parse_agrees_witness:
  "\<exists>j. stylus_parse_jwt (str_bytes demo_token) = Inr j \<and> sj_signature j = [0]"
proof -
  have "parse_jwt (demo_gcp None) (str_bytes demo_token) =
    Inr \<lparr>pj_header = \<lparr>jh_alg = ''RS256'', jh_kid = ''k'', jh_typ = None\<rparr>, pj_claims = demo_claims None, pj_signature = [0],
         pj_signing_input = [65, 65, 46, 65, 65]\<rparr>"
    by code_simp
  from stylus_parse_agrees [OF this] show ?thesis by auto
qed

theorem json_get_string_roundtrip_witness:
  "json_get_string ([123] @ [34] @ str_bytes ''k'' @ [34, 58, 34] @ str_bytes ''v'' @ [34] @ [125]) (str_bytes ''k'') = Some (str_bytes ''v'')"
proof (rule json_get_string_roundtrip)
  show "34 \<notin> set (str_bytes ''v'')" "92 \<notin> set (str_bytes ''v'')" by (simp_all add: str_bytes_def)
  show "\<forall>i < length [123 :: u8]. \<not> key_at ([123] @ [34] @ str_bytes ''k'' @ [34, 58, 34] @ str_bytes ''v'' @ [34] @ [125])
      ([34] @ str_bytes ''k'' @ [34]) i"
    by (simp add: key_at_def str_bytes_def)
qed

theorem guest_key_unbound_witness:
  "\<exists>pv. guest_main (demo_gcp None) (\<lambda>b. replicate 12 0 @ take 20 b) (str_bytes demo_token) demo_jwk ''seq'' (replicate 64 2) (replicate 65 1) = Some pv
     \<and> pv_tee_signing_key pv = replicate 20 2"
proof -
  have v: "verify_attestation (demo_gcp None) (str_bytes demo_token) demo_jwk (Some ''seq'') None =
    Inr \<lparr>vr_signing_key_id = ''k'', vr_validity_window_start = 0, vr_validity_window_end = 100, vr_image_digest = [],
         vr_secboot = True, vr_audience = ''seq'', vr_nonce = None, vr_dbgstat = [], vr_hwmodel = []\<rparr>"
    by code_simp
  then obtain pv where "guest_main (demo_gcp None) (\<lambda>b. replicate 12 0 @ take 20 b) (str_bytes demo_token) demo_jwk ''seq''
      (replicate 64 1) (replicate 65 1) = Some pv"
    by (simp add: guest_main_def parse_image_signature_def)
  from guest_key_unbound [OF this, of "replicate 64 2"] show ?thesis by simp
qed

end
