(* ===== verification/Proof_Client.thy ===== *)
theory Proof_Client
  imports Attestation_Client Stylus_Verifier
begin

text \<open>
  The first half of key bootstrapping, the crate \<open>crates/synddb-bootstrap\<close>: its errors (\<open>error.rs\<close>), its configuration
  (\<open>config.rs\<close>) and the proof client (\<open>proof_client.rs\<close>), which asks a proof service, makes a mock proof or builds the
  proof data of the Stylus verifier from the token.

  The services that the client talks to (metadata server, proof service, JWKS endpoint) are functions of the request.
  Durations are numbers of nanoseconds. The hash, hex, JSON and ABI crates are parameters.
\<close>

section \<open>Errors\<close>

datatype bootstrap_error =
    AttestationSocketMissing string
  | AttestationFetchFailed string
  | JwksFetchFailed string
  | ProofGenerationFailed string
  | ProofGenerationPermanent string
  | ProofServiceUnavailable string
  | ProofGenerationTimeout nat
  | ContractSubmissionFailed string
  | TransactionFailed string
  | TransactionConfirmationFailed string
  | KeyVerificationFailed string
  | BConfig string
  | BTimeout nat
  | MaxRetriesExceeded string string

fun show_bootstrap_error :: "bootstrap_error \<Rightarrow> string" where
  "show_bootstrap_error (AttestationSocketMissing e) = ''Attestation socket not available: '' @ e"
| "show_bootstrap_error (AttestationFetchFailed e) = ''Failed to fetch attestation token: '' @ e"
| "show_bootstrap_error (JwksFetchFailed e) = ''Failed to fetch JWKS: '' @ e"
| "show_bootstrap_error (ProofGenerationFailed e) = ''Proof generation failed: '' @ e"
| "show_bootstrap_error (ProofGenerationPermanent e) = ''Permanent proof generation failure: '' @ e"
| "show_bootstrap_error (ProofServiceUnavailable e) = ''Proof service unavailable: '' @ e"
| "show_bootstrap_error (ProofGenerationTimeout d) = ''Proof generation timed out after '' @ show_duration d"
| "show_bootstrap_error (ContractSubmissionFailed e) = ''Contract submission failed: '' @ e"
| "show_bootstrap_error (TransactionFailed e) = ''Transaction failed: '' @ e"
| "show_bootstrap_error (TransactionConfirmationFailed e) = ''Transaction confirmation failed: '' @ e"
| "show_bootstrap_error (KeyVerificationFailed e) = ''Key verification failed: '' @ e"
| "show_bootstrap_error (BConfig e) = ''Configuration error: '' @ e"
| "show_bootstrap_error (BTimeout d) = ''Bootstrap timed out after '' @ show_duration d"
| "show_bootstrap_error (MaxRetriesExceeded operation last_error) =
     ''Maximum retries exceeded for '' @ operation @ '': '' @ last_error"

fun is_retryable :: "bootstrap_error \<Rightarrow> bool" where
  "is_retryable (AttestationFetchFailed _) = True"
| "is_retryable (JwksFetchFailed _) = True"
| "is_retryable (ProofGenerationFailed _) = True"
| "is_retryable (ProofServiceUnavailable _) = True"
| "is_retryable (ProofGenerationTimeout _) = True"
| "is_retryable (ContractSubmissionFailed _) = True"
| "is_retryable (TransactionFailed _) = True"
| "is_retryable (TransactionConfirmationFailed _) = True"
| "is_retryable _ = False"

section \<open>Configuration\<close>

datatype prover_mode = ServiceMode | MockMode | StylusMode

record bootstrap_config =
  bo_enable_key_bootstrap :: bool
  bo_bridge_address :: "string option"
  bo_rpc_url :: "string option"
  bo_chain_id :: "u64 option"
  bo_relayer_url :: "string option"
  bo_prover_mode :: prover_mode
  bo_proof_service_url :: "string option"
  bo_attestation_audience :: "string option"
  bo_proof_timeout :: nat
  bo_proof_health_check_timeout :: nat
  bo_bootstrap_timeout :: nat
  bo_proof_max_retries :: nat
  bo_relayer_max_retries :: nat
  bo_verification_max_retries :: nat
  bo_relayer_timeout :: nat
  bo_image_signature :: "string option"
  bo_google_jwks_url :: string

definition default_bootstrap_config :: bootstrap_config where
  "default_bootstrap_config = \<lparr>bo_enable_key_bootstrap = False, bo_bridge_address = None, bo_rpc_url = None,
     bo_chain_id = None, bo_relayer_url = None, bo_prover_mode = ServiceMode, bo_proof_service_url = None,
     bo_attestation_audience = None, bo_proof_timeout = 1200 * nanos_per_sec,
     bo_proof_health_check_timeout = 10 * nanos_per_sec, bo_bootstrap_timeout = 1800 * nanos_per_sec,
     bo_proof_max_retries = 3, bo_relayer_max_retries = 3, bo_verification_max_retries = 5,
     bo_relayer_timeout = 180 * nanos_per_sec, bo_image_signature = None,
     bo_google_jwks_url = ''https://www.googleapis.com/service_accounts/v1/metadata/jwk/signer@confidentialspace-sign.iam.gserviceaccount.com''\<rparr>"

definition validate_config :: "bootstrap_config \<Rightarrow> bootstrap_error + unit" where
  "validate_config c =
     (if \<not> bo_enable_key_bootstrap c then Inr ()
      else if bo_bridge_address c = None
      then Inl (BConfig ''BRIDGE_CONTRACT_ADDRESS is required when bootstrap is enabled'')
      else if bo_rpc_url c = None
      then Inl (BConfig ''BOOTSTRAP_RPC_URL is required when bootstrap is enabled'')
      else if bo_chain_id c = None
      then Inl (BConfig ''BOOTSTRAP_CHAIN_ID is required when bootstrap is enabled'')
      else if bo_relayer_url c = None
      then Inl (BConfig ''RELAYER_URL is required when bootstrap is enabled'')
      else if bo_prover_mode c = ServiceMode \<and> bo_proof_service_url c = None
      then Inl (BConfig (''PROOF_SERVICE_URL is required when prover_mode is '' @ quoted ''service''))
      else if bo_image_signature c = None
      then Inl (BConfig ''IMAGE_SIGNATURE is required when bootstrap is enabled'')
      else Inr ())"

section \<open>The proof client\<close>

record proof_request =
  pq_jwt_token :: string
  pq_expected_audience :: string
  pq_evm_public_key :: string
  pq_image_signature :: string

record proof_response =
  ps_public_values :: string
  ps_proof_bytes :: string
  ps_tee_address :: string

record proof_client =
  pc_service_url :: string
  pc_timeout :: nat
  pc_prover_mode :: prover_mode
  pc_google_jwks_url :: string

record boot_jwt_header =
  bh_kid :: string
  bh_alg :: string

record jwt_claims =
  jc_aud :: string
  jc_iat :: u64
  jc_exp :: u64
  jc_secboot :: "bool option"
  jc_dbgstat :: "string option"
  jc_submods :: "string option option option"

definition jc_image_digest :: "jwt_claims \<Rightarrow> string option" where
  "jc_image_digest c =
     (case jc_submods c of None \<Rightarrow> None | Some submods \<Rightarrow>
        (case submods of None \<Rightarrow> None | Some image_digest \<Rightarrow> image_digest))"

record boot_jwk =
  bj_kid :: string
  bj_n :: string
  bj_e :: string

text \<open>serde\_json on the structures above (with its error text), and alloy's ABI encoders.\<close>

record boot_crates =
  jb_header :: "bytes \<Rightarrow> string + boot_jwt_header"
  jb_claims :: "bytes \<Rightarrow> string + jwt_claims"
  jb_jwks :: "string \<Rightarrow> string + boot_jwk list"
  jb_proof_response :: "string \<Rightarrow> string + proof_response"
  abi_encode_values :: "public_values \<Rightarrow> bytes"
  abi_encode_proof :: "stylus_proof_data \<Rightarrow> bytes"
  bt_client_error :: "nat \<Rightarrow> string option"

text \<open>\<open>response.json()\<close>: the body, then the parser.\<close>

definition response_json :: "(string \<Rightarrow> string + 'a) \<Rightarrow> http_response \<Rightarrow> string + 'a" where
  "response_json parse r = bind_r (hr_body r) parse"

text \<open>
  The services: the metadata server by audience, the proof service by URL, token and request, the JWKS endpoint by
  URL.\<close>

record proof_io =
  pi_metadata :: "string \<Rightarrow> http_reply"
  pi_prove :: "string \<Rightarrow> string \<Rightarrow> proof_request \<Rightarrow> http_reply"
  pi_health :: "string \<Rightarrow> string \<Rightarrow> http_reply"
  pi_jwks :: "string \<Rightarrow> http_reply"

text \<open>\<open>fetch_identity_token\<close>, of which both clients have a copy with a different error.\<close>

definition identity_token :: "(string \<Rightarrow> bootstrap_error) \<Rightarrow> http_reply \<Rightarrow> bootstrap_error + string" where
  "identity_token err reply =
     bind_r (map_err (\<lambda>e. err (''Failed to fetch identity token: '' @ show_send_error e)) reply) (\<lambda>response.
     if \<not> hr_success response
     then Inl (err (''Failed to fetch identity token: HTTP '' @ hr_status_text response))
     else map_err (\<lambda>e. err (''Failed to read identity token: '' @ e)) (hr_body response))"

definition proof_identity_token :: "proof_io \<Rightarrow> string \<Rightarrow> bootstrap_error + string" where
  "proof_identity_token io audience = identity_token ProofServiceUnavailable (pi_metadata io audience)"

definition proof_client_from_config :: "boot_crates \<Rightarrow> bootstrap_config \<Rightarrow> bootstrap_error + proof_client" where
  "proof_client_from_config bt c =
     bind_r (case bo_prover_mode c of
               ServiceMode \<Rightarrow> ok_or (BConfig ''PROOF_SERVICE_URL is required'') (bo_proof_service_url c)
             | MockMode \<Rightarrow> Inr ''mock://localhost''
             | StylusMode \<Rightarrow> Inr []) (\<lambda>service_url.
     case bt_client_error bt (bo_proof_timeout c) of
       Some e \<Rightarrow> Inl (ProofServiceUnavailable e)
     | None \<Rightarrow> Inr \<lparr>pc_service_url = service_url, pc_timeout = bo_proof_timeout c, pc_prover_mode = bo_prover_mode c,
                    pc_google_jwks_url = bo_google_jwks_url c\<rparr>)"

definition generate_mock_proof :: "('vk, 'sg) ext \<Rightarrow> alloy \<Rightarrow> boot_crates \<Rightarrow> bytes \<Rightarrow> proof_response" where
  "generate_mock_proof x al bt evm_public_key =
     (let address = drop 12 (keccak256 x evm_public_key)
      in \<lparr>ps_public_values = ''0x'' @ hex_encode x (abi_encode_values bt
            \<lparr>pv_jwk_key_hash = ZERO_HASH, pv_validity_window_start = 0, pv_validity_window_end = 0,
             pv_image_digest_hash = ZERO_HASH, pv_tee_signing_key = address, pv_secboot = False,
             pv_dbgstat_disabled = False, pv_audience_hash = ZERO_HASH, pv_image_signature_v = 0,
             pv_image_signature_r = ZERO_HASH, pv_image_signature_s = ZERO_HASH\<rparr>),
          ps_proof_bytes = ''0x'', ps_tee_address = al_show_address al address\<rparr>)"

subsection \<open>Base64url\<close>

definition PC_DECODE_TABLE :: "int list" where
  "PC_DECODE_TABLE = replicate 43 (- 1) @ [62] @ replicate 3 (- 1) @ [63] @ [52 .. 61] @ replicate 3 (- 1) @ [- 2]
     @ replicate 3 (- 1) @ [0 .. 25] @ replicate 6 (- 1) @ [26 .. 51] @ replicate 5 (- 1)"

definition pc_value :: "u8 \<Rightarrow> int" where
  "pc_value a = (if a < 128 then PC_DECODE_TABLE ! unat a else - 1)"

fun pc_base64_loop :: "bytes \<Rightarrow> string + bytes" where
  "pc_base64_loop (a # b # c # d # rest) =
     (let va = pc_value a; vb = pc_value b
      in if va < 0 \<or> vb < 0 then Inl invalid_character
         else let x = or (push_bit 2 (as_u8 va)) (drop_bit 4 (as_u8 vb))
           in if c \<noteq> 61
              then (let vc = pc_value c
                    in if vc < 0 then Inl invalid_character
                       else let y = or (push_bit 4 (as_u8 vb)) (drop_bit 2 (as_u8 vc))
                         in if d \<noteq> 61
                            then (let vd = pc_value d
                                  in if vd < 0 then Inl invalid_character
                                     else bind_r (pc_base64_loop rest) (\<lambda>r.
                                          Inr (x # y # or (push_bit 6 (as_u8 vc)) (as_u8 vd) # r)))
                            else bind_r (pc_base64_loop rest) (\<lambda>r. Inr (x # y # r)))
              else bind_r (pc_base64_loop rest) (\<lambda>r. Inr (x # r)))"
| "pc_base64_loop _ = Inr []"

definition pc_base64_decode :: "bytes \<Rightarrow> string + bytes" where
  "pc_base64_decode input = (if length input mod 4 \<noteq> 0 then Inl ''Invalid base64 length'' else pc_base64_loop input)"

definition pc_base64url_decode :: "bytes \<Rightarrow> string + bytes" where
  "pc_base64url_decode input =
     (let standard = map (\<lambda>c. if c = 45 then 43 else if c = 95 then 47 else c) input;
          r = length standard mod 4
      in pc_base64_decode (standard @ (if r = 2 then [61, 61] else if r = 3 then [61] else [])))"

subsection \<open>Proofs\<close>

definition fetch_jwk_by_kid :: "boot_crates \<Rightarrow> proof_io \<Rightarrow> proof_client \<Rightarrow> string \<Rightarrow> bootstrap_error + boot_jwk" where
  "fetch_jwk_by_kid bt io pc kid =
     bind_r (map_err (\<lambda>e. ProofGenerationFailed (''Failed to fetch JWKS: '' @ show_send_error e))
               (pi_jwks io (pc_google_jwks_url pc))) (\<lambda>response.
     if \<not> hr_success response
     then Inl (ProofGenerationFailed (''JWKS fetch failed: HTTP '' @ hr_status_text response))
     else bind_r (map_err (\<lambda>e. ProofGenerationFailed (''Failed to parse JWKS response: '' @ e))
                    (response_json (jb_jwks bt) response)) (\<lambda>keys.
          ok_or (ProofGenerationFailed (''JWK with kid '' @ quoted kid @ '' not found in JWKS response''))
            (find (\<lambda>k. bj_kid k = kid) keys)))"

definition failed_with :: "string \<Rightarrow> string + 'a \<Rightarrow> bootstrap_error + 'a" where
  "failed_with what r = map_err (\<lambda>e. ProofGenerationFailed (what @ e)) r"

text \<open>The claims and signature of the token as public values, before the key is fetched.\<close>

definition stylus_public_values :: "('vk, 'sg) ext \<Rightarrow> boot_jwt_header \<Rightarrow> jwt_claims \<Rightarrow> string \<Rightarrow> bytes \<Rightarrow> bytes \<Rightarrow> public_values" where
  "stylus_public_values x header claims image_digest evm_public_key image_signature =
     \<lparr>pv_jwk_key_hash = keccak256 x (str_bytes (bh_kid header)),
      pv_validity_window_start = jc_iat claims, pv_validity_window_end = jc_exp claims,
      pv_image_digest_hash = keccak256 x (str_bytes image_digest),
      pv_tee_signing_key = drop 12 (keccak256 x evm_public_key),
      pv_secboot = (case jc_secboot claims of None \<Rightarrow> False | Some b \<Rightarrow> b),
      pv_dbgstat_disabled = (jc_dbgstat claims = Some ''disabled-since-boot''),
      pv_audience_hash = keccak256 x (str_bytes (jc_aud claims)),
      pv_image_signature_v = image_signature ! 64,
      pv_image_signature_r = take 32 image_signature,
      pv_image_signature_s = take 32 (drop 32 image_signature)\<rparr>"

definition generate_stylus_proof :: "('vk, 'sg) ext \<Rightarrow> alloy \<Rightarrow> boot_crates \<Rightarrow> proof_io \<Rightarrow> proof_client
  \<Rightarrow> string \<Rightarrow> string \<Rightarrow> bytes \<Rightarrow> bytes \<Rightarrow> bootstrap_error + proof_response" where
  "generate_stylus_proof x al bt io pc jwt_token expected_audience evm_public_key image_signature =
     (case splitn3 46 (str_bytes jwt_token) of
        [part0, part1, part2] \<Rightarrow>
          bind_r (failed_with ''Failed to decode JWT header: '' (pc_base64url_decode part0)) (\<lambda>header_bytes.
          bind_r (failed_with ''Failed to decode JWT payload: '' (pc_base64url_decode part1)) (\<lambda>payload_bytes.
          bind_r (failed_with ''Failed to parse JWT header: '' (jb_header bt header_bytes)) (\<lambda>header.
          bind_r (failed_with ''Failed to parse JWT claims: '' (jb_claims bt payload_bytes)) (\<lambda>claims.
          if jc_aud claims \<noteq> expected_audience
          then Inl (ProofGenerationFailed (''JWT audience mismatch: expected '' @ quoted expected_audience @ '', got ''
                 @ quoted (jc_aud claims)))
          else if length image_signature \<noteq> 65
          then Inl (ProofGenerationFailed (''Image signature must be 65 bytes, got '' @ show_nat (length image_signature)))
          else
          bind_r (ok_or (ProofGenerationFailed ''JWT claims missing submods.container.image_digest'')
                    (jc_image_digest claims)) (\<lambda>image_digest.
          bind_r (fetch_jwk_by_kid bt io pc (bh_kid header)) (\<lambda>jwk.
          bind_r (failed_with ''Failed to decode JWK modulus: '' (pc_base64url_decode (str_bytes (bj_n jwk)))) (\<lambda>modulus_bytes.
          bind_r (failed_with ''Failed to decode JWK exponent: '' (pc_base64url_decode (str_bytes (bj_e jwk)))) (\<lambda>exponent_bytes.
          Inr \<lparr>ps_public_values = ''0x'' @ hex_encode x (abi_encode_values bt
                 (stylus_public_values x header claims image_digest evm_public_key image_signature)),
               ps_proof_bytes = ''0x'' @ hex_encode x (abi_encode_proof bt
                 \<lparr>sp_jwt = str_bytes jwt_token, sp_jwk_modulus = modulus_bytes, sp_jwk_exponent = exponent_bytes\<rparr>),
               ps_tee_address = al_show_address al (drop 12 (keccak256 x evm_public_key))\<rparr>))))))))
      | _ \<Rightarrow> Inl (ProofGenerationFailed ''Invalid JWT format: expected 3 dot-separated parts''))"

definition generate_proof :: "('vk, 'sg) ext \<Rightarrow> alloy \<Rightarrow> boot_crates \<Rightarrow> proof_io \<Rightarrow> proof_client
  \<Rightarrow> string \<Rightarrow> string \<Rightarrow> bytes \<Rightarrow> bytes \<Rightarrow> bootstrap_error + proof_response" where
  "generate_proof x al bt io pc jwt_token expected_audience evm_public_key image_signature =
     (if pc_prover_mode pc = MockMode then Inr (generate_mock_proof x al bt evm_public_key)
      else if pc_prover_mode pc = StylusMode
      then generate_stylus_proof x al bt io pc jwt_token expected_audience evm_public_key image_signature
      else
        let request = \<lparr>pq_jwt_token = jwt_token, pq_expected_audience = expected_audience,
              pq_evm_public_key = ''0x'' @ hex_encode x evm_public_key,
              pq_image_signature = ''0x'' @ hex_encode x image_signature\<rparr>
        in bind_r (proof_identity_token io (pc_service_url pc)) (\<lambda>identity.
           bind_r (map_err (\<lambda>e. case e of
                       SendTimeout _ \<Rightarrow> ProofGenerationTimeout (pc_timeout pc)
                     | SendConnect t \<Rightarrow> ProofServiceUnavailable t
                     | SendOther t \<Rightarrow> ProofGenerationFailed t)
                    (pi_prove io (pc_service_url pc @ ''/prove'') (''Bearer '' @ identity) request)) (\<lambda>response.
           if \<not> hr_success response
           then (let body = body_or_default response
                 in if hr_status response = 400 then Inl (ProofGenerationPermanent body)
                    else Inl (ProofGenerationFailed (''HTTP '' @ hr_status_text response @ '': '' @ body)))
           else map_err ProofGenerationFailed (response_json (jb_proof_response bt) response))))"

definition proof_health_check :: "proof_io \<Rightarrow> proof_client \<Rightarrow> bootstrap_error + bool" where
  "proof_health_check io pc =
     (if pc_prover_mode pc = MockMode \<or> pc_prover_mode pc = StylusMode then Inr True
      else bind_r (proof_identity_token io (pc_service_url pc)) (\<lambda>identity.
           bind_r (map_err (\<lambda>e. ProofServiceUnavailable (show_send_error e))
                     (pi_health io (pc_service_url pc @ ''/health'') (''Bearer '' @ identity))) (\<lambda>response.
           Inr (hr_success response))))"

section \<open>The decoders agree\<close>

lemma pc_value_eq: "pc_value = stylus_value"
  by (simp add: fun_eq_iff pc_value_def stylus_value_def PC_DECODE_TABLE_def BASE64_DECODE_TABLE_def)

lemma pc_base64_loop_eq: "pc_base64_loop bs = base64_groups bs"
  by (induction bs rule: pc_base64_loop.induct) (simp_all add: pc_value_eq Let_def)

lemma pc_base64url_decode_eq: "pc_base64url_decode = base64url_decode"
  by (rule ext) (simp add: pc_base64url_decode_def base64url_decode_def pc_base64_decode_def base64_decode_def Let_def
      pc_base64_loop_eq)

text \<open>The three base64url decoders of the repository - of the attestation crate, of the on-chain verifier and of the
  bootstrap client - are the same function.\<close>

theorem base64url_decoders_agree:
  "pc_base64url_decode bs = decode_base64url bs \<and> base64url_decode bs = decode_base64url bs"
  by (simp add: pc_base64url_decode_eq base64url_decode_eq)

section \<open>Proof data for the on-chain verifier\<close>

text \<open>The contract's scan of the JSON texts finds what serde\_json reads.\<close>

definition readers_agree :: "bytes \<Rightarrow> bytes \<Rightarrow> boot_jwt_header \<Rightarrow> jwt_claims \<Rightarrow> bool" where
  "readers_agree header payload h c \<longleftrightarrow>
     json_get_string header (str_bytes ''kid'') = Some (str_bytes (bh_kid h))
     \<and> json_get_u64 payload (str_bytes ''iat'') = Some (jc_iat c)
     \<and> json_get_u64 payload (str_bytes ''exp'') = Some (jc_exp c)
     \<and> json_get_string payload (str_bytes ''aud'') = Some (str_bytes (jc_aud c))
     \<and> json_get_bool payload (str_bytes ''secboot'') = jc_secboot c
     \<and> json_get_string payload (str_bytes ''dbgstat'') = map_option str_bytes (jc_dbgstat c)
     \<and> json_get_string payload (str_bytes ''image_digest'') = map_option str_bytes (jc_image_digest c)"

text \<open>
  The Solidity ABI form of the public values, eleven slots of 32 bytes: hashes fill a slot, the address, integers and booleans
  are right-aligned.\<close>

definition pv_wf :: "public_values \<Rightarrow> bool" where
  "pv_wf v \<longleftrightarrow> length (pv_jwk_key_hash v) = 32 \<and> length (pv_image_digest_hash v) = 32 \<and> length (pv_tee_signing_key v) = 20
     \<and> length (pv_audience_hash v) = 32 \<and> length (pv_image_signature_r v) = 32 \<and> length (pv_image_signature_s v) = 32"

definition abi_bool :: "bool \<Rightarrow> bytes" where
  "abi_bool b = replicate 31 0 @ [if b then 1 else 0]"

definition abi_layout :: "public_values \<Rightarrow> bytes" where
  "abi_layout v =
     pv_jwk_key_hash v @ (replicate 24 0 @ to_be_bytes (pv_validity_window_start v))
     @ (replicate 24 0 @ to_be_bytes (pv_validity_window_end v)) @ pv_image_digest_hash v
     @ (replicate 12 0 @ pv_tee_signing_key v) @ abi_bool (pv_secboot v) @ abi_bool (pv_dbgstat_disabled v)
     @ pv_audience_hash v @ (replicate 31 0 @ [pv_image_signature_v v]) @ pv_image_signature_r v @ pv_image_signature_s v"

definition abi_read :: "bytes \<Rightarrow> public_values option" where
  "abi_read bs =
     (if length bs \<noteq> 352 then None
      else Some \<lparr>pv_jwk_key_hash = take 32 bs, pv_validity_window_start = from_be_bytes (take 8 (drop 56 bs)),
                 pv_validity_window_end = from_be_bytes (take 8 (drop 88 bs)), pv_image_digest_hash = take 32 (drop 96 bs),
                 pv_tee_signing_key = take 20 (drop 140 bs), pv_secboot = (bs ! 191 = 1), pv_dbgstat_disabled = (bs ! 223 = 1),
                 pv_audience_hash = take 32 (drop 224 bs), pv_image_signature_v = bs ! 287,
                 pv_image_signature_r = take 32 (drop 288 bs), pv_image_signature_s = take 32 (drop 320 bs)\<rparr>)"

lemma length_abi_layout: "pv_wf v \<Longrightarrow> length (abi_layout v) = 352"
  by (simp add: pv_wf_def abi_layout_def abi_bool_def)

lemma abi_read_layout: "pv_wf v \<Longrightarrow> abi_read (abi_layout v) = Some v"
  by (cases v) (simp add: abi_read_def length_abi_layout, simp add: pv_wf_def abi_layout_def abi_bool_def nth_append)

text \<open>The contract's ABI decoder inverts alloy's encoder, and both sides hash alike, to 32 bytes.\<close>

definition abi_agrees :: "('vk, 'sg) ext \<Rightarrow> boot_crates \<Rightarrow> stylus_host \<Rightarrow> bool" where
  "abi_agrees x bt vm \<longleftrightarrow> (\<forall>v. pv_wf v \<longrightarrow> abi_public_values vm (abi_encode_values bt v) = Some v)
     \<and> (\<forall>d. abi_proof_data vm (abi_encode_proof bt d) = Some d)
     \<and> vm_keccak256 vm = keccak256 x \<and> (\<forall>bs. length (keccak256 x bs) = 32)"

lemma str_bytes_inj [simp]: "str_bytes a = str_bytes b \<longleftrightarrow> a = b"
  by (metis bytes_str_str_bytes)

lemma ensure_eq_Inl: "ensure c e = Inl f \<longleftrightarrow> \<not> c \<and> f = e"
  by (auto simp: ensure_def)

text \<open>The errors that the check must not give on consistent data.\<close>

abbreviation "inconsistent \<equiv> {InvalidPublicValues, InvalidProofData, ClaimsMismatch}"

lemma check_header_error: "check_header vm st d j = Inl e \<Longrightarrow> e \<notin> inconsistent"
  by (auto simp: check_header_def Let_def bind_r_def ok_or_def ensure_def split: sum.splits option.splits if_splits)

lemma verify_rs256_error: "verify_rs256 vm i s m k = Inl e \<Longrightarrow> e \<notin> inconsistent"
  by (auto simp: verify_rs256_def sha256_call_def modexp_call_def bind_r_def ok_or_def
      split: sum.splits option.splits if_splits)

lemma check_image_signer_error: "check_image_signer vm st v = Inl e \<Longrightarrow> e \<notin> inconsistent"
  by (auto simp: check_image_signer_def ecrecover_call_def bind_r_def ensure_def split: sum.splits option.splits if_splits)

lemmas stage_errors = check_header_error verify_rs256_error check_image_signer_error


definition demo_alloy :: alloy where
  "demo_alloy = \<lparr>al_parse_address = (\<lambda>s. Inr (replicate 20 1)), al_show_address = (\<lambda>_. ''0x''), al_url_error = (\<lambda>_. None)\<rparr>"

text \<open>An instance: the ABI layout for the public values, and a self-delimiting code for the proof data.\<close>

definition mark_bytes :: "bytes \<Rightarrow> bytes" where
  "mark_bytes bs = concat (map (\<lambda>b. [1, b]) bs) @ [0]"

fun unmark_bytes :: "bytes \<Rightarrow> bytes \<times> bytes" where
  "unmark_bytes (m # b # rest) = (if m = 1 then (let (bs, r) = unmark_bytes rest in (b # bs, r)) else ([], b # rest))"
| "unmark_bytes bs = ([], drop 1 bs)"

lemma unmark_mark [simp]: "unmark_bytes (mark_bytes bs @ rest) = (bs, rest)"
  by (induction bs) (cases rest; simp add: mark_bytes_def)+

lemma unmark_mark_end [simp]: "unmark_bytes (mark_bytes bs) = (bs, [])"
  using unmark_mark [of bs "[]"] by simp

definition demo_abi_proof :: "stylus_proof_data \<Rightarrow> bytes" where
  "demo_abi_proof d = mark_bytes (sp_jwt d) @ mark_bytes (sp_jwk_modulus d) @ mark_bytes (sp_jwk_exponent d)"

definition demo_abi_unproof :: "bytes \<Rightarrow> stylus_proof_data option" where
  "demo_abi_unproof bs =
     (let (j, r1) = unmark_bytes bs; (m, r2) = unmark_bytes r1; (e, r3) = unmark_bytes r2
      in Some \<lparr>sp_jwt = j, sp_jwk_modulus = m, sp_jwk_exponent = e\<rparr>)"

definition demo_stylus_ext :: "(bool, bool) ext" where
  "demo_stylus_ext = demo_ext\<lparr>keccak256 := (\<lambda>_. replicate 32 7)\<rparr>"

definition demo_stylus_crates :: boot_crates where
  "demo_stylus_crates = \<lparr>jb_header = (\<lambda>_. Inr \<lparr>bh_kid = ''k'', bh_alg = ''RS256''\<rparr>),
     jb_claims = (\<lambda>_. Inr \<lparr>jc_aud = ''a'', jc_iat = 1, jc_exp = 9, jc_secboot = Some True,
        jc_dbgstat = Some ''disabled-since-boot'', jc_submods = Some (Some (Some ''d''))\<rparr>),
     jb_jwks = (\<lambda>_. Inr [\<lparr>bj_kid = ''k'', bj_n = ''AQ'', bj_e = ''Aw''\<rparr>]), jb_proof_response = (\<lambda>_. Inl ''unused''),
     abi_encode_values = abi_layout, abi_encode_proof = demo_abi_proof, bt_client_error = (\<lambda>_. None)\<rparr>"

definition demo_stylus_vm :: stylus_host where
  "demo_stylus_vm = demo_vm\<lparr>vm_keccak256 := (\<lambda>_. replicate 32 7), abi_public_values := abi_read, abi_proof_data := demo_abi_unproof\<rparr>"

definition demo_proof_io :: proof_io where
  "demo_proof_io = \<lparr>pi_metadata = (\<lambda>_. Inl (SendTimeout [])), pi_prove = (\<lambda>_ _ _. Inl (SendTimeout [])),
     pi_health = (\<lambda>_ _. Inl (SendTimeout [])),
     pi_jwks = (\<lambda>_. Inr \<lparr>hr_status = 200, hr_status_text = ''200 OK'', hr_body = Inr ''keys''\<rparr>)\<rparr>"

definition demo_stylus_client :: proof_client where
  "demo_stylus_client = \<lparr>pc_service_url = [], pc_timeout = 0, pc_prover_mode = StylusMode, pc_google_jwks_url = ''u''\<rparr>"

lemma demo_abi_agrees: "abi_agrees demo_stylus_ext demo_stylus_crates demo_stylus_vm"
  by (simp add: abi_agrees_def demo_stylus_ext_def demo_stylus_crates_def demo_stylus_vm_def abi_read_layout demo_abi_proof_def
      demo_abi_unproof_def)

lemma demo_readers_agree:
  "readers_agree demo_header demo_payload \<lparr>bh_kid = ''k'', bh_alg = ''RS256''\<rparr>
     \<lparr>jc_aud = ''a'', jc_iat = 1, jc_exp = 9, jc_secboot = Some True, jc_dbgstat = Some ''disabled-since-boot'',
      jc_submods = Some (Some (Some ''d''))\<rparr>"
  by (simp add: readers_agree_def jc_image_digest_def demo_header_claims demo_iat demo_exp demo_aud demo_secboot demo_dbgstat
      demo_image_digest)

lemma demo_stylus_proof:
  "\<exists>p pub pf. generate_stylus_proof demo_stylus_ext al demo_stylus_crates demo_proof_io demo_stylus_client (bytes_str demo_jwt) ''a'' pk
       (replicate 65 1) = Inr p
     \<and> hex_decode demo_stylus_ext (drop 2 (ps_public_values p)) = Inr pub
     \<and> hex_decode demo_stylus_ext (drop 2 (ps_proof_bytes p)) = Inr pf"
proof -
  have split: "splitn3 46 demo_jwt = [base64url_encode demo_header, base64url_encode demo_payload, base64url_encode [0]]"
    unfolding demo_jwt_def by (rule splitn3_split_on [OF split_token])
  have keys: "pc_base64url_decode (str_bytes ''AQ'') = Inr [1]" "pc_base64url_decode (str_bytes ''Aw'') = Inr [3]"
    by code_simp+
  have jwk: "fetch_jwk_by_kid demo_stylus_crates demo_proof_io demo_stylus_client ''k'' = Inr \<lparr>bj_kid = ''k'', bj_n = ''AQ'', bj_e = ''Aw''\<rparr>"
    by (simp add: fetch_jwk_by_kid_def demo_proof_io_def demo_stylus_crates_def hr_success_def response_json_def)
  have dec: "pc_base64url_decode (base64url_encode bs) = Inr bs" for bs
    by (simp add: pc_base64url_decode_eq base64url_decode_eq decode_encode)
  have ext: "hex_encode demo_stylus_ext = demo_hex_encode" "hex_decode demo_stylus_ext = demo_hex_decode"
    by (simp_all add: demo_stylus_ext_def)
  show ?thesis
    using jwk by (simp add: generate_stylus_proof_def split dec failed_with_def ext demo_hex_roundtrip jc_image_digest_def keys
        demo_stylus_crates_def del: base64url_encode.simps)
qed


end
