(* ===== verification/Bootstrap.thy ===== *)
theory Bootstrap
  imports Proof_Client
begin

text \<open>
  The second half of key bootstrapping: the relayer client with its EIP-712 signature (\<open>relayer_client.rs\<close>), the contract
  submitter (\<open>submitter.rs\<close>), the draining of an old key (\<open>drain.rs\<close>) and the state machine that runs the
  steps (\<open>state_machine.rs\<close>).

  The relayer, the metadata server and the Ethereum node are functions of the request; a step that is tried again sees
  them at the number of its attempt. Times are Unix seconds. A failing \<open>unwrap\<close> is the outcome \<open>Panics\<close>.
\<close>

section \<open>The Ethereum node\<close>

text \<open>Calls by the URL of the node; \<open>eth_is_key_valid\<close> is \<open>isKeyValid\<close> at a contract address.\<close>

record eth_node =
  eth_tee_key_manager :: "string \<Rightarrow> bytes \<Rightarrow> string + bytes"
  eth_is_key_valid :: "string \<Rightarrow> bytes \<Rightarrow> u8 \<Rightarrow> bytes \<Rightarrow> string + bool"
  eth_balance :: "string \<Rightarrow> bytes \<Rightarrow> string + nat"
  eth_gas_price :: "string \<Rightarrow> string + 128 word"
  eth_send :: "string \<Rightarrow> bytes \<Rightarrow> bytes \<Rightarrow> 128 word \<Rightarrow> string + bytes"

section \<open>The relayer client\<close>

datatype key_type = SequencerKey | ValidatorKey

record register_key_request =
  rq_public_values :: string
  rq_proof_bytes :: string
  rq_deadline :: u64
  rq_signature :: string
  rq_key_type :: key_type

record register_key_response =
  rr_registered_key :: "string option"
  rr_tx_hash :: "string option"
  rr_error :: "string option"

record relayer_client =
  rl_relayer_url :: string
  rl_tee_key_manager_address :: bytes
  rl_chain_id :: u64

record relayer_io =
  rio_now :: u64
  rio_metadata :: "string \<Rightarrow> http_reply"
  rio_register :: "string \<Rightarrow> string \<Rightarrow> register_key_request \<Rightarrow> http_reply"
  rio_json :: "string \<Rightarrow> string + register_key_response"

definition relayer_identity_token :: "relayer_io \<Rightarrow> string \<Rightarrow> bootstrap_error + string" where
  "relayer_identity_token io audience = identity_token ContractSubmissionFailed (rio_metadata io audience)"

definition new_relayer_client :: "alloy \<Rightarrow> boot_crates \<Rightarrow> eth_node \<Rightarrow> string \<Rightarrow> bytes \<Rightarrow> string \<Rightarrow> u64 \<Rightarrow> nat
  \<Rightarrow> bootstrap_error + relayer_client" where
  "new_relayer_client al bt node relayer_url bridge_address rpc_url chain_id timeout =
     (case bt_client_error bt timeout of
        Some e \<Rightarrow> Inl (BConfig (''Failed to build HTTP client: '' @ e))
      | None \<Rightarrow>
         (case al_url_error al rpc_url of
            Some e \<Rightarrow> Inl (BConfig (''Invalid RPC URL: '' @ e))
          | None \<Rightarrow>
              bind_r (map_err (\<lambda>e. BConfig (''Failed to fetch TeeKeyManager address: '' @ e))
                        (eth_tee_key_manager node rpc_url bridge_address)) (\<lambda>tee_key_manager_address.
              Inr \<lparr>rl_relayer_url = relayer_url, rl_tee_key_manager_address = tee_key_manager_address,
                   rl_chain_id = chain_id\<rparr>)))"

definition compute_domain_separator :: "('vk, 'sg) ext \<Rightarrow> string \<Rightarrow> string \<Rightarrow> u64 \<Rightarrow> bytes \<Rightarrow> bytes" where
  "compute_domain_separator x name version chain_id contract =
     (let typehash = keccak256 x (str_bytes
            ''EIP712Domain(string name,string version,uint256 chainId,address verifyingContract)'')
      in keccak256 x (typehash @ keccak256 x (str_bytes name) @ keccak256 x (str_bytes version)
           @ nat_be_bytes 32 (unat chain_id) @ replicate 12 0 @ contract))"

definition registration_digest :: "('vk, 'sg) ext \<Rightarrow> relayer_client \<Rightarrow> bytes \<Rightarrow> bytes \<Rightarrow> u64 \<Rightarrow> bytes" where
  "registration_digest x rl pub proof_bytes deadline =
     (let domain_separator = compute_domain_separator x ''TeeKeyManager'' ''1'' (rl_chain_id rl) (rl_tee_key_manager_address rl);
          typehash = keccak256 x (str_bytes ''AddKey(bytes32 attestationHash,uint256 deadline)'');
          attestation_hash = keccak256 x (pub @ proof_bytes);
          struct_hash = keccak256 x (typehash @ attestation_hash @ nat_be_bytes 32 (unat deadline))
      in keccak256 x ([0x19, 0x01] @ domain_separator @ struct_hash))"

definition create_registration_signature :: "('vk, 'sg) ext \<Rightarrow> relayer_client \<Rightarrow> evm_key_manager \<Rightarrow> bytes \<Rightarrow> bytes \<Rightarrow> u64
  \<Rightarrow> bootstrap_error + bytes" where
  "create_registration_signature x rl km pub proof_bytes deadline =
     bind_r (map_err (\<lambda>e. BConfig (''Signing failed: '' @ e)) (km_signer km (registration_digest x rl pub proof_bytes deadline)))
       (\<lambda>signature. Inr (signature_rsv signature))"

text \<open>The request that \<open>register_key\<close> posts.\<close>

definition registration_request :: "('vk, 'sg) ext \<Rightarrow> relayer_client \<Rightarrow> evm_key_manager \<Rightarrow> u64 \<Rightarrow> string \<Rightarrow> string \<Rightarrow> key_type
  \<Rightarrow> bootstrap_error + register_key_request" where
  "registration_request x rl km now pub proof_bytes key_type =
     (let deadline = now + 3600
      in bind_r (map_err (\<lambda>e. BConfig (''Invalid public_values hex: '' @ e)) (hex_decode x (trim_start_0x pub)))
           (\<lambda>public_values_bytes.
         bind_r (map_err (\<lambda>e. BConfig (''Invalid proof_bytes hex: '' @ e)) (hex_decode x (trim_start_0x proof_bytes)))
           (\<lambda>proof_bytes_bytes.
         bind_r (create_registration_signature x rl km public_values_bytes proof_bytes_bytes deadline) (\<lambda>signature.
         Inr \<lparr>rq_public_values = pub, rq_proof_bytes = proof_bytes, rq_deadline = deadline,
              rq_signature = ''0x'' @ hex_encode x signature, rq_key_type = key_type\<rparr>))))"

definition client_register_key :: "('vk, 'sg) ext \<Rightarrow> relayer_io \<Rightarrow> relayer_client \<Rightarrow> evm_key_manager \<Rightarrow> string \<Rightarrow> string \<Rightarrow> key_type
  \<Rightarrow> bootstrap_error + register_key_response" where
  "client_register_key x io rl km pub proof_bytes key_type =
     bind_r (registration_request x rl km (rio_now io) pub proof_bytes key_type) (\<lambda>request.
     bind_r (relayer_identity_token io (rl_relayer_url rl)) (\<lambda>identity.
     bind_r (map_err (\<lambda>e. ContractSubmissionFailed (''Relayer request failed: '' @ show_send_error e))
               (rio_register io (rl_relayer_url rl @ ''/register-key'') (''Bearer '' @ identity) request)) (\<lambda>response.
     if \<not> hr_success response
     then Inl (ContractSubmissionFailed (''Relayer returned '' @ hr_status_text response @ '': '' @ body_or_default response))
     else bind_r (map_err (\<lambda>e. ContractSubmissionFailed (''Invalid relayer response: '' @ e))
                    (response_json (rio_json io) response)) (\<lambda>register_response.
          case rr_error register_response of
            Some e \<Rightarrow> Inl (ContractSubmissionFailed (''Relayer error: '' @ e))
          | None \<Rightarrow> Inr register_response))))"

section \<open>The contract submitter\<close>

record contract_submitter =
  cs_rpc_url :: string
  cs_bridge_address :: bytes

definition is_invalid_public_key_error :: "string \<Rightarrow> bool" where
  "is_invalid_public_key_error err_str \<longleftrightarrow> str_contains err_str ''InvalidPublicKey'' \<or> str_contains err_str ''0xffc44e88''"

definition submitter_from_config :: "alloy \<Rightarrow> bootstrap_config \<Rightarrow> bootstrap_error + contract_submitter" where
  "submitter_from_config al c =
     bind_r (ok_or (BConfig ''BOOTSTRAP_RPC_URL is required'') (bo_rpc_url c)) (\<lambda>rpc_url.
     bind_r (ok_or (BConfig ''BRIDGE_CONTRACT_ADDRESS is required'') (bo_bridge_address c)) (\<lambda>addr.
     bind_r (map_err (\<lambda>e. BConfig (''Invalid bridge address: '' @ e)) (al_parse_address al addr)) (\<lambda>bridge_address.
     Inr \<lparr>cs_rpc_url = rpc_url, cs_bridge_address = bridge_address\<rparr>)))"

definition check_rpc_url :: "alloy \<Rightarrow> contract_submitter \<Rightarrow> bootstrap_error + unit" where
  "check_rpc_url al cs = (case al_url_error al (cs_rpc_url cs) of Some e \<Rightarrow> Inl (BConfig (''Invalid RPC URL: '' @ e)) | None \<Rightarrow> Inr ())"

text \<open>\<open>balance.to::<u128>()\<close> panics on a balance that does not fit.\<close>

definition get_balance :: "alloy \<Rightarrow> eth_node \<Rightarrow> contract_submitter \<Rightarrow> bytes \<Rightarrow> (bootstrap_error + 128 word) outcome" where
  "get_balance al node cs address =
     (case check_rpc_url al cs of
        Inl e \<Rightarrow> Returns (Inl e)
      | Inr _ \<Rightarrow>
         (case eth_balance node (cs_rpc_url cs) address of
            Inl e \<Rightarrow> Returns (Inl (ContractSubmissionFailed e))
          | Inr balance \<Rightarrow> if balance < 2 ^ 128 then Returns (Inr (of_nat balance)) else Panics))"

definition fetch_tee_key_manager_address :: "eth_node \<Rightarrow> contract_submitter \<Rightarrow> bootstrap_error + bytes" where
  "fetch_tee_key_manager_address node cs =
     map_err (\<lambda>e. KeyVerificationFailed (''Failed to fetch TeeKeyManager address: '' @ e))
       (eth_tee_key_manager node (cs_rpc_url cs) (cs_bridge_address cs))"

definition is_key_valid :: "u8 \<Rightarrow> alloy \<Rightarrow> eth_node \<Rightarrow> contract_submitter \<Rightarrow> bytes \<Rightarrow> bootstrap_error + bool" where
  "is_key_valid kt al node cs address =
     bind_r (check_rpc_url al cs) (\<lambda>_.
     bind_r (fetch_tee_key_manager_address node cs) (\<lambda>tee_key_manager_address.
     case eth_is_key_valid node (cs_rpc_url cs) tee_key_manager_address kt address of
       Inr _ \<Rightarrow> Inr True
     | Inl e \<Rightarrow> if is_invalid_public_key_error e then Inr False else Inl (KeyVerificationFailed e)))"

definition is_sequencer_key_valid :: "alloy \<Rightarrow> eth_node \<Rightarrow> contract_submitter \<Rightarrow> bytes \<Rightarrow> bootstrap_error + bool" where
  "is_sequencer_key_valid = is_key_valid 0"

definition is_validator_key_valid :: "alloy \<Rightarrow> eth_node \<Rightarrow> contract_submitter \<Rightarrow> bytes \<Rightarrow> bootstrap_error + bool" where
  "is_validator_key_valid = is_key_valid 1"

definition get_gas_price :: "alloy \<Rightarrow> eth_node \<Rightarrow> contract_submitter \<Rightarrow> bootstrap_error + 128 word" where
  "get_gas_price al node cs =
     bind_r (check_rpc_url al cs) (\<lambda>_. map_err ContractSubmissionFailed (eth_gas_price node (cs_rpc_url cs)))"

definition send_eth :: "alloy \<Rightarrow> eth_node \<Rightarrow> contract_submitter \<Rightarrow> bytes \<Rightarrow> bytes \<Rightarrow> 128 word \<Rightarrow> bootstrap_error + bytes" where
  "send_eth al node cs sender recipient amount =
     bind_r (check_rpc_url al cs) (\<lambda>_. map_err TransactionFailed (eth_send node (cs_rpc_url cs) sender recipient amount))"

text \<open>The loop with the fuel of \<open>Web\<close>; times in milliseconds.\<close>

definition wait_for_confirmation :: "nat \<Rightarrow> alloy \<Rightarrow> contract_submitter \<Rightarrow> nat \<Rightarrow> (nat \<Rightarrow> nat \<times> receipt_poll)
  \<Rightarrow> (bootstrap_error + unit) option" where
  "wait_for_confirmation fuel al cs timeout polls =
     (case check_rpc_url al cs of
        Inl e \<Rightarrow> Some (Inl e)
      | Inr _ \<Rightarrow>
          map_option (\<lambda>r. case r of
              TimedOut \<Rightarrow> Inl (TransactionConfirmationFailed ''Timeout waiting for confirmation'')
            | Reverted \<Rightarrow> Inl (TransactionFailed ''Transaction reverted'')
            | Confirmed \<Rightarrow> Inr ()) (confirmation_loop fuel timeout polls 0))"

section \<open>Draining an old key\<close>

definition ETH_TRANSFER_GAS :: "128 word" where "ETH_TRANSFER_GAS = 21000"

text \<open>
  The transfers sent, as sender, recipient and amount, and the result; \<open>None\<close> if the confirmation loop has not ended
  within the fuel.\<close>

definition drain_to_treasury :: "nat \<Rightarrow> alloy \<Rightarrow> eth_node \<Rightarrow> contract_submitter \<Rightarrow> bytes \<Rightarrow> bytes \<Rightarrow> (nat \<Rightarrow> nat \<times> receipt_poll)
  \<Rightarrow> (bytes \<times> bytes \<times> 128 word) list \<times> ((bootstrap_error + nat) outcome) option" where
  "drain_to_treasury fuel al node cs old_address treasury_address polls =
     (case get_balance al node cs old_address of
        Panics \<Rightarrow> ([], Some Panics)
      | Returns (Inl e) \<Rightarrow> ([], Some (Returns (Inl e)))
      | Returns (Inr balance) \<Rightarrow>
          if balance = 0 then ([], Some (Returns (Inr 0)))
          else (case get_gas_price al node cs of
                  Inl e \<Rightarrow> ([], Some (Returns (Inl e)))
                | Inr gas_price \<Rightarrow>
                   (let gas_cost = ETH_TRANSFER_GAS * gas_price
                    in if balance \<le> gas_cost then ([], Some (Returns (Inr 0)))
                       else let amount_to_send = balance - gas_cost
                         in case send_eth al node cs old_address treasury_address amount_to_send of
                              Inl e \<Rightarrow> ([], Some (Returns (Inl e)))
                            | Inr tx_hash \<Rightarrow>
                                ([(old_address, treasury_address, amount_to_send)],
                                 map_option (\<lambda>r. Returns (bind_r r (\<lambda>_. Inr (unat amount_to_send))))
                                   (wait_for_confirmation fuel al cs 60000 polls)))))"

section \<open>The state machine\<close>

datatype bootstrap_state =
    NotStarted
  | GeneratingKey
  | FetchingAttestation
  | GeneratingProof
  | RegisteringKey
  | VerifyingRegistration
  | Ready
  | Failed

fun show_bootstrap_state :: "bootstrap_state \<Rightarrow> string" where
  "show_bootstrap_state NotStarted = ''not_started''"
| "show_bootstrap_state GeneratingKey = ''generating_key''"
| "show_bootstrap_state FetchingAttestation = ''fetching_attestation''"
| "show_bootstrap_state GeneratingProof = ''generating_proof''"
| "show_bootstrap_state RegisteringKey = ''registering_key''"
| "show_bootstrap_state VerifyingRegistration = ''verifying_registration''"
| "show_bootstrap_state Ready = ''ready''"
| "show_bootstrap_state Failed = ''failed''"

record bootstrap_state_machine =
  bm_state :: bootstrap_state
  bm_key_manager :: "evm_key_manager option"
  bm_attestation_token :: "string option"
  bm_proof :: "proof_response option"
  bm_started_at :: "nat option"
  bm_last_error :: "bootstrap_error option"
  bm_key_type :: key_type

definition new_state_machine :: "key_type \<Rightarrow> bootstrap_state_machine" where
  "new_state_machine kt = \<lparr>bm_state = NotStarted, bm_key_manager = None, bm_attestation_token = None, bm_proof = None,
     bm_started_at = None, bm_last_error = None, bm_key_type = kt\<rparr>"

text \<open>The world of a run: the generated key and its address, and the services at each attempt.\<close>

record boot_env =
  ev_key_manager :: evm_key_manager
  ev_address :: bytes
  ev_now :: nat
  ev_socket_exists :: bool
  ev_attestation :: attestation_service
  ev_proof :: "nat \<Rightarrow> proof_io"
  ev_setup_node :: eth_node
  ev_relayer :: "nat \<Rightarrow> relayer_io"
  ev_node :: "nat \<Rightarrow> eth_node"

definition tee_address :: "bytes \<Rightarrow> bootstrap_state_machine \<Rightarrow> bytes option" where
  "tee_address address sm = map_option (\<lambda>_. address) (bm_key_manager sm)"

definition parse_hex_bytes :: "('vk, 'sg) ext \<Rightarrow> string \<Rightarrow> string \<Rightarrow> bootstrap_error + bytes" where
  "parse_hex_bytes x hex_str field_name =
     map_err (\<lambda>e. BConfig (''Invalid '' @ field_name @ '' hex encoding: '' @ e)) (hex_decode x (trim_start_0x hex_str))"

definition config_audience :: "bootstrap_config \<Rightarrow> string" where
  "config_audience c =
     (case bo_attestation_audience c of
        Some a \<Rightarrow> a
      | None \<Rightarrow> ''https://tee-key-manager.'' @ show_u64 (case bo_chain_id c of None \<Rightarrow> 1 | Some i \<Rightarrow> i))"

definition fetch_attestation_with_retry :: "boot_env \<Rightarrow> bootstrap_config \<Rightarrow> (bootstrap_error + string) outcome" where
  "fetch_attestation_with_retry ev c =
     (case new_attestation_client (ev_socket_exists ev) (config_audience c) Oidc of
        Inl e \<Rightarrow> Returns (Inl (AttestationFetchFailed
           (''Failed to create attestation client (not running in Confidential Space?): '' @ e)))
      | Inr client \<Rightarrow>
         (case snd (get_token 0 0 (ev_attestation ev) client) of
            Panics \<Rightarrow> Panics
          | Returns r \<Rightarrow> Returns (map_err AttestationFetchFailed r)))"

text \<open>What becomes of the retry loop: the operation's name goes into the final error.\<close>

definition retry_result :: "string \<Rightarrow> (bootstrap_error + bootstrap_error option) + 'a \<Rightarrow> bootstrap_error + 'a" where
  "retry_result operation r =
     (case r of
        Inr a \<Rightarrow> Inr a
      | Inl (Inl e) \<Rightarrow> Inl e
      | Inl (Inr last_error) \<Rightarrow>
          Inl (MaxRetriesExceeded operation (case last_error of None \<Rightarrow> [] | Some e \<Rightarrow> show_bootstrap_error e)))"

definition generate_proof_with_retry :: "('vk, 'sg) ext \<Rightarrow> alloy \<Rightarrow> boot_crates \<Rightarrow> (nat \<Rightarrow> proof_io) \<Rightarrow> proof_client
  \<Rightarrow> string \<Rightarrow> string \<Rightarrow> bytes \<Rightarrow> bytes \<Rightarrow> nat \<Rightarrow> nat list \<times> (bootstrap_error + proof_response)" where
  "generate_proof_with_retry x al bt io pc attestation audience public_key image_signature max_retries =
     (let (ds, r) = retry_loop is_retryable 30
            (\<lambda>attempt. generate_proof x al bt (io attempt) pc attestation audience public_key image_signature) max_retries 1 None
      in (ds, retry_result ''proof_generation'' r))"

definition register_with_retry :: "('vk, 'sg) ext \<Rightarrow> (nat \<Rightarrow> relayer_io) \<Rightarrow> relayer_client \<Rightarrow> proof_response \<Rightarrow> evm_key_manager
  \<Rightarrow> key_type \<Rightarrow> nat \<Rightarrow> nat list \<times> (bootstrap_error + unit)" where
  "register_with_retry x io rl proof km kt max_retries =
     (let (ds, r) = retry_loop is_retryable 10
            (\<lambda>attempt. client_register_key x (io attempt) rl km (ps_public_values proof) (ps_proof_bytes proof) kt)
            max_retries 1 None
      in (ds, bind_r (retry_result ''key_registration'' r) (\<lambda>_. Inr ())))"

fun verify_loop :: "(nat \<Rightarrow> bootstrap_error + bool) \<Rightarrow> nat \<Rightarrow> nat \<Rightarrow> nat \<Rightarrow> nat list \<times> (bootstrap_error + unit)" where
  "verify_loop call 0 attempt max_retries =
     ([], Inl (KeyVerificationFailed ''Key not found in contract after registration (RPC sync issue?)''))"
| "verify_loop call (Suc k) attempt max_retries =
     (case call attempt of
        Inl e \<Rightarrow> ([], Inl e)
      | Inr is_valid \<Rightarrow>
          if is_valid then ([], Inr ())
          else let (ds, r) = verify_loop call k (attempt + 1) max_retries
               in (if attempt < max_retries then 2 * attempt # ds else ds, r))"

definition verify_registration_with_retry :: "alloy \<Rightarrow> (nat \<Rightarrow> eth_node) \<Rightarrow> contract_submitter \<Rightarrow> bytes \<Rightarrow> key_type \<Rightarrow> nat
  \<Rightarrow> nat list \<times> (bootstrap_error + unit)" where
  "verify_registration_with_retry al node cs address kt max_retries =
     (let (ds, r) = verify_loop (\<lambda>attempt. case kt of
              SequencerKey \<Rightarrow> is_sequencer_key_valid al (node attempt) cs address
            | ValidatorKey \<Rightarrow> is_validator_key_valid al (node attempt) cs address) max_retries 1 max_retries
      in (2 # ds, r))"

text \<open>A step of \<open>run\<close> that may return early with the machine as it is.\<close>

definition try_step :: "'s \<Rightarrow> ('e + 'a) outcome \<Rightarrow> ('a \<Rightarrow> 's \<times> ('e + 'b) outcome) \<Rightarrow> 's \<times> ('e + 'b) outcome" where
  "try_step sm r k =
     (case r of Panics \<Rightarrow> (sm, Panics) | Returns (Inl e) \<Rightarrow> (sm, Returns (Inl e)) | Returns (Inr a) \<Rightarrow> k a)"

text \<open>The clients, made after the key was generated.\<close>

definition create_clients :: "alloy \<Rightarrow> boot_crates \<Rightarrow> boot_env \<Rightarrow> bootstrap_config
  \<Rightarrow> (bootstrap_error + proof_client \<times> contract_submitter \<times> relayer_client) outcome" where
  "create_clients al bt ev c =
     bind_o (Returns (proof_client_from_config bt c)) (\<lambda>proof_client.
     bind_o (Returns (submitter_from_config al c)) (\<lambda>submitter.
     bind_o (unwrap_o (bo_bridge_address c)) (\<lambda>addr.
     bind_o (Returns (map_err (\<lambda>e. BConfig (''Invalid bridge address: '' @ e)) (al_parse_address al addr))) (\<lambda>bridge_address.
     bind_o (unwrap_o (bo_rpc_url c)) (\<lambda>rpc_url.
     bind_o (unwrap_o (bo_relayer_url c)) (\<lambda>relayer_url.
     bind_o (unwrap_o (bo_chain_id c)) (\<lambda>chain_id.
     bind_o (Returns (new_relayer_client al bt (ev_setup_node ev) relayer_url bridge_address rpc_url chain_id
                        (bo_relayer_timeout c))) (\<lambda>relayer_client.
     Returns (Inr (proof_client, submitter, relayer_client))))))))))"

definition config_image_signature :: "('vk, 'sg) ext \<Rightarrow> bootstrap_config \<Rightarrow> (bootstrap_error + bytes) outcome" where
  "config_image_signature x c =
     bind_o (unwrap_o (bo_image_signature c)) (\<lambda>hex.
     bind_o (Returns (parse_hex_bytes x hex ''IMAGE_SIGNATURE'')) (\<lambda>image_signature.
     if length image_signature \<noteq> 65
     then Returns (Inl (BConfig (''IMAGE_SIGNATURE must be exactly 65 bytes (r || s || v), got ''
            @ show_nat (length image_signature))))
     else Returns (Inr image_signature)))"

definition run_bootstrap :: "('vk, 'sg) ext \<Rightarrow> alloy \<Rightarrow> boot_crates \<Rightarrow> boot_env \<Rightarrow> bootstrap_config \<Rightarrow> bootstrap_state_machine
  \<Rightarrow> bootstrap_state_machine \<times> (bootstrap_error + evm_key_manager) outcome" where
  "run_bootstrap x al bt ev c sm =
     try_step sm (Returns (validate_config c)) (\<lambda>_.
     let key_manager = ev_key_manager ev;
         sm1 = sm\<lparr>bm_started_at := Some (ev_now ev), bm_state := GeneratingKey, bm_key_manager := Some key_manager\<rparr>
     in try_step sm1 (create_clients al bt ev c) (\<lambda>(proof_client, submitter, relayer_client).
     let sm2 = sm1\<lparr>bm_state := FetchingAttestation\<rparr>
     in try_step sm2 (fetch_attestation_with_retry ev c) (\<lambda>attestation.
     let sm3 = sm2\<lparr>bm_attestation_token := Some attestation\<rparr>
     in try_step sm3 (config_image_signature x c) (\<lambda>image_signature.
     let sm4 = sm3\<lparr>bm_state := GeneratingProof\<rparr>
     in try_step sm4 (Returns (snd (generate_proof_with_retry x al bt (ev_proof ev) proof_client attestation
                (config_audience c) (km_public_key key_manager) image_signature (bo_proof_max_retries c)))) (\<lambda>proof.
     let sm5 = sm4\<lparr>bm_proof := Some proof, bm_state := RegisteringKey\<rparr>
     in try_step sm5 (Returns (snd (register_with_retry x (ev_relayer ev) relayer_client proof key_manager
                (bm_key_type sm) (bo_relayer_max_retries c)))) (\<lambda>_.
     let sm6 = sm5\<lparr>bm_state := VerifyingRegistration\<rparr>
     in try_step sm6 (Returns (snd (verify_registration_with_retry al (ev_node ev) submitter (ev_address ev)
                (bm_key_type sm) (bo_verification_max_retries c)))) (\<lambda>_.
     (sm6\<lparr>bm_state := Ready\<rparr>, Returns (Inr key_manager)))))))))"

section \<open>The steps of a run\<close>

lemma try_step_simps [simp]:
  "try_step sm Panics k = (sm, Panics)"
  "try_step sm (Returns (Inl e)) k = (sm, Returns (Inl e))"
  "try_step sm (Returns (Inr a)) k = k a"
  by (simp_all add: try_step_def)

text \<open>A property of a run holds if it holds wherever the run may stop.\<close>

lemma try_step_rule:
  assumes "\<And>e. r = Returns (Inl e) \<Longrightarrow> Q (sm, Returns (Inl e))" and "r = Panics \<Longrightarrow> Q (sm, Panics)"
    and "\<And>a. r = Returns (Inr a) \<Longrightarrow> Q (k a)"
  shows "Q (try_step sm r k)"
  using assms by (auto simp: try_step_def split: outcome.splits sum.splits)

lemma try_step_eq_Inr:
  "try_step sm r k = (sm', Returns (Inr b)) \<longleftrightarrow> (\<exists>a. r = Returns (Inr a) \<and> k a = (sm', Returns (Inr b)))"
  by (auto simp: try_step_def split: outcome.splits sum.splits)

text \<open>A run of the bootstrap state machine ends in the state \<open>Ready\<close> exactly if it returns the key.
  A run never enters the state \<open>Failed\<close> and never records a last error: a run that fails leaves the machine in
  the state of the step that failed.\<close>

theorem bootstrap_ready_iff_ok:
  "case run_bootstrap x al bt ev c (new_state_machine kt) of (sm, r) \<Rightarrow>
     (bm_state sm = Ready \<longleftrightarrow> r = Returns (Inr (ev_key_manager ev)))
     \<and> bm_state sm \<noteq> Failed \<and> bm_last_error sm = None \<and> bm_key_manager sm \<in> {None, Some (ev_key_manager ev)}"
  unfolding run_bootstrap_def Let_def split_beta
  by ((rule try_step_rule; (simp add: new_state_machine_def)?)+)

lemma verify_loop_Inr:
  "snd (verify_loop call k a m) = Inr () \<Longrightarrow> \<exists>i. a \<le> i \<and> i < a + k \<and> call i = Inr True"
proof (induction k arbitrary: a)
  case (Suc k)
  show ?case
  proof (cases "call a = Inr True")
    case True
    then show ?thesis by (intro exI [of _ a]) simp
  next
    case False
    with Suc.prems have "snd (verify_loop call k (a + 1) m) = Inr ()" by (auto simp: split_beta split: sum.splits)
    from Suc.IH [OF this] obtain i where "a + 1 \<le> i" "i < a + 1 + k" "call i = Inr True" by blast
    then show ?thesis by (intro exI [of _ i]) simp
  qed
qed simp

lemma is_key_valid_True:
  "is_key_valid t al node cs a = Inr True \<longleftrightarrow>
     al_url_error al (cs_rpc_url cs) = None
     \<and> (\<exists>m b. eth_tee_key_manager node (cs_rpc_url cs) (cs_bridge_address cs) = Inr m
          \<and> eth_is_key_valid node (cs_rpc_url cs) m t a = Inr b)"
  by (auto simp: is_key_valid_def check_rpc_url_def fetch_tee_key_manager_address_def bind_r_def map_err_def
      split: option.splits sum.splits)

definition key_type_code :: "key_type \<Rightarrow> u8" where
  "key_type_code kt = (case kt of SequencerKey \<Rightarrow> 0 | ValidatorKey \<Rightarrow> 1)"

lemma register_ok:
  assumes "snd (register_with_retry x io rl pr km kt n) = Inr ()"
  shows "\<exists>i resp. 1 \<le> i \<and> i \<le> n \<and> rr_error resp = None
     \<and> client_register_key x (io i) rl km (ps_public_values pr) (ps_proof_bytes pr) kt = Inr resp"
proof -
  from assms obtain resp where "snd (retry_loop is_retryable 10
      (\<lambda>attempt. client_register_key x (io attempt) rl km (ps_public_values pr) (ps_proof_bytes pr) kt) n 1 None) = Inr resp"
    by (auto simp: register_with_retry_def retry_result_def split_beta Let_def bind_r_eq_Inr split: sum.splits)
  from retry_loop_Inr [OF this] obtain i where i: "1 \<le> i" "i \<le> n"
    "client_register_key x (io i) rl km (ps_public_values pr) (ps_proof_bytes pr) kt = Inr resp" by auto
  moreover from i(3) have "rr_error resp = None"
    by (auto simp: client_register_key_def bind_r_eq_Inr split: if_splits option.splits)
  ultimately show ?thesis by blast
qed


definition demo_boot_crates :: boot_crates where
  "demo_boot_crates = demo_stylus_crates\<lparr>abi_encode_values := (\<lambda>_. []), abi_encode_proof := (\<lambda>_. [])\<rparr>"

definition demo_reply :: "string \<Rightarrow> http_reply" where
  "demo_reply body = Inr \<lparr>hr_status = 200, hr_status_text = ''200 OK'', hr_body = Inr body\<rparr>"

definition demo_node :: eth_node where
  "demo_node = \<lparr>eth_tee_key_manager = (\<lambda>_ _. Inr (replicate 20 2)), eth_is_key_valid = (\<lambda>_ _ _ _. Inr True),
     eth_balance = (\<lambda>_ _. Inr 50000), eth_gas_price = (\<lambda>_. Inr 2), eth_send = (\<lambda>_ _ _ _. Inr (replicate 32 3))\<rparr>"

definition demo_boot_env :: boot_env where
  "demo_boot_env = \<lparr>ev_key_manager = demo_key_manager True, ev_address = replicate 20 7, ev_now = 0, ev_socket_exists = True,
     ev_attestation = demo_service,
     ev_proof = (\<lambda>_. \<lparr>pi_metadata = (\<lambda>_. demo_reply ''t''), pi_prove = (\<lambda>_ _ _. demo_reply ''p''),
        pi_health = (\<lambda>_ _. demo_reply []), pi_jwks = (\<lambda>_. demo_reply ''j'')\<rparr>),
     ev_setup_node = demo_node,
     ev_relayer = (\<lambda>_. \<lparr>rio_now = 100, rio_metadata = (\<lambda>_. demo_reply ''t''), rio_register = (\<lambda>_ _ _. demo_reply ''r''),
        rio_json = (\<lambda>_. Inr \<lparr>rr_registered_key = Some ''0x07'', rr_tx_hash = None, rr_error = None\<rparr>)\<rparr>),
     ev_node = (\<lambda>_. demo_node)\<rparr>"

definition demo_boot_config :: bootstrap_config where
  "demo_boot_config = default_bootstrap_config\<lparr>bo_enable_key_bootstrap := True, bo_bridge_address := Some ''b'',
     bo_rpc_url := Some ''r'', bo_chain_id := Some 1, bo_relayer_url := Some ''u'', bo_prover_mode := MockMode,
     bo_image_signature := Some (''0x'' @ replicate 130 (CHR ''1''))\<rparr>"

lemma demo_signature: "config_image_signature demo_ext demo_boot_config = Returns (Inr (replicate 65 17))"
proof -
  have "demo_hex_decode (trim_start_0x (''0x'' @ replicate 130 (CHR ''1''))) = Inr (replicate 65 17)"
    by code_simp
  then show ?thesis by (simp add: config_image_signature_def demo_boot_config_def parse_hex_bytes_def)
qed

lemma demo_attestation: "fetch_attestation_with_retry demo_boot_env c = Returns (Inr ''eyJh.eyJp.c2ln'')"
  by (simp add: fetch_attestation_with_retry_def new_attestation_client_def demo_boot_env_def get_token_def demo_fetch)

lemma trim_start_demo_hex:
  "trim_start_0x (demo_hex_encode bs) = demo_hex_encode bs"
proof (cases bs)
  case (Cons b rest)
  have "hex_digit n \<noteq> CHR ''x''" if "n < 16" for n
  proof -
    from that have "n \<in> set [0 ..< 16]" by simp
    moreover have "list_all (\<lambda>n. hex_digit n \<noteq> CHR ''x'') [0 ..< 16]" by code_simp
    ultimately show ?thesis unfolding list_all_iff by blast
  qed
  then have "hex_digit (unat b mod 16) \<noteq> CHR ''x''" by simp
  with Cons show ?thesis by (simp add: demo_hex_encode_def)
qed (simp add: demo_hex_encode_def)

lemma demo_registration:
  "\<exists>resp. client_register_key demo_ext (ev_relayer demo_boot_env i) rl (demo_key_manager True)
     (''0x'' @ demo_hex_encode v) ''0x'' kt = Inr resp \<and> rr_error resp = None"
proof -
  have "demo_hex_decode (trim_start_0x ''0x'') = Inr []" by code_simp
  then show ?thesis
    by (simp add: client_register_key_def registration_request_def Let_def trim_start_demo_hex demo_hex_roundtrip
        create_registration_signature_def demo_key_manager_def relayer_identity_token_def identity_token_def
        demo_boot_env_def demo_reply_def hr_success_def response_json_def)
qed

lemma demo_run:
  "\<exists>sm. run_bootstrap demo_ext demo_alloy demo_boot_crates demo_boot_env demo_boot_config (new_state_machine kt)
     = (sm, Returns (Inr (demo_key_manager True)))"
proof -
  let ?pc = "\<lparr>pc_service_url = ''mock://localhost'', pc_timeout = bo_proof_timeout demo_boot_config, pc_prover_mode = MockMode,
                    pc_google_jwks_url = bo_google_jwks_url demo_boot_config\<rparr>"
  let ?cs = "\<lparr>cs_rpc_url = ''r'', cs_bridge_address = replicate 20 1\<rparr>"
  let ?rl = "\<lparr>rl_relayer_url = ''u'', rl_tee_key_manager_address = replicate 20 2, rl_chain_id = 1\<rparr>"
  have clients: "create_clients demo_alloy demo_boot_crates demo_boot_env demo_boot_config = Returns (Inr (?pc, ?cs, ?rl))"
    by (simp add: create_clients_def proof_client_from_config_def submitter_from_config_def new_relayer_client_def
        demo_boot_config_def demo_alloy_def demo_boot_crates_def demo_stylus_crates_def demo_boot_env_def demo_node_def)
  obtain n where retries: "bo_proof_max_retries demo_boot_config = Suc n" "bo_relayer_max_retries demo_boot_config = Suc n"
    by (simp add: demo_boot_config_def default_bootstrap_config_def eval_nat_numeral)
  obtain m where retries': "bo_verification_max_retries demo_boot_config = Suc m"
    by (simp add: demo_boot_config_def default_bootstrap_config_def eval_nat_numeral)
  have gen: "snd (generate_proof_with_retry demo_ext demo_alloy demo_boot_crates (ev_proof demo_boot_env) ?pc att aud pk
     (replicate 65 17) (Suc n)) = Inr \<lparr>ps_public_values = ''0x'' @ demo_hex_encode [], ps_proof_bytes = ''0x'', ps_tee_address = ''0x''\<rparr>"
    for att aud pk
    by (simp add: generate_proof_with_retry_def generate_proof_def generate_mock_proof_def Let_def retry_result_def demo_alloy_def
        demo_boot_crates_def demo_stylus_crates_def)
  obtain resp where reg: "client_register_key demo_ext (ev_relayer demo_boot_env 1) ?rl (demo_key_manager True)
     (''0x'' @ demo_hex_encode []) ''0x'' kt = Inr resp" using demo_registration by blast
  have ver: "snd (verify_registration_with_retry demo_alloy (ev_node demo_boot_env) ?cs a kt (Suc m)) = Inr ()" for a
    by (cases kt) (simp_all add: verify_registration_with_retry_def is_sequencer_key_valid_def is_validator_key_valid_def
        is_key_valid_def check_rpc_url_def fetch_tee_key_manager_address_def demo_alloy_def demo_boot_env_def demo_node_def)
  have "validate_config demo_boot_config = Inr ()" by (simp add: validate_config_def demo_boot_config_def)
  moreover have "bm_key_type (new_state_machine kt) = kt" by (simp add: new_state_machine_def)
  moreover have "ev_key_manager demo_boot_env = demo_key_manager True" by (simp add: demo_boot_env_def)
  ultimately show ?thesis
    using clients gen reg ver
    by (simp add: run_bootstrap_def Let_def demo_signature demo_attestation retries retries' register_with_retry_def retry_result_def)
qed


section \<open>Panics\<close>

lemma validated_fields:
  assumes "validate_config c = Inr ()" and "bo_enable_key_bootstrap c"
  shows "\<exists>b r i u s. bo_bridge_address c = Some b \<and> bo_rpc_url c = Some r \<and> bo_chain_id c = Some i \<and> bo_relayer_url c = Some u
     \<and> bo_image_signature c = Some s"
  using assms by (auto simp: validate_config_def split: if_splits)

lemma bind_o_no_panic: "r \<noteq> Panics \<Longrightarrow> (\<And>a. f a \<noteq> Panics) \<Longrightarrow> bind_o r f \<noteq> Panics"
  by (auto simp: bind_o_def split: outcome.splits sum.splits)

lemma create_clients_no_panic:
  assumes "validate_config c = Inr ()" and "bo_enable_key_bootstrap c"
  shows "create_clients al bt ev c \<noteq> Panics"
proof -
  obtain b r i u s where "bo_bridge_address c = Some b" "bo_rpc_url c = Some r" "bo_chain_id c = Some i" "bo_relayer_url c = Some u"
    using validated_fields [OF assms] by blast
  then show ?thesis unfolding create_clients_def by (intro bind_o_no_panic) (simp_all add: bind_o_no_panic)
qed

lemma config_image_signature_no_panic:
  assumes "validate_config c = Inr ()" and "bo_enable_key_bootstrap c"
  shows "config_image_signature x c \<noteq> Panics"
proof -
  obtain sg where "bo_image_signature c = Some sg" using validated_fields [OF assms] by blast
  then show ?thesis unfolding config_image_signature_def by (intro bind_o_no_panic) simp_all
qed

text \<open>With bootstrapping enabled, the \<open>unwrap\<close>s of a run never fail: validation has checked every
  optional setting they rely on. The only panic left is that of reading the attestation service's reply.\<close>

theorem bootstrap_unwraps_safe:
  assumes "bo_enable_key_bootstrap c" and "snd (run_bootstrap x al bt ev c sm) = Panics"
  shows "validate_config c = Inr () \<and> fetch_attestation_with_retry ev c = Panics"
proof (cases "validate_config c")
  case (Inl e)
  with assms(2) show ?thesis by (simp add: run_bootstrap_def)
next
  case (Inr u)
  then have v: "validate_config c = Inr ()" by simp
  have "snd (try_step sm r k) = Panics \<Longrightarrow> r = Panics \<or> (\<exists>a. r = Returns (Inr a) \<and> snd (k a) = Panics)"
    for sm :: bootstrap_state_machine and r :: "(bootstrap_error + 'z) outcome"
      and k :: "'z \<Rightarrow> bootstrap_state_machine \<times> (bootstrap_error + evm_key_manager) outcome"
    by (auto simp: try_step_def split: outcome.splits sum.splits)
  note step = this
  show ?thesis
    using assms(2) v create_clients_no_panic [OF v assms(1)] config_image_signature_no_panic [OF v assms(1)]
    unfolding run_bootstrap_def Let_def
    by (fastforce simp: split_beta dest!: step)
qed

theorem bootstrap_unwraps_safe_witness:
  "\<exists>ev. snd (run_bootstrap demo_ext demo_alloy demo_boot_crates ev demo_boot_config (new_state_machine ValidatorKey)) = Panics
     \<and> validate_config demo_boot_config = Inr () \<and> fetch_attestation_with_retry ev demo_boot_config = Panics"
proof -
  define ev where "ev = demo_boot_env\<lparr>ev_attestation := demo_service\<lparr>as_request := (\<lambda>_. Inr (200, ''200 OK'', Inr (replicate 99 97 @ [0xC3, 0xA9])))\<rparr>\<rparr>"
  have fetch: "fetch_attestation_with_retry ev demo_boot_config = Panics"
    by (simp add: preview_panics fetch_attestation_with_retry_def new_attestation_client_def ev_def demo_boot_env_def get_token_def
        fetch_token_internal_def demo_service_def)
  have ok: "\<exists>t. create_clients demo_alloy demo_boot_crates ev demo_boot_config = Returns (Inr t)"
    by (simp add: create_clients_def proof_client_from_config_def submitter_from_config_def new_relayer_client_def
        demo_boot_config_def demo_alloy_def demo_boot_crates_def demo_stylus_crates_def ev_def demo_boot_env_def demo_node_def)
  have en: "bo_enable_key_bootstrap demo_boot_config" "validate_config demo_boot_config = Inr ()"
    by (simp_all add: demo_boot_config_def validate_config_def)
  then have "snd (run_bootstrap demo_ext demo_alloy demo_boot_crates ev demo_boot_config (new_state_machine ValidatorKey)) = Panics"
    using ok fetch by (auto simp: run_bootstrap_def Let_def)
  with bootstrap_unwraps_safe [OF en(1) this] show ?thesis by blast
qed

section \<open>Bounds on the waiting time\<close>

lemma verify_loop_delays:
  "a + k = m + 1 \<Longrightarrow> 1 \<le> a \<Longrightarrow> a \<le> m \<Longrightarrow> sum_list (fst (verify_loop call k a m)) + a * (a - 1) \<le> m * (m - 1)"
proof (induction k arbitrary: a)
  case 0
  then show ?case by simp
next
  case (Suc k)
  show ?case
  proof (cases "call a = Inr False \<and> a < m")
    case True
    with Suc.IH [of "a + 1"] Suc.prems show ?thesis by (cases a) (auto simp: split_beta algebra_simps)
  next
    case False
    have "a * (a - 1) \<le> m * (m - 1)" using Suc.prems by (intro mult_le_mono) simp_all
    moreover have "sum_list (fst (verify_loop call (Suc k) a m)) = 0"
    proof (cases "call a = Inr False")
      case True
      with False Suc.prems have "k = 0" by simp
      with True False show ?thesis by simp
    qed (auto split: sum.splits)
    ultimately show ?thesis by linarith
  qed
qed

text \<open>The waiting times of the bootstrap steps are bounded by the numbers of retries: over all attempts the
  proof step sleeps at most \<open>30 (1 + ... + n)\<close> seconds, the registration step at most \<open>10 (1 + ... + n)\<close>, and the
  check of the registration at most \<open>2 + 2 (1 + ... + (n - 1))\<close>; no step tries more often than it is configured to.\<close>

theorem bootstrap_waits_bounded:
  "2 * sum_list (fst (generate_proof_with_retry x al bt io pc att aud pk sig n)) \<le> 30 * (n * (n + 1))
   \<and> 2 * sum_list (fst (register_with_retry x rio rl p km kt n)) \<le> 10 * (n * (n + 1))
   \<and> sum_list (fst (verify_registration_with_retry al node cs addr kt n)) \<le> 2 + n * (n - 1)"
proof (intro conjI)
  show "2 * sum_list (fst (generate_proof_with_retry x al bt io pc att aud pk sig n)) \<le> 30 * (n * (n + 1))"
    using retry_loop_total_delay [where k = n and step = 30]
    by (simp add: generate_proof_with_retry_def split_beta Let_def mult.commute)
  show "2 * sum_list (fst (register_with_retry x rio rl p km kt n)) \<le> 10 * (n * (n + 1))"
    using retry_loop_total_delay [where k = n and step = 10]
    by (simp add: register_with_retry_def split_beta Let_def mult.commute)
  show "sum_list (fst (verify_registration_with_retry al node cs addr kt n)) \<le> 2 + n * (n - 1)"
    using verify_loop_delays [of 1 n n] by (cases n) (simp_all add: verify_registration_with_retry_def split_beta Let_def)
qed

section \<open>Draining\<close>

text \<open>Draining an old key sends at most one transfer, from the old key to the treasury. Provided that the gas cost
  fits into 128 bits, the amount sent and the gas cost add up to the old balance; nothing is sent when the balance does
  not exceed the gas cost; and if draining reports an amount, it is zero with nothing sent, or the amount of a
  transfer that was confirmed.\<close>

theorem drain_exact:
  assumes "drain_to_treasury fuel al node cs old treasury polls = (sent, r)"
    and "eth_gas_price node (cs_rpc_url cs) = Inr gas_price" and "21000 * unat gas_price < 2 ^ 128"
    and "eth_balance node (cs_rpc_url cs) old = Inr balance"
  shows "(sent = [] \<or> (\<exists>amount. sent = [(old, treasury, amount)] \<and> 0 < unat amount
              \<and> unat amount + 21000 * unat gas_price = balance))
    \<and> (r = Some (Returns (Inr v)) \<longrightarrow>
         (if balance \<le> 21000 * unat gas_price then v = 0 \<and> sent = []
          else (\<exists>amount. sent = [(old, treasury, amount)] \<and> v = unat amount) \<and> (\<exists>j. snd (polls j) = Receipt True)))"
proof -
  have gas: "unat (ETH_TRANSFER_GAS * gas_price) = 21000 * unat gas_price"
    using assms(3) by (simp add: ETH_TRANSFER_GAS_def unat_word_ariths)
  show ?thesis
  proof (cases "check_rpc_url al cs = Inr () \<and> balance < 2 ^ 128")
    case False
    then show ?thesis
      using assms(1,4) by (auto simp: drain_to_treasury_def get_balance_def split: sum.splits if_splits)
  next
    case True
    then have bal: "get_balance al node cs old = Returns (Inr (of_nat balance))" and small: "balance < 2 ^ 128"
      and price: "get_gas_price al node cs = Inr gas_price"
      using assms(2,4) by (simp_all add: get_balance_def get_gas_price_def)
    have ub: "unat (of_nat balance :: 128 word) = balance" using small by (simp add: unat_of_nat)
    have cmp: "(of_nat balance :: 128 word) \<le> ETH_TRANSFER_GAS * gas_price \<longleftrightarrow> balance \<le> 21000 * unat gas_price"
      unfolding word_le_nat_alt gas ub ..
    have zero: "(of_nat balance :: 128 word) = 0 \<longleftrightarrow> balance = 0" unfolding unat_eq_zero [symmetric] ub ..
    show ?thesis
    proof (cases "balance \<le> 21000 * unat gas_price")
      case True
      then show ?thesis using assms(1) bal price cmp zero by (auto simp: drain_to_treasury_def Let_def split: if_splits)
    next
      case False
      let ?amount = "of_nat balance - ETH_TRANSFER_GAS * gas_price :: 128 word"
      have "unat ?amount = balance - 21000 * unat gas_price"
        using False gas ub cmp by (simp add: unat_sub)
      then have am: "0 < unat ?amount" "unat ?amount + 21000 * unat gas_price = balance" using False by auto
      have d: "drain_to_treasury fuel al node cs old treasury polls =
         (case send_eth al node cs old treasury ?amount of
            Inl e \<Rightarrow> ([], Some (Returns (Inl e)))
          | Inr tx \<Rightarrow> ([(old, treasury, ?amount)],
              map_option (\<lambda>r. Returns (bind_r r (\<lambda>_. Inr (unat ?amount)))) (wait_for_confirmation fuel al cs 60000 polls)))"
        using False bal price cmp zero by (auto simp: drain_to_treasury_def Let_def)
      have conf: "\<exists>j. snd (polls j) = Receipt True" if "wait_for_confirmation fuel al cs 60000 polls = Some (Inr ())"
      proof -
        from that obtain z where z: "confirmation_loop fuel 60000 polls 0 = Some z"
          "(case z of TimedOut \<Rightarrow> Inl (TransactionConfirmationFailed ''Timeout waiting for confirmation'')
            | Reverted \<Rightarrow> Inl (TransactionFailed ''Transaction reverted'') | Confirmed \<Rightarrow> Inr ()) = Inr ()"
          by (auto simp: wait_for_confirmation_def split: sum.splits)
        then have "confirmation_loop fuel 60000 polls 0 = Some Confirmed" by (cases z) simp_all
        from confirmation_loop_sound [OF this] show ?thesis by auto
      qed
      from False assms(1) [unfolded d] am conf show ?thesis
        by (auto simp: bind_r_eq_Inr split: sum.splits)
    qed
  qed
qed

definition demo_polls :: "nat \<Rightarrow> nat \<times> receipt_poll" where
  "demo_polls i = (2000 * i, if i < 3 then NoReceipt else Receipt True)"

theorem drain_exact_witness:
  "drain_to_treasury 5 demo_alloy demo_node \<lparr>cs_rpc_url = ''r'', cs_bridge_address = []\<rparr> [1] [2] demo_polls
     = ([([1], [2], 8000)], Some (Returns (Inr 8000)))
   \<and> unat (8000 :: 128 word) + 21000 * unat (2 :: 128 word) = 50000"
proof -
  have five: "(5 :: nat) = Suc (Suc (Suc (Suc (Suc 0))))" by simp
  have "confirmation_loop 5 60000 demo_polls 0 = Some Confirmed"
    unfolding five by (simp add: demo_polls_def)
  then have "wait_for_confirmation 5 demo_alloy \<lparr>cs_rpc_url = ''r'', cs_bridge_address = []\<rparr> 60000 demo_polls = Some (Inr ())"
    by (simp add: wait_for_confirmation_def check_rpc_url_def demo_alloy_def)
  then have d: "drain_to_treasury 5 demo_alloy demo_node \<lparr>cs_rpc_url = ''r'', cs_bridge_address = []\<rparr> [1] [2] demo_polls
     = ([([1], [2], 8000)], Some (Returns (Inr 8000)))"
    by (simp add: drain_to_treasury_def get_balance_def get_gas_price_def send_eth_def check_rpc_url_def demo_alloy_def demo_node_def
        ETH_TRANSFER_GAS_def)
  have "eth_gas_price demo_node ''r'' = Inr 2" "eth_balance demo_node ''r'' [1] = Inr 50000" by (simp_all add: demo_node_def)
  with drain_exact [OF d, of 2 50000 8000] d show ?thesis by simp
qed

text \<open>Waiting for a transaction ends: the loop sleeps two seconds between polls and stops at the first poll after
  the timeout, so \<open>timeout / 2 s + 2\<close> polls are enough, whatever the node answers.\<close>

theorem confirmation_wait_ends:
  assumes "polls_paced polls" and "timeout < 2000 * k"
  shows "\<exists>r. wait_for_confirmation (Suc k) al cs timeout polls = Some r"
  using confirmation_loop_ends [OF assms(1), of timeout 0 k] assms(2)
  by (auto simp: wait_for_confirmation_def split: sum.splits)

theorem confirmation_wait_ends_witness:
  "polls_paced demo_polls \<and> (\<exists>r. wait_for_confirmation 32 demo_alloy \<lparr>cs_rpc_url = ''r'', cs_bridge_address = []\<rparr> 60000 demo_polls = Some r)"
proof -
  have p: "polls_paced demo_polls" by (simp add: polls_paced_def demo_polls_def)
  with confirmation_wait_ends [OF p, of 60000 31] show ?thesis by simp
qed

end
