(* ===== verification/State_Store.thy ===== *)
theory State_Store
  imports Rust_Std
begin

text \<open>
  Persistent progress of the validator, \<open>crates/synddb-validator/src/state/store.rs\<close>, and its error
  type, \<open>error.rs\<close>. The two rows of the table \<open>validator_state\<close> hold text, as in the source:
  \<open>-1\<close> or the empty string for a validator that never synced. What the SQLite engine reports for
  a statement is the argument \<open>io\<close> (\<open>None\<close> for success); an anyhow error is its text.
\<close>

section \<open>Errors\<close>

datatype validator_error =
    PayloadHashMismatch string string
  | SignerMismatch string string
  | VSignatureVerification string
  | VInvalidSignature string
  | FetchError u64 string
  | VMessageNotFound u64
  | SequenceGap u64 u64
  | DecompressionError string
  | ParseError string
  | ChangesetApplyError u64 string
  | ChangesetConflict string
  | DatabaseError string
  | StatePersistenceError string
  | ConfigError string
  | ValidationRuleFailed string u64 string

fun show_validator_error :: "validator_error \<Rightarrow> string" where
  "show_validator_error (PayloadHashMismatch expected computed) =
     ''Payload hash mismatch: expected '' @ expected @ '', computed '' @ computed"
| "show_validator_error (SignerMismatch expected actual) =
     ''Signer mismatch: expected '' @ expected @ '', got '' @ actual"
| "show_validator_error (VSignatureVerification e) = ''Signature verification failed: '' @ e"
| "show_validator_error (VInvalidSignature e) = ''Invalid signature format: '' @ e"
| "show_validator_error (FetchError s reason) = ''Fetch error for sequence '' @ show_u64 s @ '': '' @ reason"
| "show_validator_error (VMessageNotFound s) = ''Message not found: sequence '' @ show_u64 s"
| "show_validator_error (SequenceGap expected actual) =
     ''Sequence gap detected: expected '' @ show_u64 expected @ '', got '' @ show_u64 actual"
| "show_validator_error (DecompressionError e) = ''Decompression error: '' @ e"
| "show_validator_error (ParseError e) = ''Parse error: '' @ e"
| "show_validator_error (ChangesetApplyError s reason) =
     ''Changeset application failed at sequence '' @ show_u64 s @ '': '' @ reason"
| "show_validator_error (ChangesetConflict e) = ''Changeset conflict: '' @ e"
| "show_validator_error (DatabaseError e) = ''Database error: '' @ e"
| "show_validator_error (StatePersistenceError e) = ''State persistence error: '' @ e"
| "show_validator_error (ConfigError e) = ''Configuration error: '' @ e"
| "show_validator_error (ValidationRuleFailed rule s reason) =
     ''Validation rule '' @ [CHR 39] @ rule @ [CHR 39] @ '' failed at sequence '' @ show_u64 s @ '': '' @ reason"

type_synonym anyhow = string

section \<open>The store\<close>

record state_store =
  vs_last_sequence :: string
  vs_last_sync_time :: string
  vs_gaps :: "(u64 \<times> u64 \<times> u64) list"

definition new_state_store :: state_store where
  "new_state_store = \<lparr>vs_last_sequence = ''-1'', vs_last_sync_time = ''0'', vs_gaps = []\<rparr>"

definition store_last_sequence :: "state_store \<Rightarrow> anyhow + u64 option" where
  "store_last_sequence st =
     (let value = vs_last_sequence st
      in if value = [] \<or> value = ''-1'' then Inr None
         else case parse_u64 value of None \<Rightarrow> Inl ''Invalid last_sequence value'' | Some n \<Rightarrow> Inr (Some n))"

definition next_sequence :: "state_store \<Rightarrow> anyhow + u64" where
  "next_sequence st = bind_r (store_last_sequence st) (\<lambda>l. Inr (case l of None \<Rightarrow> 0 | Some s \<Rightarrow> s + 1))"

definition set_last_sequence :: "string option \<Rightarrow> u64 \<Rightarrow> state_store \<Rightarrow> state_store \<times> (anyhow + unit)" where
  "set_last_sequence io sequence st =
     (case io of
        Some e \<Rightarrow> (st, Inl ''Failed to update last_sequence'')
      | None \<Rightarrow> (st\<lparr>vs_last_sequence := show_u64 sequence\<rparr>, Inr ()))"

definition store_last_sync_time :: "state_store \<Rightarrow> anyhow + u64" where
  "store_last_sync_time st = ok_or ''Invalid last_sync_time value'' (parse_u64 (vs_last_sync_time st))"

definition set_last_sync_time :: "string option \<Rightarrow> u64 \<Rightarrow> state_store \<Rightarrow> state_store \<times> (anyhow + unit)" where
  "set_last_sync_time io timestamp st =
     (case io of
        Some e \<Rightarrow> (st, Inl ''Failed to update last_sync_time'')
      | None \<Rightarrow> (st\<lparr>vs_last_sync_time := show_u64 timestamp\<rparr>, Inr ()))"

text \<open>Two statements, each with its own result of the engine.\<close>

definition record_sync :: "string option \<times> string option \<Rightarrow> u64 \<Rightarrow> u64 \<Rightarrow> state_store \<Rightarrow> state_store \<times> (anyhow + unit)" where
  "record_sync io now sequence st =
     (case set_last_sequence (fst io) sequence st of
        (st1, Inl e) \<Rightarrow> (st1, Inl e)
      | (st1, Inr _) \<Rightarrow> set_last_sync_time (snd io) now st1)"

text \<open>rusqlite refuses to bind a \<open>u64\<close> that does not fit into an \<open>i64\<close>.\<close>

definition fits_i64 :: "u64 \<Rightarrow> bool" where
  "fits_i64 w \<longleftrightarrow> unat w < 2 ^ 63"

definition record_gap :: "string option \<Rightarrow> u64 \<Rightarrow> u64 \<Rightarrow> u64 \<Rightarrow> state_store \<Rightarrow> state_store \<times> (anyhow + unit)" where
  "record_gap io now gap_start gap_end st =
     (if io \<noteq> None \<or> \<not> (fits_i64 gap_start \<and> fits_i64 gap_end \<and> fits_i64 now)
      then (st, Inl ''Failed to record gap'')
      else (st\<lparr>vs_gaps := vs_gaps st @ [(gap_start, gap_end, now)]\<rparr>, Inr ()))"

definition get_gaps :: "state_store \<Rightarrow> (u64 \<times> u64 \<times> u64) list" where
  "get_gaps st = vs_gaps st"

definition has_gaps :: "state_store \<Rightarrow> bool" where
  "has_gaps st \<longleftrightarrow> length (vs_gaps st) > 0"

section \<open>Lemmas\<close>

text \<open>The store holds what its own operations write: never synced, or a sequence number.\<close>

definition synced_to :: "u64 option \<Rightarrow> state_store \<Rightarrow> bool" where
  "synced_to l st \<longleftrightarrow> store_last_sequence st = Inr l"

lemma show_u64_not_minus [simp]: "show_u64 (s :: u64) \<noteq> ''-1''" "show_u64 (s :: u64) \<noteq> []"
proof -
  have "list_all is_ascii_digit (show_u64 s)" by (simp add: show_u64_def show_nat_digits)
  then show "show_u64 s \<noteq> ''-1''" by (auto simp: is_ascii_digit_def)
  show "show_u64 s \<noteq> []" by (simp add: show_u64_def)
qed

lemma synced_to_new [simp]: "synced_to None new_state_store"
  by (simp add: synced_to_def store_last_sequence_def new_state_store_def)

lemma synced_to_record_gap [simp]: "synced_to l (fst (record_gap io now a b st)) \<longleftrightarrow> synced_to l st"
  by (simp add: synced_to_def record_gap_def store_last_sequence_def split: option.splits)

lemma synced_to_set [simp]: "synced_to (Some s) (fst (set_last_sequence None s st))"
  by (simp add: synced_to_def store_last_sequence_def set_last_sequence_def)

lemma record_sync_ok:
  assumes "record_sync io now s st = (st', Inr ())"
  shows "synced_to (Some s) st'" and "vs_gaps st' = vs_gaps st" and "store_last_sync_time st' = Inr now"
  using assms
  by (auto simp: record_sync_def set_last_sequence_def set_last_sync_time_def synced_to_def
      store_last_sequence_def store_last_sync_time_def split: option.splits)

lemma next_sequence_synced: "synced_to l st \<Longrightarrow> next_sequence st = Inr (case l of None \<Rightarrow> 0 | Some s \<Rightarrow> s + 1)"
  by (simp add: synced_to_def next_sequence_def)

section \<open>Properties\<close>

text \<open>
  Progress survives a restart: after a recorded sync the stored text reads back as the same
  sequence number and time, the next sequence is the successor, and recorded gaps are kept in
  order and do not change it.\<close>

theorem record_sync_roundtrip:
  assumes "record_sync (None, None) now s st = (st', r)" and "fits_i64 a" and "fits_i64 b" and "fits_i64 now"
  shows "r = Inr () \<and> store_last_sequence st' = Inr (Some s) \<and> next_sequence st' = Inr (s + 1)
     \<and> store_last_sync_time st' = Inr now
     \<and> get_gaps (fst (record_gap None now a b st')) = get_gaps st @ [(a, b, now)]
     \<and> next_sequence (fst (record_gap None now a b st')) = Inr (s + 1)"
  using assms
  by (auto simp: record_sync_def set_last_sequence_def set_last_sync_time_def record_gap_def get_gaps_def
      store_last_sequence_def store_last_sync_time_def next_sequence_def)

theorem record_sync_roundtrip_witness:
  "\<exists>st'. record_sync (None, None) 9 41 new_state_store = (st', Inr ()) \<and> next_sequence st' = Inr 42"
proof -
  obtain st' r where r: "record_sync (None, None) 9 41 new_state_store = (st', r)" by fastforce
  from record_sync_roundtrip [OF r, of 0 0] r show ?thesis by (simp add: fits_i64_def)
qed

end
