(* ===== verification/Verifier.thy ===== *)
theory Verifier
  imports Crates_Model State_Store
begin

text \<open>
  The validator's check of a message, \<open>crates/synddb-validator/src/sync/verifier.rs\<close>: the COSE
  signature first, then the claimed signer against the expected sequencer key. An accepted message
  carries a signature by the expected key over its payload and header, and what the sequencer signs is accepted.
\<close>

record signature_verifier =
  sv_expected_pubkey :: bytes

definition new_verifier :: "bytes \<Rightarrow> signature_verifier" where
  "new_verifier expected_pubkey = \<lparr>sv_expected_pubkey = expected_pubkey\<rparr>"

text \<open>The copy into the array of 64 bytes panics for another length; 128 hex characters give 64 bytes.\<close>

definition verifier_from_hex :: "('vk, 'sg) ext \<Rightarrow> string \<Rightarrow> validator_error + signature_verifier" where
  "verifier_from_hex x hex_pubkey =
     (let hex_str = strip_0x hex_pubkey
      in if length hex_str \<noteq> 128
         then Inl (VInvalidSignature (''Invalid public key length: expected 128 hex chars, got '' @ show_nat (length hex_str)))
         else bind_r (map_err (\<lambda>e. VInvalidSignature (''Invalid public key hex: '' @ e)) (hex_decode x hex_str)) (\<lambda>bs.
              Inr (new_verifier bs)))"

definition expected_pubkey_hex :: "('vk, 'sg) ext \<Rightarrow> signature_verifier \<Rightarrow> string" where
  "expected_pubkey_hex x v = ''0x'' @ hex_encode x (sv_expected_pubkey v)"

definition verify_message :: "('vk, 'sg) ext \<Rightarrow> signature_verifier \<Rightarrow> signed_message \<Rightarrow> validator_error + unit" where
  "verify_message x v m =
     bind_r (map_err (\<lambda>e. VSignatureVerification (''Signature verification failed: '' @ show_verification_error e))
               (verify_signature x m)) (\<lambda>_.
     let hex_str = strip_0x (sm_signer m)
     in if length hex_str \<noteq> 128
        then Inl (VInvalidSignature (''Invalid signer public key length: expected 128 hex chars, got '' @ show_nat (length hex_str)))
        else bind_r (map_err (\<lambda>e. VInvalidSignature (''Invalid signer public key hex: '' @ e)) (hex_decode x hex_str)) (\<lambda>claimed.
             if claimed \<noteq> sv_expected_pubkey v
             then Inl (SignerMismatch (''0x'' @ hex_encode x (sv_expected_pubkey v)) (''0x'' @ hex_encode x claimed))
             else Inr ()))"

section \<open>Lemmas\<close>

lemma verify_message_Inr:
  "verify_message x v m = Inr () \<longleftrightarrow> verify_signature x m = Inr () \<and> length (strip_0x (sm_signer m)) = 128
     \<and> hex_decode x (strip_0x (sm_signer m)) = Inr (sv_expected_pubkey v)"
  by (auto simp: verify_message_def bind_r_eq_Inr map_err_eq_Inr Let_def split: if_splits)

text \<open>The message types may differ between two messages that verify alike.\<close>

lemma verify_message_retyped [simp]:
  "verify_message x v (m\<lparr>sm_message_type := mt\<rparr>) = Inr () \<longleftrightarrow> verify_message x v m = Inr ()"
  by (simp add: verify_message_Inr verify_signature_Inr)

text \<open>\<open>hex::encode\<close> writes two characters for each byte.\<close>

definition hex_length_ok :: "('vk, 'sg) ext \<Rightarrow> bool" where
  "hex_length_ok x \<longleftrightarrow> (\<forall>b. length (hex_encode x b) = 2 * length b)"

lemma sequenced_message_accepted:
  assumes "hex_codec_ok x" and "hex_length_ok x" and "ecdsa_codec_ok x"
    and "verify_signature x sm = Inr ()" and "sm_signer sm = ''0x'' @ hex_encode x (verifying_key_to_bytes x key)"
  shows "verify_message x (new_verifier (verifying_key_to_bytes x key)) sm = Inr ()"
  using assms verifying_key_to_bytes_length [OF assms(3), of key]
  by (simp add: verify_message_Inr new_verifier_def hex_codec_ok_def hex_length_ok_def)

text \<open>A verifier configured with the key that the sequencer reports expects that key.\<close>

lemma verifier_from_reported_key:
  assumes "hex_codec_ok x" and "hex_length_ok x" and "ecdsa_codec_ok x"
  shows "verifier_from_hex x (''0x'' @ hex_encode x (verifying_key_to_bytes x key)) = Inr (new_verifier (verifying_key_to_bytes x key))"
  using assms verifying_key_to_bytes_length [OF assms(3), of key]
  by (simp add: verifier_from_hex_def Let_def hex_codec_ok_def hex_length_ok_def)

section \<open>Properties\<close>

text \<open>
  C4: The validator's check is sound: an accepted message carries the expected key as its signer, a
  signature that verifies under that key for the message's payload and protected header, and the
  sequence number and timestamp of that header.\<close>

theorem verify_message_sound:
  assumes "verify_message x v m = Inr ()"
  shows "\<exists>s sg key. hex_decode x (strip_0x (sm_signature m)) = Inr s \<and> length s = 64 \<and> sig_from_slice x s = Inr sg
     \<and> hex_decode x (strip_0x (sm_signer m)) = Inr (sv_expected_pubkey v)
     \<and> vk_from_sec1 x (4 # sv_expected_pubkey v) = Inr key
     \<and> vk_verify_digest x key (build_cose_sig_structure x (sm_cose_protected_header m) (sm_payload m)) sg
     \<and> parse_cose_protected_header_fields x (sm_cose_protected_header m) = Inr (sm_sequence m, sm_timestamp m)"
  using assms by (auto simp: verify_message_Inr verify_signature_Inr verify_decoded_Inr)

text \<open>
  The check is complete for the sequencer's own messages: the messages of a batch that the
  sequencer signed and converted are all accepted by a validator that was configured with the hex
  form of the sequencer's key.\<close>

theorem sequenced_batch_passes_verifier:
  assumes "ecdsa_codec_ok x" and "cose_codec_ok x" and "hex_codec_ok x" and "sig_structure_ok x"
    and "wire_codec_ok x" and "prehash_ok x" and "hex_length_ok x" and "signer_ok x key sign_fn"
    and "sign_requests x key sign_fn reqs = Inr ms"
    and "new_batch x ms now (verifying_key_to_bytes x key) sign_fn = Inr b"
  shows "\<exists>sb v. to_signed_batch x b = Inr sb \<and> verify_signed_batch x sb = Inr ()
     \<and> verifier_from_hex x (''0x'' @ hex_encode x (verifying_key_to_bytes x key)) = Inr v
     \<and> map request_of (sb_messages sb) = reqs \<and> (\<forall>m \<in> set (sb_messages sb). verify_message x v m = Inr ())"
proof -
  obtain sb where sb: "to_signed_batch x b = Inr sb" "verify_all_signed x sb = Inr ()"
    "map request_of (sb_messages sb) = reqs"
    "\<forall>sm \<in> set (sb_messages sb). sm_signer sm = ''0x'' @ hex_encode x (verifying_key_to_bytes x key)"
    using sequenced_batch_converts [OF assms(1-6,8-10)] by blast
  then have "verify_signed_batch x sb = Inr ()" and "\<forall>m \<in> set (sb_messages sb). verify_signature x m = Inr ()"
    by (auto simp: verify_all_signed_def bind_r_eq_Inr verify_each_Inr)
  with sb verifier_from_reported_key [OF assms(3,7,1)] sequenced_message_accepted [OF assms(3,7,1)]
  show ?thesis by blast
qed

section \<open>Witnesses\<close>

lemma demo_hex_length: "hex_length_ok demo_ext"
proof -
  have "length (demo_hex_encode b) = 2 * length b" for b by (induction b) (simp_all add: demo_hex_encode_def)
  then show ?thesis by (simp add: hex_length_ok_def)
qed

lemma demo_signed_batch:
  "\<exists>sb. to_signed_batch demo_ext demo_batch = Inr sb \<and> verify_signed_batch demo_ext sb = Inr ()
     \<and> map request_of (sb_messages sb) = [(5, 7, Changeset, [1, 2])]
     \<and> (\<forall>m \<in> set (sb_messages sb). verify_message demo_ext (new_verifier (replicate 64 (bit_byte True))) m = Inr ())"
proof -
  obtain sb where sb: "to_signed_batch demo_ext demo_batch = Inr sb" "verify_all_signed demo_ext sb = Inr ()"
    "map request_of (sb_messages sb) = [(5, 7, Changeset, [1, 2])]"
    "\<forall>sm \<in> set (sb_messages sb). sm_signer sm = ''0x'' @ hex_encode demo_ext (verifying_key_to_bytes demo_ext True)"
    using sequenced_batch_converts [OF demo_ecdsa demo_cose demo_hex demo_sig_structure demo_wire demo_prehash
      demo_signer demo_requests demo_new_batch]
    by (elim exE conjE) (rule that)
  have v: "verify_signed_batch demo_ext sb = Inr ()" and m: "\<forall>m \<in> set (sb_messages sb). verify_signature demo_ext m = Inr ()"
    using sb(2) by (auto simp: verify_all_signed_def bind_r_eq_Inr verify_each_Inr)
  have "verify_message demo_ext (new_verifier (replicate 64 (bit_byte True))) m = Inr ()" if "m \<in> set (sb_messages sb)" for m
    using sequenced_message_accepted [OF demo_hex demo_hex_length demo_ecdsa, of m True] m sb(4) that
    unfolding demo_verifying_key_to_bytes by blast
  with sb(1,3) v show ?thesis by (intro exI [of _ sb] conjI ballI)
qed

theorem verify_message_sound_witness:
  "\<exists>m. sm_sequence m = 5 \<and> verify_message demo_ext (new_verifier (replicate 64 (bit_byte True))) m = Inr ()
     \<and> parse_cose_protected_header_fields demo_ext (sm_cose_protected_header m) = Inr (5, sm_timestamp m)"
proof -
  obtain sb :: signed_batch where sb: "map request_of (sb_messages sb) = [(5, 7, Changeset, [1, 2])]"
    "\<forall>m \<in> set (sb_messages sb). verify_message demo_ext (new_verifier (replicate 64 (bit_byte True))) m = Inr ()"
    using demo_signed_batch by (elim exE conjE) (rule that)
  then obtain m where m: "sm_sequence m = 5" "verify_message demo_ext (new_verifier (replicate 64 (bit_byte True))) m = Inr ()"
    by (auto simp: request_of_def)
  from verify_message_sound [OF m(2)] m(1)
  have "parse_cose_protected_header_fields demo_ext (sm_cose_protected_header m) = Inr (5, sm_timestamp m)"
    by (elim exE conjE) simp
  with m show ?thesis by (intro exI [of _ m] conjI)
qed

theorem sequenced_batch_passes_verifier_witness:
  "\<exists>sb v. to_signed_batch demo_ext demo_batch = Inr sb \<and> verify_signed_batch demo_ext sb = Inr ()
     \<and> length (sb_messages sb) = 1 \<and> (\<forall>m \<in> set (sb_messages sb). verify_message demo_ext v m = Inr ())"
proof -
  obtain sb v where "to_signed_batch demo_ext demo_batch = Inr sb" "verify_signed_batch demo_ext sb = Inr ()"
    "map request_of (sb_messages sb) = [(5, 7, Changeset, [1, 2])]"
    "\<forall>m \<in> set (sb_messages sb). verify_message demo_ext v m = Inr ()"
    using sequenced_batch_passes_verifier [OF demo_ecdsa demo_cose demo_hex demo_sig_structure demo_wire demo_prehash
        demo_hex_length demo_signer demo_requests demo_new_batch]
    by (elim exE conjE) (rule that)
  moreover from arg_cong [OF this(3), of length] have "length (sb_messages sb) = 1" by simp
  ultimately show ?thesis by (intro exI [of _ sb] exI [of _ v] conjI)
qed

end
