(* ===== verification/Rules.thy ===== *)
theory Rules
  imports State_Store
begin

text \<open>
  Validation rules, \<open>crates/synddb-validator/src/rules/mod.rs\<close>: a registry runs its enabled rules in
  the order of registration on the database after a changeset was applied, and the first
  failure rejects the changeset. A rule of type \<open>'db\<close> is the user's code: its name, whether it is
  enabled, and its result on a database and a sequence number (\<open>Inl\<close> for an error it returns).
\<close>

datatype rule_result = Pass | Fail string | NotApplicable

record 'db validation_rule =
  ru_name :: string
  ru_enabled :: bool
  ru_validate :: "'db \<Rightarrow> u64 \<Rightarrow> string + rule_result"

type_synonym 'db rule_registry = "'db validation_rule list"

definition register :: "'db validation_rule \<Rightarrow> 'db rule_registry \<Rightarrow> 'db rule_registry" where
  "register rule rules = rules @ [rule]"

fun validate_all :: "'db rule_registry \<Rightarrow> 'db \<Rightarrow> u64 \<Rightarrow> validator_error + unit" where
  "validate_all [] db sequence = Inr ()"
| "validate_all (rule # rules) db sequence =
     (if \<not> ru_enabled rule then validate_all rules db sequence
      else case ru_validate rule db sequence of
             Inr Pass \<Rightarrow> validate_all rules db sequence
           | Inr (Fail reason) \<Rightarrow> Inl (ValidationRuleFailed (ru_name rule) sequence reason)
           | Inr NotApplicable \<Rightarrow> validate_all rules db sequence
           | Inl e \<Rightarrow> Inl (ValidationRuleFailed (ru_name rule) sequence (''Rule error: '' @ e)))"

section \<open>Lemmas\<close>

definition rule_accepts :: "'db \<Rightarrow> u64 \<Rightarrow> 'db validation_rule \<Rightarrow> bool" where
  "rule_accepts db sequence rule \<longleftrightarrow> ru_enabled rule
     \<longrightarrow> ru_validate rule db sequence = Inr Pass \<or> ru_validate rule db sequence = Inr NotApplicable"

lemma validate_all_Inr: "validate_all rules db s = Inr () \<longleftrightarrow> (\<forall>rule \<in> set rules. rule_accepts db s rule)"
  by (induction rules) (auto simp: rule_accepts_def split: sum.splits rule_result.splits)

lemma validate_all_append:
  "validate_all (rs @ qs) db s = bind_r (validate_all rs db s) (\<lambda>_. validate_all qs db s)"
  by (induction rs) (auto split: sum.splits rule_result.splits)

text \<open>The reported failure is that of the first enabled rule, in order, that does not accept.\<close>

lemma validate_all_first:
  assumes "\<forall>rule \<in> set rs. rule_accepts db s rule" and "ru_enabled rule" and "ru_validate rule db s = Inr (Fail reason)"
  shows "validate_all (rs @ rule # qs) db s = Inl (ValidationRuleFailed (ru_name rule) s reason)"
  using assms by (simp add: validate_all_append iffD2 [OF validate_all_Inr])

end
