(* ===== verification/Applier.thy ===== *)
theory Applier
  imports Verifier Rules Payloads "HOL-Library.AList"
begin

text \<open>
  Application of messages to the replica, \<open>crates/synddb-validator/src/apply/applier.rs\<close>: changeset
  batches inside a transaction with schema checks before and validation rules after, restoration
  of snapshots, and extraction of withdrawals and snapshots.

  SQLite is a parameter: the record \<open>sqlite\<close> gives, for a database of type \<open>'db\<close>, the items of a changeset,
  the number of columns of a table, the application of a changeset under a conflict handler (\<open>Inl\<close>
  leaves the database as it was, as SQLite documents for an aborted changeset), inversion, and the
  database a snapshot file holds. \<open>apply_io\<close> says which statements fail in one application. A
  transaction that is not committed is rolled back when it is dropped. An anyhow error is its
  text, which is the outermost context.
\<close>

section \<open>The database engine\<close>

datatype conflict_type = CData | CNotFound | CConflict | CConstraint | CForeignKey

datatype conflict_action = Omit | Replace | Abort

text \<open>What the changeset iterator yields: an operation on a table with its number of columns, or an error.\<close>

datatype changeset_item = Op string int | OpError string | ReadError string

record 'db sqlite =
  sq_items :: "bytes \<Rightarrow> string + changeset_item list"
  sq_table_cols :: "'db \<Rightarrow> string \<Rightarrow> int option"
  sq_apply :: "(conflict_type \<Rightarrow> conflict_action) \<Rightarrow> bytes \<Rightarrow> 'db \<Rightarrow> string + 'db"
  sq_invert :: "bytes \<Rightarrow> string + bytes"
  sq_load :: "bytes \<Rightarrow> 'db"

datatype restore_stage = CreateTemp | WriteTemp | SyncTemp | OpenSource | CheckSource | NewBackup | RunBackup | Pragmas

record apply_io =
  io_begin :: "string option"
  io_commit :: "string option"
  io_restore :: "restore_stage \<Rightarrow> bool"

datatype database_type = File string | InMemory

record 'db changeset_applier =
  ca_db :: 'db
  ca_db_type :: database_type

section \<open>Schema validation\<close>

fun str_join :: "string \<Rightarrow> string list \<Rightarrow> string" where
  "str_join sep [] = []"
| "str_join sep [s] = s"
| "str_join sep (s # t # ss) = s @ sep @ str_join sep (t # ss)"

definition show_int :: "int \<Rightarrow> string" where
  "show_int n = (if n < 0 then ''-'' @ show_nat (nat (- n)) else show_nat (nat n))"

text \<open>The loop over the items fills the map from tables to column counts; a later operation overwrites.\<close>

fun collect_tables :: "changeset_item list \<Rightarrow> (string \<times> int) list \<Rightarrow> anyhow + (string \<times> int) list" where
  "collect_tables [] table_columns = Inr table_columns"
| "collect_tables (Op table_name col_count # items) table_columns =
     collect_tables items (AList.update table_name col_count table_columns)"
| "collect_tables (OpError e # items) table_columns = Inl (''Failed to get changeset operation: '' @ e)"
| "collect_tables (ReadError e # items) table_columns = Inl (''Failed to read changeset item: '' @ e)"

definition table_missing :: "'db sqlite \<Rightarrow> 'db \<Rightarrow> string \<Rightarrow> bool" where
  "table_missing sq db t \<longleftrightarrow> sq_table_cols sq db t = None \<or> sq_table_cols sq db t = Some 0"

definition column_mismatch :: "'db sqlite \<Rightarrow> 'db \<Rightarrow> string \<times> int \<Rightarrow> string option" where
  "column_mismatch sq db tc =
     (case sq_table_cols sq db (fst tc) of
        None \<Rightarrow> None
      | Some actual_cols \<Rightarrow>
          if actual_cols = 0 \<or> actual_cols = snd tc then None
          else Some (fst tc @ '' (changeset has '' @ show_int (snd tc) @ '' columns, target has ''
                     @ show_int actual_cols @ '')''))"

definition validate_changeset_schema :: "'db sqlite \<Rightarrow> 'db \<Rightarrow> bytes \<Rightarrow> anyhow + unit" where
  "validate_changeset_schema sq db data =
     bind_r (map_err (\<lambda>e. ''Failed to start changeset iterator: '' @ e) (sq_items sq data)) (\<lambda>items.
     bind_r (collect_tables items []) (\<lambda>table_columns.
     let missing_tables = filter (table_missing sq db) (map fst table_columns);
         column_mismatches = List.map_filter (column_mismatch sq db) table_columns
     in if missing_tables \<noteq> []
        then Inl (''Changeset references tables that don'' @ [CHR 39] @ ''t exist: '' @ str_join '', '' missing_tables
                  @ ''. A snapshot is required to sync schema first.'')
        else if column_mismatches \<noteq> []
        then Inl (''Schema mismatch - column counts don'' @ [CHR 39] @ ''t match: '' @ str_join ''; '' column_mismatches
                  @ ''. A snapshot is required to sync schema first.'')
        else Inr ()))"

section \<open>Changesets\<close>

fun apply_conflict_handler :: "conflict_type \<Rightarrow> conflict_action" where
  "apply_conflict_handler CConflict = Omit"
| "apply_conflict_handler _ = Abort"

definition apply_single_changeset :: "'db sqlite \<Rightarrow> bytes \<Rightarrow> 'db \<Rightarrow> anyhow + 'db" where
  "apply_single_changeset sq data db =
     bind_r (validate_changeset_schema sq db data) (\<lambda>_.
     map_err (\<lambda>e. ''Failed to apply changeset: '' @ e) (sq_apply sq apply_conflict_handler data db))"

definition decompress :: "('vk, 'sg) ext \<Rightarrow> bytes \<Rightarrow> anyhow + bytes" where
  "decompress x data = map_err (\<lambda>_. ''Failed to decompress'') (zstd_decode x data)"

definition decompress_and_parse :: "('vk, 'sg) ext \<Rightarrow> (bytes \<Rightarrow> string + 'a) \<Rightarrow> signed_message \<Rightarrow> string
  \<Rightarrow> validator_error + 'a" where
  "decompress_and_parse x parse m type_name =
     bind_r (map_err (\<lambda>e. DecompressionError (''Failed to decompress '' @ type_name @ '' at sequence ''
                @ show_u64 (sm_sequence m) @ '': '' @ e)) (decompress x (sm_payload m))) (\<lambda>decompressed.
     map_err (\<lambda>e. ParseError (''Failed to parse '' @ type_name @ '' at sequence ''
                @ show_u64 (sm_sequence m) @ '': '' @ e)) (parse decompressed))"

fun apply_changesets :: "'db sqlite \<Rightarrow> u64 \<Rightarrow> string \<Rightarrow> nat \<Rightarrow> changeset_data list \<Rightarrow> 'db \<Rightarrow> validator_error + 'db" where
  "apply_changesets sq sequence batch_id i [] db = Inr db"
| "apply_changesets sq sequence batch_id i (c # cs) db =
     (if cd_data c = [] then apply_changesets sq sequence batch_id (i + 1) cs db
      else bind_r (map_err (\<lambda>e. ChangesetApplyError sequence (''Changeset '' @ show_nat i @ '' in batch '' @ batch_id @ '': '' @ e))
                     (apply_single_changeset sq (cd_data c) db)) (\<lambda>db'.
           apply_changesets sq sequence batch_id (i + 1) cs db'))"

definition run_rules :: "'db rule_registry option \<Rightarrow> 'db \<Rightarrow> u64 \<Rightarrow> validator_error + unit" where
  "run_rules rules db sequence = (case rules of None \<Rightarrow> Inr () | Some registry \<Rightarrow> validate_all registry db sequence)"

definition apply_changeset_message_with_rules :: "('vk, 'sg) ext \<Rightarrow> payload_codec \<Rightarrow> 'db sqlite \<Rightarrow> apply_io
  \<Rightarrow> 'db rule_registry option \<Rightarrow> signed_message \<Rightarrow> 'db changeset_applier \<Rightarrow> 'db changeset_applier \<times> (validator_error + unit)" where
  "apply_changeset_message_with_rules x c sq io rules m a =
     (case bind_r (decompress_and_parse x (changesets_from_cbor c) m ''changeset batch'') (\<lambda>batch.
           bind_r (case io_begin io of None \<Rightarrow> Inr () | Some e \<Rightarrow> Inl (DatabaseError (''Failed to begin transaction: '' @ e))) (\<lambda>_.
           bind_r (apply_changesets sq (sm_sequence m) (cr_batch_id batch) 0 (cr_changesets batch) (ca_db a)) (\<lambda>db.
           bind_r (run_rules rules db (sm_sequence m)) (\<lambda>_.
           case io_commit io of None \<Rightarrow> Inr db | Some e \<Rightarrow> Inl (DatabaseError (''Failed to commit transaction: '' @ e)))))) of
        Inl e \<Rightarrow> (a, Inl e)
      | Inr db \<Rightarrow> (a\<lparr>ca_db := db\<rparr>, Inr ()))"

section \<open>Snapshots\<close>

fun restore_error :: "restore_stage \<Rightarrow> anyhow" where
  "restore_error CreateTemp = ''Failed to create temporary snapshot file''"
| "restore_error WriteTemp = ''Failed to write snapshot data''"
| "restore_error SyncTemp = ''Failed to sync snapshot file''"
| "restore_error OpenSource = ''Failed to open snapshot database''"
| "restore_error CheckSource = ''Snapshot is not a valid SQLite database''"
| "restore_error NewBackup = ''Failed to create backup handle''"
| "restore_error RunBackup = ''Failed to restore from snapshot''"
| "restore_error Pragmas = ''Failed to re-apply pragmas after snapshot restore''"

definition is_file :: "database_type \<Rightarrow> bool" where
  "is_file t \<longleftrightarrow> (case t of File _ \<Rightarrow> True | InMemory \<Rightarrow> False)"

text \<open>
  The stages up to the backup fail without an effect on the database; the removal of the temporary
  file only warns; the pragmas run after the database was replaced.\<close>

definition restore_snapshot :: "'db sqlite \<Rightarrow> apply_io \<Rightarrow> bytes \<Rightarrow> 'db changeset_applier
  \<Rightarrow> 'db changeset_applier \<times> (anyhow + unit)" where
  "restore_snapshot sq io data a =
     (let file = is_file (ca_db_type a);
          stages = [CreateTemp, WriteTemp] @ (if file then [SyncTemp] else []) @ [OpenSource, CheckSource, NewBackup, RunBackup]
      in case find (io_restore io) stages of
           Some stage \<Rightarrow> (a, Inl (restore_error stage))
         | None \<Rightarrow>
            (let a' = a\<lparr>ca_db := sq_load sq data\<rparr>
             in if file \<and> io_restore io Pragmas then (a', Inl (restore_error Pragmas)) else (a', Inr ())))"

definition apply_snapshot_message :: "('vk, 'sg) ext \<Rightarrow> payload_codec \<Rightarrow> 'db sqlite \<Rightarrow> apply_io \<Rightarrow> signed_message
  \<Rightarrow> 'db changeset_applier \<Rightarrow> 'db changeset_applier \<times> (anyhow + unit)" where
  "apply_snapshot_message x c sq io m a =
     (case decompress_and_parse x (snapshot_from_cbor c) m ''snapshot'' of
        Inl e \<Rightarrow> (a, Inl (show_validator_error e))
      | Inr request \<Rightarrow> restore_snapshot sq io (sn_data (sq_snapshot request)) a)"

section \<open>Messages\<close>

definition apply_message_with_rules :: "('vk, 'sg) ext \<Rightarrow> payload_codec \<Rightarrow> 'db sqlite \<Rightarrow> apply_io
  \<Rightarrow> 'db rule_registry option \<Rightarrow> signed_message \<Rightarrow> 'db changeset_applier \<Rightarrow> 'db changeset_applier \<times> (anyhow + unit)" where
  "apply_message_with_rules x c sq io rules m a =
     (case sm_message_type m of
        Changeset \<Rightarrow> (let (a', r) = apply_changeset_message_with_rules x c sq io rules m a
                       in (a', map_err show_validator_error r))
      | Snapshot \<Rightarrow> apply_snapshot_message x c sq io m a
      | Withdrawal \<Rightarrow> (a, Inr ()))"

definition apply_message :: "('vk, 'sg) ext \<Rightarrow> payload_codec \<Rightarrow> 'db sqlite \<Rightarrow> apply_io \<Rightarrow> signed_message
  \<Rightarrow> 'db changeset_applier \<Rightarrow> 'db changeset_applier \<times> (anyhow + unit)" where
  "apply_message x c sq io m a = apply_message_with_rules x c sq io None m a"

definition extract_withdrawal :: "('vk, 'sg) ext \<Rightarrow> payload_codec \<Rightarrow> signed_message \<Rightarrow> anyhow + withdrawal_request option" where
  "extract_withdrawal x c m =
     (if sm_message_type m \<noteq> Withdrawal then Inr None
      else bind_r (decompress x (sm_payload m)) (\<lambda>d.
           bind_r (map_err (\<lambda>_. ''Failed to parse withdrawal request'') (withdrawal_from_cbor c d)) (\<lambda>r. Inr (Some r))))"

definition extract_snapshot :: "('vk, 'sg) ext \<Rightarrow> payload_codec \<Rightarrow> signed_message \<Rightarrow> anyhow + snapshot_request option" where
  "extract_snapshot x c m =
     (if sm_message_type m \<noteq> Snapshot then Inr None
      else bind_r (decompress x (sm_payload m)) (\<lambda>d.
           bind_r (map_err (\<lambda>_. ''Failed to parse snapshot request'') (snapshot_from_cbor c d)) (\<lambda>r. Inr (Some r))))"

section \<open>Lemmas\<close>

lemma collect_tables_Inr:
  "distinct (map fst acc) \<Longrightarrow> collect_tables items acc = Inr tc \<longleftrightarrow>
     (\<exists>ops. items = map (\<lambda>(t, n). Op t n) ops \<and> tc = fold (\<lambda>(t, n). AList.update t n) ops acc)"
proof (induction items acc rule: collect_tables.induct)
  case (1 acc)
  show ?case by auto
next
  case (2 t n items acc)
  then have "collect_tables items (AList.update t n acc) = Inr tc \<longleftrightarrow>
     (\<exists>ops. items = map (\<lambda>(t, n). Op t n) ops \<and> tc = fold (\<lambda>(t, n). AList.update t n) ops (AList.update t n acc))"
    by (simp add: distinct_update)
  then show ?case by (auto simp: Cons_eq_map_conv)
qed (auto simp: Cons_eq_map_conv)

lemma fold_update_map: "map_of (fold (\<lambda>(t, n). AList.update t n) ops acc) = map_of acc ++ map_of (rev ops)"
  by (induction ops arbitrary: acc) (auto simp: update_conv' map_add_def fun_eq_iff split: option.splits)

lemma fold_update_distinct: "distinct (map fst acc) \<Longrightarrow> distinct (map fst (fold (\<lambda>(t, n). AList.update t n) ops acc))"
  by (induction ops arbitrary: acc) (auto simp: distinct_update)

lemma table_checks:
  "filter (table_missing sq db) (map fst tc) = [] \<and> List.map_filter (column_mismatch sq db) tc = []
   \<longleftrightarrow> (\<forall>(t, n) \<in> set tc. n \<noteq> 0 \<and> sq_table_cols sq db t = Some n)"
proof -
  have "\<not> table_missing sq db (fst p) \<and> column_mismatch sq db p = None \<longleftrightarrow> snd p \<noteq> 0 \<and> sq_table_cols sq db (fst p) = Some (snd p)" for p
    by (auto simp: table_missing_def column_mismatch_def split: option.splits)
  then have "(\<forall>p \<in> set tc. \<not> table_missing sq db (fst p) \<and> column_mismatch sq db p = None)
      \<longleftrightarrow> (\<forall>p \<in> set tc. snd p \<noteq> 0 \<and> sq_table_cols sq db (fst p) = Some (snd p))" by (simp only:)
  then show ?thesis
    by (simp only: filter_empty_conv map_filter_def map_is_Nil_conv set_map ball_simps case_prod_unfold comp_def not_not ball_conj_distrib)
qed

text \<open>What a batch does when nothing fails: its non-empty changesets one after the other.\<close>

fun replay :: "'db sqlite \<Rightarrow> bytes list \<Rightarrow> 'db \<Rightarrow> 'db option" where
  "replay sq [] db = Some db"
| "replay sq (d # ds) db =
     (if validate_changeset_schema sq db d = Inr ()
      then case sq_apply sq apply_conflict_handler d db of Inl _ \<Rightarrow> None | Inr db' \<Rightarrow> replay sq ds db'
      else None)"

definition changes_of :: "changeset_batch_request \<Rightarrow> bytes list" where
  "changes_of batch = filter (\<lambda>d. d \<noteq> []) (map cd_data (cr_changesets batch))"

lemma apply_changesets_replay:
  "result_ok (apply_changesets sq s b i cs db) = replay sq (filter (\<lambda>d. d \<noteq> []) (map cd_data cs)) db"
proof (induction cs arbitrary: i db)
  case (Cons c cs)
  show ?case
  proof (cases "validate_changeset_schema sq db (cd_data c)")
    case (Inl e)
    with Cons show ?thesis by (simp add: apply_single_changeset_def)
  next
    case (Inr u)
    with Cons show ?thesis
      by (cases "sq_apply sq apply_conflict_handler (cd_data c) db") (simp_all add: apply_single_changeset_def)
  qed
qed simp

lemma apply_changesets_Inr:
  "apply_changesets sq s b i cs db = Inr db' \<longleftrightarrow> replay sq (filter (\<lambda>d. d \<noteq> []) (map cd_data cs)) db = Some db'"
  using apply_changesets_replay [of sq s b i cs db] by (metis result_ok_eq_Some)

definition rules_accept :: "'db rule_registry option \<Rightarrow> 'db \<Rightarrow> u64 \<Rightarrow> bool" where
  "rules_accept rules db s \<longleftrightarrow> (\<forall>registry \<in> set_option rules. \<forall>rule \<in> set registry. rule_accepts db s rule)"

lemma run_rules_Inr: "run_rules rules db s = Inr () \<longleftrightarrow> rules_accept rules db s"
  by (cases rules) (auto simp: run_rules_def rules_accept_def validate_all_Inr)

lemma changeset_message_Inr:
  "apply_changeset_message_with_rules x c sq io rules m a = (a', Inr ()) \<longleftrightarrow>
     (\<exists>batch db'. decompress_and_parse x (changesets_from_cbor c) m ''changeset batch'' = Inr batch
        \<and> io_begin io = None \<and> io_commit io = None
        \<and> replay sq (changes_of batch) (ca_db a) = Some db' \<and> rules_accept rules db' (sm_sequence m)
        \<and> a' = a\<lparr>ca_db := db'\<rparr>)"
proof -
  let ?r = "bind_r (decompress_and_parse x (changesets_from_cbor c) m ''changeset batch'') (\<lambda>batch.
           bind_r (case io_begin io of None \<Rightarrow> Inr () | Some e \<Rightarrow> Inl (DatabaseError (''Failed to begin transaction: '' @ e))) (\<lambda>_.
           bind_r (apply_changesets sq (sm_sequence m) (cr_batch_id batch) 0 (cr_changesets batch) (ca_db a)) (\<lambda>db.
           bind_r (run_rules rules db (sm_sequence m)) (\<lambda>_.
           case io_commit io of None \<Rightarrow> Inr db | Some e \<Rightarrow> Inl (DatabaseError (''Failed to commit transaction: '' @ e))))))"
  have "?r = Inr db' \<longleftrightarrow> (\<exists>batch. decompress_and_parse x (changesets_from_cbor c) m ''changeset batch'' = Inr batch
        \<and> io_begin io = None \<and> io_commit io = None
        \<and> replay sq (changes_of batch) (ca_db a) = Some db' \<and> rules_accept rules db' (sm_sequence m))" for db'
    by (auto simp: bind_r_eq_Inr run_rules_Inr apply_changesets_Inr changes_of_def split: option.splits)
  moreover have "apply_changeset_message_with_rules x c sq io rules m a = (a', Inr ()) \<longleftrightarrow> (\<exists>db'. ?r = Inr db' \<and> a' = a\<lparr>ca_db := db'\<rparr>)"
    unfolding apply_changeset_message_with_rules_def by (cases ?r) auto
  ultimately show ?thesis by blast
qed

lemma changeset_message_Inl:
  "apply_changeset_message_with_rules x c sq io rules m a = (a', Inl e) \<Longrightarrow> a' = a"
  by (auto simp: apply_changeset_message_with_rules_def split: sum.splits)

lemma decompress_and_parse_Inr:
  "decompress_and_parse x parse m n = Inr v \<longleftrightarrow> (\<exists>d. zstd_decode x (sm_payload m) = Inr d \<and> parse d = Inr v)"
  by (auto simp: decompress_and_parse_def decompress_def bind_r_eq_Inr map_err_eq_Inr)

lemma message_applied_Inr:
  "apply_message_with_rules x c sq io rules m a = (a', Inr ()) \<Longrightarrow> sm_message_type m = Changeset
   \<Longrightarrow> apply_changeset_message_with_rules x c sq io rules m a = (a', Inr ())"
  by (auto simp: apply_message_with_rules_def split_beta Let_def map_err_eq_Inr prod_eq_iff)

section \<open>Properties\<close>

text \<open>
  C5: Changeset messages are atomic: either the message is applied as a whole, all its non-empty
  changesets in order, each checked against the schema it meets, with every enabled rule accepting the result,
  or an error is returned and the replica is unchanged.\<close>

theorem changeset_message_atomic:
  assumes "apply_message_with_rules x c sq io rules m a = (a', r)" and "sm_message_type m = Changeset"
  shows "if r = Inr ()
         then \<exists>d batch db'. zstd_decode x (sm_payload m) = Inr d \<and> changesets_from_cbor c d = Inr batch
            \<and> replay sq (changes_of batch) (ca_db a) = Some db' \<and> rules_accept rules db' (sm_sequence m)
            \<and> a' = a\<lparr>ca_db := db'\<rparr>
         else a' = a"
proof (cases r)
  case (Inl e)
  with assms have "\<exists>e'. apply_changeset_message_with_rules x c sq io rules m a = (a', Inl e')"
    by (auto simp: apply_message_with_rules_def split_beta Let_def map_err_eq_Inl prod_eq_iff)
  with Inl changeset_message_Inl show ?thesis by fastforce
next
  case (Inr u)
  with assms message_applied_Inr [of x c sq io rules m a a'] show ?thesis
    by (auto simp: changeset_message_Inr decompress_and_parse_Inr)
qed

text \<open>
  The schema check accepts exactly the changesets whose items can all be read and whose tables, by the
  column count of the last operation on each, exist in the replica with that many columns.\<close>

theorem schema_check_exact:
  "validate_changeset_schema sq db data = Inr () \<longleftrightarrow>
     (\<exists>ops. sq_items sq data = Inr (map (\<lambda>(t, n). Op t n) ops)
        \<and> (\<forall>(t, n) \<in> Map.graph (map_of (rev ops)). n \<noteq> 0 \<and> sq_table_cols sq db t = Some n))"
proof -
  let ?tc = "\<lambda>ops. fold (\<lambda>(t, n). AList.update t n) ops []"
  have checks: "(\<forall>(t, n) \<in> set (?tc ops). n \<noteq> 0 \<and> sq_table_cols sq db t = Some n) \<longleftrightarrow>
     (\<forall>(t, n) \<in> Map.graph (map_of (rev ops)). n \<noteq> 0 \<and> sq_table_cols sq db t = Some n)" for ops
    using graph_map_of_if_distinct_dom [OF fold_update_distinct [of "[]" ops]] fold_update_map [of ops "[]"] by simp
  have "validate_changeset_schema sq db data = Inr () \<longleftrightarrow>
     (\<exists>items tc. sq_items sq data = Inr items \<and> collect_tables items [] = Inr tc
        \<and> (\<forall>(t, n) \<in> set tc. n \<noteq> 0 \<and> sq_table_cols sq db t = Some n))"
    by (auto simp: validate_changeset_schema_def bind_r_eq_Inr map_err_eq_Inr Let_def table_checks [symmetric] split: if_splits)
  also have "\<dots> \<longleftrightarrow> (\<exists>ops. sq_items sq data = Inr (map (\<lambda>(t, n). Op t n) ops)
        \<and> (\<forall>(t, n) \<in> set (?tc ops). n \<noteq> 0 \<and> sq_table_cols sq db t = Some n))"
    by (auto simp: collect_tables_Inr)
  finally show ?thesis by (simp only: checks)
qed

section \<open>Witnesses\<close>

text \<open>
  A database that is one byte in a table of one column; a changeset of two bytes adds its first byte.\<close>

definition demo_sqlite :: "u8 sqlite" where
  "demo_sqlite =
     \<lparr>sq_items = (\<lambda>d. if length d = 2 then Inr [Op ''t'' 1] else Inl ''malformed''),
      sq_table_cols = (\<lambda>_ t. if t = ''t'' then Some 1 else Some 0),
      sq_apply = (\<lambda>_ d db. if length d = 2 then Inr (db + d ! 0) else Inl ''malformed''),
      sq_invert = (\<lambda>d. if length d = 2 then Inr [- (d ! 0), d ! 1] else Inl ''malformed''),
      sq_load = (\<lambda>d. of_nat (length d))\<rparr>"

definition no_failure :: apply_io where
  "no_failure = \<lparr>io_begin = None, io_commit = None, io_restore = (\<lambda>_. False)\<rparr>"

definition demo_changeset_message :: "u64 \<Rightarrow> signed_message" where
  "demo_changeset_message s = \<lparr>sm_sequence = s, sm_timestamp = 7, sm_message_type = Changeset, sm_payload = [1],
     sm_message_hash = [], sm_signature = [], sm_signer = [], sm_cose_protected_header = []\<rparr>"

lemma demo_schema: "length d = 2 \<Longrightarrow> validate_changeset_schema demo_sqlite db d = Inr ()"
  by (simp add: validate_changeset_schema_def demo_sqlite_def Let_def table_missing_def column_mismatch_def map_filter_def)

lemma demo_replay: "length d = 2 \<Longrightarrow> replay demo_sqlite [d] db = Some (db + d ! 0)"
  by (simp add: demo_schema) (simp add: demo_sqlite_def)

lemma demo_apply_message:
  assumes "sm_message_type m = Changeset" and "sm_payload m = [1]"
  shows "apply_message_with_rules demo_ext demo_codec demo_sqlite no_failure None m
     \<lparr>ca_db = db, ca_db_type = InMemory\<rparr> = (\<lparr>ca_db = db + 1, ca_db_type = InMemory\<rparr>, Inr ())"
proof -
  have "replay demo_sqlite (changes_of demo_changesets) db = Some (db + 1)"
    using demo_replay [of "[1, 2]" db] by (simp add: changes_of_def demo_changesets_def)
  then have "apply_changeset_message_with_rules demo_ext demo_codec demo_sqlite no_failure None m
     \<lparr>ca_db = db, ca_db_type = InMemory\<rparr> = (\<lparr>ca_db = db + 1, ca_db_type = InMemory\<rparr>, Inr ())"
    by (simp add: changeset_message_Inr decompress_and_parse_Inr assms no_failure_def demo_codec_def rules_accept_def)
  then show ?thesis by (simp add: apply_message_with_rules_def assms)
qed

theorem changeset_message_atomic_witness:
  "\<exists>a'. apply_message_with_rules demo_ext demo_codec demo_sqlite no_failure None (demo_changeset_message 5)
       \<lparr>ca_db = 3, ca_db_type = InMemory\<rparr> = (a', Inr ())
     \<and> (\<exists>batch. replay demo_sqlite (changes_of batch) 3 = Some (ca_db a'))"
proof -
  have r: "apply_message_with_rules demo_ext demo_codec demo_sqlite no_failure None (demo_changeset_message 5)
       \<lparr>ca_db = 3, ca_db_type = InMemory\<rparr> = (\<lparr>ca_db = 3 + 1, ca_db_type = InMemory\<rparr>, Inr ())"
    by (rule demo_apply_message) (simp_all add: demo_changeset_message_def)
  from changeset_message_atomic [OF r] have "\<exists>batch. replay demo_sqlite (changes_of batch) 3 = Some (ca_db \<lparr>ca_db = 3 + 1 :: u8, ca_db_type = InMemory\<rparr>)"
    by (auto simp: demo_changeset_message_def)
  with r show ?thesis by (intro exI [of _ "\<lparr>ca_db = 3 + 1 :: u8, ca_db_type = InMemory\<rparr>"] conjI)
qed

theorem schema_check_exact_witness:
  "validate_changeset_schema demo_sqlite 0 [1, 2] = Inr () \<and> validate_changeset_schema demo_sqlite 0 [1] \<noteq> Inr ()"
proof
  show "validate_changeset_schema demo_sqlite 0 [1, 2] = Inr ()"
    unfolding schema_check_exact by (rule exI [of _ "[(''t'', 1)]"]) (simp add: demo_sqlite_def Map.graph_def)
  show "validate_changeset_schema demo_sqlite 0 [1] \<noteq> Inr ()"
    unfolding schema_check_exact by (simp add: demo_sqlite_def)
qed

end
