(* ===== verification/Audit_Trail.thy ===== *)
theory Audit_Trail
  imports Applier Btree_Map "HOL-Library.Multiset"
begin

text \<open>
  The audit trail, \<open>crates/synddb-validator/src/apply/audit.rs\<close>: the table of changesets that could not be
  applied, with its text encoding of the reason, and the verification of a chain of pending
  changesets by inversion, which walks the database back and then forward again.

  The table is ordered by its primary key. A field of \<open>pending_io\<close> is the error that the engine reports for a statement.
  The laws of SQLite's inversion that the chain verification relies on are the predicates
  \<open>inversion_undoes\<close> and \<open>inversion_complete\<close>.
\<close>

section \<open>Pending changesets\<close>

datatype deferral_reason = MissingTable string | ColumnMismatch string int int

record pending_changeset =
  pc_sequence :: u64
  pc_data :: bytes
  pc_reason :: deferral_reason

record pending_io =
  pio_store :: "string option"
  pio_get_all :: "string option"
  pio_clear :: "string option"
  pio_count :: "string option"

type_synonym pending_store = "(u64, bytes \<times> string) btree"

definition new_pending_store :: pending_store where "new_pending_store = []"

fun reason_json :: "deferral_reason \<Rightarrow> string" where
  "reason_json (MissingTable table) =
     [CHR 123, CHR 34] @ ''type'' @ [CHR 34, CHR 58, CHR 34] @ ''missing_table'' @ [CHR 34, CHR 44, CHR 34] @ ''table''
     @ [CHR 34, CHR 58, CHR 34] @ table @ [CHR 34, CHR 125]"
| "reason_json (ColumnMismatch table expected actual) =
     [CHR 123, CHR 34] @ ''type'' @ [CHR 34, CHR 58, CHR 34] @ ''column_mismatch'' @ [CHR 34, CHR 44, CHR 34] @ ''table''
     @ [CHR 34, CHR 58, CHR 34] @ table @ [CHR 34, CHR 44, CHR 34] @ ''expected'' @ [CHR 34, CHR 58] @ show_int expected
     @ [CHR 44, CHR 34] @ ''actual'' @ [CHR 34, CHR 58] @ show_int actual @ [CHR 125]"

definition store_pending :: "pending_io \<Rightarrow> pending_changeset \<Rightarrow> pending_store \<Rightarrow> pending_store \<times> (anyhow + unit)" where
  "store_pending io c st =
     (if pio_store io \<noteq> None \<or> \<not> fits_i64 (pc_sequence c)
      then (st, Inl ''Failed to store pending changeset'')
      else (bt_insert (pc_sequence c) (pc_data c, reason_json (pc_reason c)) st, Inr ()))"

text \<open>\<open>s.split(pat)\<close> for a non-empty pattern.\<close>

fun split_once :: "string \<Rightarrow> string \<Rightarrow> (string \<times> string) option" where
  "split_once pat s =
     (case strip_prefix pat s of
        Some rest \<Rightarrow> Some ([], rest)
      | None \<Rightarrow> (case s of [] \<Rightarrow> None
                 | c # cs \<Rightarrow> map_option (\<lambda>(a, b). (c # a, b)) (split_once pat cs)))"

declare split_once.simps [simp del]

lemma split_once_Some: "split_once pat s = Some (a, b) \<Longrightarrow> s = a @ pat @ b"
proof (induction s arbitrary: a)
  case Nil
  then show ?case by (subst (asm) split_once.simps) (auto simp: strip_prefix_Some split: option.splits)
next
  case (Cons c cs)
  from Cons.prems show ?case
    by (subst (asm) split_once.simps) (auto simp: strip_prefix_Some split: option.splits dest: Cons.IH)
qed

function split_str :: "string \<Rightarrow> string \<Rightarrow> string list" where
  "split_str pat s =
     (if pat = [] then [s]
      else case split_once pat s of None \<Rightarrow> [s] | Some (a, b) \<Rightarrow> a # split_str pat b)"
  by pat_completeness auto
termination
  by (relation "measure (length \<circ> snd)") (auto dest: split_once_Some)

declare split_str.simps [simp del]

definition parse_reason :: "string \<Rightarrow> deferral_reason" where
  "parse_reason json =
     (if str_contains json ''missing_table''
      then MissingTable
        (case split_str ([CHR 34] @ ''table'' @ [CHR 34, CHR 58, CHR 34]) json of
           _ # s # _ \<Rightarrow> (case split_on (CHR 34) s of t # _ \<Rightarrow> t | [] \<Rightarrow> ''unknown'')
         | _ \<Rightarrow> ''unknown'')
      else MissingTable ''unknown'')"

definition pending_of_row :: "u64 \<times> bytes \<times> string \<Rightarrow> pending_changeset" where
  "pending_of_row row = \<lparr>pc_sequence = fst row, pc_data = fst (snd row), pc_reason = parse_reason (snd (snd row))\<rparr>"

definition get_all_pending :: "pending_io \<Rightarrow> pending_store \<Rightarrow> anyhow + pending_changeset list" where
  "get_all_pending io st = (case pio_get_all io of Some e \<Rightarrow> Inl e | None \<Rightarrow> Inr (map pending_of_row st))"

definition get_range_pending :: "pending_io \<Rightarrow> u64 \<Rightarrow> u64 \<Rightarrow> pending_store \<Rightarrow> anyhow + pending_changeset list" where
  "get_range_pending io a b st =
     (case pio_get_all io of
        Some e \<Rightarrow> Inl e
      | None \<Rightarrow> if fits_i64 a \<and> fits_i64 b
                then Inr (map pending_of_row (filter (\<lambda>(s, _). a \<le> s \<and> s \<le> b) st))
                else Inl ''out of range integral type conversion attempted'')"

definition clear_up_to :: "pending_io \<Rightarrow> u64 \<Rightarrow> pending_store \<Rightarrow> pending_store \<times> (anyhow + nat)" where
  "clear_up_to io sequence st =
     (if pio_clear io \<noteq> None \<or> \<not> fits_i64 sequence then (st, Inl ''Failed to clear pending changesets'')
      else (filter (\<lambda>(s, _). \<not> s \<le> sequence) st, Inr (length (filter (\<lambda>(s, _). s \<le> sequence) st))))"

definition count_pending :: "pending_io \<Rightarrow> pending_store \<Rightarrow> anyhow + nat" where
  "count_pending io st = (case pio_count io of Some e \<Rightarrow> Inl ''Failed to count pending changesets'' | None \<Rightarrow> Inr (length st))"

definition pending_sequence_range :: "pending_store \<Rightarrow> (u64 \<times> u64) option" where
  "pending_sequence_range st = (if st = [] then None else Some (Min (fst ` set st), Max (fst ` set st)))"

section \<open>Verification of a chain\<close>

record audit_result =
  ar_verified :: "u64 list"
  ar_failed :: "(u64 \<times> string) list"

definition invert_changeset :: "'db sqlite \<Rightarrow> bytes \<Rightarrow> anyhow + bytes" where
  "invert_changeset sq changeset = map_err (\<lambda>e. ''Failed to invert: '' @ e) (sq_invert sq changeset)"

definition abort_all :: "conflict_type \<Rightarrow> conflict_action" where
  "abort_all _ = Abort"

definition chain_broken :: "pending_changeset list \<Rightarrow> (u64 \<times> string) list" where
  "chain_broken rest = map (\<lambda>r. (pc_sequence r, ''Chain broken by earlier failure'')) rest"

text \<open>
  The loop over the changesets, most recent first. The result holds \<open>applied_inversions\<close> (whose sequence numbers are
  \<open>verified\<close>), the failures, and the database at the end of the loop.\<close>

fun chain_loop :: "'db sqlite \<Rightarrow> pending_changeset list \<Rightarrow> 'db \<Rightarrow> pending_changeset list \<times> (u64 \<times> string) list \<times> 'db" where
  "chain_loop sq [] db = ([], [], db)"
| "chain_loop sq (c # rest) db =
     (case invert_changeset sq (pc_data c) of
        Inl e \<Rightarrow> ([], (pc_sequence c, ''Failed to invert: '' @ e) # chain_broken rest, db)
      | Inr inverted \<Rightarrow>
         (case sq_apply sq abort_all inverted db of
            Inl e \<Rightarrow> ([], (pc_sequence c, ''Inverted changeset failed to apply: '' @ e) # chain_broken rest, db)
          | Inr db' \<Rightarrow> (let (applied, failed, db'') = chain_loop sq rest db' in (c # applied, failed, db''))))"

text \<open>The forward replay; an error is only logged.\<close>

fun restore_forward :: "'db sqlite \<Rightarrow> pending_changeset list \<Rightarrow> 'db \<Rightarrow> 'db" where
  "restore_forward sq [] db = db"
| "restore_forward sq (c # cs) db =
     restore_forward sq cs (case sq_apply sq abort_all (pc_data c) db of Inl _ \<Rightarrow> db | Inr db' \<Rightarrow> db')"

definition newest_first :: "pending_changeset list \<Rightarrow> pending_changeset list" where
  "newest_first = sort_key (\<lambda>c. - uint (pc_sequence c))"

definition verify_changeset_chain :: "'db sqlite \<Rightarrow> pending_changeset list \<Rightarrow> 'db \<Rightarrow> 'db \<times> audit_result" where
  "verify_changeset_chain sq pending db =
     (if pending = [] then (db, \<lparr>ar_verified = [], ar_failed = []\<rparr>)
      else let (applied, failed, db') = chain_loop sq (newest_first pending) db
           in (restore_forward sq (rev applied) db', \<lparr>ar_verified = map pc_sequence applied, ar_failed = failed\<rparr>))"

section \<open>Lemmas on the store\<close>

definition pending_ok :: "pending_store \<Rightarrow> bool" where
  "pending_ok st \<longleftrightarrow> bt_sorted st \<and> (\<forall>s \<in> fst ` set st. fits_i64 s)"

lemma pending_ok_new [simp]: "pending_ok new_pending_store"
  by (simp add: pending_ok_def new_pending_store_def)

lemma pending_ok_store: "pending_ok st \<Longrightarrow> pending_ok (fst (store_pending io c st))"
  unfolding pending_ok_def store_pending_def
  by (cases "pio_store io \<noteq> None \<or> \<not> fits_i64 (pc_sequence c)")
     (simp_all only: if_True if_False fst_conv bt_sorted_insert fst_set_bt_insert ball_simps de_Morgan_disj simp_thms, blast+)

lemma pending_ok_clear: "pending_ok st \<Longrightarrow> pending_ok (fst (clear_up_to io s st))"
  by (auto simp: pending_ok_def clear_up_to_def bt_sorted_def sorted_wrt_map)

lemma pending_sorted: "pending_ok st \<Longrightarrow> sorted_wrt (\<lambda>a b. pc_sequence a < pc_sequence b) (map pending_of_row st)"
  by (simp add: pending_ok_def bt_sorted_def sorted_wrt_map pending_of_row_def)

lemma split_on_quote: "CHR 34 \<notin> set t \<Longrightarrow> split_on (CHR 34) (t @ CHR 34 # u) = t # split_on (CHR 34) u"
  by (rule split_on_append_delim)

section \<open>Lemmas on the chain\<close>

text \<open>What the chain verification needs of SQLite: an applied inverse can be undone by the changeset itself,
  and a changeset that was applied has an inverse that can be applied.\<close>

definition inversion_undoes :: "'db sqlite \<Rightarrow> bool" where
  "inversion_undoes sq \<longleftrightarrow> (\<forall>c inv db db'. sq_invert sq c = Inr inv \<and> sq_apply sq abort_all inv db = Inr db'
     \<longrightarrow> sq_apply sq abort_all c db' = Inr db)"

definition inversion_complete :: "'db sqlite \<Rightarrow> bool" where
  "inversion_complete sq \<longleftrightarrow> (\<forall>c db db'. sq_apply sq abort_all c db = Inr db'
     \<longrightarrow> (\<exists>inv. sq_invert sq c = Inr inv \<and> sq_apply sq abort_all inv db' = Inr db))"

lemma chain_loop_accounts:
  "chain_loop sq cs db = (applied, failed, db') \<Longrightarrow> map pc_sequence applied @ map fst failed = map pc_sequence cs"
proof (induction cs arbitrary: db applied failed db')
  case (Cons c cs)
  show ?case
  proof (cases "invert_changeset sq (pc_data c)")
    case (Inl e)
    with Cons.prems show ?thesis by (auto simp: chain_broken_def comp_def)
  next
    case inv: (Inr inverted)
    show ?thesis
    proof (cases "sq_apply sq abort_all inverted db")
      case (Inl e)
      with Cons.prems inv show ?thesis by (auto simp: chain_broken_def comp_def)
    next
      case (Inr db1)
      with Cons inv show ?thesis by (cases "chain_loop sq cs db1") auto
    qed
  qed
qed simp

lemma restore_forward_append: "restore_forward sq (xs @ ys) db = restore_forward sq ys (restore_forward sq xs db)"
  by (induction xs arbitrary: db) simp_all

lemma chain_loop_restores:
  assumes "inversion_undoes sq"
  shows "restore_forward sq (rev (fst (chain_loop sq cs db))) (snd (snd (chain_loop sq cs db))) = db"
proof (induction cs arbitrary: db)
  case (Cons c cs)
  show ?case
  proof (cases "invert_changeset sq (pc_data c)")
    case (Inl e)
    then show ?thesis by simp
  next
    case inv: (Inr inverted)
    show ?thesis
    proof (cases "sq_apply sq abort_all inverted db")
      case (Inl e)
      with inv show ?thesis by simp
    next
      case (Inr db1)
      have "sq_invert sq (pc_data c) = Inr inverted" using inv by (simp add: invert_changeset_def map_err_eq_Inr)
      with assms Inr have "sq_apply sq abort_all (pc_data c) db1 = Inr db"
        unfolding inversion_undoes_def by blast
      with inv Inr Cons.IH [of db1] show ?thesis by (simp add: split_beta Let_def restore_forward_append)
    qed
  qed
qed simp

text \<open>The states that a sequencer goes through when it applies the changesets one after the other.\<close>

fun forward_chain :: "'db sqlite \<Rightarrow> pending_changeset list \<Rightarrow> 'db \<Rightarrow> 'db option" where
  "forward_chain sq [] db = Some db"
| "forward_chain sq (c # cs) db =
     (case sq_apply sq abort_all (pc_data c) db of Inl _ \<Rightarrow> None | Inr db' \<Rightarrow> forward_chain sq cs db')"

lemma forward_chain_snoc:
  "forward_chain sq (cs @ [c]) db = Some db' \<longleftrightarrow>
     (\<exists>db1. forward_chain sq cs db = Some db1 \<and> sq_apply sq abort_all (pc_data c) db1 = Inr db')"
  by (induction cs arbitrary: db) (auto split: sum.splits)

lemma chain_loop_honest:
  assumes "inversion_complete sq"
  shows "forward_chain sq (rev cs) db0 = Some db \<Longrightarrow> chain_loop sq cs db = (cs, [], db0)"
proof (induction cs arbitrary: db)
  case (Cons c cs)
  then obtain db1 where 1: "forward_chain sq (rev cs) db0 = Some db1" "sq_apply sq abort_all (pc_data c) db1 = Inr db"
    by (auto simp: forward_chain_snoc)
  with assms obtain inv where "sq_invert sq (pc_data c) = Inr inv" "sq_apply sq abort_all inv db = Inr db1"
    unfolding inversion_complete_def by blast
  with Cons.IH [OF 1(1)] show ?case by (simp add: invert_changeset_def)
qed simp

lemma newest_first_rev:
  assumes "sorted_wrt (\<lambda>a b. pc_sequence a < pc_sequence b) cs"
  shows "newest_first cs = rev cs"
proof -
  have "sorted_wrt (\<lambda>a b. uint (pc_sequence a) \<le> uint (pc_sequence b)) cs"
    using assms by (auto simp: word_less_def elim!: sorted_wrt_mono_rel [rotated])
  then have "sorted (map (\<lambda>c. - uint (pc_sequence c)) (rev cs))"
    by (simp add: sorted_wrt_rev sorted_wrt_map rev_map [symmetric])
  moreover have "inj_on pc_sequence (set cs)"
    using distinct_map_sorted_wrt [OF assms] by (simp add: distinct_map)
  then have "inj_on (\<lambda>c. - uint (pc_sequence c)) (set cs)" by (auto simp: inj_on_def word_uint_eq_iff)
  ultimately show ?thesis unfolding newest_first_def by (intro sort_key_inj_key_eq) simp_all
qed

lemma verify_chain_rows:
  assumes "pending_ok st" and "st \<noteq> []"
  shows "verify_changeset_chain sq (map pending_of_row st) db =
    (let (applied, failed, db') = chain_loop sq (rev (map pending_of_row st)) db
     in (restore_forward sq (rev applied) db', \<lparr>ar_verified = map pc_sequence applied, ar_failed = failed\<rparr>))"
  using assms by (simp add: verify_changeset_chain_def newest_first_rev [OF pending_sorted])

lemma str_contains_middle: "str_contains (a @ p @ b) p"
  unfolding str_contains_iff by blast

lemma split_once_here: "split_once p (p @ b) = Some ([], b)"
  by (subst split_once.simps) simp

lemma split_once_skip: "strip_prefix p (c # s) = None \<Longrightarrow> split_once p (c # s) = map_option (\<lambda>(a, b). (c # a, b)) (split_once p s)"
  by (subst split_once.simps) simp

lemma no_pattern_after:
  assumes "CHR 34 \<notin> set t"
  shows "split_once (CHR 34 # c # d # p) (t @ [CHR 34, e]) = None"
proof (rule ccontr)
  assume "split_once (CHR 34 # c # d # p) (t @ [CHR 34, e]) \<noteq> None"
  then obtain a b where "t @ [CHR 34, e] = a @ (CHR 34 # c # d # p) @ b" by (auto dest: split_once_Some)
  then show False using assms by (auto simp: append_eq_append_conv2 append_eq_Cons_conv Cons_eq_append_conv)
qed

lemma quoted_field:
  assumes "CHR 34 \<notin> set t"
  shows "split_str (CHR 34 # c # d # p) (t @ [CHR 34, e]) = [t @ [CHR 34, e]]"
  by (subst split_str.simps) (simp add: no_pattern_after [OF assms])

section \<open>Properties\<close>

text \<open>
  C24: Chain verification accounts for every pending changeset exactly once, newest first: the verified ones, then the
  first failure and everything older. Where an applied inverse can be undone by its changeset, the database is afterwards
  what it was before.\<close>

theorem chain_verification_exact:
  assumes "inversion_undoes sq" and "verify_changeset_chain sq pending db = (db', result)"
  shows "db' = db \<and> ar_verified result @ map fst (ar_failed result) = map pc_sequence (newest_first pending)"
proof (cases "pending = []")
  case True
  with assms(2) show ?thesis by (auto simp: verify_changeset_chain_def newest_first_def)
next
  case False
  obtain applied failed db1 where loop: "chain_loop sq (newest_first pending) db = (applied, failed, db1)"
    by (rule prod_cases3)
  with False assms(2) have "db' = restore_forward sq (rev applied) db1"
    and "result = \<lparr>ar_verified = map pc_sequence applied, ar_failed = failed\<rparr>"
    by (simp_all add: verify_changeset_chain_def)
  with chain_loop_accounts [OF loop] chain_loop_restores [OF assms(1), of "newest_first pending" db, unfolded loop]
  show ?thesis by simp
qed

text \<open>
  An honest chain is verified in full: when the pending changesets, in the order of their
  sequence numbers, lead from some state to the state of the snapshot, verification at the snapshot verifies all of
  them and reports no failure.\<close>

theorem honest_chain_verified:
  assumes "inversion_complete sq" and "sorted_wrt (\<lambda>a b. pc_sequence a < pc_sequence b) pending"
    and "forward_chain sq pending db0 = Some db"
  shows "ar_verified (snd (verify_changeset_chain sq pending db)) = rev (map pc_sequence pending)
     \<and> ar_failed (snd (verify_changeset_chain sq pending db)) = []"
proof -
  have "chain_loop sq (rev pending) db = (rev pending, [], db0)"
    by (rule chain_loop_honest [OF assms(1)]) (simp add: assms(3))
  then show ?thesis by (simp add: verify_changeset_chain_def newest_first_rev [OF assms(2)] rev_map)
qed

text \<open>
  The stored reason of a missing table is read back when the name has no quotation mark;
  a column mismatch is read back as a missing table of unknown name.\<close>

theorem pending_reason_roundtrip:
  "(CHR 34 \<notin> set table \<longrightarrow> parse_reason (reason_json (MissingTable table)) = MissingTable table)
   \<and> parse_reason (reason_json (ColumnMismatch ''unknown'' 0 0)) = MissingTable ''unknown''"
proof
  let ?p = "[CHR 34] @ ''table'' @ [CHR 34, CHR 58, CHR 34]"
  let ?pre = "[CHR 123, CHR 34] @ ''type'' @ [CHR 34, CHR 58, CHR 34] @ ''missing_table'' @ [CHR 34, CHR 44]"
  show "CHR 34 \<notin> set table \<longrightarrow> parse_reason (reason_json (MissingTable table)) = MissingTable table"
  proof
    assume t: "CHR 34 \<notin> set table"
    have json: "reason_json (MissingTable table) = ?pre @ ?p @ table @ [CHR 34, CHR 125]" by simp
    have "str_contains (reason_json (MissingTable table)) ''missing_table''"
      using str_contains_middle [of "[CHR 123, CHR 34] @ ''type'' @ [CHR 34, CHR 58, CHR 34]" "''missing_table''"] by simp
    moreover have "split_once ?p (reason_json (MissingTable table)) = Some (?pre, table @ [CHR 34, CHR 125])"
      unfolding json using split_once_here [of ?p "table @ [CHR 34, CHR 125]"] by (simp add: split_once_skip)
    ultimately show "parse_reason (reason_json (MissingTable table)) = MissingTable table"
      using t by (simp del: reason_json.simps add: parse_reason_def split_str.simps [of _ "reason_json (MissingTable table)"]
          quoted_field split_on_quote)
  qed
  show "parse_reason (reason_json (ColumnMismatch ''unknown'' 0 0)) = MissingTable ''unknown''"
    by (simp add: parse_reason_def str_contains.simps starts_with_def show_int_def show_nat.simps digit_char_def)
qed

section \<open>Witnesses\<close>

lemma demo_inversion: "inversion_undoes demo_sqlite" "inversion_complete demo_sqlite"
proof -
  show "inversion_undoes demo_sqlite"
    by (auto simp: inversion_undoes_def demo_sqlite_def split: if_splits)
  show "inversion_complete demo_sqlite"
    by (auto simp: inversion_complete_def demo_sqlite_def split: if_splits)
qed

definition demo_pending :: "pending_changeset list" where
  "demo_pending = [\<lparr>pc_sequence = 1, pc_data = [3, 0], pc_reason = MissingTable ''u''\<rparr>,
                   \<lparr>pc_sequence = 2, pc_data = [4, 0], pc_reason = MissingTable ''u''\<rparr>]"

theorem pending_reason_roundtrip_witness:
  "parse_reason (reason_json (MissingTable ''users'')) = MissingTable ''users''"
  using pending_reason_roundtrip [of "''users''"] by simp

theorem chain_verification_exact_witness:
  "\<exists>result. verify_changeset_chain demo_sqlite demo_pending 9 = (9, result)
     \<and> ar_verified result @ map fst (ar_failed result) = [2, 1]"
proof -
  obtain db' result where v: "verify_changeset_chain demo_sqlite demo_pending 9 = (db', result)" by fastforce
  have "newest_first demo_pending = rev demo_pending"
    by (rule newest_first_rev) (simp add: demo_pending_def)
  with chain_verification_exact [OF demo_inversion(1) v] v show ?thesis by (simp add: demo_pending_def)
qed

theorem honest_chain_verified_witness:
  "ar_verified (snd (verify_changeset_chain demo_sqlite demo_pending 9)) = [2, 1]"
proof -
  have "forward_chain demo_sqlite demo_pending 2 = Some 9" by (simp add: demo_pending_def demo_sqlite_def)
  moreover have "sorted_wrt (\<lambda>a b. pc_sequence a < pc_sequence b) demo_pending" by (simp add: demo_pending_def)
  ultimately show ?thesis using honest_chain_verified [OF demo_inversion(2)] by (auto simp: demo_pending_def)
qed

end
