(* ===== verification/Batch_Index.thy ===== *)
theory Batch_Index
  imports Batch_Info
begin

text \<open>
  The validator's index of stored batches, \<open>crates/synddb-validator/src/sync/batch_index.rs\<close>:
  lookups by binary search, gap detection, and the iterator that walks through the messages of the
  indexed batches. On an index of disjoint batches in ascending order the binary search is the
  linear search, the reported gaps are exactly the missing sequence numbers, and the iterator visits
  every covered number once.

  The index is the list \<open>batches\<close>; the result of listing the storage is an argument of \<open>build\<close> and
  \<open>refresh\<close>. Additions on \<open>u64\<close> wrap, as in a release build.
\<close>

type_synonym batch_index = "batch_info list"

section \<open>The index\<close>

definition build_index :: "'e + batch_info list \<Rightarrow> 'e + batch_index" where
  "build_index listing = listing"

definition refresh_index :: "'e + batch_info list \<Rightarrow> batch_index \<Rightarrow> batch_index \<times> ('e + nat)" where
  "refresh_index listing ix =
     (case listing of
        Inl e \<Rightarrow> (ix, Inl e)
      | Inr bs \<Rightarrow> (bs, Inr (length bs - length ix)))"

definition find_batch_containing :: "batch_index \<Rightarrow> u64 \<Rightarrow> batch_info option" where
  "find_batch_containing ix sequence =
     (let idx = partition_point (\<lambda>b. bi_start_sequence b \<le> sequence) ix
      in if idx = 0 then None
         else let batch = ix ! (idx - 1)
              in if batch_contains batch sequence then Some batch else None)"

definition get_batch_at_index :: "batch_index \<Rightarrow> nat \<Rightarrow> batch_info option" where
  "get_batch_at_index ix i = (if i < length ix then Some (ix ! i) else None)"

definition find_first_batch_starting_at_or_after :: "batch_index \<Rightarrow> u64 \<Rightarrow> batch_info option" where
  "find_first_batch_starting_at_or_after ix sequence =
     get_batch_at_index ix (partition_point (\<lambda>b. bi_start_sequence b < sequence) ix)"

definition find_first_batch_after :: "batch_index \<Rightarrow> u64 \<Rightarrow> batch_info option" where
  "find_first_batch_after ix sequence =
     get_batch_at_index ix (partition_point (\<lambda>b. bi_start_sequence b \<le> sequence) ix)"

definition compare_u64 :: "u64 \<Rightarrow> u64 \<Rightarrow> ordering" where
  "compare_u64 a b = (if a < b then Less else if a = b then Equal else Greater)"

definition find_batch_index :: "batch_index \<Rightarrow> u64 \<Rightarrow> nat option" where
  "find_batch_index ix start_sequence =
     (case binary_search_by (\<lambda>b. compare_u64 (bi_start_sequence b) start_sequence) ix of
        Inr i \<Rightarrow> Some i | Inl _ \<Rightarrow> None)"

text \<open>The loop of \<open>detect_gaps\<close>; \<open>expected\<close> is its local variable.\<close>

fun gaps_loop :: "u64 \<Rightarrow> u64 \<Rightarrow> batch_index \<Rightarrow> (u64 \<times> u64) list" where
  "gaps_loop from_sequence expected [] = []"
| "gaps_loop from_sequence expected (batch # rest) =
     (if bi_end_sequence batch < from_sequence then gaps_loop from_sequence expected rest
      else (if expected < bi_start_sequence batch then [(expected, bi_start_sequence batch)] else [])
           @ gaps_loop from_sequence (bi_end_sequence batch + 1) rest)"

definition detect_gaps :: "batch_index \<Rightarrow> u64 \<Rightarrow> (u64 \<times> u64) list" where
  "detect_gaps ix from_sequence = gaps_loop from_sequence from_sequence ix"

definition index_latest_sequence :: "batch_index \<Rightarrow> u64 option" where
  "index_latest_sequence ix = (if ix = [] then None else Some (bi_end_sequence (last ix)))"

definition index_earliest_sequence :: "batch_index \<Rightarrow> u64 option" where
  "index_earliest_sequence ix = (case ix of [] \<Rightarrow> None | b # _ \<Rightarrow> Some (bi_start_sequence b))"

definition index_contains :: "batch_index \<Rightarrow> u64 \<Rightarrow> bool" where
  "index_contains ix sequence \<longleftrightarrow> find_batch_containing ix sequence \<noteq> None"

definition total_messages :: "batch_index \<Rightarrow> u64" where
  "total_messages ix = sum_list (map batch_len ix)"

section \<open>The iterator\<close>

record batch_iterator =
  it_batch_idx :: nat
  it_message_offset :: u64

definition new_iterator :: batch_iterator where
  "new_iterator = \<lparr>it_batch_idx = 0, it_message_offset = 0\<rparr>"

fun starting_loop :: "nat \<Rightarrow> batch_index \<Rightarrow> u64 \<Rightarrow> batch_iterator" where
  "starting_loop idx [] sequence = \<lparr>it_batch_idx = idx, it_message_offset = 0\<rparr>"
| "starting_loop idx (batch # rest) sequence =
     (if batch_contains batch sequence
      then \<lparr>it_batch_idx = idx, it_message_offset = sequence - bi_start_sequence batch\<rparr>
      else if sequence < bi_start_sequence batch then \<lparr>it_batch_idx = idx, it_message_offset = 0\<rparr>
      else starting_loop (idx + 1) rest sequence)"

definition starting_at :: "batch_index \<Rightarrow> u64 \<Rightarrow> batch_iterator" where
  "starting_at ix sequence = starting_loop 0 ix sequence"

definition current_batch :: "batch_index \<Rightarrow> batch_iterator \<Rightarrow> batch_info option" where
  "current_batch ix it = get_batch_at_index ix (it_batch_idx it)"

definition iterator_sequence :: "batch_index \<Rightarrow> batch_iterator \<Rightarrow> u64 option" where
  "iterator_sequence ix it = map_option (\<lambda>b. bi_start_sequence b + it_message_offset it) (current_batch ix it)"

definition is_exhausted :: "batch_index \<Rightarrow> batch_iterator \<Rightarrow> bool" where
  "is_exhausted ix it \<longleftrightarrow> length ix \<le> it_batch_idx it"

definition advance :: "batch_index \<Rightarrow> batch_iterator \<Rightarrow> batch_iterator \<times> bool" where
  "advance ix it =
     (case current_batch ix it of
        None \<Rightarrow> (it, False)
      | Some batch \<Rightarrow>
         (let it1 = it\<lparr>it_message_offset := it_message_offset it + 1\<rparr>;
              it2 = (if batch_len batch \<le> it_message_offset it1
                     then it1\<lparr>it_batch_idx := it_batch_idx it1 + 1, it_message_offset := 0\<rparr> else it1)
          in (it2, \<not> is_exhausted ix it2)))"

definition advance_to_next_batch :: "batch_iterator \<Rightarrow> batch_iterator" where
  "advance_to_next_batch it = \<lparr>it_batch_idx = it_batch_idx it + 1, it_message_offset = 0\<rparr>"

definition reset_iterator :: "batch_iterator \<Rightarrow> batch_iterator" where
  "reset_iterator it = \<lparr>it_batch_idx = 0, it_message_offset = 0\<rparr>"

section \<open>Well-formed indexes\<close>

text \<open>
  What a storage that lists the batches of one sequencer yields: ranges are not empty, end below the
  largest number, and each batch starts after the end of the previous one.\<close>

definition index_ok :: "batch_index \<Rightarrow> bool" where
  "index_ok ix \<longleftrightarrow> sorted_wrt (\<lambda>a b. bi_end_sequence a < bi_start_sequence b) ix
     \<and> list_all (\<lambda>b. bi_start_sequence b \<le> bi_end_sequence b \<and> bi_end_sequence b < - 1) ix"

lemma index_ok_Nil [simp]: "index_ok []"
  by (simp add: index_ok_def)

lemma index_ok_Cons:
  "index_ok (b # ix) \<longleftrightarrow> bi_start_sequence b \<le> bi_end_sequence b \<and> bi_end_sequence b < - 1
     \<and> (\<forall>c \<in> set ix. bi_end_sequence b < bi_start_sequence c) \<and> index_ok ix"
  by (auto simp: index_ok_def)

lemma index_ok_starts: "index_ok ix \<Longrightarrow> sorted_wrt (\<lambda>a b. bi_start_sequence a < bi_start_sequence b) ix"
  by (induction ix) (auto simp: index_ok_Cons)

lemma partitioned_starts:
  assumes "index_ok ix"
  shows "partitioned (\<lambda>b. bi_start_sequence b \<le> s) ix" and "partitioned (\<lambda>b. bi_start_sequence b < s) ix"
  using index_ok_starts [OF assms] unfolding partitioned_def
  by (auto elim!: sorted_wrt_mono_rel [rotated])

lemma nth_takeWhile_last: "takeWhile P xs \<noteq> [] \<Longrightarrow> xs ! (length (takeWhile P xs) - Suc 0) = last (takeWhile P xs)"
  by (simp add: last_conv_nth takeWhile_nth)

lemma le_succ: "e < - 1 \<Longrightarrow> x \<le> e \<Longrightarrow> x \<le> (e + 1 :: u64)"
  by (simp add: word_le_nat_alt unat_Suc_less)

section \<open>Search\<close>

lemma find_in_takeWhile:
  assumes "index_ok ix"
  shows "find (\<lambda>b. batch_contains b s) ix =
    (let ts = takeWhile (\<lambda>b. bi_start_sequence b \<le> s) ix
     in if ts = [] then None else if batch_contains (last ts) s then Some (last ts) else None)"
  using assms
proof (induction ix)
  case (Cons b ix)
  let ?P = "\<lambda>b. bi_start_sequence b \<le> s"
  have none: "find (\<lambda>b. batch_contains b s) ix = None" if "\<not> ?P b \<or> takeWhile ?P ix = []"
  proof (cases "takeWhile ?P ix = []")
    case True
    then show ?thesis using Cons by (simp add: index_ok_Cons)
  next
    case False
    with that have "s < bi_start_sequence b" by simp
    then show ?thesis using Cons.prems
      by (auto simp: find_None_iff batch_contains_def index_ok_Cons)
  qed
  show ?case
  proof (cases "?P b \<and> takeWhile ?P ix \<noteq> []")
    case True
    then obtain c cs where c: "ix = c # cs" "?P c" by (cases ix) (auto split: if_splits)
    with Cons.prems have "\<not> batch_contains b s" by (auto simp: index_ok_Cons batch_contains_def)
    with True Cons show ?thesis by (simp add: index_ok_Cons Let_def)
  next
    case False
    with none show ?thesis by (auto simp: Let_def batch_contains_def)
  qed
qed simp

lemma find_batch_containing_find: "index_ok ix \<Longrightarrow> find_batch_containing ix s = find (\<lambda>b. batch_contains b s) ix"
  unfolding find_batch_containing_def
  by (subst find_in_takeWhile, assumption, subst partition_point_takeWhile, erule partitioned_starts(1))
     (auto simp: Let_def nth_takeWhile_last)

lemma index_contains_iff: "index_ok ix \<Longrightarrow> index_contains ix s \<longleftrightarrow> (\<exists>b \<in> set ix. batch_contains b s)"
  by (auto simp: index_contains_def find_batch_containing_find find_None_iff)

section \<open>Gaps\<close>

lemma gaps_loop_start: "(a, b) \<in> set (gaps_loop f x ix) \<Longrightarrow> index_ok ix \<Longrightarrow> f \<le> x
    \<Longrightarrow> \<forall>c \<in> set ix. f \<le> bi_end_sequence c \<longrightarrow> x \<le> bi_end_sequence c \<Longrightarrow> x \<le> a \<and> a < b"
proof (induction ix arbitrary: x)
  case (Cons c ix)
  let ?e = "bi_end_sequence c"
  show ?case
  proof (cases "?e < f")
    case True
    with Cons show ?thesis by (auto simp: index_ok_Cons)
  next
    case False
    with Cons.prems have x: "x \<le> ?e" and lt: "?e < - 1" by (auto simp: not_less index_ok_Cons)
    have later: "\<forall>d \<in> set ix. ?e + 1 \<le> bi_end_sequence d"
      using Cons.prems(2) lt by (fastforce simp: index_ok_Cons word_Suc_le_iff index_ok_def list_all_iff)
    have "?e + 1 \<le> a \<and> a < b" if "(a, b) \<in> set (gaps_loop f (?e + 1) ix)"
      by (rule Cons.IH [OF that]) (use Cons.prems False lt later in \<open>auto simp: index_ok_Cons not_less word_Suc_le_iff intro: order_trans le_succ\<close>)
    moreover have "x \<le> ?e + 1" using x lt by (rule le_succ [rotated])
    ultimately show ?thesis using Cons.prems(1) False by (auto split: if_splits)
  qed
qed simp

text \<open>The loop reports exactly the numbers from \<open>x\<close> on that no batch contains.\<close>

lemma gaps_loop_exact:
  "index_ok ix \<Longrightarrow> f \<le> x \<Longrightarrow> \<forall>c \<in> set ix. f \<le> bi_end_sequence c \<longrightarrow> x \<le> bi_end_sequence c
   \<Longrightarrow> x \<le> q \<Longrightarrow> \<exists>c \<in> set ix. q \<le> bi_end_sequence c
   \<Longrightarrow> (\<exists>(a, b) \<in> set (gaps_loop f x ix). a \<le> q \<and> q < b) \<longleftrightarrow> \<not> (\<exists>c \<in> set ix. batch_contains c q)"
proof (induction ix arbitrary: x)
  case (Cons c ix)
  let ?s = "bi_start_sequence c" and ?e = "bi_end_sequence c"
  show ?case
  proof (cases "?e < f")
    case True
    with Cons.prems have "\<not> batch_contains c q" "\<not> q \<le> ?e" by (auto simp: batch_contains_def)
    with True Cons show ?thesis by (auto simp: index_ok_Cons)
  next
    case False
    from Cons.prems have ok: "?s \<le> ?e" "?e < - 1" "index_ok ix" and after: "\<forall>d \<in> set ix. ?e < bi_start_sequence d"
      by (auto simp: index_ok_Cons)
    have later: "\<forall>d \<in> set ix. ?e < bi_end_sequence d"
      using after ok by (fastforce simp: index_ok_def list_all_iff)
    have f: "f \<le> ?e + 1" using False ok by (auto intro: le_succ)
    have beyond: "?e + 1 \<le> a" if "(a, b) \<in> set (gaps_loop f (?e + 1) ix)" for a b
      using gaps_loop_start [OF that ok(3) f] later ok by (simp add: word_Suc_le_iff)
    show ?thesis
    proof (cases "q \<le> ?e")
      case True
      then have no: "\<not> (\<exists>d \<in> set ix. batch_contains d q)" "\<not> (\<exists>(a, b) \<in> set (gaps_loop f (?e + 1) ix). a \<le> q \<and> q < b)"
        using after beyond ok by (fastforce simp: batch_contains_def word_Suc_le_iff)+
      with True False \<open>x \<le> q\<close> show ?thesis by (auto simp: batch_contains_def not_le)
    next
      case gt: False
      then have "(\<exists>(a, b) \<in> set (gaps_loop f (?e + 1) ix). a \<le> q \<and> q < b) \<longleftrightarrow> \<not> (\<exists>d \<in> set ix. batch_contains d q)"
        by (intro Cons.IH) (use Cons.prems ok f later in \<open>auto simp: word_Suc_le_iff\<close>)
      moreover have "\<not> batch_contains c q" "\<not> q < ?s" using gt ok by (auto simp: batch_contains_def)
      ultimately show ?thesis using False by auto
    qed
  qed
qed simp

section \<open>Iteration\<close>

text \<open>The numbers of a batch, and those an iterator has yet to visit.\<close>

definition batch_range :: "batch_info \<Rightarrow> nat list" where
  "batch_range b = [unat (bi_start_sequence b) ..< Suc (unat (bi_end_sequence b))]"

definition remaining :: "batch_index \<Rightarrow> batch_iterator \<Rightarrow> nat list" where
  "remaining ix it = drop (unat (it_message_offset it)) (concat (map batch_range (drop (it_batch_idx it) ix)))"

definition iterator_ok :: "batch_index \<Rightarrow> batch_iterator \<Rightarrow> bool" where
  "iterator_ok ix it \<longleftrightarrow> it_batch_idx it \<le> length ix
     \<and> (if it_batch_idx it < length ix
        then unat (it_message_offset it) < length (batch_range (ix ! it_batch_idx it))
        else it_message_offset it = 0)"

text \<open>The messages that a loop over \<open>advance\<close> processes in \<open>n\<close> rounds.\<close>

fun visit :: "nat \<Rightarrow> batch_index \<Rightarrow> batch_iterator \<Rightarrow> u64 list" where
  "visit 0 ix it = []"
| "visit (Suc n) ix it =
     (case iterator_sequence ix it of
        None \<Rightarrow> []
      | Some q \<Rightarrow> q # visit n ix (fst (advance ix it)))"

lemma index_ok_nth: "index_ok ix \<Longrightarrow> i < length ix
    \<Longrightarrow> bi_start_sequence (ix ! i) \<le> bi_end_sequence (ix ! i) \<and> bi_end_sequence (ix ! i) < - 1"
  by (simp add: index_ok_def list_all_length)

lemma index_ok_range: "index_ok ix \<Longrightarrow> i < length ix \<Longrightarrow> batch_range (ix ! i) \<noteq> []"
  using index_ok_nth [of ix i] by (simp add: batch_range_def word_le_nat_alt)

lemma length_batch_range:
  assumes "bi_start_sequence b \<le> bi_end_sequence b" and "bi_end_sequence b < - 1"
  shows "length (batch_range b) = unat (batch_len b)"
proof -
  let ?d = "bi_end_sequence b - bi_start_sequence b"
  have "unat ?d = unat (bi_end_sequence b) - unat (bi_start_sequence b)"
    using assms(1) by (simp add: unat_sub word_le_nat_alt)
  moreover have "?d < - 1" using calculation assms(2) by (simp add: word_less_nat_alt)
  ultimately show ?thesis using assms(1)
    by (simp add: batch_range_def batch_len_def batch_is_empty_def not_less unat_Suc_less word_le_nat_alt Suc_diff_le)
qed

lemma visit_step:
  assumes ok: "index_ok ix" and it: "iterator_ok ix it" and i: "it_batch_idx it < length ix"
  shows "\<exists>q. iterator_sequence ix it = Some q \<and> remaining ix it = unat q # remaining ix (fst (advance ix it))
     \<and> iterator_ok ix (fst (advance ix it))"
proof -
  let ?i = "it_batch_idx it" and ?o = "it_message_offset it"
  let ?b = "ix ! ?i"
  let ?s = "bi_start_sequence ?b" and ?e = "bi_end_sequence ?b"
  note b = index_ok_nth [OF ok i]
  have len: "length (batch_range ?b) = unat (batch_len ?b)" using b by (intro length_batch_range) auto
  have o: "unat ?o < unat (batch_len ?b)" using it i len by (simp add: iterator_ok_def)
  then have o1: "unat (?o + 1) = Suc (unat ?o)"
    using unat_less_u64 [of "batch_len ?b"] by (intro unat_Suc_less) (simp add: word_less_nat_alt)
  have range: "unat ?s + unat ?o < Suc (unat ?e)" using o len by (simp del: upt_Suc add: batch_range_def)
  then have q: "unat (?s + ?o) = unat ?s + unat ?o"
    using unat_less_u64 [of ?e] by (simp add: unat_word_ariths)
  have split: "drop ?i ix = ?b # drop (Suc ?i) ix" using i by (simp add: Cons_nth_drop_Suc)
  have hd: "drop (unat ?o) (batch_range ?b) = unat (?s + ?o) # drop (Suc (unat ?o)) (batch_range ?b)"
    using range unfolding batch_range_def q drop_upt by (simp del: upt_Suc add: upt_conv_Cons [of "unat ?s + unat ?o"])
  have cur: "current_batch ix it = Some ?b" using i by (simp add: current_batch_def get_batch_at_index_def)
  show ?thesis
  proof (intro exI conjI)
    show "iterator_sequence ix it = Some (?s + ?o)" by (simp add: iterator_sequence_def cur)
    show "remaining ix it = unat (?s + ?o) # remaining ix (fst (advance ix it))"
      using o len hd
      by (auto simp: remaining_def split advance_def cur Let_def o1 word_le_nat_alt)
    show "iterator_ok ix (fst (advance ix it))"
      using i o len index_ok_range [OF ok]
      by (auto simp: iterator_ok_def advance_def cur Let_def o1 word_le_nat_alt)
  qed
qed

lemma visit_remaining:
  assumes "index_ok ix"
  shows "iterator_ok ix it \<Longrightarrow> map unat (visit n ix it) = take n (remaining ix it)"
proof (induction n arbitrary: it)
  case (Suc n)
  show ?case
  proof (cases "it_batch_idx it < length ix")
    case True
    from visit_step [OF assms Suc.prems True] Suc.IH show ?thesis by auto
  next
    case False
    then show ?thesis by (simp add: iterator_sequence_def current_batch_def get_batch_at_index_def remaining_def)
  qed
qed simp

lemma filter_ge_none: "index_ok ix \<Longrightarrow> \<forall>b \<in> set ix. s < bi_start_sequence b
    \<Longrightarrow> filter (\<lambda>q. unat s \<le> q) (concat (map batch_range ix)) = concat (map batch_range ix)"
  by (auto simp: filter_id_conv batch_range_def word_less_nat_alt)

lemma drop_upt_filter: "a \<le> s \<Longrightarrow> filter (\<lambda>q. s \<le> q) [a ..< n] = drop (s - a) [a ..< n]"
proof (induction n)
  case (Suc n)
  then show ?case by (cases "a \<le> n") auto
qed simp

lemma starting_loop_remaining:
  "index_ok ix \<Longrightarrow> k = length pre
   \<Longrightarrow> remaining (pre @ ix) (starting_loop k ix s) = filter (\<lambda>q. unat s \<le> q) (concat (map batch_range ix))
     \<and> iterator_ok (pre @ ix) (starting_loop k ix s)"
proof (induction ix arbitrary: k pre)
  case Nil
  then show ?case by (simp add: remaining_def iterator_ok_def)
next
  case (Cons b ix)
  from Cons.prems have b: "bi_start_sequence b \<le> bi_end_sequence b" "bi_end_sequence b < - 1" "index_ok ix"
    and after: "\<forall>c \<in> set ix. bi_end_sequence b < bi_start_sequence c" by (auto simp: index_ok_Cons)
  consider (inside) "batch_contains b s" | (before) "s < bi_start_sequence b" | (past) "bi_end_sequence b < s"
    by (metis batch_contains_def not_le)
  then show ?case
  proof cases
    case inside
    then have s: "bi_start_sequence b \<le> s" "s \<le> bi_end_sequence b" by (auto simp: batch_contains_def)
    then have u: "unat (s - bi_start_sequence b) = unat s - unat (bi_start_sequence b)"
      by (simp add: unat_sub word_le_nat_alt)
    have "filter (\<lambda>q. unat s \<le> q) (concat (map batch_range ix)) = concat (map batch_range ix)"
      by (rule filter_ge_none [OF b(3)]) (use after s in \<open>auto intro: order_le_less_trans\<close>)
    moreover have "filter (\<lambda>q. unat s \<le> q) (batch_range b) = drop (unat s - unat (bi_start_sequence b)) (batch_range b)"
      unfolding batch_range_def using s by (intro drop_upt_filter) (simp add: word_le_nat_alt)
    moreover have "unat s - unat (bi_start_sequence b) < length (batch_range b)"
      using s by (auto simp: batch_range_def word_le_nat_alt)
    ultimately show ?thesis using inside Cons.prems(2)
      by (simp add: remaining_def iterator_ok_def u)
  next
    case before
    then have "\<not> batch_contains b s" by (auto simp: batch_contains_def)
    moreover have "filter (\<lambda>q. unat s \<le> q) (concat (map batch_range (b # ix))) = concat (map batch_range (b # ix))"
      by (rule filter_ge_none [OF Cons.prems(1)]) (use before after b in \<open>fastforce\<close>)
    moreover have "0 < length (batch_range b)" using b by (simp add: batch_range_def word_le_nat_alt)
    ultimately show ?thesis using before Cons.prems(2)
      by (simp add: remaining_def iterator_ok_def)
  next
    case past
    then have "\<not> batch_contains b s" "\<not> s < bi_start_sequence b" using b by (auto simp: batch_contains_def)
    moreover have "filter (\<lambda>q. unat s \<le> q) (batch_range b) = []"
      using past by (auto simp: batch_range_def filter_empty_conv word_less_nat_alt)
    ultimately show ?thesis using Cons.IH [OF b(3), of "k + 1" "pre @ [b]"] Cons.prems(2) by simp
  qed
qed

section \<open>Properties\<close>

text \<open>
  On an index of disjoint ascending batches the binary search finds the batch that a linear search
  finds: it returns the batch containing the sequence number whenever there is one.\<close>

theorem find_batch_containing_linear:
  assumes "index_ok ix"
  shows "find_batch_containing ix s = find (\<lambda>b. batch_contains b s) ix"
  using assms by (rule find_batch_containing_find)

text \<open>
  C34: The reported gaps are exactly the missing numbers: a number between the requested start and the
  end of the index lies in a reported gap if and only if no batch contains it.\<close>

theorem detect_gaps_exact:
  assumes "index_ok ix" and "index_latest_sequence ix = Some latest" and "s \<le> q" and "q \<le> latest"
  shows "(\<exists>(a, b) \<in> set (detect_gaps ix s). a \<le> q \<and> q < b) \<longleftrightarrow> \<not> index_contains ix q"
proof -
  have "\<exists>c \<in> set ix. q \<le> bi_end_sequence c"
    using assms(2,4) last_in_set by (fastforce simp: index_latest_sequence_def split: if_splits)
  from gaps_loop_exact [OF assms(1) order_refl _ assms(3) this]
  have "(\<exists>(a, b) \<in> set (detect_gaps ix s). a \<le> q \<and> q < b) \<longleftrightarrow> \<not> (\<exists>c \<in> set ix. batch_contains c q)"
    by (simp add: detect_gaps_def)
  then show ?thesis by (simp add: index_contains_iff [OF assms(1)])
qed

text \<open>
  An iterator started at a sequence number visits, in ascending order and once each, exactly the
  covered numbers from there on, and then stops.\<close>

theorem iterator_visits_all:
  assumes "index_ok ix" and "length (concat (map batch_range ix)) \<le> n"
  shows "map unat (visit n ix (starting_at ix s)) = filter (\<lambda>q. unat s \<le> q) (concat (map batch_range ix))"
proof -
  let ?it = "starting_at ix s"
  have it: "remaining ix ?it = filter (\<lambda>q. unat s \<le> q) (concat (map batch_range ix)) \<and> iterator_ok ix ?it"
    using starting_loop_remaining [OF assms(1), of 0 "[]" s] by (simp add: starting_at_def)
  have "length (remaining ix ?it) \<le> n"
    unfolding conjunct1 [OF it] using assms(2) length_filter_le order_trans by blast
  with visit_remaining [OF assms(1) conjunct2 [OF it], of n] it show ?thesis by simp
qed

section \<open>Witnesses\<close>

definition demo_index :: batch_index where
  "demo_index = [new_batch_info 1 3 ''a'', new_batch_info 4 4 ''b'', new_batch_info 8 9 ''c'']"

lemma demo_index_ok: "index_ok demo_index"
  by (simp add: demo_index_def index_ok_def new_batch_info_def)

theorem find_batch_containing_linear_witness:
  "find_batch_containing demo_index 3 = Some (new_batch_info 1 3 ''a'') \<and> find_batch_containing demo_index 5 = None"
  unfolding find_batch_containing_linear [OF demo_index_ok]
  by (simp add: demo_index_def batch_contains_def new_batch_info_def)

theorem detect_gaps_exact_witness:
  "detect_gaps demo_index 0 = [(0, 1), (5, 8)] \<and> \<not> index_contains demo_index 6"
proof -
  have g: "detect_gaps demo_index 0 = [(0, 1), (5, 8)]"
    by (simp add: detect_gaps_def demo_index_def new_batch_info_def)
  have l: "index_latest_sequence demo_index = Some 9"
    by (simp add: index_latest_sequence_def demo_index_def new_batch_info_def)
  have "(\<exists>(a, b) \<in> set (detect_gaps demo_index 0). a \<le> 6 \<and> 6 < b) \<longleftrightarrow> \<not> index_contains demo_index 6"
    by (rule detect_gaps_exact [OF demo_index_ok l]) simp_all
  then show ?thesis unfolding g by simp
qed

theorem iterator_visits_all_witness:
  "map unat (visit 6 demo_index (starting_at demo_index 3)) = [3, 4, 8, 9]"
proof -
  have r: "concat (map batch_range demo_index) = [1, 2, 3, 4, 8, 9]"
    by (simp add: demo_index_def batch_range_def new_batch_info_def upt_rec)
  have "map unat (visit 6 demo_index (starting_at demo_index 3))
      = filter (\<lambda>q. unat (3 :: u64) \<le> q) (concat (map batch_range demo_index))"
    by (rule iterator_visits_all [OF demo_index_ok]) (simp add: r)
  then show ?thesis by (simp add: r)
qed

end
