(* ===== verification/Fetcher.thy ===== *)
theory Fetcher
  imports Signed_Message Batch_Index "HOL-Library.AList" "HOL-Library.Multiset"
begin

text \<open>
  Retrieval of messages and batches by the validator: the trait \<open>StorageFetcher\<close> of
  \<open>crates/synddb-validator/src/sync/fetcher.rs\<close> as a record of its methods, and the in-memory fetcher
  of \<open>sync/providers/mock.rs\<close>. An error of a method is its text.

  A \<open>HashMap\<close> is an association list with distinct keys in the iteration order of the map; new keys
  go to the end, and no theorem depends on the order.
\<close>

record fetcher =
  f_name :: string
  f_supports_batches :: bool
  f_get :: "u64 \<Rightarrow> string + signed_message option"
  f_get_latest_sequence :: "string + u64 option"
  f_list_batches :: "string + batch_info list"
  f_get_batch :: "u64 \<Rightarrow> string + signed_batch option"
  f_get_batch_by_path :: "string \<Rightarrow> string + signed_batch option"

section \<open>The mock fetcher\<close>

record mock_fetcher =
  mf_messages :: "(u64 \<times> signed_message) list"
  mf_batches :: "(u64 \<times> signed_batch) list"
  mf_batch_mode :: bool
  mf_fail_latest :: "string option"
  mf_fail_get :: "(u64 \<times> string) list"

definition new_mock :: mock_fetcher where
  "new_mock = \<lparr>mf_messages = [], mf_batches = [], mf_batch_mode = False, mf_fail_latest = None, mf_fail_get = []\<rparr>"

definition new_mock_batch_mode :: mock_fetcher where
  "new_mock_batch_mode = new_mock\<lparr>mf_batch_mode := True\<rparr>"

definition mock_set_batch_mode :: "bool \<Rightarrow> mock_fetcher \<Rightarrow> mock_fetcher" where
  "mock_set_batch_mode enabled f = f\<lparr>mf_batch_mode := enabled\<rparr>"

definition mock_add_message :: "signed_message \<Rightarrow> mock_fetcher \<Rightarrow> mock_fetcher" where
  "mock_add_message m f = f\<lparr>mf_messages := AList.update (sm_sequence m) m (mf_messages f)\<rparr>"

definition mock_add_messages :: "signed_message list \<Rightarrow> mock_fetcher \<Rightarrow> mock_fetcher" where
  "mock_add_messages ms f = fold mock_add_message ms f"

definition mock_add_batch :: "signed_batch \<Rightarrow> mock_fetcher \<Rightarrow> mock_fetcher" where
  "mock_add_batch b f = f\<lparr>mf_batches := AList.update (sb_start_sequence b) b (mf_batches f)\<rparr>"

definition mock_add_batches :: "signed_batch list \<Rightarrow> mock_fetcher \<Rightarrow> mock_fetcher" where
  "mock_add_batches bs f = fold mock_add_batch bs f"

definition mock_clear :: "mock_fetcher \<Rightarrow> mock_fetcher" where
  "mock_clear f = f\<lparr>mf_messages := [], mf_batches := []\<rparr>"

definition mock_is_empty :: "mock_fetcher \<Rightarrow> bool" where
  "mock_is_empty f \<longleftrightarrow> mf_messages f = [] \<and> mf_batches f = []"

definition mock_set_fail_latest :: "string \<Rightarrow> mock_fetcher \<Rightarrow> mock_fetcher" where
  "mock_set_fail_latest e f = f\<lparr>mf_fail_latest := Some e\<rparr>"

definition mock_set_fail_get :: "u64 \<Rightarrow> string \<Rightarrow> mock_fetcher \<Rightarrow> mock_fetcher" where
  "mock_set_fail_get sequence e f = f\<lparr>mf_fail_get := AList.update sequence e (mf_fail_get f)\<rparr>"

definition mock_clear_failures :: "mock_fetcher \<Rightarrow> mock_fetcher" where
  "mock_clear_failures f = f\<lparr>mf_fail_latest := None, mf_fail_get := []\<rparr>"

text \<open>The first batch, in iteration order, whose range contains the number is the only one searched.\<close>

fun find_message_in_batches :: "signed_batch list \<Rightarrow> u64 \<Rightarrow> signed_message option" where
  "find_message_in_batches [] sequence = None"
| "find_message_in_batches (b # bs) sequence =
     (if sb_start_sequence b \<le> sequence \<and> sequence \<le> sb_end_sequence b
      then find (\<lambda>m. sm_sequence m = sequence) (sb_messages b)
      else find_message_in_batches bs sequence)"

definition mock_get :: "mock_fetcher \<Rightarrow> u64 \<Rightarrow> string + signed_message option" where
  "mock_get f sequence =
     (case map_of (mf_fail_get f) sequence of
        Some e \<Rightarrow> Inl e
      | None \<Rightarrow>
         (case map_of (mf_messages f) sequence of
            Some m \<Rightarrow> Inr (Some m)
          | None \<Rightarrow> Inr (find_message_in_batches (map snd (mf_batches f)) sequence)))"

definition max_option :: "u64 list \<Rightarrow> u64 option" where
  "max_option xs = (if xs = [] then None else Some (foldl max (hd xs) xs))"

definition mock_get_latest_sequence :: "mock_fetcher \<Rightarrow> string + u64 option" where
  "mock_get_latest_sequence f =
     (case mf_fail_latest f of
        Some e \<Rightarrow> Inl e
      | None \<Rightarrow>
         Inr (case (max_option (map fst (mf_messages f)), max_option (map (sb_end_sequence \<circ> snd) (mf_batches f))) of
                (Some m, Some b) \<Rightarrow> Some (max m b)
              | (Some m, None) \<Rightarrow> Some m
              | (None, Some b) \<Rightarrow> Some b
              | (None, None) \<Rightarrow> None))"

definition mock_info :: "signed_batch \<Rightarrow> batch_info" where
  "mock_info b = new_batch_info (sb_start_sequence b) (sb_end_sequence b) (show_u64 (sb_start_sequence b))"

definition mock_list_batches :: "mock_fetcher \<Rightarrow> string + batch_info list" where
  "mock_list_batches f = Inr (sort_key bi_start_sequence (map (mock_info \<circ> snd) (mf_batches f)))"

definition mock_get_batch :: "mock_fetcher \<Rightarrow> u64 \<Rightarrow> string + signed_batch option" where
  "mock_get_batch f start_sequence = Inr (map_of (mf_batches f) start_sequence)"

definition mock_get_batch_by_path :: "mock_fetcher \<Rightarrow> string \<Rightarrow> string + signed_batch option" where
  "mock_get_batch_by_path f path =
     bind_r (map_err (\<lambda>e. ''Invalid batch path: '' @ e) (parse_int (2 ^ 64) path)) (\<lambda>n. mock_get_batch f (of_nat n))"

definition mock_as_fetcher :: "mock_fetcher \<Rightarrow> fetcher" where
  "mock_as_fetcher f =
     \<lparr>f_name = ''mock'', f_supports_batches = mf_batch_mode f, f_get = mock_get f,
      f_get_latest_sequence = mock_get_latest_sequence f, f_list_batches = mock_list_batches f,
      f_get_batch = mock_get_batch f, f_get_batch_by_path = mock_get_batch_by_path f\<rparr>"

section \<open>The contract of batch retrieval\<close>

text \<open>
  What the batch mode of the validator relies on: batches are listed in ascending order, and the
  path of a listed batch fetches a batch with the listed range.\<close>

locale batch_storage =
  fixes listing :: "'s \<Rightarrow> string + batch_info list"
    and by_path :: "'s \<Rightarrow> string \<Rightarrow> string + signed_batch option"
    and valid :: "'s \<Rightarrow> bool"
  assumes listing_sorted: "valid s \<Longrightarrow> listing s = Inr bs \<Longrightarrow> sorted_wrt (\<lambda>a b. bi_start_sequence a < bi_start_sequence b) bs"
    and listed_fetch: "valid s \<Longrightarrow> listing s = Inr bs \<Longrightarrow> b \<in> set bs
      \<Longrightarrow> \<exists>sb. by_path s (bi_path b) = Inr (Some sb) \<and> sb_start_sequence sb = bi_start_sequence b
            \<and> sb_end_sequence sb = bi_end_sequence b"
begin

lemma listing_partitioned: "valid s \<Longrightarrow> listing s = Inr bs \<Longrightarrow> partitioned (\<lambda>b. bi_start_sequence b \<le> q) bs"
  using listing_sorted [of s bs] unfolding partitioned_def by (auto elim!: sorted_wrt_mono_rel [rotated])

text \<open>Whatever the index finds for a number can be fetched and has a range that contains it.\<close>

lemma found_batch_fetched:
  assumes "valid s" and "listing s = Inr bs" and "find_batch_containing bs q = Some b"
  shows "\<exists>sb. by_path s (bi_path b) = Inr (Some sb) \<and> sb_start_sequence sb \<le> q \<and> q \<le> sb_end_sequence sb"
proof -
  let ?ts = "takeWhile (\<lambda>b. bi_start_sequence b \<le> q) bs"
  from assms(3) have "b = last ?ts \<and> ?ts \<noteq> [] \<and> batch_contains b q"
    by (auto simp: find_batch_containing_def partition_point_takeWhile [OF listing_partitioned [OF assms(1,2)]]
        Let_def nth_takeWhile_last split: if_splits)
  then have "b \<in> set bs" and "batch_contains b q" using last_in_set set_takeWhileD by fastforce+
  with listed_fetch [OF assms(1,2)] show ?thesis by (fastforce simp: batch_contains_def)
qed

text \<open>No batch of the listing that contains the number starts after the one the index looks at.\<close>

lemma found_batch_latest_start:
  assumes "valid s" and "listing s = Inr bs" and "find_batch_containing bs q = Some b"
    and "c \<in> set bs" and "batch_contains c q"
  shows "bi_start_sequence c \<le> bi_start_sequence b"
proof -
  let ?P = "\<lambda>b. bi_start_sequence b \<le> q"
  let ?ts = "takeWhile ?P bs"
  from assms(3) have b: "b = last ?ts" and ne: "?ts \<noteq> []"
    by (auto simp: find_batch_containing_def partition_point_takeWhile [OF listing_partitioned [OF assms(1,2)]]
        Let_def nth_takeWhile_last split: if_splits)
  have sorted: "sorted_wrt (\<lambda>a b. bi_start_sequence a < bi_start_sequence b) (?ts @ dropWhile ?P bs)"
    using listing_sorted [OF assms(1,2)] by simp
  have "c \<notin> set (dropWhile ?P bs)"
  proof (cases "dropWhile ?P bs")
    case Nil
    show ?thesis unfolding Nil by simp
  next
    case (Cons d ds)
    then have "\<not> ?P d" by (metis hd_dropWhile list.distinct(1) list.sel(1))
    moreover have "\<forall>e \<in> set ds. bi_start_sequence d < bi_start_sequence e"
      using sorted unfolding Cons by (simp add: sorted_wrt_append)
    ultimately show ?thesis using assms(5) Cons by (auto simp: batch_contains_def)
  qed
  with assms(4) have c: "c \<in> set ?ts" by (metis Un_iff set_append takeWhile_dropWhile_id)
  have split: "?ts = butlast ?ts @ [b]" using ne b by simp
  have "sorted_wrt (\<lambda>a b. bi_start_sequence a < bi_start_sequence b) ?ts"
    using sorted by (simp only: sorted_wrt_append)
  with split have "sorted_wrt (\<lambda>a b. bi_start_sequence a < bi_start_sequence b) (butlast ?ts @ [b])"
    by (rule subst)
  moreover have "c \<in> set (butlast ?ts @ [b])" using c split by metis
  ultimately show ?thesis by (auto simp: sorted_wrt_append intro: less_imp_le)
qed

end

definition mock_ok :: "mock_fetcher \<Rightarrow> bool" where
  "mock_ok f \<longleftrightarrow> distinct (map fst (mf_batches f)) \<and> (\<forall>(k, b) \<in> set (mf_batches f). k = sb_start_sequence b)"

lemma set_alist_update: "set (AList.update k v al) \<subseteq> insert (k, v) (set al)"
  by (induction al) auto

lemma mock_ok_new [simp]: "mock_ok new_mock" "mock_ok new_mock_batch_mode"
  by (simp_all add: mock_ok_def new_mock_def new_mock_batch_mode_def)

lemma mock_ok_add_batch [simp]: "mock_ok f \<Longrightarrow> mock_ok (mock_add_batch b f)"
  using set_alist_update [of "sb_start_sequence b" b "mf_batches f"]
  by (auto simp: mock_ok_def mock_add_batch_def distinct_update)

lemma mock_ok_add_batches [simp]: "mock_ok f \<Longrightarrow> mock_ok (mock_add_batches bs f)"
  unfolding mock_add_batches_def by (induction bs arbitrary: f) auto

lemma parse_int_show_u64 [simp]: "parse_int 18446744073709551616 (show_u64 (w :: u64)) = Inr (unat w)"
  by (simp add: parse_int_Inr show_u64_def unat_less_u64)

interpretation mock: batch_storage mock_list_batches mock_get_batch_by_path mock_ok
proof
  fix f bs
  assume ok: "mock_ok f" and bs: "mock_list_batches f = Inr bs"
  have keys: "map bi_start_sequence (map (mock_info \<circ> snd) (mf_batches f)) = map fst (mf_batches f)"
    using ok by (auto simp: mock_ok_def mock_info_def new_batch_info_def)
  have "sorted (map bi_start_sequence bs)" and "distinct (map bi_start_sequence bs)"
  proof -
    have set_eq: "mset (map bi_start_sequence bs) = mset (map fst (mf_batches f))"
      using bs unfolding mock_list_batches_def keys [symmetric] mset_map by auto
    show "sorted (map bi_start_sequence bs)" using bs by (auto simp: mock_list_batches_def)
    show "distinct (map bi_start_sequence bs)" using ok set_eq by (metis mock_ok_def mset_eq_imp_distinct_iff)
  qed
  then show "sorted_wrt (\<lambda>a b. bi_start_sequence a < bi_start_sequence b) bs"
    using strict_sorted_iff by (fastforce simp: sorted_wrt_map [symmetric])
  fix b assume "b \<in> set bs"
  with bs obtain k sb where sb: "(k, sb) \<in> set (mf_batches f)" "b = mock_info sb"
    by (auto simp: mock_list_batches_def)
  with ok have "map_of (mf_batches f) (sb_start_sequence sb) = Some sb" by (auto simp: mock_ok_def)
  with sb show "\<exists>sb. mock_get_batch_by_path f (bi_path b) = Inr (Some sb) \<and> sb_start_sequence sb = bi_start_sequence b
      \<and> sb_end_sequence sb = bi_end_sequence b"
    by (simp add: mock_get_batch_by_path_def mock_info_def new_batch_info_def mock_get_batch_def)
qed

section \<open>Properties\<close>

text \<open>
  The batches of the mock storage are found and fetched: after any batches were added, the path of the
  batch that the index finds for a sequence number fetches a batch whose range contains the
  number, and no other stored batch with that number in its range starts later.\<close>

theorem mock_found_batch_fetched:
  assumes "mock_list_batches (mock_add_batches bs new_mock_batch_mode) = Inr ix" and "find_batch_containing ix q = Some b"
  shows "(\<exists>sb. mock_get_batch_by_path (mock_add_batches bs new_mock_batch_mode) (bi_path b) = Inr (Some sb)
            \<and> sb_start_sequence sb \<le> q \<and> q \<le> sb_end_sequence sb)
     \<and> (\<forall>c \<in> set ix. batch_contains c q \<longrightarrow> bi_start_sequence c \<le> bi_start_sequence b)"
  using mock.found_batch_fetched [OF _ assms] mock.found_batch_latest_start [OF _ assms] by simp

definition demo_signed_batch_range :: "u64 \<Rightarrow> u64 \<Rightarrow> signed_batch" where
  "demo_signed_batch_range s e =
     \<lparr>sb_start_sequence = s, sb_end_sequence = e, sb_messages = [], sb_batch_signature = [], sb_signer = [],
      sb_created_at = 0, sb_content_hash = []\<rparr>"

theorem mock_found_batch_fetched_witness:
  "\<exists>sb. mock_get_batch_by_path (mock_add_batches [demo_signed_batch_range 4 6, demo_signed_batch_range 0 3] new_mock_batch_mode)
       (show_u64 (4 :: u64)) = Inr (Some sb) \<and> sb_start_sequence sb \<le> 5 \<and> 5 \<le> sb_end_sequence sb"
proof -
  let ?f = "mock_add_batches [demo_signed_batch_range 4 6, demo_signed_batch_range 0 3] new_mock_batch_mode"
  let ?ix = "[new_batch_info 0 3 (show_u64 (0 :: u64)), new_batch_info 4 6 (show_u64 (4 :: u64))]"
  have l: "mock_list_batches ?f = Inr ?ix"
    by (simp add: mock_list_batches_def mock_add_batches_def mock_add_batch_def new_mock_batch_mode_def new_mock_def
        demo_signed_batch_range_def mock_info_def new_batch_info_def)
  have ok: "index_ok ?ix" by (simp add: index_ok_def new_batch_info_def)
  have "find_batch_containing ?ix 5 = Some (new_batch_info 4 6 (show_u64 (4 :: u64)))"
    by (simp add: find_batch_containing_find [OF ok]) (simp add: batch_contains_def new_batch_info_def)
  from conjunct1 [OF mock_found_batch_fetched [OF l this]] show ?thesis
    by (simp add: new_batch_info_def)
qed

end
