(* ===== verification/Validator.thy ===== *)
theory Validator
  imports Audit_Trail Fetcher
begin

text \<open>
  The validator, \<open>crates/synddb-validator/src/validator.rs\<close>: application of a message with the audit
  trail, synchronisation of one message, of all available messages, and of a batch, gap
  detection, and one round of each of the two sync loops.

  The storage is the argument \<open>f\<close>, so it may differ from round to round. Callbacks are outputs: the
  withdrawals passed to \<open>on_withdrawal\<close> and the numbers passed to \<open>on_sync\<close>, in order. \<open>ios\<close> gives, for
  the processing of a sequence number, which database statements fail. Timers, shutdown and metrics
  are left out; a round says whether the loop goes on at once, waits, or ends.
\<close>

section \<open>State\<close>

record ('vk, 'sg, 'db) val_deps =
  vd_ext :: "('vk, 'sg) ext"
  vd_payload :: payload_codec
  vd_sqlite :: "'db sqlite"

record val_io =
  vi_apply :: apply_io
  vi_pending :: pending_io
  vi_state :: "string option \<times> string option"
  vi_gap :: "string option"
  vi_now :: u64

record 'db validator =
  va_verifier :: signature_verifier
  va_applier :: "'db changeset_applier"
  va_state :: state_store
  va_pending :: pending_store
  va_gap_retry_count :: nat
  va_gap_skip_on_failure :: bool
  va_batch_sync_enabled :: bool
  va_rules :: "'db rule_registry option"

datatype apply_result = Applied | StoredAsPending

definition in_memory_validator :: "bytes \<Rightarrow> 'db \<Rightarrow> 'db validator" where
  "in_memory_validator sequencer_pubkey db =
     \<lparr>va_verifier = new_verifier sequencer_pubkey, va_applier = \<lparr>ca_db = db, ca_db_type = InMemory\<rparr>,
      va_state = new_state_store, va_pending = new_pending_store, va_gap_retry_count = 3,
      va_gap_skip_on_failure = False, va_batch_sync_enabled = True, va_rules = None\<rparr>"

definition set_rules :: "'db rule_registry \<Rightarrow> 'db validator \<Rightarrow> 'db validator" where
  "set_rules rules v = v\<lparr>va_rules := Some rules\<rparr>"

section \<open>Application with the audit trail\<close>

definition is_ascii_space :: "char \<Rightarrow> bool" where
  "is_ascii_space c \<longleftrightarrow> (of_char c :: nat) = 32 \<or> (9 \<le> (of_char c :: nat) \<and> (of_char c :: nat) \<le> 13)"

definition trim :: "string \<Rightarrow> string" where
  "trim s = rev (dropWhile is_ascii_space (rev (dropWhile is_ascii_space s)))"

definition dont_exist :: string where
  "dont_exist = ''don'' @ [CHR 39] @ ''t exist''"

definition is_schema_mismatch :: "string \<Rightarrow> bool" where
  "is_schema_mismatch error_msg \<longleftrightarrow> str_contains error_msg ''Schema mismatch''
     \<or> str_contains error_msg dont_exist \<or> str_contains error_msg ''column''"

definition deferral_reason_of :: "string \<Rightarrow> deferral_reason" where
  "deferral_reason_of error_msg =
     (if str_contains error_msg dont_exist then MissingTable (trim (last (split_on (CHR '':'') error_msg)))
      else ColumnMismatch ''unknown'' 0 0)"

definition verify_pending_changesets_after_snapshot :: "('vk, 'sg, 'db) val_deps \<Rightarrow> val_io \<Rightarrow> u64 \<Rightarrow> 'db validator
  \<Rightarrow> 'db validator \<times> (anyhow + unit)" where
  "verify_pending_changesets_after_snapshot d io snapshot_sequence v =
     (case count_pending (vi_pending io) (va_pending v) of
        Inl e \<Rightarrow> (v, Inl e)
      | Inr pending_count \<Rightarrow>
         if pending_count = 0 then (v, Inr ())
         else (case get_all_pending (vi_pending io) (va_pending v) of
                Inl e \<Rightarrow> (v, Inl e)
              | Inr pending \<Rightarrow>
                 (let relevant = filter (\<lambda>p. pc_sequence p < snapshot_sequence) pending
                  in if relevant = [] then (v, Inr ())
                     else let (db, result) = verify_changeset_chain (vd_sqlite d) relevant (ca_db (va_applier v));
                              v1 = v\<lparr>va_applier := (va_applier v)\<lparr>ca_db := db\<rparr>\<rparr>
                          in case clear_up_to (vi_pending io) snapshot_sequence (va_pending v) of
                               (st, Inl e) \<Rightarrow> (v1\<lparr>va_pending := st\<rparr>, Inl e)
                             | (st, Inr _) \<Rightarrow> (v1\<lparr>va_pending := st\<rparr>, Inr ()))))"

definition apply_message_with_audit :: "('vk, 'sg, 'db) val_deps \<Rightarrow> val_io \<Rightarrow> signed_message \<Rightarrow> 'db validator
  \<Rightarrow> 'db validator \<times> (anyhow + apply_result)" where
  "apply_message_with_audit d io m v =
     (case apply_message_with_rules (vd_ext d) (vd_payload d) (vd_sqlite d) (vi_apply io) (va_rules v) m (va_applier v) of
        (a, Inr _) \<Rightarrow>
          (let v1 = v\<lparr>va_applier := a\<rparr>
           in if sm_message_type m = Snapshot
              then (case verify_pending_changesets_after_snapshot d io (sm_sequence m) v1 of
                     (v2, Inl e) \<Rightarrow> (v2, Inl e) | (v2, Inr _) \<Rightarrow> (v2, Inr Applied))
              else (v1, Inr Applied))
      | (a, Inl error_msg) \<Rightarrow>
          (let v1 = v\<lparr>va_applier := a\<rparr>
           in if is_schema_mismatch error_msg \<and> sm_message_type m = Changeset
              then let pending = \<lparr>pc_sequence = sm_sequence m, pc_data = sm_payload m, pc_reason = deferral_reason_of error_msg\<rparr>
                   in (case store_pending (vi_pending io) pending (va_pending v1) of
                        (st, Inl e) \<Rightarrow> (v1\<lparr>va_pending := st\<rparr>, Inl e)
                      | (st, Inr _) \<Rightarrow> (v1\<lparr>va_pending := st\<rparr>, Inr StoredAsPending))
              else (v1, Inl error_msg)))"

section \<open>Single messages\<close>

definition record_progress :: "val_io \<Rightarrow> u64 \<Rightarrow> 'db validator \<Rightarrow> 'db validator \<times> (anyhow + unit)" where
  "record_progress io sequence v =
     (let (st, r) = record_sync (vi_state io) (vi_now io) sequence (va_state v) in (v\<lparr>va_state := st\<rparr>, r))"

text \<open>Steps 3 to 6 of \<open>sync_one_with_callback\<close>, the body of the loop of \<open>sync_batch\<close> too.\<close>

definition process_message :: "('vk, 'sg, 'db) val_deps \<Rightarrow> val_io \<Rightarrow> signed_message \<Rightarrow> 'db validator
  \<Rightarrow> 'db validator \<times> withdrawal_request list \<times> (anyhow + unit)" where
  "process_message d io m v =
     (case verify_message (vd_ext d) (va_verifier v) m of
        Inl e \<Rightarrow> (v, [], Inl (show_validator_error (VSignatureVerification (show_validator_error e))))
      | Inr _ \<Rightarrow>
         (case extract_withdrawal (vd_ext d) (vd_payload d) m of
            Inl e \<Rightarrow> (v, [], Inl e)
          | Inr w \<Rightarrow>
             (let out = (case w of None \<Rightarrow> [] | Some r \<Rightarrow> [r])
              in case apply_message_with_audit d io m v of
                   (v1, Inl e) \<Rightarrow> (v1, out, Inl e)
                 | (v1, Inr _) \<Rightarrow> (let (v2, r) = record_progress io (sm_sequence m) v1 in (v2, out, r)))))"

definition sync_one_with_callback :: "('vk, 'sg, 'db) val_deps \<Rightarrow> val_io \<Rightarrow> fetcher \<Rightarrow> u64 \<Rightarrow> 'db validator
  \<Rightarrow> 'db validator \<times> withdrawal_request list \<times> (anyhow + bool)" where
  "sync_one_with_callback d io f sequence v =
     (case f_get f sequence of
        Inl e \<Rightarrow> (v, [], Inl e)
      | Inr None \<Rightarrow> (v, [], Inr False)
      | Inr (Some m) \<Rightarrow>
          if sm_sequence m \<noteq> sequence
          then (v, [], Inl (show_validator_error (SequenceGap sequence (sm_sequence m))))
          else let (v1, out, r) = process_message d io m v in (v1, out, bind_r r (\<lambda>_. Inr True)))"

text \<open>
  The loop of \<open>sync_to_head\<close>; \<open>None\<close> means that the fuel ran out. The result holds the validator, the
  withdrawals and the number of synced messages; an error ends the loop like the head does.\<close>

fun sync_to_head_loop :: "nat \<Rightarrow> ('vk, 'sg, 'db) val_deps \<Rightarrow> (u64 \<Rightarrow> val_io) \<Rightarrow> fetcher \<Rightarrow> u64 \<Rightarrow> 'db validator
  \<Rightarrow> ('db validator \<times> withdrawal_request list \<times> nat) option" where
  "sync_to_head_loop 0 d ios f s v = None"
| "sync_to_head_loop (Suc k) d ios f s v =
     (case sync_one_with_callback d (ios s) f s v of
        (v1, out, Inr True) \<Rightarrow>
          map_option (\<lambda>(v2, outs, synced). (v2, out @ outs, synced + 1))
            (sync_to_head_loop k d ios f (s + 1) v1)
      | (v1, out, _) \<Rightarrow> Some (v1, out, 0))"

definition sync_to_head :: "nat \<Rightarrow> ('vk, 'sg, 'db) val_deps \<Rightarrow> (u64 \<Rightarrow> val_io) \<Rightarrow> fetcher \<Rightarrow> 'db validator
  \<Rightarrow> ('db validator \<times> withdrawal_request list \<times> (anyhow + nat)) option" where
  "sync_to_head n d ios f v =
     (case next_sequence (va_state v) of
        Inl e \<Rightarrow> Some (v, [], Inl e)
      | Inr s \<Rightarrow> map_option (\<lambda>(v', outs, synced). (v', outs, Inr synced)) (sync_to_head_loop n d ios f s v))"

section \<open>Batches\<close>

fun sync_batch_loop :: "('vk, 'sg, 'db) val_deps \<Rightarrow> (u64 \<Rightarrow> val_io) \<Rightarrow> u64 \<Rightarrow> signed_message list \<Rightarrow> 'db validator
  \<Rightarrow> 'db validator \<times> withdrawal_request list \<times> (anyhow + nat)" where
  "sync_batch_loop d ios s [] v = (v, [], Inr 0)"
| "sync_batch_loop d ios s (m # ms) v =
     (if sm_sequence m < s then sync_batch_loop d ios s ms v
      else case process_message d (ios (sm_sequence m)) m v of
             (v1, out, Inl e) \<Rightarrow> (v1, out, Inl e)
           | (v1, out, Inr _) \<Rightarrow>
               (let (v2, outs, r) = sync_batch_loop d ios s ms v1
                in (v2, out @ outs, bind_r r (\<lambda>n. Inr (n + 1)))))"

definition batch_signature_error :: "verification_error \<Rightarrow> anyhow" where
  "batch_signature_error e =
     show_validator_error (VSignatureVerification (''Batch signature verification failed: '' @ show_verification_error e))"

definition sync_batch :: "('vk, 'sg, 'db) val_deps \<Rightarrow> (u64 \<Rightarrow> val_io) \<Rightarrow> signed_batch \<Rightarrow> 'db validator
  \<Rightarrow> 'db validator \<times> withdrawal_request list \<times> (anyhow + nat)" where
  "sync_batch d ios batch v =
     (case verify_signed_batch (vd_ext d) batch of
        Inl e \<Rightarrow> (v, [], Inl (batch_signature_error e))
      | Inr _ \<Rightarrow>
         (case next_sequence (va_state v) of
            Inl e \<Rightarrow> (v, [], Inl e)
          | Inr s \<Rightarrow> sync_batch_loop d ios s (sb_messages batch) v))"

text \<open>The loop of \<open>sync_to_head_batched\<close> over the batches from the iterator's position on.\<close>

fun sync_batches :: "('vk, 'sg, 'db) val_deps \<Rightarrow> (u64 \<Rightarrow> val_io) \<Rightarrow> fetcher \<Rightarrow> batch_info list \<Rightarrow> 'db validator
  \<Rightarrow> 'db validator \<times> (anyhow + nat)" where
  "sync_batches d ios f [] v = (v, Inr 0)"
| "sync_batches d ios f (b # bs) v =
     (case f_get_batch_by_path f (bi_path b) of
        Inl e \<Rightarrow> (v, Inl e)
      | Inr None \<Rightarrow> sync_batches d ios f bs v
      | Inr (Some batch) \<Rightarrow>
         (case sync_batch d ios batch v of
            (v1, out, Inl e) \<Rightarrow> (v1, Inl e)
          | (v1, out, Inr n) \<Rightarrow> (let (v2, r) = sync_batches d ios f bs v1 in (v2, bind_r r (\<lambda>k. Inr (n + k))))))"

definition sync_to_head_batched :: "nat \<Rightarrow> ('vk, 'sg, 'db) val_deps \<Rightarrow> (u64 \<Rightarrow> val_io) \<Rightarrow> fetcher \<Rightarrow> 'db validator
  \<Rightarrow> ('db validator \<times> (anyhow + nat)) option" where
  "sync_to_head_batched fuel d ios f v =
     (if \<not> f_supports_batches f
      then map_option (\<lambda>(v', outs, r). (v', r)) (sync_to_head fuel d ios f v)
      else Some (case build_index (f_list_batches f) of
                   Inl e \<Rightarrow> (v, Inl e)
                 | Inr ix \<Rightarrow>
                    (case next_sequence (va_state v) of
                       Inl e \<Rightarrow> (v, Inl e)
                     | Inr s \<Rightarrow> sync_batches d ios f (drop (it_batch_idx (starting_at ix s)) ix) v)))"

section \<open>The sync loops\<close>

text \<open>\<open>detect_gap\<close> has no error path: errors of the fetcher count as absence.\<close>

fun first_available :: "fetcher \<Rightarrow> u64 list \<Rightarrow> u64 option" where
  "first_available f [] = None"
| "first_available f (s # ss) = (case f_get f s of Inr (Some _) \<Rightarrow> Some s | _ \<Rightarrow> first_available f ss)"

definition detect_gap :: "fetcher \<Rightarrow> u64 \<Rightarrow> u64 option" where
  "detect_gap f expected =
     (case first_available f (map (\<lambda>i. expected + of_nat i) [1 ..< 11]) of
        Some s \<Rightarrow> Some s
      | None \<Rightarrow> (case f_get_latest_sequence f of
                   Inr (Some latest) \<Rightarrow> if expected < latest then Some (expected + 1) else None
                 | _ \<Rightarrow> None))"

datatype loop_outcome = Again | Wait | Ends anyhow

record loop_state =
  ls_next :: u64
  ls_not_found :: nat

text \<open>One round of \<open>run_with_callbacks\<close>, with the withdrawals and the synced number it reports.\<close>

definition run_round :: "('vk, 'sg, 'db) val_deps \<Rightarrow> val_io \<Rightarrow> fetcher \<Rightarrow> loop_state \<times> 'db validator
  \<Rightarrow> (loop_state \<times> 'db validator) \<times> withdrawal_request list \<times> u64 list \<times> loop_outcome" where
  "run_round d io f s =
     (let (ls, v) = s; n = ls_next ls
      in case sync_one_with_callback d io f n v of
           (v1, out, Inr True) \<Rightarrow> ((\<lparr>ls_next = n + 1, ls_not_found = 0\<rparr>, v1), out, [n], Again)
         | (v1, out, Inr False) \<Rightarrow>
             (let nf = ls_not_found ls + 1
              in if nf < va_gap_retry_count v1 then ((\<lparr>ls_next = n, ls_not_found = nf\<rparr>, v1), out, [], Wait)
                 else (case detect_gap f n of
                        None \<Rightarrow> ((\<lparr>ls_next = n, ls_not_found = 0\<rparr>, v1), out, [], Wait)
                      | Some available \<Rightarrow>
                          if \<not> va_gap_skip_on_failure v1
                          then ((\<lparr>ls_next = n, ls_not_found = nf\<rparr>, v1), out, [],
                                Ends (show_validator_error (SequenceGap n available)))
                          else let (st, r) = record_gap (vi_gap io) (vi_now io) n available (va_state v1)
                               in ((\<lparr>ls_next = available, ls_not_found = 0\<rparr>, v1\<lparr>va_state := st\<rparr>), out, [], Again)))
         | (v1, out, Inl e) \<Rightarrow> ((ls, v1), out, [], Wait))"

text \<open>The messages of a batch in \<open>run_batched\<close>: \<open>next_sequence\<close> advances, and a withdrawal that cannot be read is ignored.\<close>

fun run_batch_messages :: "('vk, 'sg, 'db) val_deps \<Rightarrow> (u64 \<Rightarrow> val_io) \<Rightarrow> signed_message list \<Rightarrow> u64 \<Rightarrow> 'db validator
  \<Rightarrow> (u64 \<times> 'db validator) \<times> withdrawal_request list \<times> u64 list \<times> (anyhow + unit)" where
  "run_batch_messages d ios [] n v = ((n, v), [], [], Inr ())"
| "run_batch_messages d ios (m # ms) n v =
     (if sm_sequence m < n then run_batch_messages d ios ms n v
      else case verify_message (vd_ext d) (va_verifier v) m of
             Inl e \<Rightarrow> ((n, v), [], [], Inl (show_validator_error (VSignatureVerification (show_validator_error e))))
           | Inr _ \<Rightarrow>
              (let out = (case extract_withdrawal (vd_ext d) (vd_payload d) m of Inr (Some r) \<Rightarrow> [r] | _ \<Rightarrow> [])
               in case apply_message_with_audit d (ios (sm_sequence m)) m v of
                    (v1, Inl e) \<Rightarrow> ((n, v1), out, [], Inl e)
                  | (v1, Inr _) \<Rightarrow>
                     (case record_progress (ios (sm_sequence m)) (sm_sequence m) v1 of
                        (v2, Inl e) \<Rightarrow> ((n, v2), out, [], Inl e)
                      | (v2, Inr _) \<Rightarrow>
                         (let (s, outs, syncs, r) = run_batch_messages d ios ms (sm_sequence m + 1) v2
                          in (s, out @ outs, sm_sequence m # syncs, r)))))"

record batched_state =
  bl_index :: batch_index
  bl_next :: u64
  bl_caught_up :: bool

text \<open>
  One round of \<open>run_batched\<close>; \<open>elapsed\<close> says that the refresh interval has passed. The refresh
  replaces the index when the listing succeeds, and finding new batches ends the caught-up state.\<close>

definition refresh_round :: "fetcher \<Rightarrow> bool \<Rightarrow> batched_state \<Rightarrow> batched_state" where
  "refresh_round f elapsed bl =
     (if elapsed \<or> bl_caught_up bl
      then case refresh_index (f_list_batches f) (bl_index bl) of
             (ix, Inl e) \<Rightarrow> bl\<lparr>bl_index := ix\<rparr>
           | (ix, Inr new_batches) \<Rightarrow>
               if new_batches > 0 then bl\<lparr>bl_index := ix, bl_caught_up := False\<rparr> else bl\<lparr>bl_index := ix\<rparr>
      else bl)"

definition run_batched_round :: "('vk, 'sg, 'db) val_deps \<Rightarrow> (u64 \<Rightarrow> val_io) \<Rightarrow> fetcher \<Rightarrow> bool \<Rightarrow> batched_state \<times> 'db validator
  \<Rightarrow> (batched_state \<times> 'db validator) \<times> withdrawal_request list \<times> u64 list \<times> loop_outcome" where
  "run_batched_round d ios f elapsed s =
     (let (bl0, v) = s; bl = refresh_round f elapsed bl0; n = bl_next bl
      in case find_batch_containing (bl_index bl) n of
           Some b \<Rightarrow>
             (case f_get_batch_by_path f (bi_path b) of
                Inl e \<Rightarrow> ((bl, v), [], [], Wait)
              | Inr None \<Rightarrow> ((bl, v), [], [], Wait)
              | Inr (Some batch) \<Rightarrow>
                 (case verify_signed_batch (vd_ext d) batch of
                    Inl e \<Rightarrow> ((bl, v), [], [], Ends (batch_signature_error e))
                  | Inr _ \<Rightarrow>
                     (case run_batch_messages d ios (sb_messages batch) n v of
                        ((n', v1), out, syncs, Inl e) \<Rightarrow> ((bl\<lparr>bl_next := n'\<rparr>, v1), out, syncs, Ends e)
                      | ((n', v1), out, syncs, Inr _) \<Rightarrow> ((bl\<lparr>bl_next := n'\<rparr>, v1), out, syncs, Again))))
         | None \<Rightarrow>
             (case find_first_batch_starting_at_or_after (bl_index bl) n of
                Some b \<Rightarrow>
                  (let gap_end = bi_start_sequence b
                   in if \<not> va_gap_skip_on_failure v
                      then ((bl, v), [], [], Ends (show_validator_error (SequenceGap n gap_end)))
                      else case record_gap (vi_gap (ios n)) (vi_now (ios n)) n gap_end (va_state v) of
                             (st, Inl e) \<Rightarrow> ((bl, v\<lparr>va_state := st\<rparr>), [], [], Ends e)
                           | (st, Inr _) \<Rightarrow> ((bl\<lparr>bl_next := gap_end\<rparr>, v\<lparr>va_state := st\<rparr>), [], [], Again))
              | None \<Rightarrow> ((bl\<lparr>bl_caught_up := True\<rparr>, v), [], [], Wait)))"

section \<open>What the operations keep\<close>

text \<open>Configuration and progress: everything of a validator but the replica and the pending changesets.\<close>

definition frame :: "'db validator \<Rightarrow> signature_verifier \<times> state_store \<times> nat \<times> bool \<times> bool \<times> 'db rule_registry option" where
  "frame v = (va_verifier v, va_state v, va_gap_retry_count v, va_gap_skip_on_failure v, va_batch_sync_enabled v, va_rules v)"

lemma frame_update [simp]: "frame (v\<lparr>va_applier := a\<rparr>) = frame v" "frame (v\<lparr>va_pending := p\<rparr>) = frame v"
  by (simp_all add: frame_def)

lemma frame_eq: "frame v = frame w \<Longrightarrow> va_verifier v = va_verifier w" "frame v = frame w \<Longrightarrow> va_state v = va_state w"
  "frame v = frame w \<Longrightarrow> va_rules v = va_rules w"
  by (simp_all add: frame_def)

lemma verify_pending_frame [simp]: "frame (fst (verify_pending_changesets_after_snapshot d io s v)) = frame v"
  by (simp add: verify_pending_changesets_after_snapshot_def Let_def split_beta split: sum.split prod.split)

lemma apply_audit_frame [simp]: "frame (fst (apply_message_with_audit d io m v)) = frame v"
proof -
  let ?r = "apply_message_with_rules (vd_ext d) (vd_payload d) (vd_sqlite d) (vi_apply io) (va_rules v) m (va_applier v)"
  have "frame (fst (verify_pending_changesets_after_snapshot d io (sm_sequence m) (v\<lparr>va_applier := fst ?r\<rparr>))) = frame v"
    by simp
  then show ?thesis
    by (cases "snd ?r") (auto simp: apply_message_with_audit_def Let_def split_beta split: sum.split prod.split)
qed

definition withdrawals_of :: "('vk, 'sg, 'db) val_deps \<Rightarrow> signed_message \<Rightarrow> withdrawal_request list" where
  "withdrawals_of d m = (case extract_withdrawal (vd_ext d) (vd_payload d) m of Inr (Some r) \<Rightarrow> [r] | _ \<Rightarrow> [])"

text \<open>A processed message was signed by the expected key, and its number is recorded as the last one.\<close>

lemma process_message_ok:
  assumes "process_message d io m v = (v', out, Inr ())"
  shows "verify_message (vd_ext d) (va_verifier v) m = Inr ()" and "out = withdrawals_of d m"
    and "synced_to (Some (sm_sequence m)) (va_state v')" and "vs_gaps (va_state v') = vs_gaps (va_state v)"
    and "va_verifier v' = va_verifier v"
proof -
  from assms obtain w where v: "verify_message (vd_ext d) (va_verifier v) m = Inr ()"
    and w: "extract_withdrawal (vd_ext d) (vd_payload d) m = Inr w"
    by (auto simp: process_message_def split: sum.splits)
  obtain v1 r where a: "apply_message_with_audit d io m v = (v1, r)" by fastforce
  then have f: "frame v1 = frame v" using apply_audit_frame [of d io m v] by simp
  from assms v w a obtain st where rec: "record_sync (vi_state io) (vi_now io) (sm_sequence m) (va_state v1) = (st, Inr ())"
    and v': "v' = v1\<lparr>va_state := st\<rparr>" and out: "out = (case w of None \<Rightarrow> [] | Some r \<Rightarrow> [r])"
    by (auto simp: process_message_def record_progress_def Let_def split: sum.splits prod.splits)
  show "verify_message (vd_ext d) (va_verifier v) m = Inr ()" by (fact v)
  show "out = withdrawals_of d m" using out w by (simp add: withdrawals_of_def split: option.splits)
  show "synced_to (Some (sm_sequence m)) (va_state v')" using record_sync_ok(1) [OF rec] v' by simp
  show "vs_gaps (va_state v') = vs_gaps (va_state v)" using record_sync_ok(2) [OF rec] v' frame_eq(2) [OF f] by simp
  show "va_verifier v' = va_verifier v" using v' frame_eq(1) [OF f] by simp
qed

lemma process_message_refused:
  "verify_message (vd_ext d) (va_verifier v) m = Inl e \<Longrightarrow> \<exists>text. process_message d io m v = (v, [], Inl text)"
  by (simp add: process_message_def)

lemma sync_one_ok:
  "sync_one_with_callback d io f s v = (v', out, Inr True) \<longleftrightarrow>
     (\<exists>m. f_get f s = Inr (Some m) \<and> sm_sequence m = s \<and> process_message d io m v = (v', out, Inr ()))"
  by (cases "f_get f s")
     (auto simp: sync_one_with_callback_def bind_r_eq_Inr split: option.splits prod.splits)

text \<open>The messages of a batch that are still to be synced.\<close>

definition todo :: "u64 \<Rightarrow> signed_message list \<Rightarrow> signed_message list" where
  "todo n ms = filter (\<lambda>m. n \<le> sm_sequence m) ms"

lemma todo_simps [simp]: "todo n [] = []"
  "todo n (m # ms) = (if sm_sequence m < n then todo n ms else m # todo n ms)"
  by (auto simp: todo_def not_less)

lemma sync_batch_loop_ok:
  assumes "sync_batch_loop d ios n ms v = (v', outs, Inr k)" and "synced_to l (va_state v)"
  shows "k = length (todo n ms) \<and> (\<forall>m \<in> set (todo n ms). verify_message (vd_ext d) (va_verifier v) m = Inr ())
     \<and> outs = concat (map (withdrawals_of d) (todo n ms))
     \<and> synced_to (if todo n ms = [] then l else Some (sm_sequence (last (todo n ms)))) (va_state v')
     \<and> vs_gaps (va_state v') = vs_gaps (va_state v)"
  using assms
proof (induction ms arbitrary: v outs k l)
  case (Cons m ms)
  show ?case
  proof (cases "sm_sequence m < n")
    case True
    with Cons.prems(1) have loop: "sync_batch_loop d ios n ms v = (v', outs, Inr k)" by simp
    have eq: "todo n (m # ms) = todo n ms" using True by simp
    show ?thesis unfolding eq by (rule Cons.IH [OF loop Cons.prems(2)])
  next
    case False
    obtain v1 out r where p: "process_message d (ios (sm_sequence m)) m v = (v1, out, r)" by (metis prod_cases3)
    with Cons.prems(1) False obtain outs2 k2 where r: "r = Inr ()"
      and rest: "sync_batch_loop d ios n ms v1 = (v', outs2, Inr k2)" and o: "outs = out @ outs2" "k = k2 + 1"
      by (auto simp: bind_r_eq_Inr Let_def split: sum.splits prod.splits)
    note ok = process_message_ok [OF p [unfolded r]]
    from Cons.IH [OF rest ok(3)] ok False o show ?thesis by (auto split: if_splits)
  qed
qed simp

section \<open>Equivalence of batches and single messages\<close>

text \<open>The storage holds the messages one by one, and nothing after them.\<close>

definition serves :: "fetcher \<Rightarrow> u64 \<Rightarrow> signed_message list \<Rightarrow> bool" where
  "serves f s ms \<longleftrightarrow> (\<forall>i < length ms. sm_sequence (ms ! i) = s + of_nat i \<and> f_get f (s + of_nat i) = Inr (Some (ms ! i)))
     \<and> f_get f (s + of_nat (length ms)) = Inr None"

lemma serves_Nil [simp]: "serves f s [] \<longleftrightarrow> f_get f s = Inr None"
  by (simp add: serves_def)

lemma serves_Cons [simp]:
  "serves f s (m # ms) \<longleftrightarrow> sm_sequence m = s \<and> f_get f s = Inr (Some m) \<and> serves f (s + 1) ms"
  by (auto simp: serves_def less_Suc_eq_0_disj nth_Cons split: nat.splits simp flip: add.assoc)

lemma batch_loop_single:
  "sync_batch_loop d ios n ms v = (v', outs, Inr k) \<Longrightarrow> serves f s ms \<Longrightarrow> n \<le> s \<Longrightarrow> unat s + length ms < 2 ^ 64
   \<Longrightarrow> sync_to_head_loop (Suc k) d ios f s v = Some (v', outs, k)"
proof (induction ms arbitrary: s v outs k)
  case Nil
  then show ?case by (simp add: sync_one_with_callback_def)
next
  case (Cons m ms)
  then have m: "sm_sequence m = s" "f_get f s = Inr (Some m)" "serves f (s + 1) ms" by auto
  have "unat (s + 1) = Suc (unat s)" using Cons.prems(4) by (simp add: unat_word_ariths)
  then have le: "n \<le> s + 1" and lt: "unat (s + 1) + length ms < 2 ^ 64"
    using Cons.prems(3,4) by (simp_all add: word_le_nat_alt)
  obtain v1 out r where p: "process_message d (ios s) m v = (v1, out, r)" by (metis prod_cases3)
  with Cons.prems(1,3) m(1) obtain outs2 k2 where r: "r = Inr ()"
    and rest: "sync_batch_loop d ios n ms v1 = (v', outs2, Inr k2)" and o: "outs = out @ outs2" "k = k2 + 1"
    by (auto simp: bind_r_eq_Inr Let_def not_less split: sum.splits prod.splits if_splits)
  have one: "sync_one_with_callback d (ios s) f s v = (v1, out, Inr True)"
    using m p r by (simp add: sync_one_ok)
  have "sync_to_head_loop (Suc k2) d ios f (s + 1) v1 = Some (v', outs2, k2)"
    by (rule Cons.IH [OF rest m(3) le lt])
  then show ?case using o by (subst sync_to_head_loop.simps) (simp only: one prod.case sum.case bool.case option.map add_0 Suc_eq_plus1)
qed

lemma process_message_err:
  assumes "vi_state io = (None, None)" and "process_message d io m v = (v', out, Inl e)"
  shows "va_state v' = va_state v"
proof -
  obtain v1 r where a: "apply_message_with_audit d io m v = (v1, r)" by fastforce
  then have f: "va_state v1 = va_state v" using frame_eq(2) [OF apply_audit_frame [of d io m v]] by simp
  have "snd (record_sync (None, None) (vi_now io) (sm_sequence m) (va_state v1)) = Inr ()"
    by (simp add: record_sync_def set_last_sequence_def set_last_sync_time_def)
  with assms a f show ?thesis
    by (cases r) (auto simp: process_message_def record_progress_def Let_def split_beta split: sum.splits)
qed

lemma sync_one_not_synced:
  assumes "vi_state io = (None, None)" and "sync_one_with_callback d io f s v = (v', out, r)" and "r \<noteq> Inr True"
  shows "va_state v' = va_state v"
proof (cases "f_get f s")
  case (Inr mo)
  show ?thesis
  proof (cases mo)
    case (Some m)
    obtain v1 out1 r1 where p: "process_message d io m v = (v1, out1, r1)" by (metis prod_cases3)
    with assms(2,3) Inr Some process_message_err [OF assms(1), of d m v v1 out1] show ?thesis
      by (cases r1) (auto simp: sync_one_with_callback_def split: if_splits)
  qed (use assms Inr in \<open>simp add: sync_one_with_callback_def\<close>)
qed (use assms in \<open>simp add: sync_one_with_callback_def\<close>)

lemma head_loop_ok:
  assumes "\<forall>s. vi_state (ios s) = (None, None)"
  shows "sync_to_head_loop fuel d ios f s v = Some (v', outs, k) \<Longrightarrow> synced_to l (va_state v)
   \<Longrightarrow> (\<forall>i < k. \<exists>m. f_get f (s + of_nat i) = Inr (Some m) \<and> sm_sequence m = s + of_nat i
          \<and> verify_message (vd_ext d) (va_verifier v) m = Inr ())
     \<and> synced_to (if k = 0 then l else Some (s + of_nat k - 1)) (va_state v')"
proof (induction fuel arbitrary: s v outs k l)
  case (Suc fuel)
  obtain v1 out r where one: "sync_one_with_callback d (ios s) f s v = (v1, out, r)" by (metis prod_cases3)
  show ?case
  proof (cases "r = Inr True")
    case True
    with Suc.prems(1) one obtain outs2 k2 where rest: "sync_to_head_loop fuel d ios f (s + 1) v1 = Some (v', outs2, k2)"
      and k: "k = Suc k2" by auto
    from one True obtain m where m: "f_get f s = Inr (Some m)" "sm_sequence m = s"
      "process_message d (ios s) m v = (v1, out, Inr ())" by (auto simp: sync_one_ok)
    note ok = process_message_ok [OF m(3)]
    have step: "s + 1 + of_nat i = s + of_nat (Suc i)" for i by simp
    from Suc.IH [OF rest ok(3)] m ok show ?thesis
      unfolding k step by (auto simp: less_Suc_eq_0_disj split: if_splits)
  next
    case False
    then have "k = 0" using Suc.prems(1) one by (auto split: sum.splits bool.splits)
    moreover have "v' = v1" using Suc.prems(1) one False by (auto split: sum.splits bool.splits)
    ultimately show ?thesis using Suc.prems(2) sync_one_not_synced [OF _ one False] assms by simp
  qed
qed simp

lemma head_loop_terminates:
  "f_get f (s + of_nat k) = Inr None \<Longrightarrow> k < fuel \<Longrightarrow> \<exists>r. sync_to_head_loop fuel d ios f s v = Some r"
proof (induction k arbitrary: s v fuel)
  case 0
  then show ?case by (cases fuel) (simp_all add: sync_one_with_callback_def)
next
  case (Suc k)
  then obtain fu where fu: "fuel = Suc fu" by (cases fuel) auto
  obtain v1 out r where one: "sync_one_with_callback d (ios s) f s v = (v1, out, r)" by (metis prod_cases3)
  have "\<exists>r. sync_to_head_loop fu d ios f (s + 1) v1 = Some r"
  proof (rule Suc.IH)
    have step: "s + 1 + of_nat k = s + of_nat (Suc k)" by simp
    show "f_get f (s + 1 + of_nat k) = Inr None" unfolding step by (rule Suc.prems(1))
  qed (use Suc.prems fu in simp)
  then show ?case using one by (auto simp: fu split: sum.splits bool.splits)
qed

section \<open>Deferral and recovery\<close>

lemma is_schema_mismatch_column: "str_contains reason ''column'' \<Longrightarrow> is_schema_mismatch (a @ reason @ b)"
  unfolding is_schema_mismatch_def str_contains_iff by (metis append_assoc)

lemma record_sync_None: "snd (record_sync (None, None) now s st) = Inr ()"
  by (simp add: record_sync_def set_last_sequence_def set_last_sync_time_def)

text \<open>A changeset whose application fails with a text that looks like a schema mismatch.\<close>

lemma process_deferred:
  assumes "verify_message (vd_ext d) (va_verifier v) m = Inr ()" and "sm_message_type m = Changeset"
    and "apply_message_with_rules (vd_ext d) (vd_payload d) (vd_sqlite d) (vi_apply io) (va_rules v) m (va_applier v)
           = (va_applier v, Inl text)"
    and "is_schema_mismatch text" and "pio_store (vi_pending io) = None" and "fits_i64 (sm_sequence m)"
    and "vi_state io = (None, None)"
  shows "\<exists>v'. process_message d io m v = (v', [], Inr ()) \<and> va_applier v' = va_applier v
     \<and> bt_get (sm_sequence m) (va_pending v') = Some (sm_payload m, reason_json (deferral_reason_of text))
     \<and> synced_to (Some (sm_sequence m)) (va_state v')"
proof -
  have w: "extract_withdrawal (vd_ext d) (vd_payload d) m = Inr None" using assms(2) by (simp add: extract_withdrawal_def)
  let ?st = "bt_insert (sm_sequence m) (sm_payload m, reason_json (deferral_reason_of text)) (va_pending v)"
  have a: "apply_message_with_audit d io m v = (v\<lparr>va_pending := ?st\<rparr>, Inr StoredAsPending)"
    using assms(2-6) by (simp add: apply_message_with_audit_def store_pending_def Let_def)
  let ?r = "record_sync (None, None) (vi_now io) (sm_sequence m) (va_state v)"
  have p: "process_message d io m v = (v\<lparr>va_pending := ?st, va_state := fst ?r\<rparr>, [], Inr ())"
    using record_sync_None [of "vi_now io" "sm_sequence m" "va_state v"]
    by (simp add: process_message_def assms(1,7) w a record_progress_def split_beta Let_def)
  show ?thesis
    by (rule exI [of _ "v\<lparr>va_pending := ?st, va_state := fst ?r\<rparr>"])
       (use p process_message_ok(3) [OF p] in simp)
qed

lemma rule_failure_text:
  "show_validator_error (ValidationRuleFailed name s reason) = (''Validation rule '' @ [CHR 39] @ name @ [CHR 39]
     @ '' failed at sequence '' @ show_u64 s @ '': '') @ reason @ []"
  by simp

definition stored :: "fetcher \<Rightarrow> u64 \<Rightarrow> bool" where
  "stored f s \<longleftrightarrow> (\<exists>m. f_get f s = Inr (Some m))"

lemma first_available_find: "first_available f ss = find (stored f) ss"
  by (induction ss) (auto simp: stored_def split: sum.splits option.splits)

section \<open>Properties\<close>

text \<open>
  C22: What a successful batch sync did: every message of the batch from the next expected number on
  was signed by the expected key and processed, its withdrawals were reported in order, and the
  recorded position is the number of the last such message. The position says nothing about the
  numbers in between: holes in the batch are passed over, and an out-of-order batch moves the position back.\<close>

theorem sync_batch_exact:
  assumes "sync_batch d ios batch v = (v', outs, Inr k)" and "synced_to l (va_state v)"
    and "next_sequence (va_state v) = Inr n"
  shows "verify_signed_batch (vd_ext d) batch = Inr ()
     \<and> k = length (todo n (sb_messages batch))
     \<and> (\<forall>m \<in> set (todo n (sb_messages batch)). verify_message (vd_ext d) (va_verifier v) m = Inr ())
     \<and> outs = concat (map (withdrawals_of d) (todo n (sb_messages batch)))
     \<and> synced_to (if todo n (sb_messages batch) = [] then l else Some (sm_sequence (last (todo n (sb_messages batch))))) (va_state v')
     \<and> get_gaps (va_state v') = get_gaps (va_state v)"
proof -
  from assms(1,3) have "verify_signed_batch (vd_ext d) batch = Inr ()"
    and loop: "sync_batch_loop d ios n (sb_messages batch) v = (v', outs, Inr k)"
    by (auto simp: sync_batch_def split: sum.splits)
  with sync_batch_loop_ok [OF loop assms(2)] show ?thesis by (simp add: get_gaps_def)
qed

text \<open>
  C6: Batch sync and message-by-message sync agree: when the storage serves the messages of a batch
  under consecutive numbers from the next expected one on and nothing after them, a successful
  sync of the batch and a sync to the head end in the same validator with the same withdrawals and the same
  count.\<close>

theorem batch_sync_equals_single_sync:
  assumes "sync_batch d ios batch v = (v', outs, Inr k)" and "next_sequence (va_state v) = Inr n"
    and "serves f n (sb_messages batch)" and "unat n + length (sb_messages batch) < 2 ^ 64"
  shows "sync_to_head (Suc k) d ios f v = Some (v', outs, Inr k)"
proof -
  from assms(1,2) have "sync_batch_loop d ios n (sb_messages batch) v = (v', outs, Inr k)"
    by (auto simp: sync_batch_def split: sum.splits)
  from batch_loop_single [OF this assms(3) order_refl assms(4)] assms(2) show ?thesis by (simp add: sync_to_head_def)
qed


text \<open>
  Validation rules can be bypassed by their own wording: a changeset that a rule rejects with a reason that mentions
  a column is taken for a schema mismatch, stored as pending and recorded as synced, so the sync goes on.\<close>

theorem rule_rejection_recorded_as_synced:
  assumes "verify_message (vd_ext d) (va_verifier v) m = Inr ()" and "sm_message_type m = Changeset"
    and "zstd_decode (vd_ext d) (sm_payload m) = Inr dec" and "changesets_from_cbor (vd_payload d) dec = Inr batch"
    and "replay (vd_sqlite d) (changes_of batch) (ca_db (va_applier v)) = Some db'"
    and "va_rules v = Some (rs @ rule # qs)" and "list_all (rule_accepts db' (sm_sequence m)) rs"
    and "ru_enabled rule" and "ru_validate rule db' (sm_sequence m) = Inr (Fail reason)" and "str_contains reason ''column''"
    and "io_begin (vi_apply io) = None" and "pio_store (vi_pending io) = None" and "fits_i64 (sm_sequence m)"
    and "vi_state io = (None, None)"
  shows "\<exists>v'. process_message d io m v = (v', [], Inr ()) \<and> va_applier v' = va_applier v
     \<and> synced_to (Some (sm_sequence m)) (va_state v')"
proof -
  let ?text = "show_validator_error (ValidationRuleFailed (ru_name rule) (sm_sequence m) reason)"
  have rules: "run_rules (va_rules v) db' (sm_sequence m) = Inl (ValidationRuleFailed (ru_name rule) (sm_sequence m) reason)"
    using validate_all_first [of rs db' "sm_sequence m" rule reason qs] assms(6-9) by (simp add: run_rules_def list_all_iff)
  have "apply_changesets (vd_sqlite d) (sm_sequence m) (cr_batch_id batch) 0 (cr_changesets batch) (ca_db (va_applier v)) = Inr db'"
    using assms(5) by (simp add: apply_changesets_Inr changes_of_def)
  moreover have "decompress_and_parse (vd_ext d) (changesets_from_cbor (vd_payload d)) m ''changeset batch'' = Inr batch"
    using assms(3,4) by (simp add: decompress_and_parse_Inr)
  ultimately have ap: "apply_message_with_rules (vd_ext d) (vd_payload d) (vd_sqlite d) (vi_apply io) (va_rules v) m (va_applier v)
      = (va_applier v, Inl ?text)"
    using rules assms(2,11) by (simp add: apply_message_with_rules_def apply_changeset_message_with_rules_def)
  have mm: "is_schema_mismatch ?text" unfolding rule_failure_text by (rule is_schema_mismatch_column [OF assms(10)])
  from process_deferred [OF assms(1,2) ap mm assms(12-14)] show ?thesis by blast
qed

text \<open>
  A snapshot discards the pending changesets it was to verify, whatever the verification found: with at least
  one pending changeset before the snapshot, every entry up to it is removed. The verified data is
  the compressed payload of the message, so when the engine cannot invert it, every one of them fails
  and is dropped all the same.\<close>

theorem snapshot_discards_pending:
  assumes "verify_pending_changesets_after_snapshot d io s v = (v', Inr ())"
    and "pending_ok (va_pending v)" and "(q, data, reason) \<in> set (va_pending v)" and "q < s"
    and "\<forall>(q, data, reason) \<in> set (va_pending v). \<exists>e. sq_invert (vd_sqlite d) data = Inl e"
  shows "va_pending v' = filter (\<lambda>(q, _). s < q) (va_pending v) \<and> va_applier v' = va_applier v
     \<and> ar_verified (snd (verify_changeset_chain (vd_sqlite d)
          (filter (\<lambda>p. pc_sequence p < s) (map pending_of_row (va_pending v))) (ca_db (va_applier v)))) = []"
proof -
  let ?rel = "filter (\<lambda>p. pc_sequence p < s) (map pending_of_row (va_pending v))"
  have "pending_of_row (q, data, reason) \<in> set ?rel"
    using imageI [OF assms(3), of pending_of_row] assms(4) by (simp add: pending_of_row_def)
  then have ne: "?rel \<noteq> []" "va_pending v \<noteq> []" by (metis list.set_cases list.distinct(1), use assms(3) in auto)
  have bad: "\<exists>e. invert_changeset (vd_sqlite d) (pc_data c) = Inl e" if "c \<in> set ?rel" for c
    using that assms(5) by (fastforce simp: pending_of_row_def invert_changeset_def)
  have loop: "fst (chain_loop (vd_sqlite d) cs db) = [] \<and> snd (snd (chain_loop (vd_sqlite d) cs db)) = db"
    if "set cs \<subseteq> set ?rel" for cs db
    using that bad by (cases cs) fastforce+
  have sub: "set (newest_first ?rel) \<subseteq> set ?rel" by (simp add: newest_first_def)
  have chain: "verify_changeset_chain (vd_sqlite d) ?rel (ca_db (va_applier v))
      = (ca_db (va_applier v), \<lparr>ar_verified = [], ar_failed = ar_failed (snd (verify_changeset_chain (vd_sqlite d) ?rel (ca_db (va_applier v))))\<rparr>)"
    using ne loop [OF sub, of "ca_db (va_applier v)"] by (simp add: verify_changeset_chain_def split_beta Let_def)
  obtain res where res: "verify_changeset_chain (vd_sqlite d) ?rel (ca_db (va_applier v)) = (ca_db (va_applier v), res)" "ar_verified res = []"
    using chain by (metis audit_result.select_convs(1))
  from assms(1) ne res show ?thesis
    by (auto simp: verify_pending_changesets_after_snapshot_def count_pending_def get_all_pending_def clear_up_to_def
        not_le Let_def split: sum.splits option.splits if_splits)
qed

text \<open>
  What gap detection reports. The reported number is the nearest of the ten following numbers that
  is stored; when none of them is but the storage reports a later message, it is the direct successor,
  although no message is stored under it.\<close>

theorem detect_gap_reports:
  assumes "detect_gap f n = Some s"
  shows "(\<exists>i m. 1 \<le> i \<and> i \<le> 10 \<and> s = n + of_nat i \<and> f_get f s = Inr (Some m)
            \<and> (\<forall>j. 1 \<le> j \<and> j < i \<longrightarrow> (\<forall>m. f_get f (n + of_nat j) \<noteq> Inr (Some m))))
       \<or> (s = n + 1 \<and> (\<forall>m. f_get f s \<noteq> Inr (Some m)) \<and> (\<exists>latest. f_get_latest_sequence f = Inr (Some latest) \<and> n < latest))"
proof (cases "first_available f (map (\<lambda>i. n + of_nat i) [1 ..< 11])")
  case None
  then have none: "\<forall>m. f_get f (n + of_nat i) \<noteq> Inr (Some m)" if "1 \<le> i" "i \<le> 10" for i
    using that by (fastforce simp: first_available_find find_None_iff stored_def simp del: upt_Suc)
  from none [of 1] None assms show ?thesis
    by (auto simp: detect_gap_def split: sum.splits option.splits if_splits)
next
  case (Some t)
  with assms have "find (stored f) (map (\<lambda>i. n + of_nat i) [1 ..< 11]) = Some s"
    by (simp add: detect_gap_def first_available_find)
  then obtain k where k: "k < 10" "stored f s" "s = n + of_nat (Suc k)" "\<forall>j < k. \<not> stored f (n + of_nat (Suc j))"
    by (auto simp: find_Some_iff simp del: upt_Suc of_nat_Suc)
  have "\<forall>j. 1 \<le> j \<and> j < Suc k \<longrightarrow> \<not> stored f (n + of_nat j)"
  proof (intro allI impI)
    fix j assume "1 \<le> j \<and> j < Suc k"
    then obtain i where "j = Suc i" "i < k" by (cases j) auto
    with k(4) show "\<not> stored f (n + of_nat j)" by simp
  qed
  with k show ?thesis unfolding stored_def by (intro disjI1 exI [of _ "Suc k"]) auto
qed

text \<open>
  The batch loop can spin: when the listing claims a range that contains the next number but the fetched
  batch holds no message from that number on, a round changes nothing and asks to go on at once.\<close>

theorem batched_round_spins:
  assumes "bl_caught_up bl = False" and "find_batch_containing (bl_index bl) (bl_next bl) = Some b"
    and "f_get_batch_by_path f (bi_path b) = Inr (Some batch)" and "verify_signed_batch (vd_ext d) batch = Inr ()"
    and "todo (bl_next bl) (sb_messages batch) = []"
  shows "run_batched_round d ios f False (bl, v) = ((bl, v), [], [], Again)"
proof -
  have skip: "run_batch_messages d ios ms n v = ((n, v), [], [], Inr ())" if "todo n ms = []" for ms n
    using that by (induction ms) (auto split: if_splits)
  show ?thesis
    using assms skip [OF assms(5)] by (simp add: run_batched_round_def refresh_round_def)
qed

section \<open>Witnesses\<close>

definition demo_val_deps :: "(bool, bool, u8) val_deps" where
  "demo_val_deps = \<lparr>vd_ext = demo_ext, vd_payload = demo_codec, vd_sqlite = demo_sqlite\<rparr>"

definition demo_val_io :: val_io where
  "demo_val_io = \<lparr>vi_apply = no_failure, vi_pending = \<lparr>pio_store = None, pio_get_all = None, pio_clear = None, pio_count = None\<rparr>,
     vi_state = (None, None), vi_gap = None, vi_now = 7\<rparr>"

definition demo_validator :: "u8 validator" where
  "demo_validator = in_memory_validator (replicate 64 (bit_byte True)) 0"

abbreviation demo_verifier :: signature_verifier where
  "demo_verifier \<equiv> new_verifier (replicate 64 (bit_byte True))"

lemma demo_val_fields [simp]:
  "vd_ext demo_val_deps = demo_ext" "vd_payload demo_val_deps = demo_codec" "vd_sqlite demo_val_deps = demo_sqlite"
  "vi_apply demo_val_io = no_failure" "vi_state demo_val_io = (None, None)" "pio_store (vi_pending demo_val_io) = None"
  "va_verifier demo_validator = demo_verifier" "va_rules demo_validator = None"
  "va_applier demo_validator = \<lparr>ca_db = 0, ca_db_type = InMemory\<rparr>" "va_state demo_validator = new_state_store"
  by (simp_all add: demo_val_deps_def demo_val_io_def demo_validator_def in_memory_validator_def)

lemma demo_next_sequence [simp]: "next_sequence new_state_store = Inr 0"
  using next_sequence_synced [OF synced_to_new] by simp

text \<open>Every list of requests is the content of a batch that the demo key signed.\<close>

lemma demo_signed:
  assumes "reqs \<noteq> []"
  shows "\<exists>sb. verify_signed_batch demo_ext sb = Inr () \<and> map request_of (sb_messages sb) = reqs
     \<and> (\<forall>m \<in> set (sb_messages sb). verify_message demo_ext demo_verifier m = Inr ())"
proof -
  let ?ms = "map (\<lambda>(s, t, mt, p). demo_message s t mt p True) reqs"
  have reqs: "sign_requests demo_ext True (demo_sign True) reqs = Inr ?ms"
    unfolding sign_requests_def by (rule collect_r_total) (auto simp: demo_new_signed_message)
  have seq: "\<exists>s. message_sequence demo_ext (?ms ! i) = Inr s" if "i < length reqs" for i
    using sign_requests_sequence [OF demo_cose reqs that] by blast
  have "\<exists>s. message_sequence demo_ext (hd ?ms) = Inr s" "\<exists>s. message_sequence demo_ext (last ?ms) = Inr s"
    using seq [of 0] seq [of "length reqs - 1"] assms by (simp_all add: hd_conv_nth last_conv_nth)
  then obtain b where b: "new_batch demo_ext ?ms 9 (verifying_key_to_bytes demo_ext True) (demo_sign True) = Inr b"
    using assms by (auto simp: new_batch_def Let_def demo_sign_def)
  obtain sb where sb: "to_signed_batch demo_ext b = Inr sb" "verify_all_signed demo_ext sb = Inr ()"
    "map request_of (sb_messages sb) = reqs"
    "\<forall>sm \<in> set (sb_messages sb). sm_signer sm = ''0x'' @ hex_encode demo_ext (verifying_key_to_bytes demo_ext True)"
    using sequenced_batch_converts [OF demo_ecdsa demo_cose demo_hex demo_sig_structure demo_wire demo_prehash
      demo_signer reqs b] by (elim exE conjE) (rule that)
  have v: "verify_signed_batch demo_ext sb = Inr ()" and m: "\<forall>m \<in> set (sb_messages sb). verify_signature demo_ext m = Inr ()"
    using sb(2) by (auto simp: verify_all_signed_def bind_r_eq_Inr verify_each_Inr)
  have "verify_message demo_ext demo_verifier m = Inr ()" if "m \<in> set (sb_messages sb)" for m
    using sequenced_message_accepted [OF demo_hex demo_hex_length demo_ecdsa, of m True] m sb(4) that
    unfolding demo_verifying_key_to_bytes by blast
  with v sb(3) show ?thesis by (intro exI [of _ sb] conjI ballI)
qed

lemma demo_process:
  assumes "verify_message demo_ext (va_verifier v) m = Inr ()" and "sm_message_type m = Changeset" and "sm_payload m = [1]"
    and "va_rules v = None" and "va_applier v = \<lparr>ca_db = db, ca_db_type = InMemory\<rparr>"
  shows "process_message demo_val_deps demo_val_io m v =
    (v\<lparr>va_applier := \<lparr>ca_db = db + 1, ca_db_type = InMemory\<rparr>,
       va_state := fst (record_sync (None, None) (vi_now demo_val_io) (sm_sequence m) (va_state v))\<rparr>, [], Inr ())"
  using demo_apply_message [OF assms(2,3), of db] record_sync_None [of "vi_now demo_val_io" "sm_sequence m" "va_state v"]
  by (simp add: process_message_def assms extract_withdrawal_def apply_message_with_audit_def record_progress_def split_beta Let_def)

text \<open>A batch with a hole: numbers 0 and 2. Both are synced, and the position is 2.\<close>

lemma demo_hole:
  "\<exists>sb v'. verify_signed_batch demo_ext sb = Inr () \<and> map sm_sequence (sb_messages sb) = [0, 2]
     \<and> sync_batch demo_val_deps (\<lambda>_. demo_val_io) sb demo_validator = (v', [], Inr 2)"
proof -
  obtain sb where sb: "verify_signed_batch demo_ext sb = Inr ()"
    "map request_of (sb_messages sb) = [(0, 7, Changeset, [1]), (2, 7, Changeset, [1])]"
    "\<forall>m \<in> set (sb_messages sb). verify_message demo_ext demo_verifier m = Inr ()"
    using demo_signed [of "[(0, 7, Changeset, [1]), (2, 7, Changeset, [1])]"] by auto
  then obtain m1 m2 where ms: "sb_messages sb = [m1, m2]" by (cases "sb_messages sb") auto
  with sb have f: "sm_sequence m1 = 0" "sm_message_type m1 = Changeset" "sm_payload m1 = [1]"
    "sm_sequence m2 = 2" "sm_message_type m2 = Changeset" "sm_payload m2 = [1]"
    "verify_message demo_ext demo_verifier m1 = Inr ()" "verify_message demo_ext demo_verifier m2 = Inr ()"
    by (simp_all add: request_of_def)
  obtain v1 where p1: "process_message demo_val_deps demo_val_io m1 demo_validator = (v1, [], Inr ())"
    and v1: "va_verifier v1 = demo_verifier" "va_rules v1 = None" "va_applier v1 = \<lparr>ca_db = 0 + 1, ca_db_type = InMemory\<rparr>"
    using demo_process [of demo_validator m1 0] f by simp
  obtain v2 where p2: "process_message demo_val_deps demo_val_io m2 v1 = (v2, [], Inr ())"
    using demo_process [of v1 m2 "0 + 1"] f v1 by simp
  have "sync_batch demo_val_deps (\<lambda>_. demo_val_io) sb demo_validator = (v2, [], Inr 2)"
    by (simp add: sync_batch_def sb(1) ms f p1 p2)
  then show ?thesis using sb(1) ms f by (intro exI [of _ sb] exI [of _ v2]) simp
qed

theorem sync_batch_exact_witness:
  "\<exists>sb v'. sync_batch demo_val_deps (\<lambda>_. demo_val_io) sb demo_validator = (v', [], Inr 2)
     \<and> map sm_sequence (sb_messages sb) = [0, 2] \<and> synced_to (Some 2) (va_state v') \<and> get_gaps (va_state v') = []"
proof -
  obtain sb v' where s: "map sm_sequence (sb_messages sb) = [0, 2]"
    "sync_batch demo_val_deps (\<lambda>_. demo_val_io) sb demo_validator = (v', [], Inr 2)"
    using demo_hole by (elim exE conjE) (rule that)
  obtain m1 m2 where ms: "sb_messages sb = [m1, m2]" using s(1) by (cases "sb_messages sb") auto
  have st: "synced_to None (va_state demo_validator)" and n: "next_sequence (va_state demo_validator) = Inr 0" by simp_all
  from sync_batch_exact [OF s(2) st n] s ms show ?thesis
    by (intro exI [of _ sb] exI [of _ v']) (simp add: get_gaps_def new_state_store_def)
qed

text \<open>A mock storage that holds one message.\<close>

definition demo_fetcher :: "signed_message \<Rightarrow> fetcher" where
  "demo_fetcher m = mock_as_fetcher (mock_add_message m new_mock)"

lemma demo_fetcher_get [simp]: "f_get (demo_fetcher m) s = Inr (if s = sm_sequence m then Some m else None)"
  by (simp add: demo_fetcher_def mock_as_fetcher_def mock_get_def mock_add_message_def new_mock_def)

lemma demo_latest [simp]: "f_get_latest_sequence (demo_fetcher m) = Inr (Some (sm_sequence m))"
  by (simp add: demo_fetcher_def mock_as_fetcher_def mock_get_latest_sequence_def mock_add_message_def new_mock_def max_option_def)

lemma demo_single:
  "\<exists>sb m v'. sb_messages sb = [m] \<and> sm_sequence m = 0 \<and> sm_message_type m = Changeset \<and> sm_payload m = [1]
     \<and> verify_message demo_ext demo_verifier m = Inr () \<and> verify_signed_batch demo_ext sb = Inr ()
     \<and> sync_batch demo_val_deps (\<lambda>_. demo_val_io) sb demo_validator = (v', [], Inr 1)"
proof -
  obtain sb where sb: "verify_signed_batch demo_ext sb = Inr ()" "map request_of (sb_messages sb) = [(0, 7, Changeset, [1])]"
    "\<forall>m \<in> set (sb_messages sb). verify_message demo_ext demo_verifier m = Inr ()"
    using demo_signed [of "[(0, 7, Changeset, [1])]"] by auto
  then obtain m where ms: "sb_messages sb = [m]" by (cases "sb_messages sb") auto
  with sb have f: "sm_sequence m = 0" "sm_message_type m = Changeset" "sm_payload m = [1]"
    "verify_message demo_ext demo_verifier m = Inr ()" by (simp_all add: request_of_def)
  obtain v1 where p: "process_message demo_val_deps demo_val_io m demo_validator = (v1, [], Inr ())"
    using demo_process [of demo_validator m 0] f by simp
  have "sync_batch demo_val_deps (\<lambda>_. demo_val_io) sb demo_validator = (v1, [], Inr 1)"
    by (simp add: sync_batch_def sb(1) ms f p)
  with sb(1) ms f show ?thesis by (intro exI [of _ sb] exI [of _ m] exI [of _ v1] conjI)
qed

theorem batch_sync_equals_single_sync_witness:
  "\<exists>sb m v'. sync_batch demo_val_deps (\<lambda>_. demo_val_io) sb demo_validator = (v', [], Inr 1)
     \<and> sync_to_head 2 demo_val_deps (\<lambda>_. demo_val_io) (demo_fetcher m) demo_validator = Some (v', [], Inr 1)"
proof -
  obtain sb m v' where s: "sb_messages sb = [m]" "sm_sequence m = 0"
    "sync_batch demo_val_deps (\<lambda>_. demo_val_io) sb demo_validator = (v', [], Inr 1)"
    using demo_single by (elim exE conjE) (rule that)
  have "sync_to_head (Suc 1) demo_val_deps (\<lambda>_. demo_val_io) (demo_fetcher m) demo_validator = Some (v', [], Inr 1)"
    by (rule batch_sync_equals_single_sync [OF s(3), of 0]) (simp_all add: s)
  with s(3) show ?thesis by (intro exI [of _ sb] exI [of _ m] exI [of _ v']) (simp add: numeral_2_eq_2)
qed


definition demo_rule :: "u8 validation_rule" where
  "demo_rule = \<lparr>ru_name = ''limits'', ru_enabled = True, ru_validate = (\<lambda>_ _. Inr (Fail ''bad column x''))\<rparr>"

theorem rule_rejection_recorded_as_synced_witness:
  "\<exists>m v'. process_message demo_val_deps demo_val_io m (set_rules [demo_rule] demo_validator) = (v', [], Inr ())
     \<and> ca_db (va_applier v') = 0 \<and> synced_to (Some 0) (va_state v')"
proof -
  obtain sb :: signed_batch and m where m: "sb_messages sb = [m]" "sm_sequence m = 0" "sm_message_type m = Changeset" "sm_payload m = [1]"
    "verify_message demo_ext demo_verifier m = Inr ()"
    using demo_single by (elim exE conjE) (rule that)
  let ?v = "set_rules [demo_rule] demo_validator"
  have rep: "replay demo_sqlite (changes_of demo_changesets) 0 = Some 1"
    using demo_replay [of "[1, 2]" 0] by (simp add: changes_of_def demo_changesets_def)
  have col: "str_contains ''bad column x'' ''column''" using str_contains_middle [of "''bad ''" "''column''" "'' x''"] by simp
  have "\<exists>v'. process_message demo_val_deps demo_val_io m ?v = (v', [], Inr ()) \<and> va_applier v' = va_applier ?v
     \<and> synced_to (Some (sm_sequence m)) (va_state v')"
    by (rule rule_rejection_recorded_as_synced [where dec = "[1]" and batch = demo_changesets and db' = 1
          and rule = demo_rule and rs = "[]" and qs = "[]" and reason = "''bad column x''"])
       (use m rep col in \<open>simp_all add: set_rules_def demo_codec_def demo_rule_def no_failure_def fits_i64_def\<close>)
  then obtain v' where "process_message demo_val_deps demo_val_io m ?v = (v', [], Inr ())" "va_applier v' = va_applier ?v"
    "synced_to (Some (sm_sequence m)) (va_state v')" by blast
  then show ?thesis using m(2) by (intro exI [of _ m] exI [of _ v'] conjI) (simp_all add: set_rules_def)
qed

theorem snapshot_discards_pending_witness:
  "\<exists>v'. verify_pending_changesets_after_snapshot demo_val_deps demo_val_io 5
        (demo_validator\<lparr>va_pending := [(3, [1], ''{}''), (8, [1], ''{}'')]\<rparr>) = (v', Inr ())
     \<and> va_pending v' = [(8, [1], ''{}'')]"
proof -
  let ?v = "demo_validator\<lparr>va_pending := [(3, [1], ''{}''), (8, [1], ''{}'')]\<rparr>"
  have inv: "sq_invert demo_sqlite [1] = Inl ''malformed''" by (simp add: demo_sqlite_def)
  have "\<exists>v'. verify_pending_changesets_after_snapshot demo_val_deps demo_val_io 5 ?v = (v', Inr ())"
    by (simp add: verify_pending_changesets_after_snapshot_def count_pending_def get_all_pending_def clear_up_to_def
        demo_val_io_def fits_i64_def Let_def split_beta pending_of_row_def)
  then obtain v' where v': "verify_pending_changesets_after_snapshot demo_val_deps demo_val_io 5 ?v = (v', Inr ())" by blast
  have ok: "pending_ok (va_pending ?v)" by (simp add: pending_ok_def fits_i64_def)
  have "(3, [1], ''{}'') \<in> set (va_pending ?v)" by simp
  from snapshot_discards_pending [OF v' ok this] v' show ?thesis by (simp add: inv)
qed

theorem detect_gap_reports_witness:
  "\<exists>m. detect_gap (demo_fetcher m) 3 = Some 4 \<and> f_get (demo_fetcher m) 4 = Inr None"
proof -
  let ?m = "(demo_changeset_message 100)"
  have s: "sm_sequence ?m = 100" by (simp add: demo_changeset_message_def)
  have d: "detect_gap (demo_fetcher ?m) 3 = Some 4"
    by (simp add: detect_gap_def s upt_rec)
  from detect_gap_reports [OF d] have "f_get (demo_fetcher ?m) 4 = Inr None" by (auto simp: s)
  with d show ?thesis by blast
qed

theorem batched_round_spins_witness:
  "\<exists>f bl. run_batched_round demo_val_deps (\<lambda>_. demo_val_io) f False (bl, demo_validator) = ((bl, demo_validator), [], [], Again)"
proof -
  obtain sb where sb: "verify_signed_batch demo_ext sb = Inr ()" "map request_of (sb_messages sb) = [(0, 7, Changeset, [1])]"
    using demo_signed [of "[(0, 7, Changeset, [1])]"] by auto
  then obtain m where ms: "sb_messages sb = [m]" "sm_sequence m = 0" by (cases "sb_messages sb") (auto simp: request_of_def)
  let ?ix = "[new_batch_info 0 5 (show_u64 (sb_start_sequence sb))]"
  let ?f = "mock_as_fetcher (mock_add_batch sb new_mock_batch_mode)"
  let ?bl = "\<lparr>bl_index = ?ix, bl_next = 3, bl_caught_up = False\<rparr>"
  have ok: "index_ok ?ix" by (simp add: index_ok_def new_batch_info_def)
  have find: "find_batch_containing (bl_index ?bl) (bl_next ?bl) = Some (new_batch_info 0 5 (show_u64 (sb_start_sequence sb)))"
    by (simp add: find_batch_containing_find [OF ok]) (simp add: batch_contains_def new_batch_info_def)
  have get: "f_get_batch_by_path ?f (bi_path (new_batch_info 0 5 (show_u64 (sb_start_sequence sb)))) = Inr (Some sb)"
    by (simp add: mock_as_fetcher_def mock_get_batch_by_path_def new_batch_info_def mock_get_batch_def mock_add_batch_def
        new_mock_batch_mode_def new_mock_def)
  have "run_batched_round demo_val_deps (\<lambda>_. demo_val_io) ?f False (?bl, demo_validator) = ((?bl, demo_validator), [], [], Again)"
    by (rule batched_round_spins [OF _ find get]) (simp_all add: sb ms)
  then show ?thesis by blast
qed

end
