(* ===== verification/Bridge_Signer.thy ===== *)
theory Bridge_Signer
  imports Inbox Validator "HOL-Library.AList_Mapping"
begin

text \<open>
  The validator's Bridge signer: \<open>crates/synddb-validator/src/bridge/signer.rs\<close> and
  \<open>signature_store.rs\<close>, the signature endpoints of \<open>http/signatures.rs\<close>, the status endpoints of
  \<open>http/api.rs\<close>, the Bridge part of \<open>config.rs\<close>, and the functions of \<open>main.rs\<close> that join the signer to
  the sync loop.

  The store is a hash map of signatures by message id and the list of ids not yet submitted; it is
  an instance of the machine interface with the invariant that the pending ids are distinct and all have
  a signature. Parsing an address is a parameter.
\<close>

section \<open>Configuration\<close>

record bridge_config =
  bc_bridge_signer :: bool
  bc_bridge_address :: "string option"
  bc_bridge_chain_id :: "u64 option"

definition local_CHAIN_ID :: u64 where "local_CHAIN_ID = 31337"

definition local_BRIDGE_CONTRACT :: string where
  "local_BRIDGE_CONTRACT = ''0xCf7Ed3AccA5a467e9e704C703E8D87F634fB0Fc9''"

definition validate_bridge_config :: "bridge_config \<Rightarrow> string + unit" where
  "validate_bridge_config c =
     (if \<not> bc_bridge_signer c then Inr ()
      else let is_local = (bc_bridge_chain_id c = Some local_CHAIN_ID)
           in if bc_bridge_address c = None \<and> \<not> is_local
              then Inl ''--bridge-address is required when --bridge-signer is enabled''
              else if bc_bridge_chain_id c = None
              then Inl ''--bridge-chain-id is required when --bridge-signer is enabled''
              else Inr ())"

definition bridge_address_with_local_fallback :: "bridge_config \<Rightarrow> string option" where
  "bridge_address_with_local_fallback c =
     (case bc_bridge_address c of
        Some a \<Rightarrow> Some a
      | None \<Rightarrow> if bc_bridge_chain_id c = Some local_CHAIN_ID then Some local_BRIDGE_CONTRACT else None)"

section \<open>The signer\<close>

record message_signature =
  ms_message_id :: string
  ms_signature :: bytes
  ms_signer :: string
  ms_signed_at :: u64

record bridge_signer =
  bs_key_manager :: evm_key_manager
  bs_bridge_contract :: string
  bs_chain_id :: u64

text \<open>\<open>parse_address\<close> is alloy's, giving the address in its printed form.\<close>

definition new_bridge_signer :: "(string \<Rightarrow> string option) \<Rightarrow> evm_key_manager \<Rightarrow> bridge_config
  \<Rightarrow> anyhow + bridge_signer" where
  "new_bridge_signer parse_address generated c =
     bind_r (ok_or ''--bridge-address is required (or use --bridge-chain-id 31337 for local default)''
               (bridge_address_with_local_fallback c)) (\<lambda>a.
     bind_r (ok_or ''Invalid bridge contract address'' (parse_address a)) (\<lambda>bridge_contract.
     bind_r (ok_or ''--bridge-chain-id is required'' (bc_bridge_chain_id c)) (\<lambda>chain_id.
     Inr \<lparr>bs_key_manager = generated, bs_bridge_contract = bridge_contract, bs_chain_id = chain_id\<rparr>)))"

definition eth_signed_message_hash :: "('vk, 'sg) ext \<Rightarrow> bytes \<Rightarrow> bytes" where
  "eth_signed_message_hash x message =
     keccak256 x (25 # str_bytes ''Ethereum Signed Message:'' @ [10] @ str_bytes ''32'' @ message)"

definition create_message_signature :: "('vk, 'sg) ext \<Rightarrow> u64 \<Rightarrow> bytes \<Rightarrow> alloy_signature \<Rightarrow> bridge_signer
  \<Rightarrow> message_signature" where
  "create_message_signature x now message_id sig s =
     \<lparr>ms_message_id = ''0x'' @ hex_encode x message_id,
      ms_signature = as_r sig @ as_s sig @ [if as_v sig then 28 else 27],
      ms_signer = km_address (bs_key_manager s), ms_signed_at = now\<rparr>"

definition sign_message_sync :: "('vk, 'sg) ext \<Rightarrow> u64 \<Rightarrow> bytes \<Rightarrow> bridge_signer \<Rightarrow> anyhow + message_signature" where
  "sign_message_sync x now message_id s =
     bind_r (map_err (\<lambda>_. ''Failed to sign message'')
               (sign_hash_sync (bs_key_manager s) (eth_signed_message_hash x message_id))) (\<lambda>sig.
     Inr (create_message_signature x now message_id sig s))"

definition hex_bytes_serialize :: "('vk, 'sg) ext \<Rightarrow> bytes \<Rightarrow> string" where
  "hex_bytes_serialize x bs = ''0x'' @ hex_encode x bs"

definition hex_bytes_deserialize :: "('vk, 'sg) ext \<Rightarrow> string \<Rightarrow> string + bytes" where
  "hex_bytes_deserialize x s = hex_decode x (strip_0x s)"

section \<open>The signature store\<close>

record signature_data =
  sg_signatures :: "(string, message_signature) mapping"
  sg_pending :: "string list"

definition new_signature_store :: signature_data where
  "new_signature_store = \<lparr>sg_signatures = Mapping.empty, sg_pending = []\<rparr>"

definition store_signature :: "message_signature \<Rightarrow> signature_data \<Rightarrow> signature_data" where
  "store_signature sig d =
     (let i = ms_message_id sig;
          is_new = (Mapping.lookup (sg_signatures d) i = None);
          d' = d\<lparr>sg_signatures := Mapping.update i sig (sg_signatures d)\<rparr>
      in if is_new then d'\<lparr>sg_pending := sg_pending d' @ [i]\<rparr> else d')"

definition get_signature :: "string \<Rightarrow> signature_data \<Rightarrow> message_signature option" where
  "get_signature i d = Mapping.lookup (sg_signatures d) i"

definition pending_ids :: "signature_data \<Rightarrow> string list" where
  "pending_ids d = sg_pending d"

definition pending_signatures :: "signature_data \<Rightarrow> message_signature list" where
  "pending_signatures d = List.map_filter (Mapping.lookup (sg_signatures d)) (sg_pending d)"

definition mark_submitted :: "string \<Rightarrow> signature_data \<Rightarrow> signature_data" where
  "mark_submitted i d = d\<lparr>sg_pending := filter (\<lambda>j. j \<noteq> i) (sg_pending d)\<rparr>"

definition remove_signature :: "string \<Rightarrow> signature_data \<Rightarrow> signature_data \<times> message_signature option" where
  "remove_signature i d =
     (d\<lparr>sg_pending := filter (\<lambda>j. j \<noteq> i) (sg_pending d), sg_signatures := Mapping.delete i (sg_signatures d)\<rparr>,
      Mapping.lookup (sg_signatures d) i)"

definition store_len :: "signature_data \<Rightarrow> nat" where
  "store_len d = Mapping.size (sg_signatures d)"

definition store_is_empty :: "signature_data \<Rightarrow> bool" where
  "store_is_empty d \<longleftrightarrow> store_len d = 0"

definition pending_count :: "signature_data \<Rightarrow> nat" where
  "pending_count d = length (sg_pending d)"

datatype store_call = CStore message_signature | CMarkSubmitted string | CRemove string

fun store_step :: "store_call \<Rightarrow> signature_data \<Rightarrow> signature_data" where
  "store_step (CStore sig) d = store_signature sig d"
| "store_step (CMarkSubmitted i) d = mark_submitted i d"
| "store_step (CRemove i) d = fst (remove_signature i d)"

section \<open>Signature endpoints\<close>

record signature_api_state =
  sa_store :: signature_data
  sa_signer_address :: string
  sa_bridge_contract :: string
  sa_chain_id :: u64

definition info_handler :: "signature_api_state \<Rightarrow> string \<times> string \<times> u64" where
  "info_handler st = (sa_signer_address st, sa_bridge_contract st, sa_chain_id st)"

definition pending_handler :: "signature_api_state \<Rightarrow> nat \<times> string list" where
  "pending_handler st = (let message_ids = pending_ids (sa_store st) in (length message_ids, message_ids))"

definition get_signature_handler :: "string \<Rightarrow> signature_api_state \<Rightarrow> nat \<times> message_signature option" where
  "get_signature_handler message_id st =
     (let normalized_id = (if take 2 message_id = ''0x'' then message_id else ''0x'' @ message_id)
      in case get_signature normalized_id (sa_store st) of None \<Rightarrow> (404, None) | Some sig \<Rightarrow> (200, Some sig))"

definition list_signatures_handler :: "signature_api_state \<Rightarrow> message_signature list" where
  "list_signatures_handler st = pending_signatures (sa_store st)"

section \<open>Status endpoints\<close>

record val_app_state =
  vap_running :: bool
  vap_last_sequence :: u64
  vap_last_sync_time :: u64

definition NOT_SYNCED :: u64 where "NOT_SYNCED = - 1"

definition new_val_app_state :: val_app_state where
  "new_val_app_state = \<lparr>vap_running = False, vap_last_sequence = NOT_SYNCED, vap_last_sync_time = 0\<rparr>"

definition set_running :: "bool \<Rightarrow> val_app_state \<Rightarrow> val_app_state" where
  "set_running b st = st\<lparr>vap_running := b\<rparr>"

definition update_sync_status :: "u64 option \<Rightarrow> u64 \<Rightarrow> val_app_state \<Rightarrow> val_app_state" where
  "update_sync_status last_sequence last_sync_time st =
     st\<lparr>vap_last_sequence := (case last_sequence of None \<Rightarrow> NOT_SYNCED | Some s \<Rightarrow> s), vap_last_sync_time := last_sync_time\<rparr>"

definition app_last_sequence :: "val_app_state \<Rightarrow> u64 option" where
  "app_last_sequence st = (if vap_last_sequence st = NOT_SYNCED then None else Some (vap_last_sequence st))"

definition app_next_sequence :: "val_app_state \<Rightarrow> u64" where
  "app_next_sequence st = (case app_last_sequence st of None \<Rightarrow> 0 | Some s \<Rightarrow> s + 1)"

record val_status_response =
  vt_running :: bool
  vt_last_sequence :: "u64 option"
  vt_last_sync_time :: u64
  vt_next_sequence :: u64

definition status_handler :: "val_app_state \<Rightarrow> val_status_response" where
  "status_handler st = \<lparr>vt_running = vap_running st, vt_last_sequence = app_last_sequence st,
     vt_last_sync_time = vap_last_sync_time st, vt_next_sequence = app_next_sequence st\<rparr>"

definition health_handler :: "val_app_state \<Rightarrow> string \<times> bool" where
  "health_handler st = (''healthy'', vap_running st)"

definition ready_handler :: "val_app_state \<Rightarrow> nat \<times> string \<times> bool" where
  "ready_handler st = (if vap_running st then (200, ''ready'', True) else (503, ''not_ready'', False))"

section \<open>The sync loop with signing\<close>

definition request_id_to_message_id :: "('vk, 'sg) ext \<Rightarrow> string \<Rightarrow> bytes" where
  "request_id_to_message_id x request_id =
     (let hashed = keccak256 x (str_bytes request_id)
      in if take 2 request_id = ''0x'' \<and> length request_id = 66
         then (case hex_decode x (drop 2 request_id) of
                 Inr bs \<Rightarrow> if length bs = 32 then bs else hashed
               | Inl _ \<Rightarrow> hashed)
         else hashed)"

definition withdrawal_callback :: "('vk, 'sg) ext \<Rightarrow> u64 \<Rightarrow> bridge_signer option \<Rightarrow> withdrawal_request
  \<Rightarrow> signature_data \<Rightarrow> signature_data" where
  "withdrawal_callback x now signer w d =
     (case signer of
        None \<Rightarrow> d
      | Some s \<Rightarrow> (case sign_message_sync x now (request_id_to_message_id x (wq_request_id w)) s of
                     Inr sig \<Rightarrow> store_signature sig d
                   | Inl _ \<Rightarrow> d))"

text \<open>
  The loop is \<open>sync_to_head\<close>'s, with the callback on every withdrawal, in the order in which the
  validator reports them; the callback does not read or change the validator.\<close>

definition sync_to_head_with_signing :: "nat \<Rightarrow> ('vk, 'sg, 'db) val_deps \<Rightarrow> (u64 \<Rightarrow> val_io) \<Rightarrow> fetcher \<Rightarrow> u64
  \<Rightarrow> bridge_signer option \<Rightarrow> 'db validator \<times> signature_data
  \<Rightarrow> (('db validator \<times> signature_data) \<times> (anyhow + nat)) option" where
  "sync_to_head_with_signing fuel d ios f now signer s =
     (let (v, store) = s
      in case next_sequence (va_state v) of
           Inl e \<Rightarrow> Some ((v, store), Inl e)
         | Inr n \<Rightarrow> map_option (\<lambda>(v', outs, synced).
             ((v', fold (withdrawal_callback (vd_ext d) now signer) outs store), Inr synced))
             (sync_to_head_loop fuel d ios f n v))"

section \<open>Lemmas of the store\<close>

definition store_inv :: "signature_data \<Rightarrow> bool" where
  "store_inv d \<longleftrightarrow> distinct (sg_pending d)
     \<and> (\<forall>i \<in> set (sg_pending d). Mapping.lookup (sg_signatures d) i \<noteq> None)
     \<and> (\<forall>i sig. Mapping.lookup (sg_signatures d) i = Some sig \<longrightarrow> ms_message_id sig = i)"

lemma lookup_update_iff:
  "Mapping.lookup (Mapping.update i v m) j = (if i = j then Some v else Mapping.lookup m j)"
  by (simp add: lookup_update')

lemma lookup_delete_iff: "Mapping.lookup (Mapping.delete i m) j = (if i = j then None else Mapping.lookup m j)"
  by (simp add: lookup_delete lookup_delete_neq)

lemma store_signature_get:
  "get_signature i (store_signature sig d) = (if i = ms_message_id sig then Some sig else get_signature i d)"
  by (simp add: store_signature_def get_signature_def Let_def lookup_update_iff)

lemma store_signature_pending:
  "sg_pending (store_signature sig d) =
     sg_pending d @ (if get_signature (ms_message_id sig) d = None then [ms_message_id sig] else [])"
  by (simp add: store_signature_def get_signature_def Let_def)

lemma store_step_inv: "store_inv d \<Longrightarrow> store_inv (store_step c d)"
  by (cases c)
     (auto simp: store_inv_def store_signature_def Let_def lookup_update_iff mark_submitted_def remove_signature_def
       lookup_delete_iff split: if_splits)

interpretation sigs: machine store_step store_inv "\<lambda>_ _. True"
  by unfold_locales (rule store_step_inv)

lemma run_store_inv: "store_inv (run store_step calls new_signature_store)"
proof -
  have "run_ok store_step (\<lambda>_ _. True) cs d" for cs d by (induction cs arbitrary: d) auto
  moreover have "store_inv new_signature_store" by (simp add: store_inv_def new_signature_store_def lookup_empty)
  ultimately show ?thesis by (rule sigs.run_inv [rotated])
qed

lemma pending_signatures_ids:
  assumes "store_inv d"
  shows "map ms_message_id (pending_signatures d) = pending_ids d"
proof -
  have "map ms_message_id (List.map_filter (Mapping.lookup (sg_signatures d)) is) = is"
    if "set is \<subseteq> set (sg_pending d)" for "is"
    using that assms by (induction "is") (auto simp: store_inv_def map_filter_simps split: option.splits)
  then show ?thesis by (simp add: pending_signatures_def pending_ids_def)
qed

lemma pending_count_le: "store_inv d \<Longrightarrow> finite (Mapping.keys (sg_signatures d)) \<Longrightarrow> pending_count d \<le> store_len d"
proof -
  assume i: "store_inv d" and f: "finite (Mapping.keys (sg_signatures d))"
  have "card (set (sg_pending d)) \<le> card (Mapping.keys (sg_signatures d))"
    using i by (intro card_mono f) (auto simp: store_inv_def keys_dom_lookup)
  moreover have "distinct (sg_pending d)" using i by (simp add: store_inv_def)
  ultimately show ?thesis using f by (simp add: pending_count_def store_len_def distinct_card Mapping.size_def)
qed

text \<open>
  However signatures are stored, marked as submitted and removed, the relayer's list names each
  pending message once, and the signatures it downloads are exactly those of the listed messages, in the
  same order.\<close>

theorem pending_signatures_complete:
  "distinct (pending_ids (run store_step calls new_signature_store))
   \<and> map ms_message_id (pending_signatures (run store_step calls new_signature_store))
       = pending_ids (run store_step calls new_signature_store)
   \<and> (\<forall>i. i \<in> set (pending_ids (run store_step calls new_signature_store)) \<longrightarrow>
        get_signature i (run store_step calls new_signature_store) \<noteq> None)"
  using run_store_inv [of calls] pending_signatures_ids [OF run_store_inv]
  by (simp add: store_inv_def pending_ids_def get_signature_def)

section \<open>Signing while syncing\<close>

text \<open>What the signer makes for a withdrawal, when its key signs.\<close>

lemma callback_stores:
  assumes "sign_message_sync x now (request_id_to_message_id x (wq_request_id w)) s = Inr sig"
  shows "withdrawal_callback x now (Some s) w d = store_signature sig d"
  using assms by (simp add: withdrawal_callback_def)

lemma callback_keeps:
  assumes "get_signature i d \<noteq> None"
  shows "get_signature i (withdrawal_callback x now signer w d) \<noteq> None"
  using assms by (auto simp: withdrawal_callback_def store_signature_get split: option.splits sum.splits)

lemma callbacks_keep: "get_signature i d \<noteq> None \<Longrightarrow> get_signature i (fold (withdrawal_callback x now signer) ws d) \<noteq> None"
proof (induction ws arbitrary: d)
  case (Cons w ws)
  from Cons.IH [OF callback_keeps [OF Cons.prems]] show ?case by simp
qed simp

lemma sign_message_sync_id:
  "sign_message_sync x now i s = Inr sig \<Longrightarrow> ms_message_id sig = ''0x'' @ hex_encode x i"
  by (auto simp: sign_message_sync_def create_message_signature_def bind_r_eq_Inr)

definition signed_for :: "('vk, 'sg) ext \<Rightarrow> bridge_signer \<Rightarrow> bytes \<Rightarrow> message_signature \<Rightarrow> bool" where
  "signed_for x s message_id sig \<longleftrightarrow>
     (\<exists>a. km_signer (bs_key_manager s) (eth_signed_message_hash x message_id) = Inr a
        \<and> ms_signature sig = as_r a @ as_s a @ [if as_v a then 28 else 27])
     \<and> ms_message_id sig = ''0x'' @ hex_encode x message_id"

lemma sign_message_sync_signed: "sign_message_sync x now i s = Inr sig \<Longrightarrow> signed_for x s i sig"
  by (auto simp: sign_message_sync_def create_message_signature_def signed_for_def bind_r_eq_Inr map_err_eq_Inr sign_hash_sync_def)

lemma sign_message_sync_total:
  assumes "\<forall>h. \<exists>a. km_signer (bs_key_manager s) h = Inr a"
  shows "\<exists>sig. sign_message_sync x now i s = Inr sig"
proof -
  obtain a where "km_signer (bs_key_manager s) (eth_signed_message_hash x i) = Inr a" using assms by blast
  then show ?thesis by (simp add: sign_message_sync_def sign_hash_sync_def)
qed

text \<open>Every signature of the store is one the signer makes for the message it is stored under.\<close>

definition store_signed :: "('vk, 'sg) ext \<Rightarrow> bridge_signer \<Rightarrow> signature_data \<Rightarrow> bool" where
  "store_signed x s d \<longleftrightarrow> (\<forall>i sig. get_signature i d = Some sig \<longrightarrow> (\<exists>m. i = ''0x'' @ hex_encode x m \<and> signed_for x s m sig))"

lemma callback_signed: "store_signed x s d \<Longrightarrow> store_signed x s (withdrawal_callback x now (Some s) w d)"
  by (auto simp: store_signed_def withdrawal_callback_def store_signature_get sign_message_sync_id
      dest: sign_message_sync_signed split: sum.splits)

lemma callbacks_signed: "store_signed x s d \<Longrightarrow> store_signed x s (fold (withdrawal_callback x now (Some s)) ws d)"
  by (induction ws arbitrary: d) (simp_all add: callback_signed)

lemma callbacks_store:
  assumes "\<forall>h. \<exists>a. km_signer (bs_key_manager s) h = Inr a" and "w \<in> set ws"
  shows "get_signature (''0x'' @ hex_encode x (request_id_to_message_id x (wq_request_id w)))
           (fold (withdrawal_callback x now (Some s)) ws d) \<noteq> None"
  using assms(2)
proof (induction ws arbitrary: d)
  case (Cons v ws)
  show ?case
  proof (cases "w \<in> set ws")
    case True
    with Cons.IH show ?thesis by simp
  next
    case False
    with Cons.prems have "v = w" by simp
    moreover obtain sig where sig: "sign_message_sync x now (request_id_to_message_id x (wq_request_id w)) s = Inr sig"
      using sign_message_sync_total [OF assms(1)] by blast
    then have "get_signature (''0x'' @ hex_encode x (request_id_to_message_id x (wq_request_id w)))
        (withdrawal_callback x now (Some s) w d) \<noteq> None"
      by (simp add: callback_stores [OF sig] store_signature_get sign_message_sync_id [OF sig])
    ultimately show ?thesis by (simp add: callbacks_keep)
  qed
qed simp

text \<open>
  C13: A validator with a working key that syncs to the head has, for every withdrawal the sync reported,
  a signature in the store, made by its key over the EIP-191 hash of the message id.\<close>

theorem synced_withdrawals_signed:
  assumes "\<forall>h. \<exists>a. km_signer (bs_key_manager s) h = Inr a"
    and "next_sequence (va_state v) = Inr n" and "sync_to_head_loop fuel d ios f n v = Some (v', outs, synced)"
    and "store_signed (vd_ext d) s store" and "\<forall>b. hex_decode (vd_ext d) (hex_encode (vd_ext d) b) = Inr b"
  shows "\<exists>store'. sync_to_head_with_signing fuel d ios f now (Some s) (v, store) = Some ((v', store'), Inr synced)
     \<and> (\<forall>w \<in> set outs. \<exists>sig. get_signature (''0x'' @ hex_encode (vd_ext d)
             (request_id_to_message_id (vd_ext d) (wq_request_id w))) store' = Some sig
          \<and> signed_for (vd_ext d) s (request_id_to_message_id (vd_ext d) (wq_request_id w)) sig)"
proof -
  let ?x = "vd_ext d"
  let ?store = "fold (withdrawal_callback ?x now (Some s)) outs store"
  let ?id = "\<lambda>w. request_id_to_message_id ?x (wq_request_id w)"
  have inj: "hex_encode ?x a = hex_encode ?x b \<Longrightarrow> a = b" for a b using assms(5) by (metis sum.inject(2))
  have signed: "store_signed ?x s ?store" by (rule callbacks_signed [OF assms(4)])
  have "\<exists>sig. get_signature (''0x'' @ hex_encode ?x (?id w)) ?store = Some sig \<and> signed_for ?x s (?id w) sig"
    if w: "w \<in> set outs" for w
  proof -
    obtain sig where sig: "get_signature (''0x'' @ hex_encode ?x (?id w)) ?store = Some sig"
      using callbacks_store [OF assms(1) w, of ?x now store] by blast
    with signed obtain m where "''0x'' @ hex_encode ?x (?id w) = ''0x'' @ hex_encode ?x m" "signed_for ?x s m sig"
      unfolding store_signed_def by blast
    with inj [of "?id w" m] sig show ?thesis by simp
  qed
  then show ?thesis
    using assms(2,3) by (intro exI [of _ ?store] conjI ballI) (simp_all add: sync_to_head_with_signing_def)
qed

section \<open>Message ids of the sequencer and the validator\<close>

text \<open>What hex decodes: exactly the digit strings of even length, two digits for a byte.\<close>

definition hex_decode_ok :: "('vk, 'sg) ext \<Rightarrow> bool" where
  "hex_decode_ok x \<longleftrightarrow> (\<forall>s. if even (length s) \<and> list_all is_ascii_hexdigit s
     then \<exists>bs. hex_decode x s = Inr bs \<and> 2 * length bs = length s else \<exists>e. hex_decode x s = Inl e)"

definition full_id :: "string \<Rightarrow> bool" where
  "full_id i \<longleftrightarrow> take 2 i = ''0x'' \<and> length i = 66 \<and> list_all is_ascii_hexdigit (drop 2 i)"

lemma strip_0x_take: "take 2 i = ''0x'' \<Longrightarrow> strip_0x i = drop 2 i"
  by (cases i; cases "List.tl i") (auto simp: strip_0x_def)

lemma validator_id:
  assumes "hex_decode_ok x"
  shows "full_id i \<Longrightarrow> hex_decode x (drop 2 i) = Inr (request_id_to_message_id x i)"
    and "\<not> full_id i \<Longrightarrow> request_id_to_message_id x i = keccak256 x (str_bytes i)"
proof -
  have d: "if even (length s) \<and> list_all is_ascii_hexdigit s
     then \<exists>bs. hex_decode x s = Inr bs \<and> 2 * length bs = length s else \<exists>e. hex_decode x s = Inl e" for s
    using assms unfolding hex_decode_ok_def by blast
  show "full_id i \<Longrightarrow> hex_decode x (drop 2 i) = Inr (request_id_to_message_id x i)"
    using d [of "drop 2 i"] by (auto simp: full_id_def request_id_to_message_id_def)
  show "\<not> full_id i \<Longrightarrow> request_id_to_message_id x i = keccak256 x (str_bytes i)"
    using d [of "drop 2 i"] by (auto simp: full_id_def request_id_to_message_id_def Let_def split: sum.splits if_splits)
qed

text \<open>
  The sequencer and the validators derive the same Bridge message id from a request id that is 0x and 64
  hex digits, or that contains a character that is no hex digit. From every other request id (shorter or longer
  hex, or 64 digits without 0x) the sequencer takes the decoded bytes, padded or cut to 32, and the validators
  the Keccak hash of the text.\<close>

theorem bridge_message_ids:
  assumes "hex_decode_ok x"
  shows "(full_id i \<or> \<not> list_all is_ascii_hexdigit (strip_0x i) \<or> strip_0x i = [] \<longrightarrow>
           bridge_message_id x i = Inr (request_id_to_message_id x i))
    \<and> (\<not> full_id i \<and> list_all is_ascii_hexdigit (strip_0x i) \<and> strip_0x i \<noteq> [] \<and> even (length (strip_0x i)) \<longrightarrow>
           request_id_to_message_id x i = keccak256 x (str_bytes i)
           \<and> (\<exists>bs. hex_decode x (strip_0x i) = Inr bs
                \<and> bridge_message_id x i = Inr (replicate (32 - length bs) 0 @ take 32 bs)))"
proof -
  have d: "if even (length s) \<and> list_all is_ascii_hexdigit s
     then \<exists>bs. hex_decode x s = Inr bs \<and> 2 * length bs = length s else \<exists>e. hex_decode x s = Inl e" for s
    using assms unfolding hex_decode_ok_def by blast
  have nofull: "\<not> list_all is_ascii_hexdigit (strip_0x i) \<or> strip_0x i = [] \<Longrightarrow> \<not> full_id i"
    by (auto simp: full_id_def strip_0x_take)
  have agree: "bridge_message_id x i = Inr (request_id_to_message_id x i)"
    if "full_id i \<or> \<not> list_all is_ascii_hexdigit (strip_0x i) \<or> strip_0x i = []"
    using that
  proof
    assume f: "full_id i"
    then have "strip_0x i = drop 2 i" "length (drop 2 i) = 64" "list_all is_ascii_hexdigit (drop 2 i)"
      by (auto simp: full_id_def strip_0x_take)
    with validator_id(1) [OF assms f] show ?thesis by (simp add: bridge_message_id_def Let_def)
  next
    assume h: "\<not> list_all is_ascii_hexdigit (strip_0x i) \<or> strip_0x i = []"
    with validator_id(2) [OF assms nofull [OF h]] show ?thesis by (auto simp: bridge_message_id_def Let_def)
  qed
  have differ: "request_id_to_message_id x i = keccak256 x (str_bytes i)
      \<and> (\<exists>bs. hex_decode x (strip_0x i) = Inr bs \<and> bridge_message_id x i = Inr (replicate (32 - length bs) 0 @ take 32 bs))"
    if h: "\<not> full_id i \<and> list_all is_ascii_hexdigit (strip_0x i) \<and> strip_0x i \<noteq> [] \<and> even (length (strip_0x i))"
  proof -
    obtain bs where "hex_decode x (strip_0x i) = Inr bs" "2 * length bs = length (strip_0x i)"
      using d [of "strip_0x i"] h by auto
    with h validator_id(2) [OF assms, of i] show ?thesis by (auto simp: bridge_message_id_def Let_def min_def)
  qed
  from agree differ show ?thesis by blast
qed

section \<open>Status and configuration\<close>

text \<open>
  A reported position reads back, except the largest number, which is the marker for "never synced".\<close>

theorem status_roundtrip:
  "app_last_sequence (update_sync_status (Some n) t st) = (if n = - 1 then None else Some n)
   \<and> app_next_sequence (update_sync_status (Some n) t st) = n + 1
   \<and> app_next_sequence (update_sync_status None t st) = 0"
  by (simp add: update_sync_status_def app_last_sequence_def app_next_sequence_def NOT_SYNCED_def)

text \<open>A configuration that passes validation yields a signer unless its address cannot be parsed.\<close>

theorem validated_config_signs:
  assumes "validate_bridge_config c = Inr ()" and "bc_bridge_signer c"
    and "\<And>a. bridge_address_with_local_fallback c = Some a \<Longrightarrow> parse_address a \<noteq> None"
  shows "\<exists>s. new_bridge_signer parse_address km c = Inr s"
proof -
  have "bridge_address_with_local_fallback c \<noteq> None"
    using assms(1,2) by (auto simp: validate_bridge_config_def bridge_address_with_local_fallback_def split: if_splits option.splits)
  then obtain a where a: "bridge_address_with_local_fallback c = Some a" by blast
  obtain i where i: "bc_bridge_chain_id c = Some i"
    using assms(1,2) by (auto simp: validate_bridge_config_def split: if_splits)
  from assms(3) [OF a] a i show ?thesis by (auto simp: new_bridge_signer_def)
qed

section \<open>Witnesses\<close>

lemma hex_val_None: "hex_val e = None \<longleftrightarrow> \<not> is_ascii_hexdigit e"
  by (auto simp: hex_val_def is_ascii_hexdigit_def is_ascii_digit_def Let_def)

lemma demo_hex_pairs_Inr:
  "even (length s) \<Longrightarrow> list_all is_ascii_hexdigit s \<Longrightarrow> \<exists>bs. hex_pairs s = Inr bs \<and> 2 * length bs = length s"
proof (induction s rule: hex_pairs.induct)
  case (1 c d cs)
  then have "hex_val c \<noteq> None" "hex_val d \<noteq> None" by (simp_all add: hex_val_None)
  then obtain m n where "hex_val c = Some m" "hex_val d = Some n" by blast
  moreover from this obtain bs where "hex_pairs cs = Inr bs" "2 * length bs = length cs" using 1 by fastforce
  ultimately show ?case by simp
qed simp_all

lemma demo_hex_pairs_Inl: "even (length s) \<Longrightarrow> \<not> list_all is_ascii_hexdigit s \<Longrightarrow> \<exists>e. hex_pairs s = Inl e"
proof (induction s rule: hex_pairs.induct)
  case (1 c d cs)
  show ?case
  proof (cases "hex_val c = None \<or> hex_val d = None")
    case True
    then show ?thesis by (auto split: option.splits)
  next
    case False
    then obtain m n where v: "hex_val c = Some m" "hex_val d = Some n" by auto
    then have "is_ascii_hexdigit c" "is_ascii_hexdigit d" using hex_val_None [of c] hex_val_None [of d] by simp_all
    then obtain e where "hex_pairs cs = Inl e" using 1 v by fastforce
    with v show ?thesis by simp
  qed
qed simp_all

lemma demo_hex_decode_ok: "hex_decode_ok demo_ext"
  using demo_hex_pairs_Inr demo_hex_pairs_Inl by (simp add: hex_decode_ok_def demo_hex_decode_def)

text \<open>A short id of hex digits gives the two sides different message ids.\<close>

theorem bridge_message_ids_witness:
  "bridge_message_id demo_ext ''0xff'' = Inr (replicate 31 0 @ [255])
   \<and> request_id_to_message_id demo_ext ''0xff'' = keccak256 demo_ext (str_bytes ''0xff'')
   \<and> keccak256 demo_ext (str_bytes ''0xff'') \<noteq> replicate 31 0 @ [255]"
proof -
  have d: "hex_decode demo_ext ''ff'' = Inr [255]" by (simp add: demo_hex_decode_def hex_val_def)
  have s: "strip_0x ''0xff'' = ''ff''" by (simp add: strip_0x_def)
  have "\<not> full_id ''0xff'' \<and> list_all is_ascii_hexdigit (strip_0x ''0xff'') \<and> strip_0x ''0xff'' \<noteq> [] \<and> even (length (strip_0x ''0xff''))"
    by (simp add: s full_id_def is_ascii_hexdigit_def)
  with bridge_message_ids [OF demo_hex_decode_ok, of "''0xff''"] d s
  have "request_id_to_message_id demo_ext ''0xff'' = keccak256 demo_ext (str_bytes ''0xff'')"
    "bridge_message_id demo_ext ''0xff'' = Inr (replicate (32 - length [255 :: u8]) 0 @ take 32 [255])" by auto
  moreover have "hd (keccak256 demo_ext (str_bytes ''0xff'')) \<noteq> hd (replicate 31 0 @ [255])"
    by (simp add: demo_digest_def bit_byte_def str_bytes_def)
  then have "keccak256 demo_ext (str_bytes ''0xff'') \<noteq> replicate 31 0 @ [255]" by metis
  ultimately show ?thesis by simp
qed

lemma demo_process_withdrawal:
  assumes "verify_message demo_ext demo_verifier m = Inr ()" and "sm_message_type m = Withdrawal" and "sm_payload m = [2]"
  shows "\<exists>v'. process_message demo_val_deps demo_val_io m demo_validator = (v', [demo_withdrawal], Inr ())"
  using assms record_sync_None [of "vi_now demo_val_io" "sm_sequence m" "va_state demo_validator"]
  by (simp add: process_message_def extract_withdrawal_def apply_message_with_audit_def apply_message_with_rules_def
      record_progress_def decompress_and_parse_def decompress_def demo_codec_def split_beta Let_def)

definition demo_bridge_signer :: bridge_signer where
  "demo_bridge_signer = \<lparr>bs_key_manager = demo_key_manager True, bs_bridge_contract = ''0x00'', bs_chain_id = 1\<rparr>"

theorem synced_withdrawals_signed_witness:
  "\<exists>m v' store' sig. sync_to_head_with_signing 2 demo_val_deps (\<lambda>_. demo_val_io) (demo_fetcher m) 9 (Some demo_bridge_signer)
       (demo_validator, new_signature_store) = Some ((v', store'), Inr 1)
     \<and> get_signature (''0x'' @ hex_encode demo_ext (request_id_to_message_id demo_ext (wq_request_id demo_withdrawal))) store' = Some sig
     \<and> signed_for demo_ext demo_bridge_signer (request_id_to_message_id demo_ext (wq_request_id demo_withdrawal)) sig"
proof -
  obtain sb :: signed_batch where "verify_signed_batch demo_ext sb = Inr ()" and sb: "map request_of (sb_messages sb) = [(0, 7, Withdrawal, [2])]"
    "\<forall>m \<in> set (sb_messages sb). verify_message demo_ext demo_verifier m = Inr ()"
    using demo_signed [OF list.distinct(2), of "(0, 7, Withdrawal, [2])" "[]"]
    by (elim exE conjE) (rule that)
  then obtain m where ms: "sb_messages sb = [m]" by (cases "sb_messages sb") auto
  with sb have f: "sm_sequence m = 0" "sm_message_type m = Withdrawal" "sm_payload m = [2]"
    "verify_message demo_ext demo_verifier m = Inr ()" by (simp_all add: request_of_def)
  obtain v' where v': "process_message demo_val_deps demo_val_io m demo_validator = (v', [demo_withdrawal], Inr ())"
    using demo_process_withdrawal [OF f(4,2,3)] by blast
  have n: "next_sequence (va_state demo_validator) = Inr 0" by simp
  have loop: "sync_to_head_loop 2 demo_val_deps (\<lambda>_. demo_val_io) (demo_fetcher m) 0 demo_validator = Some (v', [demo_withdrawal], 1)"
    by (simp add: numeral_2_eq_2 sync_one_with_callback_def f v' split_beta Let_def)
  have e: "vd_ext demo_val_deps = demo_ext" by (simp add: demo_val_deps_def)
  have key: "\<forall>h. \<exists>a. km_signer (bs_key_manager demo_bridge_signer) h = Inr a"
    by (simp add: demo_bridge_signer_def demo_key_manager_def)
  have st: "store_signed (vd_ext demo_val_deps) demo_bridge_signer new_signature_store"
    by (simp add: store_signed_def get_signature_def new_signature_store_def lookup_empty)
  have hex: "\<forall>b. hex_decode (vd_ext demo_val_deps) (hex_encode (vd_ext demo_val_deps) b) = Inr b"
    by (simp add: e demo_hex_roundtrip)
  from synced_withdrawals_signed [OF key n loop st hex, of 9] show ?thesis unfolding e by fastforce
qed

text \<open>Two signatures for one message: one pending entry, the later signature.\<close>

theorem pending_signatures_complete_witness:
  "map ms_signature (pending_signatures (run store_step
      [CStore \<lparr>ms_message_id = ''0xaa'', ms_signature = [1], ms_signer = ''s'', ms_signed_at = 1\<rparr>,
       CStore \<lparr>ms_message_id = ''0xbb'', ms_signature = [2], ms_signer = ''s'', ms_signed_at = 1\<rparr>,
       CMarkSubmitted ''0xbb'',
       CStore \<lparr>ms_message_id = ''0xaa'', ms_signature = [3], ms_signer = ''s'', ms_signed_at = 2\<rparr>] new_signature_store)) = [[3]]
   \<and> distinct (pending_ids (run store_step [CMarkSubmitted ''0xbb''] new_signature_store))"
  using pending_signatures_complete [of "[CMarkSubmitted ''0xbb'']"]
  by (simp add: pending_signatures_def mark_submitted_def store_signature_def new_signature_store_def
      lookup_update_iff lookup_empty Let_def map_filter_simps)

end
