(* ===== verification/Relayer.thy ===== *)
theory Relayer
  imports Bootstrap Bridge_Signer
begin

text \<open>
  The relayer, the crate \<open>crates/synddb-relayer\<close>, which pays the gas of key registrations and withdrawals: its configuration
  (\<open>config.rs\<close>), its HTTP handlers (\<open>handlers.rs\<close>), the submitter of registrations (\<open>submitter.rs\<close>) and that of
  withdrawals (\<open>withdrawal.rs\<close>).

  The Ethereum node and the validator's API are functions of the request. A handler returns the transactions it
  sent beside its reply; \<open>None\<close> stands for a confirmation loop that has not ended within the fuel.
\<close>

section \<open>Configuration\<close>

record application_config =
  ap_audience :: string
  ap_allowed_image_digests :: "bytes list"

record config_file =
  cf_rpc_url :: string
  cf_chain_id :: u64
  cf_bridge_address :: bytes
  cf_private_key :: string
  cf_listen_addr :: string
  cf_tx_confirmation_timeout_secs :: u64
  cf_validator_url :: "string option"
  cf_applications :: "application_config list"

record cli_config =
  cl_config_path :: "string option"
  cl_rpc_url :: "string option"
  cl_chain_id :: "u64 option"
  cl_bridge_address :: "bytes option"
  cl_private_key :: "string option"
  cl_listen_addr :: string
  cl_tx_confirmation_timeout_secs :: u64
  cl_required_audience :: "string option"
  cl_allowed_image_digests :: "string option"
  cl_validator_url :: "string option"

record relayer_config =
  rf_rpc_url :: string
  rf_chain_id :: u64
  rf_bridge_address :: bytes
  rf_private_key :: string
  rf_listen_addr :: string
  rf_tx_confirmation_timeout :: nat
  rf_validator_url :: "string option"
  rf_applications :: "bytes \<Rightarrow> application_config option"

definition compute_audience_hash :: "('vk, 'sg) ext \<Rightarrow> string \<Rightarrow> bytes" where
  "compute_audience_hash x audience = keccak256 x (str_bytes audience)"

definition parse_b256 :: "('vk, 'sg) ext \<Rightarrow> string \<Rightarrow> bytes option" where
  "parse_b256 x s =
     (let s = trim_start_0x (str_trim s)
      in case hex_decode x s of Inl _ \<Rightarrow> None | Inr bs \<Rightarrow> if length bs = 32 then Some bs else None)"

text \<open>The file system's and the TOML parser's answers are arguments; \<open>path\<close> is the path in its printed form.\<close>

definition from_file :: "('vk, 'sg) ext \<Rightarrow> (string \<Rightarrow> string + string) \<Rightarrow> (string \<Rightarrow> string + config_file) \<Rightarrow> string
  \<Rightarrow> string + relayer_config" where
  "from_file x read_to_string toml path =
     bind_r (map_err (\<lambda>e. ''Failed to read config file '' @ path @ '': '' @ e) (read_to_string path)) (\<lambda>contents.
     bind_r (map_err (\<lambda>e. ''Failed to parse config file: '' @ e) (toml contents)) (\<lambda>config.
     if cf_applications config = [] then Inl ''Config file must contain at least one [[application]]''
     else Inr \<lparr>rf_rpc_url = cf_rpc_url config, rf_chain_id = cf_chain_id config, rf_bridge_address = cf_bridge_address config,
               rf_private_key = cf_private_key config, rf_listen_addr = cf_listen_addr config,
               rf_tx_confirmation_timeout = unat (cf_tx_confirmation_timeout_secs config) * nanos_per_sec,
               rf_validator_url = cf_validator_url config,
               rf_applications = fold (\<lambda>app m. m(compute_audience_hash x (ap_audience app) \<mapsto> app))
                 (cf_applications config) Map.empty\<rparr>))"

definition from_env :: "('vk, 'sg) ext \<Rightarrow> cli_config \<Rightarrow> string + relayer_config" where
  "from_env x cli =
     bind_r (ok_or ''RPC_URL is required'' (cl_rpc_url cli)) (\<lambda>rpc_url.
     bind_r (ok_or ''CHAIN_ID is required'' (cl_chain_id cli)) (\<lambda>chain_id.
     bind_r (ok_or ''BRIDGE_CONTRACT_ADDRESS is required'' (cl_bridge_address cli)) (\<lambda>bridge_address.
     bind_r (ok_or ''RELAYER_PRIVATE_KEY is required'' (cl_private_key cli)) (\<lambda>private_key.
     bind_r (ok_or ''ALLOWED_IMAGE_DIGESTS is required'' (cl_allowed_image_digests cli)) (\<lambda>allowed_digests_str.
     bind_r (ok_or ''REQUIRED_AUDIENCE is required'' (cl_required_audience cli)) (\<lambda>audience.
     let allowed_image_digests =
           (if allowed_digests_str = [] then []
            else List.map_filter (\<lambda>s. parse_b256 x (str_trim s)) (split_on (CHR '','') allowed_digests_str));
         key = trim_start_0x private_key
     in if length key \<noteq> 64 \<or> isl (hex_decode x key)
        then Inl ''RELAYER_PRIVATE_KEY must be a 32-byte hex string''
        else Inr \<lparr>rf_rpc_url = rpc_url, rf_chain_id = chain_id, rf_bridge_address = bridge_address,
               rf_private_key = private_key, rf_listen_addr = cl_listen_addr cli,
               rf_tx_confirmation_timeout = unat (cl_tx_confirmation_timeout_secs cli) * nanos_per_sec,
               rf_validator_url = cl_validator_url cli,
               rf_applications = [compute_audience_hash x audience \<mapsto>
                 \<lparr>ap_audience = audience, ap_allowed_image_digests = allowed_image_digests\<rparr>]\<rparr>))))))"

definition load_config :: "('vk, 'sg) ext \<Rightarrow> (string \<Rightarrow> string + string) \<Rightarrow> (string \<Rightarrow> string + config_file) \<Rightarrow> cli_config
  \<Rightarrow> string + relayer_config" where
  "load_config x read_to_string toml cli =
     (case cl_config_path cli of
        Some path \<Rightarrow> from_file x read_to_string toml path
      | None \<Rightarrow> from_env x cli)"

definition get_application :: "relayer_config \<Rightarrow> bytes \<Rightarrow> application_config option" where
  "get_application config audience_hash = rf_applications config audience_hash"

definition is_digest_allowed :: "relayer_config \<Rightarrow> bytes \<Rightarrow> bytes \<Rightarrow> bool" where
  "is_digest_allowed config audience_hash image_digest =
     (case rf_applications config audience_hash of
        None \<Rightarrow> False
      | Some app \<Rightarrow> ap_allowed_image_digests app = [] \<or> image_digest \<in> set (ap_allowed_image_digests app))"

section \<open>The submitter of registrations\<close>

record relayer_submitter =
  rs_rpc_url :: string
  rs_bridge_address :: bytes
  rs_tee_key_manager_address :: bytes
  rs_tx_confirmation_timeout :: nat

text \<open>A call of \<open>registerKeyWithSignature\<close>.\<close>

record registration_tx =
  tx_key_type :: u8
  tx_public_values :: bytes
  tx_proof_bytes :: bytes
  tx_deadline :: u64
  tx_signature :: bytes

text \<open>A call of \<open>initializeAndHandleMessage\<close>.\<close>

record withdrawal_tx =
  wt_message_id :: bytes
  wt_target_address :: bytes
  wt_payload :: bytes
  wt_sequencer_signature :: bytes
  wt_sequence :: u64
  wt_timestamp :: u64
  wt_validator_signatures :: "bytes list"
  wt_native_token_amount :: nat

record relayer_node =
  rn_url_error :: "string \<Rightarrow> string option"
  rn_key_error :: "bytes \<Rightarrow> string option"
  rn_tee_key_manager :: "bytes \<Rightarrow> string + bytes"
  rn_is_key_valid :: "bytes \<Rightarrow> u8 \<Rightarrow> bytes \<Rightarrow> string + bool"
  rn_register :: "bytes \<Rightarrow> registration_tx \<Rightarrow> string + bytes"
  rn_withdraw :: "bytes \<Rightarrow> withdrawal_tx \<Rightarrow> string + bytes"
  rn_polls :: "bytes \<Rightarrow> nat \<Rightarrow> nat \<times> receipt_poll"

definition relayer_submitter_from_config :: "('vk, 'sg) ext \<Rightarrow> relayer_node \<Rightarrow> relayer_config \<Rightarrow> string + relayer_submitter" where
  "relayer_submitter_from_config x node config =
     bind_r (hex_decode x (trim_start_0x (rf_private_key config))) (\<lambda>key_bytes.
     bind_r (err_of id (rn_key_error node key_bytes)) (\<lambda>_.
     bind_r (err_of id (rn_url_error node (rf_rpc_url config))) (\<lambda>_.
     bind_r (rn_tee_key_manager node (rf_bridge_address config)) (\<lambda>tee_key_manager_address.
     Inr \<lparr>rs_rpc_url = rf_rpc_url config, rs_bridge_address = rf_bridge_address config,
          rs_tee_key_manager_address = tee_key_manager_address,
          rs_tx_confirmation_timeout = rf_tx_confirmation_timeout config\<rparr>))))"

definition relayer_send_registration :: "relayer_node \<Rightarrow> relayer_submitter \<Rightarrow> registration_tx \<Rightarrow> string + bytes" where
  "relayer_send_registration node s tx =
     bind_r (err_of id (rn_url_error node (rs_rpc_url s))) (\<lambda>_. rn_register node (rs_bridge_address s) tx)"

definition register_sequencer_key :: "relayer_node \<Rightarrow> relayer_submitter \<Rightarrow> bytes \<Rightarrow> bytes \<Rightarrow> u64 \<Rightarrow> bytes \<Rightarrow> registration_tx \<times> (string + bytes)" where
  "register_sequencer_key node s pub proof_bytes deadline signature =
     (let tx = \<lparr>tx_key_type = 0, tx_public_values = pub, tx_proof_bytes = proof_bytes, tx_deadline = deadline,
                tx_signature = signature\<rparr>
      in (tx, relayer_send_registration node s tx))"

definition register_validator_key :: "relayer_node \<Rightarrow> relayer_submitter \<Rightarrow> bytes \<Rightarrow> bytes \<Rightarrow> u64 \<Rightarrow> bytes \<Rightarrow> registration_tx \<times> (string + bytes)" where
  "register_validator_key node s pub proof_bytes deadline signature =
     (let tx = \<lparr>tx_key_type = 1, tx_public_values = pub, tx_proof_bytes = proof_bytes, tx_deadline = deadline,
                tx_signature = signature\<rparr>
      in (tx, relayer_send_registration node s tx))"

definition relayer_is_key_valid :: "u8 \<Rightarrow> relayer_node \<Rightarrow> relayer_submitter \<Rightarrow> bytes \<Rightarrow> string + bool" where
  "relayer_is_key_valid kt node s address =
     bind_r (err_of id (rn_url_error node (rs_rpc_url s))) (\<lambda>_.
     case rn_is_key_valid node (rs_tee_key_manager_address s) kt address of
       Inr _ \<Rightarrow> Inr True
     | Inl e \<Rightarrow> if is_invalid_public_key_error e then Inr False else Inl e)"

text \<open>The two loops that wait for a transaction are the same; the timeout is in nanoseconds, the polls in milliseconds.\<close>

definition show_hash :: "('vk, 'sg) ext \<Rightarrow> bytes \<Rightarrow> string" where
  "show_hash x h = ''0x'' @ hex_encode x h"

definition relayer_confirmation :: "nat \<Rightarrow> ('vk, 'sg) ext \<Rightarrow> relayer_node \<Rightarrow> nat \<Rightarrow> bytes \<Rightarrow> (string + unit) option" where
  "relayer_confirmation fuel x node timeout tx_hash =
     map_option (\<lambda>r. case r of
         TimedOut \<Rightarrow> Inl (''Timeout waiting for tx confirmation after '' @ show_duration timeout @ '': '' @ show_hash x tx_hash)
       | Reverted \<Rightarrow> Inl (''Transaction reverted: '' @ show_hash x tx_hash)
       | Confirmed \<Rightarrow> Inr ()) (confirmation_loop fuel (timeout div 1000000) (rn_polls node tx_hash) 0)"

definition relayer_wait_for_confirmation :: "nat \<Rightarrow> ('vk, 'sg) ext \<Rightarrow> relayer_node \<Rightarrow> relayer_submitter \<Rightarrow> bytes \<Rightarrow> (string + unit) option" where
  "relayer_wait_for_confirmation fuel x node s tx_hash =
     (case rn_url_error node (rs_rpc_url s) of
        Some e \<Rightarrow> Some (Inl e)
      | None \<Rightarrow> relayer_confirmation fuel x node (rs_tx_confirmation_timeout s) tx_hash)"

section \<open>The registration handler\<close>

record attestation_fields =
  af_image_digest_hash :: bytes
  af_audience_hash :: bytes
  af_tee_signing_key :: bytes

definition extract_attestation_fields :: "bytes \<Rightarrow> attestation_fields option" where
  "extract_attestation_fields pub =
     (if length pub < 352 then None
      else Some \<lparr>af_image_digest_hash = take 32 (drop 96 pub), af_audience_hash = take 32 (drop 224 pub),
                 af_tee_signing_key = take 20 (drop 140 pub)\<rparr>)"

definition MAX_DEADLINE_FUTURE_SECS :: u64 where "MAX_DEADLINE_FUTURE_SECS = 86400"

definition failed_response :: "string \<Rightarrow> register_key_response" where
  "failed_response e = \<lparr>rr_registered_key = None, rr_tx_hash = None, rr_error = Some e\<rparr>"

definition registered_response :: "('vk, 'sg) ext \<Rightarrow> bytes \<Rightarrow> bytes option \<Rightarrow> register_key_response" where
  "registered_response x key tx_hash =
     \<lparr>rr_registered_key = Some (show_hash x key), rr_tx_hash = map_option (show_hash x) tx_hash, rr_error = None\<rparr>"

text \<open>The checks of a request before anything is asked of the node: the parsed parts, or a status and an error.\<close>

definition check_registration :: "('vk, 'sg) ext \<Rightarrow> u64 \<Rightarrow> relayer_config \<Rightarrow> register_key_request
  \<Rightarrow> (nat \<times> register_key_response) + (bytes \<times> attestation_fields \<times> bytes \<times> bytes)" where
  "check_registration x now config request =
     bind_r (map_err (\<lambda>e. (400, failed_response (''Invalid public_values hex: '' @ e)))
               (hex_decode x (trim_start_0x (rq_public_values request)))) (\<lambda>public_values_bytes.
     bind_r (ok_or (400, failed_response ''Could not extract attestation fields from public_values'')
               (extract_attestation_fields public_values_bytes)) (\<lambda>attestation.
     bind_r (ok_or (403, failed_response ''Unknown application: audience_hash not configured'')
               (get_application config (af_audience_hash attestation))) (\<lambda>app_config.
     if \<not> (ap_allowed_image_digests app_config = []
            \<or> af_image_digest_hash attestation \<in> set (ap_allowed_image_digests app_config))
     then Inl (403, failed_response ''Image digest not in allowlist for this application'')
     else if rq_deadline request \<le> now then Inl (400, failed_response ''Deadline is in the past'')
     else if now + MAX_DEADLINE_FUTURE_SECS < rq_deadline request
     then Inl (400, failed_response (''Deadline too far in the future (max '' @ show_u64 MAX_DEADLINE_FUTURE_SECS @ '' seconds)''))
     else
     bind_r (map_err (\<lambda>e. (400, failed_response (''Invalid proof_bytes hex: '' @ e)))
               (hex_decode x (trim_start_0x (rq_proof_bytes request)))) (\<lambda>proof_bytes.
     bind_r (map_err (\<lambda>e. (400, failed_response (''Invalid signature hex: '' @ e)))
               (hex_decode x (trim_start_0x (rq_signature request)))) (\<lambda>signature.
     Inr (public_values_bytes, attestation, proof_bytes, signature))))))"

definition key_already_exists :: "string \<Rightarrow> bool" where
  "key_already_exists err_str \<longleftrightarrow> str_contains err_str ''KeyAlreadyExists'' \<or> str_contains err_str ''0x2dc09057''"

definition relayer_register_key :: "nat \<Rightarrow> ('vk, 'sg) ext \<Rightarrow> u64 \<Rightarrow> relayer_node \<Rightarrow> relayer_config \<Rightarrow> relayer_submitter
  \<Rightarrow> register_key_request \<Rightarrow> registration_tx list \<times> (nat \<times> register_key_response) option" where
  "relayer_register_key fuel x now node config submitter request =
     (case check_registration x now config request of
        Inl reply \<Rightarrow> ([], Some reply)
      | Inr (public_values_bytes, attestation, proof_bytes, signature) \<Rightarrow>
         (case relayer_is_key_valid (case rq_key_type request of SequencerKey \<Rightarrow> 0 | ValidatorKey \<Rightarrow> 1) node submitter
                 (af_tee_signing_key attestation) of
            Inl e \<Rightarrow> ([], Some (500, failed_response (''Failed to check key validity: '' @ e)))
          | Inr True \<Rightarrow> ([], Some (200, registered_response x (af_tee_signing_key attestation) None))
          | Inr False \<Rightarrow>
             (let (tx, result) = (case rq_key_type request of
                    SequencerKey \<Rightarrow> register_sequencer_key node submitter public_values_bytes proof_bytes (rq_deadline request) signature
                  | ValidatorKey \<Rightarrow> register_validator_key node submitter public_values_bytes proof_bytes (rq_deadline request) signature)
              in ([tx],
                  case result of
                    Inr tx_hash \<Rightarrow>
                      map_option (\<lambda>c. case c of
                          Inl e \<Rightarrow> (500, \<lparr>rr_registered_key = None, rr_tx_hash = Some (show_hash x tx_hash),
                                         rr_error = Some (''Registration tx failed: '' @ e)\<rparr>)
                        | Inr _ \<Rightarrow> (200, registered_response x (af_tee_signing_key attestation) (Some tx_hash)))
                        (relayer_wait_for_confirmation fuel x node submitter tx_hash)
                  | Inl e \<Rightarrow>
                      if key_already_exists e
                      then Some (200, registered_response x (af_tee_signing_key attestation) None)
                      else Some (500, failed_response (''Failed to submit registration: '' @ e))))))"

definition relayer_health :: string where "relayer_health = ''ok''"

section \<open>The submitter of withdrawals\<close>

record withdrawal_submission_request =
  wr_message_id :: string
  wr_target_address :: string
  wr_payload :: string
  wr_native_token_amount :: string
  wr_sequencer_signature :: string
  wr_sequence :: u64
  wr_timestamp :: u64

record withdrawal_submission_response =
  wp_tx_hash :: "string option"
  wp_error :: "string option"
  wp_status :: string

record validator_signature =
  vs_message_id :: string
  vs_signature :: string
  vs_signer :: string
  vs_signed_at :: u64

record withdrawal_submitter =
  wb_rpc_url :: string
  wb_bridge_address :: bytes
  wb_validator_url :: "string option"
  wb_tx_confirmation_timeout :: nat

record withdrawal_io =
  wi_validator :: "string \<Rightarrow> http_reply"
  wi_json :: "string \<Rightarrow> string + validator_signature"
  wi_alloy :: alloy

definition new_withdrawal_submitter :: "('vk, 'sg) ext \<Rightarrow> relayer_node \<Rightarrow> string \<Rightarrow> bytes \<Rightarrow> string \<Rightarrow> string option \<Rightarrow> nat
  \<Rightarrow> string + withdrawal_submitter" where
  "new_withdrawal_submitter x node rpc_url bridge_address private_key validator_url timeout =
     bind_r (hex_decode x (trim_start_0x private_key)) (\<lambda>key_bytes.
     bind_r (err_of id (rn_key_error node key_bytes)) (\<lambda>_.
     Inr \<lparr>wb_rpc_url = rpc_url, wb_bridge_address = bridge_address, wb_validator_url = validator_url,
          wb_tx_confirmation_timeout = timeout\<rparr>))"

definition trim_end_slash :: "string \<Rightarrow> string" where
  "trim_end_slash s = rev (dropWhile (\<lambda>c. c = CHR ''/'') (rev s))"

definition fetch_validator_signature :: "('vk, 'sg) ext \<Rightarrow> withdrawal_io \<Rightarrow> string \<Rightarrow> string \<Rightarrow> string + bytes" where
  "fetch_validator_signature x io validator_url message_id =
     bind_r (map_err show_send_error (wi_validator io (trim_end_slash validator_url @ ''/signature/'' @ message_id))) (\<lambda>response.
     if \<not> hr_success response then Inl (''Validator returned status '' @ hr_status_text response)
     else bind_r (response_json (wi_json io) response) (\<lambda>sig. hex_decode x (strip_0x (vs_signature sig))))"

definition parse_withdrawal :: "('vk, 'sg) ext \<Rightarrow> withdrawal_io \<Rightarrow> withdrawal_submission_request
  \<Rightarrow> string + (bytes \<times> bytes \<times> bytes \<times> nat \<times> bytes)" where
  "parse_withdrawal x io request =
     bind_r (hex_decode x (strip_0x (wr_message_id request))) (\<lambda>message_id_bytes.
     if length message_id_bytes \<noteq> 32 then Inl ''Invalid message_id length: expected 32 bytes''
     else
     bind_r (al_parse_address (wi_alloy io) (wr_target_address request)) (\<lambda>target_address.
     bind_r (hex_decode x (strip_0x (wr_payload request))) (\<lambda>payload.
     bind_r (parse_int (2 ^ 128) (wr_native_token_amount request)) (\<lambda>native_token_amount.
     bind_r (hex_decode x (strip_0x (wr_sequencer_signature request))) (\<lambda>seq_sig_bytes.
     Inr (message_id_bytes, target_address, payload, native_token_amount, seq_sig_bytes))))))"

definition validator_signatures :: "('vk, 'sg) ext \<Rightarrow> withdrawal_io \<Rightarrow> withdrawal_submitter \<Rightarrow> string \<Rightarrow> bytes list" where
  "validator_signatures x io s message_id =
     (case wb_validator_url s of
        None \<Rightarrow> []
      | Some validator_url \<Rightarrow>
         (case fetch_validator_signature x io validator_url message_id of Inr sig \<Rightarrow> [sig] | Inl _ \<Rightarrow> []))"

definition submit_withdrawal :: "nat \<Rightarrow> ('vk, 'sg) ext \<Rightarrow> relayer_node \<Rightarrow> withdrawal_io \<Rightarrow> withdrawal_submitter
  \<Rightarrow> withdrawal_submission_request \<Rightarrow> withdrawal_tx list \<times> (string + withdrawal_submission_response) option" where
  "submit_withdrawal fuel x node io s request =
     (case parse_withdrawal x io request of
        Inl e \<Rightarrow> ([], Some (Inl e))
      | Inr (message_id, target_address, payload, amount, seq_sig_bytes) \<Rightarrow>
         (case rn_url_error node (wb_rpc_url s) of
            Some e \<Rightarrow> ([], Some (Inl e))
          | None \<Rightarrow>
             (let tx = \<lparr>wt_message_id = message_id, wt_target_address = target_address, wt_payload = payload,
                    wt_sequencer_signature = seq_sig_bytes, wt_sequence = wr_sequence request, wt_timestamp = wr_timestamp request,
                    wt_validator_signatures = validator_signatures x io s (wr_message_id request),
                    wt_native_token_amount = amount\<rparr>
              in ([tx],
                  case rn_withdraw node (wb_bridge_address s) tx of
                    Inl e \<Rightarrow> Some (Inr \<lparr>wp_tx_hash = None, wp_error = Some e, wp_status = ''failed''\<rparr>)
                  | Inr tx_hash \<Rightarrow>
                      map_option (\<lambda>c. Inr (case c of
                          Inr _ \<Rightarrow> \<lparr>wp_tx_hash = Some (show_hash x tx_hash), wp_error = None, wp_status = ''confirmed''\<rparr>
                        | Inl e \<Rightarrow> \<lparr>wp_tx_hash = Some (show_hash x tx_hash), wp_error = Some e, wp_status = ''submitted''\<rparr>))
                        (relayer_confirmation fuel x node (wb_tx_confirmation_timeout s) tx_hash)))))"

definition submit_withdrawal_handler :: "nat \<Rightarrow> ('vk, 'sg) ext \<Rightarrow> relayer_node \<Rightarrow> withdrawal_io \<Rightarrow> withdrawal_submitter option
  \<Rightarrow> withdrawal_submission_request \<Rightarrow> withdrawal_tx list \<times> (nat \<times> withdrawal_submission_response) option" where
  "submit_withdrawal_handler fuel x node io submitter request =
     (case submitter of
        None \<Rightarrow> ([], Some (503, \<lparr>wp_tx_hash = None,
           wp_error = Some ''Withdrawal submission not configured (no VALIDATOR_URL)'', wp_status = ''failed''\<rparr>))
      | Some s \<Rightarrow>
         (let (txs, r) = submit_withdrawal fuel x node io s request
          in (txs, map_option (\<lambda>r. case r of
                 Inr response \<Rightarrow>
                   (if wp_status response = ''confirmed'' then 200 else if wp_status response = ''submitted'' then 202 else 500, response)
               | Inl e \<Rightarrow> (500, \<lparr>wp_tx_hash = None, wp_error = Some e, wp_status = ''failed''\<rparr>)) r)))"

section \<open>Registrations\<close>

lemma not_Inl_unit [simp]: "(\<forall>e. z \<noteq> Inl e) \<longleftrightarrow> z = Inr ()" for z :: "'e + unit"
  by (cases z) auto

lemma err_of_id_None [simp]: "err_of f None = Inr ()"
  by (simp add: err_of_def)

lemma extracted_fields:
  assumes "pv_wf v"
  shows "extract_attestation_fields (abi_layout v) =
     Some \<lparr>af_image_digest_hash = pv_image_digest_hash v, af_audience_hash = pv_audience_hash v,
           af_tee_signing_key = pv_tee_signing_key v\<rparr>"
  using assms length_abi_layout [OF assms]
  by (simp add: extract_attestation_fields_def, simp add: pv_wf_def abi_layout_def abi_bool_def)

text \<open>The relayer's own reading of the public values by byte offsets agrees with their Solidity ABI form: from the
  encoding of public values it extracts their image digest hash, audience hash and TEE key.\<close>

theorem extracted_fields_roundtrip:
  assumes "pv_wf v"
  shows "extract_attestation_fields (abi_layout v) =
     Some \<lparr>af_image_digest_hash = pv_image_digest_hash v, af_audience_hash = pv_audience_hash v,
           af_tee_signing_key = pv_tee_signing_key v\<rparr>"
  by (rule extracted_fields [OF assms])

lemma relayer_confirmed:
  assumes "relayer_confirmation fuel x node t h = Some (Inr ())"
  shows "\<exists>j. snd (rn_polls node h j) = Receipt True"
proof -
  from assms obtain z where z: "confirmation_loop fuel (t div 1000000) (rn_polls node h) 0 = Some z"
    "(case z of TimedOut \<Rightarrow> Inl (''Timeout waiting for tx confirmation after '' @ show_duration t @ '': '' @ show_hash x h)
       | Reverted \<Rightarrow> Inl (''Transaction reverted: '' @ show_hash x h) | Confirmed \<Rightarrow> Inr ()) = Inr ()"
    by (auto simp: relayer_confirmation_def)
  then have "confirmation_loop fuel (t div 1000000) (rn_polls node h) 0 = Some Confirmed" by (cases z) simp_all
  from confirmation_loop_sound [OF this] show ?thesis by auto
qed

text \<open>What a request must satisfy to reach the node.\<close>

lemma check_registration_ok:
  "check_registration x now config request = Inr (pub, att, pf, sig) \<longleftrightarrow>
     hex_decode x (trim_start_0x (rq_public_values request)) = Inr pub
     \<and> extract_attestation_fields pub = Some att
     \<and> is_digest_allowed config (af_audience_hash att) (af_image_digest_hash att)
     \<and> now < rq_deadline request \<and> rq_deadline request \<le> now + MAX_DEADLINE_FUTURE_SECS
     \<and> hex_decode x (trim_start_0x (rq_proof_bytes request)) = Inr pf
     \<and> hex_decode x (trim_start_0x (rq_signature request)) = Inr sig"
  by (auto simp: check_registration_def is_digest_allowed_def get_application_def bind_r_eq_Inr ok_or_eq_Inr map_err_eq_Inr
      not_le not_less split: option.splits)

lemma register_tx:
  "(case kt of SequencerKey \<Rightarrow> register_sequencer_key node s pub pf d sig | ValidatorKey \<Rightarrow> register_validator_key node s pub pf d sig)
     = (\<lparr>tx_key_type = key_type_code kt, tx_public_values = pub, tx_proof_bytes = pf, tx_deadline = d, tx_signature = sig\<rparr>,
        relayer_send_registration node s
          \<lparr>tx_key_type = key_type_code kt, tx_public_values = pub, tx_proof_bytes = pf, tx_deadline = d, tx_signature = sig\<rparr>)"
  by (cases kt) (simp_all add: register_sequencer_key_def register_validator_key_def Let_def key_type_code_def)

lemma key_type_code_case: "(case kt of SequencerKey \<Rightarrow> 0 | ValidatorKey \<Rightarrow> 1) = key_type_code kt"
  by (simp add: key_type_code_def)

text \<open>C16: The relayer spends gas on a registration only for a request that passes all its checks: it sends at most one
  transaction, made of exactly the bytes of the request, for an audience that is configured and an image digest allowed for
  it, with a deadline in the future and at most a day away, and only if the node said that the key is not
  registered.\<close>

theorem registration_submitted_only_if_allowed:
  assumes "relayer_register_key fuel x now node config s request = (txs, r)" and "tx \<in> set txs"
  shows "txs = [tx] \<and> tx_key_type tx = key_type_code (rq_key_type request) \<and> tx_deadline tx = rq_deadline request
    \<and> hex_decode x (trim_start_0x (rq_public_values request)) = Inr (tx_public_values tx)
    \<and> hex_decode x (trim_start_0x (rq_proof_bytes request)) = Inr (tx_proof_bytes tx)
    \<and> hex_decode x (trim_start_0x (rq_signature request)) = Inr (tx_signature tx)
    \<and> now < tx_deadline tx \<and> tx_deadline tx \<le> now + 86400
    \<and> (\<exists>att. extract_attestation_fields (tx_public_values tx) = Some att
         \<and> is_digest_allowed config (af_audience_hash att) (af_image_digest_hash att)
         \<and> relayer_is_key_valid (key_type_code (rq_key_type request)) node s (af_tee_signing_key att) = Inr False)"
proof (cases "check_registration x now config request")
  case (Inl reply)
  with assms show ?thesis by (simp add: relayer_register_key_def)
next
  case (Inr q)
  obtain pub att pf sig where q: "q = (pub, att, pf, sig)" by (cases q)
  note ok = Inr [unfolded q check_registration_ok MAX_DEADLINE_FUTURE_SECS_def]
  from assms have v: "relayer_is_key_valid (key_type_code (rq_key_type request)) node s (af_tee_signing_key att) = Inr False"
    by (auto simp: relayer_register_key_def Inr q key_type_code_case split: sum.splits bool.splits)
  with assms have tx: "txs = [tx]" "tx = \<lparr>tx_key_type = key_type_code (rq_key_type request), tx_public_values = pub, tx_proof_bytes = pf,
      tx_deadline = rq_deadline request, tx_signature = sig\<rparr>"
    by (auto simp: relayer_register_key_def Inr q key_type_code_case register_tx)
  from tx v ok show ?thesis by auto
qed

text \<open>When the node says that the key is not registered, every reply of the registration handler with status 200 means
  that the transaction was confirmed, or that the contract refused it because the key exists already.\<close>

theorem registration_reply_sound:
  assumes "relayer_register_key fuel x now node config s request = ([tx], Some (200, resp))"
  shows "rr_error resp = None \<and>
    (case relayer_send_registration node s tx of
       Inl e \<Rightarrow> key_already_exists e
     | Inr h \<Rightarrow> rr_tx_hash resp = Some (show_hash x h) \<and> (\<exists>j. snd (rn_polls node h j) = Receipt True))"
proof (cases "check_registration x now config request")
  case (Inl reply)
  with assms show ?thesis by (simp add: relayer_register_key_def)
next
  case (Inr q)
  obtain pub att pf sig where q: "q = (pub, att, pf, sig)" by (cases q)
  let ?tx = "\<lparr>tx_key_type = key_type_code (rq_key_type request), tx_public_values = pub, tx_proof_bytes = pf,
      tx_deadline = rq_deadline request, tx_signature = sig\<rparr>"
  have conf: "\<exists>j. snd (rn_polls node h j) = Receipt True" if "relayer_wait_for_confirmation fuel x node s h = Some (Inr ())" for h
    using that relayer_confirmed by (auto simp: relayer_wait_for_confirmation_def split: option.splits)
  have "relayer_is_key_valid (key_type_code (rq_key_type request)) node s (af_tee_signing_key att) = Inr False"
    using assms by (auto simp: relayer_register_key_def Inr q key_type_code_case split: sum.splits bool.splits)
  then have "tx = ?tx \<and> (case relayer_send_registration node s ?tx of
       Inr tx_hash \<Rightarrow>
         map_option (\<lambda>c. case c of
             Inl e \<Rightarrow> (500, \<lparr>rr_registered_key = None, rr_tx_hash = Some (show_hash x tx_hash),
                            rr_error = Some (''Registration tx failed: '' @ e)\<rparr>)
           | Inr _ \<Rightarrow> (200, registered_response x (af_tee_signing_key att) (Some tx_hash)))
           (relayer_wait_for_confirmation fuel x node s tx_hash)
     | Inl e \<Rightarrow> if key_already_exists e then Some (200, registered_response x (af_tee_signing_key att) None)
               else Some (500 :: nat, failed_response (''Failed to submit registration: '' @ e))) = Some (200, resp)"
    using assms by (auto simp: relayer_register_key_def Inr q key_type_code_case register_tx)
  then show ?thesis
    by (auto simp: registered_response_def failed_response_def dest: conf split: sum.splits if_splits)
qed

text \<open>What the bootstrap client posts, and what the relayer reads in it.\<close>

lemma registration_request_fields:
  assumes "registration_request x rl km t pub pf kt = Inr request" and "hex_codec_ok x" and "\<forall>bs. trim_start_0x (hex_encode x bs) = hex_encode x bs"
  shows "\<exists>pub_bytes pf_bytes sig. hex_decode x (trim_start_0x (rq_public_values request)) = Inr pub_bytes
     \<and> hex_decode x (trim_start_0x (rq_proof_bytes request)) = Inr pf_bytes
     \<and> create_registration_signature x rl km pub_bytes pf_bytes (t + 3600) = Inr sig
     \<and> hex_decode x (trim_start_0x (rq_signature request)) = Inr sig
     \<and> rq_deadline request = t + 3600 \<and> rq_key_type request = kt \<and> rq_public_values request = pub"
  using assms by (auto simp: registration_request_def Let_def bind_r_eq_Inr map_err_eq_Inr hex_codec_ok_def)

lemma deadline_window:
  assumes "t' \<le> t + 3599" "t \<le> t' + 82800" "t \<le> 2 ^ 63" "t' \<le> (2 :: u64) ^ 63"
  shows "t' < t + 3600" "t + 3600 \<le> t' + 86400"
proof -
  have le: "unat t' \<le> unat (t + 3599)" "unat t \<le> unat (t' + 82800)" "unat t \<le> 2 ^ 63" "unat t' \<le> 2 ^ 63"
    using assms by (simp_all add: word_le_nat_alt)
  have add: "unat (w + k) = unat w + unat k" if "unat w \<le> 2 ^ 63" "unat k < 2 ^ 20" for w k :: u64
    using that by (subst unat_add_lem [THEN iffD1]) auto
  show "t' < t + 3600" "t + 3600 \<le> t' + 86400"
    using le add [of t 3600] add [of t 3599] add [of t' 86400] add [of t' 82800]
    by (simp_all add: word_le_nat_alt word_less_nat_alt)
qed

text \<open>The relayer accepts what the bootstrap client sends: a request made by the client at time \<open>t\<close> for an allowed image of a
  configured audience passes every check of the relayer whose clock shows \<open>t'\<close>, if the clocks differ by less than an hour
  in one direction and 23 hours in the other. If the key is not registered yet, the relayer sends exactly one transaction,
  with the client's public values, proof, deadline and signature.\<close>

theorem client_request_relayed:
  assumes "registration_request x rl km t pub pf kt = Inr request"
    and "hex_codec_ok x" and "\<forall>bs. trim_start_0x (hex_encode x bs) = hex_encode x bs"
    and "pub = ''0x'' @ hex_encode x (abi_layout v)" and "pv_wf v"
    and "is_digest_allowed config (pv_audience_hash v) (pv_image_digest_hash v)"
    and "relayer_is_key_valid (key_type_code kt) node s (pv_tee_signing_key v) = Inr False"
    and "t' \<le> t + 3599" "t \<le> t' + 82800" "t \<le> 2 ^ 63" "t' \<le> (2 :: u64) ^ 63"
  shows "\<exists>tx. fst (relayer_register_key fuel x t' node config s request) = [tx]
     \<and> tx_key_type tx = key_type_code kt \<and> tx_public_values tx = abi_layout v \<and> tx_deadline tx = t + 3600
     \<and> create_registration_signature x rl km (tx_public_values tx) (tx_proof_bytes tx) (tx_deadline tx) = Inr (tx_signature tx)"
proof -
  from registration_request_fields [OF assms(1-3)] obtain pb fb sig where
    f: "hex_decode x (trim_start_0x (rq_public_values request)) = Inr pb"
      "hex_decode x (trim_start_0x (rq_proof_bytes request)) = Inr fb"
      "create_registration_signature x rl km pb fb (t + 3600) = Inr sig"
      "hex_decode x (trim_start_0x (rq_signature request)) = Inr sig"
      "rq_deadline request = t + 3600" "rq_key_type request = kt" "rq_public_values request = pub"
    by blast
  have pb: "pb = abi_layout v" using f(1,7) assms(2-4) by (simp add: hex_codec_ok_def)
  have "check_registration x t' config request = Inr (pb, \<lparr>af_image_digest_hash = pv_image_digest_hash v,
      af_audience_hash = pv_audience_hash v, af_tee_signing_key = pv_tee_signing_key v\<rparr>, fb, sig)"
    unfolding check_registration_ok MAX_DEADLINE_FUTURE_SECS_def
    using f pb assms(6) extracted_fields [OF assms(5)] deadline_window [OF assms(8-11)] by simp
  then show ?thesis
    using assms(7) f pb by (simp add: relayer_register_key_def key_type_code_case register_tx)
qed

section \<open>The image allowlist\<close>

text \<open>In single-application mode, entries of \<open>ALLOWED_IMAGE_DIGESTS\<close> that are not 32-byte hex strings are dropped
  without an error. If no entry is well-formed the list is empty, and an empty list allows every image: a
  misspelt allowlist disables the image check instead of stopping the relayer.\<close>

theorem malformed_allowlist_allows_all:
  assumes "from_env x cli = Inr config" and "cl_required_audience cli = Some audience"
    and "cl_allowed_image_digests cli = Some entries"
    and "\<forall>e \<in> set (split_on (CHR '','') entries). parse_b256 x (str_trim e) = None"
  shows "is_digest_allowed config (compute_audience_hash x audience) image_digest"
proof -
  have "List.map_filter (\<lambda>e. parse_b256 x (str_trim e)) (split_on (CHR '','') entries) = []"
    using assms(4) by (auto simp: List.map_filter_def filter_empty_conv)
  with assms(1-3) show ?thesis
    by (auto simp: from_env_def bind_r_eq_Inr ok_or_eq_Inr Let_def is_digest_allowed_def split: if_splits)
qed

lemma well_formed_allowlist_exact:
  assumes "from_env x cli = Inr config" and "cl_required_audience cli = Some audience"
    and "cl_allowed_image_digests cli = Some entries"
    and "e \<in> set (split_on (CHR '','') entries)" and "parse_b256 x (str_trim e) = Some d" and "entries \<noteq> []"
  shows "is_digest_allowed config (compute_audience_hash x audience) image_digest \<longleftrightarrow>
     (\<exists>e \<in> set (split_on (CHR '','') entries). parse_b256 x (str_trim e) = Some image_digest)"
proof -
  let ?ds = "List.map_filter (\<lambda>e. parse_b256 x (str_trim e)) (split_on (CHR '','') entries)"
  have "d \<in> set ?ds" using assms(4,5) by (force simp: List.map_filter_def)
  then have "?ds \<noteq> []" by auto
  moreover have "image_digest \<in> set ?ds \<longleftrightarrow> (\<exists>e \<in> set (split_on (CHR '','') entries). parse_b256 x (str_trim e) = Some image_digest)"
    by (force simp: List.map_filter_def)
  ultimately show ?thesis using assms(1-3,6)
    by (auto simp: from_env_def bind_r_eq_Inr ok_or_eq_Inr Let_def is_digest_allowed_def split: if_splits)
qed

section \<open>Withdrawals\<close>

text \<open>The validator's signature API, as the relayer reaches it over HTTP and JSON.\<close>

definition serves_signatures :: "('vk, 'sg) ext \<Rightarrow> withdrawal_io \<Rightarrow> string \<Rightarrow> signature_api_state \<Rightarrow> bool" where
  "serves_signatures x io url st \<longleftrightarrow>
     (\<forall>i. \<exists>r. wi_validator io (trim_end_slash url @ ''/signature/'' @ i) = Inr r \<and> hr_status r = fst (get_signature_handler i st)
        \<and> (case snd (get_signature_handler i st) of
             None \<Rightarrow> True
           | Some sig \<Rightarrow> \<exists>b v. hr_body r = Inr b \<and> wi_json io b = Inr v \<and> vs_signature v = hex_bytes_serialize x (ms_signature sig)))"

lemma get_signature_handler_status:
  "fst (get_signature_handler i st) = (if snd (get_signature_handler i st) = None then 404 else 200)"
  by (simp add: get_signature_handler_def Let_def split: option.splits)

lemma fetch_signature_served:
  assumes "serves_signatures x io url st" and "hex_codec_ok x"
  shows "case snd (get_signature_handler i st) of
      None \<Rightarrow> isl (fetch_validator_signature x io url i)
    | Some sig \<Rightarrow> fetch_validator_signature x io url i = Inr (ms_signature sig)"
proof -
  obtain r where "wi_validator io (trim_end_slash url @ ''/signature/'' @ i) = Inr r" "hr_status r = fst (get_signature_handler i st)"
    "case snd (get_signature_handler i st) of None \<Rightarrow> True
       | Some sig \<Rightarrow> \<exists>b v. hr_body r = Inr b \<and> wi_json io b = Inr v \<and> vs_signature v = hex_bytes_serialize x (ms_signature sig)"
    using assms(1) unfolding serves_signatures_def by blast
  with assms(2) show ?thesis
    by (auto simp: get_signature_handler_status fetch_validator_signature_def hr_success_def response_json_def
        hex_bytes_serialize_def hex_codec_ok_def split: option.splits)
qed

text \<open>C18: A withdrawal that the validator has signed reaches the bridge contract with the validator's signature: if the validator's
  store holds a signature for the message id, the transaction that the relayer sends for a request with that id carries exactly
  this signature beside the sequencer's, and the id, target, payload and amount of the request.\<close>

theorem withdrawal_carries_validator_signature:
  assumes "parse_withdrawal x io request = Inr (mid, target, payload, amount, seq_sig)"
    and "rn_url_error node (wb_rpc_url s) = None" and "wb_validator_url s = Some url"
    and "serves_signatures x io url st" and "hex_codec_ok x"
    and "wr_message_id request = ''0x'' @ hex_encode x mid"
    and "get_signature (''0x'' @ hex_encode x mid) (sa_store st) = Some sig"
  shows "fst (submit_withdrawal fuel x node io s request) =
     [\<lparr>wt_message_id = mid, wt_target_address = target, wt_payload = payload, wt_sequencer_signature = seq_sig,
       wt_sequence = wr_sequence request, wt_timestamp = wr_timestamp request,
       wt_validator_signatures = [ms_signature sig], wt_native_token_amount = amount\<rparr>]"
proof -
  have "snd (get_signature_handler (wr_message_id request) st) = Some sig"
    using assms(6,7) by (simp add: get_signature_handler_def Let_def)
  with fetch_signature_served [OF assms(4,5), of "wr_message_id request"]
  have "fetch_validator_signature x io url (wr_message_id request) = Inr (ms_signature sig)" by simp
  with assms(1-3) show ?thesis by (simp add: submit_withdrawal_def validator_signatures_def Let_def)
qed

text \<open>
  Without a signature in the store, or when the validator cannot be reached, the transaction is sent all the same, with no validator
  signature.\<close>

lemma withdrawal_without_validator:
  assumes "parse_withdrawal x io request = Inr (mid, target, payload, amount, seq_sig)"
    and "rn_url_error node (wb_rpc_url s) = None"
    and "case wb_validator_url s of None \<Rightarrow> True | Some url \<Rightarrow> isl (fetch_validator_signature x io url (wr_message_id request))"
  shows "\<exists>tx. fst (submit_withdrawal fuel x node io s request) = [tx] \<and> wt_validator_signatures tx = []"
  using assms by (auto simp: submit_withdrawal_def validator_signatures_def Let_def split: option.splits sum.splits)

text \<open>The possible ends of a submission.\<close>

lemma submit_withdrawal_cases:
  assumes "submit_withdrawal fuel x node io s request = (txs, Some r)"
  obtains (rejected) e where "txs = []" "r = Inl e"
    | (failed) tx e where "txs = [tx]" "r = Inr \<lparr>wp_tx_hash = None, wp_error = Some e, wp_status = ''failed''\<rparr>"
    | (confirmed) tx h j where "txs = [tx]" "rn_withdraw node (wb_bridge_address s) tx = Inr h" "snd (rn_polls node h j) = Receipt True"
        "r = Inr \<lparr>wp_tx_hash = Some (show_hash x h), wp_error = None, wp_status = ''confirmed''\<rparr>"
    | (submitted) tx h e where "txs = [tx]" "rn_withdraw node (wb_bridge_address s) tx = Inr h"
        "r = Inr \<lparr>wp_tx_hash = Some (show_hash x h), wp_error = Some e, wp_status = ''submitted''\<rparr>"
proof (cases "txs = []")
  case True
  with assms have "\<exists>e. r = Inl e"
    by (auto simp: submit_withdrawal_def Let_def split: sum.splits option.splits)
  with True rejected show thesis by blast
next
  case False
  obtain q where q: "parse_withdrawal x io request = Inr q"
    using assms False by (cases "parse_withdrawal x io request") (auto simp: submit_withdrawal_def)
  obtain mid target payload amount seq_sig where q': "q = (mid, target, payload, amount, seq_sig)" by (cases q)
  have url: "rn_url_error node (wb_rpc_url s) = None"
    using assms False q q' by (cases "rn_url_error node (wb_rpc_url s)") (auto simp: submit_withdrawal_def)
  define tx where "tx = \<lparr>wt_message_id = mid, wt_target_address = target, wt_payload = payload,
      wt_sequencer_signature = seq_sig, wt_sequence = wr_sequence request, wt_timestamp = wr_timestamp request,
      wt_validator_signatures = validator_signatures x io s (wr_message_id request), wt_native_token_amount = amount\<rparr>"
  have tx: "txs = [tx]" and r: "(case rn_withdraw node (wb_bridge_address s) tx of
      Inl e \<Rightarrow> Some (Inr \<lparr>wp_tx_hash = None, wp_error = Some e, wp_status = ''failed''\<rparr>)
    | Inr tx_hash \<Rightarrow> map_option (\<lambda>c. Inr (case c of
          Inr _ \<Rightarrow> \<lparr>wp_tx_hash = Some (show_hash x tx_hash), wp_error = None, wp_status = ''confirmed''\<rparr>
        | Inl e \<Rightarrow> \<lparr>wp_tx_hash = Some (show_hash x tx_hash), wp_error = Some e, wp_status = ''submitted''\<rparr>))
        (relayer_confirmation fuel x node (wb_tx_confirmation_timeout s) tx_hash)) = Some r"
    using assms q q' url unfolding tx_def by (simp_all add: submit_withdrawal_def Let_def)
  show thesis
  proof (cases "rn_withdraw node (wb_bridge_address s) tx")
    case (Inl e)
    with r have "r = Inr \<lparr>wp_tx_hash = None, wp_error = Some e, wp_status = ''failed''\<rparr>" by simp
    with tx show thesis by (rule failed)
  next
    case (Inr h)
    with r obtain c where c: "relayer_confirmation fuel x node (wb_tx_confirmation_timeout s) h = Some c"
      "r = Inr (case c of
          Inr _ \<Rightarrow> \<lparr>wp_tx_hash = Some (show_hash x h), wp_error = None, wp_status = ''confirmed''\<rparr>
        | Inl e \<Rightarrow> \<lparr>wp_tx_hash = Some (show_hash x h), wp_error = Some e, wp_status = ''submitted''\<rparr>)"
      by auto
    show thesis
    proof (cases c)
      case (Inl e)
      with c have "r = Inr \<lparr>wp_tx_hash = Some (show_hash x h), wp_error = Some e, wp_status = ''submitted''\<rparr>" by simp
      with tx Inr show thesis by (rule submitted)
    next
      case u: (Inr u)
      with c have "r = Inr \<lparr>wp_tx_hash = Some (show_hash x h), wp_error = None, wp_status = ''confirmed''\<rparr>"
        and "relayer_confirmation fuel x node (wb_tx_confirmation_timeout s) h = Some (Inr ())" by simp_all
      with relayer_confirmed [OF this(2)] confirmed [OF tx Inr] show thesis by blast
    qed
  qed
qed

text \<open>The status of a withdrawal submission tells what happened: 200 means that the one transaction sent was confirmed, 202
  that it was sent and not confirmed in time or reverted, and in every other case the status is 500 and the reply carries an error.\<close>

theorem withdrawal_status_sound:
  assumes "submit_withdrawal_handler fuel x node io (Some s) request = (txs, Some (code, resp))"
  shows "(code = 200 \<longrightarrow> (\<exists>tx h j. txs = [tx] \<and> rn_withdraw node (wb_bridge_address s) tx = Inr h \<and> snd (rn_polls node h j) = Receipt True
            \<and> wp_tx_hash resp = Some (show_hash x h)))
    \<and> (code = 202 \<longrightarrow> (\<exists>tx h. txs = [tx] \<and> rn_withdraw node (wb_bridge_address s) tx = Inr h \<and> wp_tx_hash resp = Some (show_hash x h)
            \<and> wp_error resp \<noteq> None))
    \<and> (code \<notin> {200, 202} \<longrightarrow> code = 500 \<and> wp_error resp \<noteq> None \<and> wp_tx_hash resp = None)"
proof -
  from assms obtain r where r: "submit_withdrawal fuel x node io s request = (txs, Some r)"
    "(code, resp) = (case r of
        Inr response \<Rightarrow> (if wp_status response = ''confirmed'' then 200 else if wp_status response = ''submitted'' then 202 else 500, response)
      | Inl e \<Rightarrow> (500, \<lparr>wp_tx_hash = None, wp_error = Some e, wp_status = ''failed''\<rparr>))"
    by (auto simp: submit_withdrawal_handler_def split: prod.splits)
  from r(1) show ?thesis
    by (cases rule: submit_withdrawal_cases) (use r(2) in auto)
qed

section \<open>Witnesses\<close>

definition demo_relayer_node :: relayer_node where
  "demo_relayer_node = \<lparr>rn_url_error = (\<lambda>_. None), rn_key_error = (\<lambda>_. None), rn_tee_key_manager = (\<lambda>_. Inr [2]),
     rn_is_key_valid = (\<lambda>_ _ _. Inl ''InvalidPublicKey''), rn_register = (\<lambda>_ _. Inr [9]), rn_withdraw = (\<lambda>_ _. Inr [8]),
     rn_polls = (\<lambda>_ i. (2000 * i, Receipt True))\<rparr>"

definition demo_submitter :: relayer_submitter where
  "demo_submitter = \<lparr>rs_rpc_url = ''r'', rs_bridge_address = [1], rs_tee_key_manager_address = [2],
     rs_tx_confirmation_timeout = 120 * nanos_per_sec\<rparr>"

definition demo_public_values :: public_values where
  "demo_public_values = \<lparr>pv_jwk_key_hash = replicate 32 1, pv_validity_window_start = 1, pv_validity_window_end = 9,
     pv_image_digest_hash = replicate 32 2, pv_tee_signing_key = replicate 20 3, pv_secboot = True, pv_dbgstat_disabled = True,
     pv_audience_hash = replicate 32 4, pv_image_signature_v = 27, pv_image_signature_r = replicate 32 5,
     pv_image_signature_s = replicate 32 6\<rparr>"

definition demo_relayer_config :: relayer_config where
  "demo_relayer_config = \<lparr>rf_rpc_url = ''r'', rf_chain_id = 1, rf_bridge_address = [1], rf_private_key = [], rf_listen_addr = [],
     rf_tx_confirmation_timeout = 120 * nanos_per_sec, rf_validator_url = None,
     rf_applications = [replicate 32 4 \<mapsto> \<lparr>ap_audience = ''a'', ap_allowed_image_digests = [replicate 32 2]\<rparr>]\<rparr>"

definition demo_relayer_client :: relayer_client where
  "demo_relayer_client = \<lparr>rl_relayer_url = ''u'', rl_tee_key_manager_address = [2], rl_chain_id = 1\<rparr>"

lemma demo_pv_wf: "pv_wf demo_public_values"
  by (simp add: pv_wf_def demo_public_values_def)

lemma demo_not_valid: "relayer_is_key_valid c demo_relayer_node demo_submitter a = Inr False"
proof -
  have "is_invalid_public_key_error ''InvalidPublicKey''" by code_simp
  then show ?thesis by (simp add: relayer_is_key_valid_def demo_relayer_node_def)
qed

lemma demo_request:
  "\<exists>request. registration_request demo_ext demo_relayer_client (demo_key_manager True) 1000
     (''0x'' @ hex_encode demo_ext (abi_layout demo_public_values)) ''0x'' ValidatorKey = Inr request"
proof -
  have "demo_hex_decode (trim_start_0x ''0x'') = Inr []" by code_simp
  then show ?thesis
    by (simp add: registration_request_def Let_def trim_start_demo_hex demo_hex_roundtrip create_registration_signature_def
        demo_key_manager_def)
qed

lemma demo_trim: "\<forall>bs. trim_start_0x (hex_encode demo_ext bs) = hex_encode demo_ext bs"
  by (simp add: trim_start_demo_hex)

lemma demo_allowed: "is_digest_allowed demo_relayer_config (pv_audience_hash demo_public_values) (pv_image_digest_hash demo_public_values)"
  by (simp add: is_digest_allowed_def demo_relayer_config_def demo_public_values_def)

theorem client_request_relayed_witness:
  "\<exists>request tx. registration_request demo_ext demo_relayer_client (demo_key_manager True) 1000
       (''0x'' @ hex_encode demo_ext (abi_layout demo_public_values)) ''0x'' ValidatorKey = Inr request
     \<and> fst (relayer_register_key 3 demo_ext 900 demo_relayer_node demo_relayer_config demo_submitter request) = [tx]
     \<and> tx_public_values tx = abi_layout demo_public_values \<and> tx_deadline tx = 4600"
proof -
  obtain request where q: "registration_request demo_ext demo_relayer_client (demo_key_manager True) 1000
       (''0x'' @ hex_encode demo_ext (abi_layout demo_public_values)) ''0x'' ValidatorKey = Inr request"
    using demo_request by blast
  from client_request_relayed [OF q demo_hex demo_trim refl demo_pv_wf demo_allowed demo_not_valid, of 900 3]
  show ?thesis using q by auto
qed

lemma demo_relayed:
  "\<exists>request tx r. relayer_register_key 3 demo_ext 900 demo_relayer_node demo_relayer_config demo_submitter request = ([tx], r)
     \<and> rq_deadline request = 4600"
proof -
  obtain request where q: "registration_request demo_ext demo_relayer_client (demo_key_manager True) 1000
       (''0x'' @ hex_encode demo_ext (abi_layout demo_public_values)) ''0x'' ValidatorKey = Inr request"
    using demo_request by blast
  from registration_request_fields [OF q demo_hex demo_trim] obtain pb fb sig where
    f: "hex_decode demo_ext (trim_start_0x (rq_public_values request)) = Inr pb"
      "hex_decode demo_ext (trim_start_0x (rq_proof_bytes request)) = Inr fb"
      "hex_decode demo_ext (trim_start_0x (rq_signature request)) = Inr sig"
      "rq_deadline request = 4600" "rq_public_values request = ''0x'' @ hex_encode demo_ext (abi_layout demo_public_values)"
    by auto
  have pb: "pb = abi_layout demo_public_values" using f(1,5) by (simp add: demo_hex_roundtrip trim_start_demo_hex)
  have "check_registration demo_ext 900 demo_relayer_config request = Inr (pb, \<lparr>af_image_digest_hash = pv_image_digest_hash demo_public_values,
      af_audience_hash = pv_audience_hash demo_public_values, af_tee_signing_key = pv_tee_signing_key demo_public_values\<rparr>, fb, sig)"
    unfolding check_registration_ok MAX_DEADLINE_FUTURE_SECS_def
    using f pb demo_allowed extracted_fields [OF demo_pv_wf] by simp
  then show ?thesis using f(4) by (intro exI) (auto simp: relayer_register_key_def demo_not_valid register_tx)
qed

theorem registration_submitted_only_if_allowed_witness:
  "\<exists>request tx r. relayer_register_key 3 demo_ext 900 demo_relayer_node demo_relayer_config demo_submitter request = ([tx], r)
     \<and> tx_deadline tx = rq_deadline request \<and> 900 < tx_deadline tx \<and> tx_deadline tx \<le> 900 + 86400"
proof -
  obtain request tx r where q: "relayer_register_key 3 demo_ext 900 demo_relayer_node demo_relayer_config demo_submitter request = ([tx], r)"
    using demo_relayed by blast
  have "tx \<in> set [tx]" by simp
  from registration_submitted_only_if_allowed [OF q this] q show ?thesis by blast
qed

definition demo_cli :: cli_config where
  "demo_cli = \<lparr>cl_config_path = None, cl_rpc_url = Some ''r'', cl_chain_id = Some 1, cl_bridge_address = Some (replicate 20 1),
     cl_private_key = Some (demo_hex_encode (replicate 32 17)), cl_listen_addr = ''0.0.0.0:8082'', cl_tx_confirmation_timeout_secs = 120,
     cl_required_audience = Some ''app'', cl_allowed_image_digests = Some ''sha256:12, sha256:34'', cl_validator_url = None\<rparr>"

theorem malformed_allowlist_allows_all_witness:
  "\<exists>config. from_env demo_ext demo_cli = Inr config
     \<and> is_digest_allowed config (compute_audience_hash demo_ext ''app'') (replicate 32 99)"
proof -
  have "length (demo_hex_encode bs) = 2 * length bs" for bs by (induction bs) (simp_all add: demo_hex_encode_def)
  then have len: "length (demo_hex_encode (replicate 32 17)) = 64" by simp
  have "\<exists>config. from_env demo_ext demo_cli = Inr config"
    by (simp add: from_env_def demo_cli_def Let_def trim_start_demo_hex demo_hex_roundtrip len)
  then obtain config where c: "from_env demo_ext demo_cli = Inr config" ..
  have parts: "split_on (CHR '','') ''sha256:12, sha256:34'' = [''sha256:12'', '' sha256:34'']" by code_simp
  have trim: "str_trim ''sha256:12'' = ''sha256:12''" "str_trim ''sha256:34'' = ''sha256:34''" "str_trim '' sha256:34'' = ''sha256:34''"
    by code_simp+
  have "parse_b256 demo_ext (str_trim ''sha256:12'') = None" "parse_b256 demo_ext (str_trim '' sha256:34'') = None"
    by (simp_all add: trim parse_b256_def demo_hex_decode_def)
  then have "\<forall>e \<in> set (split_on (CHR '','') ''sha256:12, sha256:34''). parse_b256 demo_ext (str_trim e) = None"
    unfolding parts by simp
  from malformed_allowlist_allows_all [OF c _ _ this, of "''app''" "replicate 32 99"] c show ?thesis by (auto simp: demo_cli_def)
qed

definition demo_api_state :: signature_api_state where
  "demo_api_state = \<lparr>sa_store = store_signature \<lparr>ms_message_id = ''0x'' @ demo_hex_encode (replicate 32 7), ms_signature = [1, 2],
     ms_signer = ''0xab'', ms_signed_at = 5\<rparr> new_signature_store, sa_signer_address = ''0xab'', sa_bridge_contract = [], sa_chain_id = 1\<rparr>"

definition demo_withdrawal_io :: withdrawal_io where
  "demo_withdrawal_io = \<lparr>wi_validator = (\<lambda>url. let h = get_signature_handler (drop 12 url) demo_api_state
       in Inr \<lparr>hr_status = fst h, hr_status_text = [], hr_body = Inr (case snd h of None \<Rightarrow> [] | Some sig \<Rightarrow> hex_bytes_serialize demo_ext (ms_signature sig))\<rparr>),
     wi_json = (\<lambda>b. Inr \<lparr>vs_message_id = [], vs_signature = b, vs_signer = [], vs_signed_at = 0\<rparr>), wi_alloy = demo_alloy\<rparr>"

definition demo_withdrawal_submitter :: withdrawal_submitter where
  "demo_withdrawal_submitter = \<lparr>wb_rpc_url = ''r'', wb_bridge_address = [1], wb_validator_url = Some ''v/'',
     wb_tx_confirmation_timeout = 120 * nanos_per_sec\<rparr>"

definition demo_withdrawal_request :: withdrawal_submission_request where
  "demo_withdrawal_request = \<lparr>wr_message_id = ''0x'' @ hex_encode demo_ext (replicate 32 7), wr_target_address = ''0x01'',
     wr_payload = ''0x'' @ hex_encode demo_ext [4], wr_native_token_amount = ''15'', wr_sequencer_signature = hex_encode demo_ext [6],
     wr_sequence = 3, wr_timestamp = 8\<rparr>"

theorem withdrawal_carries_validator_signature_witness:
  "\<exists>tx. fst (submit_withdrawal 3 demo_ext demo_relayer_node demo_withdrawal_io demo_withdrawal_submitter demo_withdrawal_request) = [tx]
     \<and> wt_message_id tx = replicate 32 7 \<and> wt_validator_signatures tx = [[1, 2]]"
proof -
  have slash: "trim_end_slash ''v/'' = ''v''" by code_simp
  have amount: "parse_int (2 ^ 128) ''15'' = Inr 15"
    by (simp add: parse_int_def digit_val_def is_ascii_digit_def)
  have strip: "strip_0x (hex_encode demo_ext [6]) = demo_hex_encode [6]" by code_simp
  have p: "parse_withdrawal demo_ext demo_withdrawal_io demo_withdrawal_request = Inr (replicate 32 7, replicate 20 1, [4], 15, [6])"
    using strip amount by (simp add: parse_withdrawal_def demo_withdrawal_request_def demo_withdrawal_io_def demo_alloy_def demo_hex_roundtrip)
  have srv: "serves_signatures demo_ext demo_withdrawal_io ''v/'' demo_api_state"
    by (simp add: serves_signatures_def demo_withdrawal_io_def Let_def slash split: option.split)
  have url: "rn_url_error demo_relayer_node (wb_rpc_url demo_withdrawal_submitter) = None" by (simp add: demo_relayer_node_def)
  have val: "wb_validator_url demo_withdrawal_submitter = Some ''v/''" by (simp add: demo_withdrawal_submitter_def)
  have i: "wr_message_id demo_withdrawal_request = ''0x'' @ hex_encode demo_ext (replicate 32 7)"
    by (simp add: demo_withdrawal_request_def)
  have g: "get_signature (''0x'' @ hex_encode demo_ext (replicate 32 7)) (sa_store demo_api_state) =
     Some \<lparr>ms_message_id = ''0x'' @ demo_hex_encode (replicate 32 7), ms_signature = [1, 2], ms_signer = ''0xab'', ms_signed_at = 5\<rparr>"
    by (simp add: demo_api_state_def store_signature_get)
  from withdrawal_carries_validator_signature [OF p url val srv demo_hex i g, of 3] show ?thesis by simp
qed

end
