(* ===== verification/Http_Fetcher.thy ===== *)
theory Http_Fetcher
  imports Relayer Transport
begin

text \<open>
  The fetcher that reads the storage routes of a sequencer, \<open>crates/synddb-validator/src/sync/providers/http.rs\<close>,
  and its composition with the routes of \<open>Transport\<close>: what a sequencer signed, batched and published arrives at a
  validator, and passes its verifier.

  The answers of the network are a function of the attempt and the URL; the JSON forms are those of serde and are
  parameters.
\<close>

section \<open>Requests\<close>

text \<open>An error of reqwest, with the answers of the methods that classify it.\<close>

record reqwest_error =
  re_timeout :: bool
  re_connect :: bool
  re_request :: bool
  re_text :: string

text \<open>A response: reading the body may fail, and \<open>text().await.unwrap_or_default()\<close> is \<open>gr_text\<close>.\<close>

record get_response =
  gr_status :: nat
  gr_status_text :: string
  gr_body :: "reqwest_error + bytes"
  gr_text :: string

type_synonym network_get = "nat \<Rightarrow> string \<Rightarrow> reqwest_error + get_response"

definition gr_success :: "get_response \<Rightarrow> bool" where
  "gr_success r \<longleftrightarrow> 200 \<le> gr_status r \<and> gr_status r < 300"

record json_decoders =
  jd_message :: "bytes \<Rightarrow> string + signed_message"
  jd_latest :: "bytes \<Rightarrow> string + u64 option"
  jd_batches :: "bytes \<Rightarrow> string + (u64 \<times> u64) list"

text \<open>An \<open>anyhow\<close> error: one of reqwest under its context, or another one; it is shown by its outermost text.\<close>

datatype fetch_error = RequestError string reqwest_error | OtherError string

fun show_fetch_error :: "fetch_error \<Rightarrow> string" where
  "show_fetch_error (RequestError context e) = context"
| "show_fetch_error (OtherError text) = text"

definition with_context :: "string \<Rightarrow> reqwest_error + 'a \<Rightarrow> fetch_error + 'a" where
  "with_context context r = map_err (RequestError context) r"

text \<open>\<open>response.json()\<close>: a body that does not parse is an error of reqwest that no method classifies.\<close>

definition response_json :: "(bytes \<Rightarrow> string + 'a) \<Rightarrow> get_response \<Rightarrow> reqwest_error + 'a" where
  "response_json decode r =
     bind_r (gr_body r) (\<lambda>b. map_err (\<lambda>e. \<lparr>re_timeout = False, re_connect = False, re_request = False, re_text = e\<rparr>) (decode b))"

section \<open>The fetcher\<close>

record http_fetcher =
  ht_base_url :: string
  ht_max_retries :: nat

definition DEFAULT_MAX_RETRIES :: nat where "DEFAULT_MAX_RETRIES = 3"

definition http_with_config :: "string \<Rightarrow> nat \<Rightarrow> http_fetcher" where
  "http_with_config base_url max_retries = \<lparr>ht_base_url = trim_end_slash base_url, ht_max_retries = max_retries\<rparr>"

definition new_http_fetcher :: "string \<Rightarrow> http_fetcher" where
  "new_http_fetcher base_url = http_with_config base_url DEFAULT_MAX_RETRIES"

definition is_retryable_error :: "reqwest_error \<Rightarrow> bool" where
  "is_retryable_error e \<longleftrightarrow> re_timeout e \<or> re_connect e \<or> re_request e"

fun retryable :: "fetch_error \<Rightarrow> bool" where
  "retryable (RequestError context e) = is_retryable_error e"
| "retryable (OtherError text) = False"

text \<open>The loop over the attempts, with the delays it sleeps in milliseconds. An error that is not retryable only skips the
  delay.\<close>

function attempt_loop :: "(nat \<Rightarrow> fetch_error + 'a) \<Rightarrow> nat \<Rightarrow> nat \<Rightarrow> nat \<Rightarrow> nat list \<times> (fetch_error + 'a)" where
  "attempt_loop f max_retries delay attempt =
     (case f attempt of
        Inr result \<Rightarrow> ([], Inr result)
      | Inl e \<Rightarrow>
          (let should_retry = (attempt < max_retries \<and> retryable e);
               sleeps = (if should_retry then [delay] else []);
               delay' = (if should_retry then min (delay * 2) 10000 else delay)
           in if attempt < max_retries
              then (case attempt_loop f max_retries delay' (Suc attempt) of (ds, r) \<Rightarrow> (sleeps @ ds, r))
              else (sleeps, Inl e)))"
  by auto
termination
  by (relation "measure (\<lambda>(f, max_retries, delay, attempt). max_retries - attempt)") auto

declare attempt_loop.simps [simp del]

definition execute_with_retry :: "http_fetcher \<Rightarrow> (nat \<Rightarrow> fetch_error + 'a) \<Rightarrow> string + 'a" where
  "execute_with_retry h f = map_err show_fetch_error (snd (attempt_loop f (ht_max_retries h) 100 0))"

definition message_url :: "http_fetcher \<Rightarrow> u64 \<Rightarrow> string" where
  "message_url h sequence = ht_base_url h @ ''/storage/messages/'' @ show_u64 sequence"

definition latest_url :: "http_fetcher \<Rightarrow> string" where
  "latest_url h = ht_base_url h @ ''/storage/latest''"

definition batches_url :: "http_fetcher \<Rightarrow> string" where
  "batches_url h = ht_base_url h @ ''/storage/batches''"

definition batch_url :: "http_fetcher \<Rightarrow> u64 \<Rightarrow> string" where
  "batch_url h start_sequence = ht_base_url h @ ''/storage/batches/'' @ show_u64 start_sequence"

definition http_get_message :: "json_decoders \<Rightarrow> network_get \<Rightarrow> http_fetcher \<Rightarrow> u64 \<Rightarrow> string + signed_message option" where
  "http_get_message js ask h sequence =
     execute_with_retry h (\<lambda>attempt.
       bind_r (with_context (''Failed to fetch message '' @ show_u64 sequence @ '' from '' @ message_url h sequence)
           (ask attempt (message_url h sequence))) (\<lambda>response.
       if gr_success response
       then bind_r (with_context (''Failed to parse message '' @ show_u64 sequence) (response_json (jd_message js) response)) (\<lambda>m. Inr (Some m))
       else if gr_status response = 404 then Inr None
       else Inl (OtherError (''HTTP error '' @ gr_status_text response @ '' fetching message '' @ show_u64 sequence @ '': '' @ gr_text response))))"

definition http_get_latest_sequence :: "json_decoders \<Rightarrow> network_get \<Rightarrow> http_fetcher \<Rightarrow> string + u64 option" where
  "http_get_latest_sequence js ask h =
     execute_with_retry h (\<lambda>attempt.
       bind_r (with_context (''Failed to fetch latest sequence from '' @ latest_url h) (ask attempt (latest_url h))) (\<lambda>response.
       if \<not> gr_success response
       then Inl (OtherError (''HTTP error '' @ gr_status_text response @ '' fetching latest sequence: '' @ gr_text response))
       else with_context ''Failed to parse latest sequence response'' (response_json (jd_latest js) response)))"

definition http_list_batches :: "json_decoders \<Rightarrow> network_get \<Rightarrow> http_fetcher \<Rightarrow> string + batch_info list" where
  "http_list_batches js ask h =
     execute_with_retry h (\<lambda>attempt.
       bind_r (with_context (''Failed to list batches from '' @ batches_url h) (ask attempt (batches_url h))) (\<lambda>response.
       if \<not> gr_success response
       then Inl (OtherError (''HTTP error '' @ gr_status_text response @ '' listing batches: '' @ gr_text response))
       else bind_r (with_context ''Failed to parse batches list response'' (response_json (jd_batches js) response)) (\<lambda>batches.
            Inr (map (\<lambda>(s, e). new_batch_info s e (show_u64 s)) batches))))"

definition http_get_batch :: "('vk, 'sg) ext \<Rightarrow> network_get \<Rightarrow> http_fetcher \<Rightarrow> u64 \<Rightarrow> string + signed_batch option" where
  "http_get_batch x ask h start_sequence =
     execute_with_retry h (\<lambda>attempt.
       bind_r (with_context (''Failed to fetch batch '' @ show_u64 start_sequence @ '' from '' @ batch_url h start_sequence)
           (ask attempt (batch_url h start_sequence))) (\<lambda>response.
       if gr_success response
       then bind_r (with_context (''Failed to read batch '' @ show_u64 start_sequence @ '' body'') (gr_body response)) (\<lambda>data.
            bind_r (map_err (\<lambda>_. OtherError (''Failed to parse CBOR batch '' @ show_u64 start_sequence)) (from_cbor_zstd x data)) (\<lambda>cbor_batch.
            bind_r (map_err (\<lambda>_. OtherError (''Failed to convert CBOR batch '' @ show_u64 start_sequence)) (to_signed_batch x cbor_batch)) (\<lambda>batch.
            Inr (Some batch))))
       else if gr_status response = 404 then Inr None
       else Inl (OtherError (''HTTP error '' @ gr_status_text response @ '' fetching batch '' @ show_u64 start_sequence @ '': '' @ gr_text response))))"

definition http_get_batch_by_path :: "('vk, 'sg) ext \<Rightarrow> network_get \<Rightarrow> http_fetcher \<Rightarrow> string \<Rightarrow> string + signed_batch option" where
  "http_get_batch_by_path x ask h path =
     bind_r (map_err (\<lambda>_. ''Invalid batch path: '' @ path) (parse_int (2 ^ 64) path)) (\<lambda>n. http_get_batch x ask h (of_nat n))"

definition http_as_fetcher :: "('vk, 'sg) ext \<Rightarrow> json_decoders \<Rightarrow> network_get \<Rightarrow> http_fetcher \<Rightarrow> fetcher" where
  "http_as_fetcher x js ask h =
     \<lparr>f_name = ''http'', f_supports_batches = True, f_get = http_get_message js ask h,
      f_get_latest_sequence = http_get_latest_sequence js ask h, f_list_batches = http_list_batches js ask h,
      f_get_batch = http_get_batch x ask h, f_get_batch_by_path = http_get_batch_by_path x ask h\<rparr>"

section \<open>The routes of the sequencer\<close>

text \<open>
  \<open>LocalTransport::routes\<close> under \<open>/storage\<close>: the paths with a number, which axum parses, and the two without.\<close>

record json_encoders =
  je_message :: "signed_message \<Rightarrow> bytes"
  je_latest :: "u64 option \<Rightarrow> bytes"
  je_batches :: "(u64 \<times> u64) list \<Rightarrow> bytes"

definition reply_ok :: "bytes \<Rightarrow> get_response" where
  "reply_ok b = \<lparr>gr_status = 200, gr_status_text = ''200 OK'', gr_body = Inr b, gr_text = []\<rparr>"

definition reply_status :: "nat \<Rightarrow> string \<Rightarrow> get_response" where
  "reply_status code text = \<lparr>gr_status = code, gr_status_text = text, gr_body = Inr [], gr_text = []\<rparr>"

definition numbered_route :: "(u64 \<Rightarrow> bytes option) \<Rightarrow> string \<Rightarrow> get_response" where
  "numbered_route handler segment =
     (case parse_int (2 ^ 64) segment of
        Inl e \<Rightarrow> reply_status 400 ''400 Bad Request''
      | Inr n \<Rightarrow> (case handler (of_nat n) of None \<Rightarrow> reply_status 404 ''404 Not Found'' | Some b \<Rightarrow> reply_ok b))"

definition storage_routes :: "('vk, 'sg) ext \<Rightarrow> sqlite_engine \<Rightarrow> json_encoders \<Rightarrow> storage_inner \<Rightarrow> string \<Rightarrow> get_response" where
  "storage_routes x eng je st path =
     (if path = ''/batches'' then reply_ok (je_batches je (list_batches_handler st))
      else if path = ''/latest'' then reply_ok (je_latest je (get_latest_handler st))
      else case strip_prefix ''/batches/'' path of
             Some start \<Rightarrow> numbered_route (get_batch_cbor_handler st) start
           | None \<Rightarrow>
               (case strip_prefix ''/messages/'' path of
                  Some sequence \<Rightarrow> numbered_route (\<lambda>n. map_option (je_message je) (get_message_handler x eng st n)) sequence
                | None \<Rightarrow> reply_status 404 ''404 Not Found''))"

section \<open>Retries\<close>

lemma attempt_success: "f attempt = Inr r \<Longrightarrow> attempt_loop f max_retries delay attempt = ([], Inr r)"
  by (simp add: attempt_loop.simps [of f max_retries delay attempt])

lemma attempt_last: "f max_retries = Inl e \<Longrightarrow> attempt_loop f max_retries delay max_retries = ([], Inl e)"
  by (simp add: attempt_loop.simps [of f max_retries delay max_retries])

lemma attempt_again:
  assumes "f attempt = Inl e" "attempt < max_retries"
  shows "attempt_loop f max_retries delay attempt =
    apfst ((@) (if retryable e then [delay] else []))
      (attempt_loop f max_retries (if retryable e then min (delay * 2) 10000 else delay) (Suc attempt))"
  using assms by (simp add: attempt_loop.simps [of f max_retries delay attempt] Let_def apfst_def map_prod_def split_beta)

text \<open>Induction over the attempts, from the last one back.\<close>

lemma attempt_induct [consumes 1, case_names success last again]:
  assumes "attempt \<le> (max_retries :: nat)"
    and "\<And>delay attempt r. f attempt = Inr r \<Longrightarrow> attempt \<le> max_retries \<Longrightarrow> P delay attempt"
    and "\<And>delay e. f max_retries = Inl e \<Longrightarrow> P delay max_retries"
    and "\<And>delay attempt e. f attempt = Inl (e :: fetch_error) \<Longrightarrow> attempt < max_retries
      \<Longrightarrow> P (if retryable e then min (delay * 2) 10000 else delay) (Suc attempt) \<Longrightarrow> P delay attempt"
  shows "P (delay :: nat) attempt"
  using assms(1)
proof (induction attempt arbitrary: delay rule: inc_induct)
  case base
  show ?case by (cases "f max_retries") (use assms(2,3) in auto)
next
  case (step n)
  show ?case
  proof (cases "f n")
    case (Inl e)
    with step assms(4) show ?thesis by blast
  next
    case (Inr r)
    with step(2) assms(2) show ?thesis by simp
  qed
qed

lemma attempt_loop_success:
  assumes "\<forall>i < k. \<exists>e. f i = Inl e" "f k = Inr r" "attempt \<le> k" "k \<le> max_retries"
  shows "snd (attempt_loop f max_retries delay attempt) = Inr r"
  using assms(3)
proof (induction attempt arbitrary: delay rule: inc_induct)
  case base
  show ?case by (simp add: attempt_success [of f k, OF assms(2)])
next
  case (step n)
  with assms(1) obtain e where "f n = Inl e" by blast
  with step assms(4) show ?case by (simp add: attempt_again)
qed

lemma attempt_loop_failure:
  assumes "\<forall>i \<le> max_retries. f i = Inl (e i)" "attempt \<le> max_retries"
  shows "snd (attempt_loop f max_retries delay attempt) = Inl (e max_retries)"
  using assms(2)
  by (induction delay attempt rule: attempt_induct [where max_retries = max_retries and f = f])
    (use assms in \<open>simp_all add: attempt_last attempt_again\<close>)

lemma execute_success:
  assumes "\<forall>i < k. \<exists>e. f i = Inl e" "f k = Inr r" "k \<le> ht_max_retries h"
  shows "execute_with_retry h f = Inr r"
  using attempt_loop_success [OF assms(1,2), of 0] assms(3) by (simp add: execute_with_retry_def)

text \<open>Every error is retried, not only the transient ones: when all attempts fail the operation makes \<open>max_retries + 1\<close>
  of them whatever the errors are, and reports the last one; when no error is retryable it never sleeps between them.\<close>

theorem permanent_errors_retried:
  assumes "\<forall>i \<le> ht_max_retries h. f i = Inl (OtherError (e i))"
  shows "execute_with_retry h f = Inl (e (ht_max_retries h)) \<and> fst (attempt_loop f (ht_max_retries h) 100 0) = []"
proof
  show "execute_with_retry h f = Inl (e (ht_max_retries h))"
    using attempt_loop_failure [OF assms, of 0] by (simp add: execute_with_retry_def)
  have "fst (attempt_loop f (ht_max_retries h) delay attempt) = []" if "attempt \<le> ht_max_retries h" for delay attempt
    using that
    by (induction delay attempt rule: attempt_induct [where max_retries = "ht_max_retries h" and f = f])
      (use assms in \<open>simp_all add: attempt_last attempt_again\<close>)
  then show "fst (attempt_loop f (ht_max_retries h) 100 0) = []" by simp
qed

text \<open>The delays double up to 10 seconds.\<close>

lemma retry_delays_bounded:
  assumes "attempt \<le> max_retries"
  shows "delay \<le> 10000 \<Longrightarrow> \<forall>d \<in> set (fst (attempt_loop f max_retries delay attempt)). delay \<le> d \<and> d \<le> 10000"
  using assms
proof (induction delay attempt rule: attempt_induct [where max_retries = max_retries and f = f])
  case (again delay attempt e)
  then show ?case by (cases "retryable e") (auto simp: attempt_again)
qed (simp_all add: attempt_success attempt_last)

lemma attempt_loop_sleeps:
  "attempt \<le> max_retries \<Longrightarrow> length (fst (attempt_loop f max_retries delay attempt)) \<le> max_retries - attempt"
proof (induction delay attempt rule: attempt_induct [where max_retries = max_retries and f = f])
  case (again delay attempt e)
  then show ?case using Suc_diff_Suc [of attempt max_retries] by (cases "retryable e") (simp_all add: attempt_again)
qed (simp_all add: attempt_success attempt_last)


section \<open>A fetcher connected to a sequencer\<close>

text \<open>
  The documented behaviour of the parts between the two: the JSON decoders invert the encoders, and every request of the
  fetcher gets the answer of the routes after at most \<open>max_retries\<close> failed attempts.\<close>

definition json_ok :: "json_decoders \<Rightarrow> json_encoders \<Rightarrow> bool" where
  "json_ok js je \<longleftrightarrow> (\<forall>q. jd_latest js (je_latest je q) = Inr q) \<and> (\<forall>bs. jd_batches js (je_batches je bs) = Inr bs)"

definition reaches :: "http_fetcher \<Rightarrow> network_get \<Rightarrow> (string \<Rightarrow> get_response) \<Rightarrow> bool" where
  "reaches h ask routes \<longleftrightarrow>
     (\<forall>path. \<exists>k \<le> ht_max_retries h. (\<forall>i < k. \<exists>e. ask i (ht_base_url h @ ''/storage'' @ path) = Inl e)
        \<and> ask k (ht_base_url h @ ''/storage'' @ path) = Inr (routes path))"

lemma reached:
  assumes "reaches h ask routes" and "routes path = response" and "url = ht_base_url h @ ''/storage'' @ path"
    and "g response = Inr r"
  shows "execute_with_retry h (\<lambda>i. bind_r (with_context c (ask i url)) g) = Inr r"
proof -
  obtain k where k: "k \<le> ht_max_retries h" "\<forall>i < k. \<exists>e. ask i url = Inl e" "ask k url = Inr response"
    using assms(1-3) unfolding reaches_def by blast
  show ?thesis
    by (rule execute_success [OF _ _ k(1)]) (use k assms(4) in \<open>fastforce simp: with_context_def\<close>)+
qed

lemma numbered_route_show: "numbered_route handler (show_u64 q) = (case handler q of None \<Rightarrow> reply_status 404 ''404 Not Found'' | Some b \<Rightarrow> reply_ok b)"
  by (simp add: numbered_route_def)

lemma routes_batch: "storage_routes x eng je st (''/batches/'' @ show_u64 q) =
    (case get_batch_compressed st q of None \<Rightarrow> reply_status 404 ''404 Not Found'' | Some b \<Rightarrow> reply_ok b)"
  by (simp add: storage_routes_def numbered_route_show get_batch_cbor_handler_def)

lemma routes_message: "storage_routes x eng je st (''/messages/'' @ show_u64 q) =
    (case get_message_handler x eng st q of None \<Rightarrow> reply_status 404 ''404 Not Found'' | Some m \<Rightarrow> reply_ok (je_message je m))"
  by (auto simp: storage_routes_def numbered_route_show split: option.splits)

lemma routes_latest: "storage_routes x eng je st ''/latest'' = reply_ok (je_latest je (get_latest_handler st))"
  by (simp add: storage_routes_def)

lemma routes_batches: "storage_routes x eng je st ''/batches'' = reply_ok (je_batches je (list_batches_handler st))"
  by (simp add: storage_routes_def)

lemma reply_sel [simp]:
  "gr_success (reply_ok b)" "gr_body (reply_ok b) = Inr b" "gr_status (reply_ok b) = 200"
  "gr_status (reply_status c t) = c" "gr_success (reply_status c t) \<longleftrightarrow> 200 \<le> c \<and> c < 300"
  by (simp_all add: reply_ok_def reply_status_def gr_success_def)

lemma served_batch:
  assumes "reaches h ask (storage_routes x eng je st)" "get_batch_compressed st q = Some c" "from_cbor_zstd x c = Inr b" "to_signed_batch x b = Inr sb"
  shows "http_get_batch x ask h q = Inr (Some sb)"
proof -
  have "storage_routes x eng je st (''/batches/'' @ show_u64 q) = reply_ok c" using assms(2) by (simp only: routes_batch option.case)
  with assms show ?thesis unfolding http_get_batch_def
    by (intro reached [OF assms(1)])
      (assumption, simp add: batch_url_def, simp only: reply_sel if_True with_context_def result_simps)
qed

lemma served_no_batch:
  assumes "reaches h ask (storage_routes x eng je st)" "get_batch_compressed st q = None"
  shows "http_get_batch x ask h q = Inr None"
proof -
  have "storage_routes x eng je st (''/batches/'' @ show_u64 q) = reply_status 404 ''404 Not Found''"
    using assms(2) by (simp only: routes_batch option.case)
  then show ?thesis unfolding http_get_batch_def
    by (rule reached [OF assms(1)]) (simp_all add: batch_url_def)
qed

lemma served_message:
  assumes "reaches h ask (storage_routes x eng je st)" "\<forall>m. jd_message js (je_message je m) = Inr m"
  shows "http_get_message js ask h q = Inr (get_message_handler x eng st q)"
  unfolding http_get_message_def
  by (rule reached [OF assms(1) routes_message])
    (use assms in \<open>auto simp: message_url_def with_context_def response_json_def json_ok_def split: option.splits\<close>)

lemma served_latest:
  assumes "reaches h ask (storage_routes x eng je st)" "json_ok js je"
  shows "http_get_latest_sequence js ask h = Inr (latest_sequence st)"
  unfolding http_get_latest_sequence_def
  by (rule reached [OF assms(1) routes_latest])
    (use assms in \<open>auto simp: latest_url_def get_latest_handler_def with_context_def response_json_def json_ok_def\<close>)

lemma served_listing:
  assumes "reaches h ask (storage_routes x eng je st)" "json_ok js je"
  shows "http_list_batches js ask h = Inr (map (\<lambda>s. new_batch_info (sd_start_sequence s) (sd_end_sequence s) (show_u64 (sd_start_sequence s))) (stored_values st))"
  unfolding http_list_batches_def
  by (rule reached [OF assms(1) routes_batches])
    (use assms in \<open>auto simp: batches_url_def list_batches_handler_def list_batch_info_def batch_info_with_hash_def
       with_context_def response_json_def json_ok_def\<close>)

section \<open>The contract of batch retrieval\<close>

text \<open>A served storage: the listed ranges are those of the batches, which convert to the validator's type.\<close>

definition stored_convertible :: "('vk, 'sg) ext \<Rightarrow> stored_batch \<Rightarrow> bool" where
  "stored_convertible x s \<longleftrightarrow>
     (\<exists>b sb. from_cbor_zstd x (sd_compressed_data s) = Inr b \<and> to_signed_batch x b = Inr sb
        \<and> sb_start_sequence sb = sd_start_sequence s \<and> sb_end_sequence sb = sd_end_sequence s)"

definition served_ok :: "('vk, 'sg) ext \<Rightarrow> sqlite_engine \<Rightarrow> json_decoders \<Rightarrow> json_encoders \<Rightarrow> http_fetcher \<Rightarrow> network_get \<times> storage_inner \<Rightarrow> bool" where
  "served_ok x eng js je h = (\<lambda>(ask, st). json_ok js je \<and> reaches h ask (storage_routes x eng je st) \<and> (memory_inv st \<or> sqlite_inv st)
     \<and> (\<forall>s \<in> set (stored_values st). stored_convertible x s))"

lemma stored_values_sorted:
  assumes "memory_inv st \<or> sqlite_inv st"
  shows "sorted_wrt (\<lambda>a b. sd_start_sequence a < sd_start_sequence b) (stored_values st)"
proof (cases st)
  case (Memory t)
  with assms have t: "bt_sorted t" "\<forall>(k, v) \<in> set t. sd_start_sequence v = k" by (auto simp: memory_inv_def sqlite_inv_def)
  then have "map sd_start_sequence (map snd t) = map fst t" by auto
  with t(1) have "sorted_wrt (<) (map sd_start_sequence (map snd t))" by (simp only: bt_sorted_def)
  then show ?thesis by (simp add: Memory stored_values_def bt_values_def sorted_wrt_map)
next
  case (Sqlite rows)
  with assms have "distinct (map sd_start_sequence rows)" by (auto simp: memory_inv_def sqlite_inv_def)
  then have "distinct (map sd_start_sequence (sort_key sd_start_sequence rows))"
    by (metis mset_eq_imp_distinct_iff mset_map mset_sort)
  then have "sorted_wrt (<) (map sd_start_sequence (sort_key sd_start_sequence rows))"
    by (simp add: strict_sorted_iff)
  then show ?thesis by (simp add: Sqlite stored_values_def sorted_wrt_map)
qed

lemma stored_value_found:
  assumes "memory_inv st \<or> sqlite_inv st" "s \<in> set (stored_values st)"
  shows "get_batch_compressed st (sd_start_sequence s) = Some (sd_compressed_data s)"
proof (cases st)
  case (Memory t)
  with assms have "bt_sorted t" "(sd_start_sequence s, s) \<in> set t"
    by (auto simp: memory_inv_def sqlite_inv_def set_stored_values)
  then show ?thesis by (simp add: Memory get_batch_compressed_def bt_get_mem [THEN iffD2])
next
  case (Sqlite rows)
  with assms have d: "distinct (map sd_start_sequence rows)" and s: "s \<in> set rows"
    by (auto simp: memory_inv_def sqlite_inv_def set_stored_values)
  then have "find (\<lambda>r. sd_start_sequence r = sd_start_sequence s) rows = Some s"
    by (induction rows) (auto simp: image_iff)
  then show ?thesis by (simp add: Sqlite get_batch_compressed_def)
qed

interpretation http: batch_storage "\<lambda>(ask, st). http_list_batches js ask h" "\<lambda>(ask, st). http_get_batch_by_path x ask h"
    "served_ok x eng js je h" for x :: "('vk, 'sg) ext" and eng js je h
proof
  fix s bs
  assume valid: "served_ok x eng js je h s" and l: "(case s of (ask, st) \<Rightarrow> http_list_batches js ask h) = Inr bs"
  obtain ask st where s: "s = (ask, st)" by (cases s)
  have v: "json_ok js je" "reaches h ask (storage_routes x eng je st)" "memory_inv st \<or> sqlite_inv st" "\<forall>s \<in> set (stored_values st). stored_convertible x s"
    using valid by (simp_all add: s served_ok_def)
  have bs: "bs = map (\<lambda>s. new_batch_info (sd_start_sequence s) (sd_end_sequence s) (show_u64 (sd_start_sequence s))) (stored_values st)"
    using l served_listing [OF v(2,1)] by (simp add: s)
  show "sorted_wrt (\<lambda>a b. bi_start_sequence a < bi_start_sequence b) bs"
    using stored_values_sorted [OF v(3)] by (simp add: bs sorted_wrt_map new_batch_info_def)
  fix b assume "b \<in> set bs"
  then obtain r where r: "r \<in> set (stored_values st)" "b = new_batch_info (sd_start_sequence r) (sd_end_sequence r) (show_u64 (sd_start_sequence r))"
    by (auto simp: bs)
  then obtain cb sb where sb: "from_cbor_zstd x (sd_compressed_data r) = Inr cb" "to_signed_batch x cb = Inr sb"
    "sb_start_sequence sb = sd_start_sequence r" "sb_end_sequence sb = sd_end_sequence r"
    using v(4) by (auto simp: stored_convertible_def)
  have "http_get_batch x ask h (sd_start_sequence r) = Inr (Some sb)"
    by (rule served_batch [OF v(2) stored_value_found [OF v(3) r(1)] sb(1,2)])
  with sb(3,4) r(2) show "\<exists>sb. (case s of (ask, st) \<Rightarrow> http_get_batch_by_path x ask h) (bi_path b) = Inr (Some sb)
      \<and> sb_start_sequence sb = bi_start_sequence b \<and> sb_end_sequence sb = bi_end_sequence b"
    by (simp add: s http_get_batch_by_path_def new_batch_info_def)
qed

text \<open>
  Whatever the index of a served listing finds for a number is fetched, and its range contains the number.\<close>

theorem http_found_batch_fetched:
  assumes "served_ok x eng js je h (ask, st)" and "http_list_batches js ask h = Inr ix" and "find_batch_containing ix q = Some b"
  shows "\<exists>sb. http_get_batch_by_path x ask h (bi_path b) = Inr (Some sb) \<and> sb_start_sequence sb \<le> q \<and> q \<le> sb_end_sequence sb"
  using http.found_batch_fetched [OF assms(1), of ix q b] assms(2,3) by simp

section \<open>From the sequencer to the validator\<close>

text \<open>A batch of requests signed one after the other and batched under the key.\<close>

definition sequenced ::
  "('vk, 'sg) ext \<Rightarrow> 'vk \<Rightarrow> (bytes \<Rightarrow> cbor_error + 'sg) \<Rightarrow> (u64 \<times> u64 \<times> message_type \<times> bytes) list \<Rightarrow> cbor_batch \<Rightarrow> bool" where
  "sequenced x key sign_fn reqs b \<longleftrightarrow>
     (\<exists>ms now. sign_requests x key sign_fn reqs = Inr ms \<and> new_batch x ms now (verifying_key_to_bytes x key) sign_fn = Inr b)"

text \<open>What the sequencer and the validator rely on in the cryptographic and the serialisation crates.\<close>

definition crates_ok :: "('vk, 'sg) ext \<Rightarrow> bool" where
  "crates_ok x \<longleftrightarrow> ecdsa_codec_ok x \<and> cose_codec_ok x \<and> hex_codec_ok x \<and> sig_structure_ok x \<and> wire_codec_ok x \<and> prehash_ok x
     \<and> hex_length_ok x"

lemma sequenced_accepted:
  assumes "crates_ok x" "signer_ok x key sign_fn" "sequenced x key sign_fn reqs b"
  shows "batch_wf b" "cb_start_sequence b = fst (hd reqs)" "cb_end_sequence b = fst (last reqs)"
    "\<exists>sb v. to_signed_batch x b = Inr sb \<and> map request_of (sb_messages sb) = reqs
       \<and> verifier_from_hex x (''0x'' @ hex_encode x (verifying_key_to_bytes x key)) = Inr v
       \<and> (\<forall>m \<in> set (sb_messages sb). verify_message x v m = Inr ())"
proof -
  obtain ms now where b: "sign_requests x key sign_fn reqs = Inr ms" "new_batch x ms now (verifying_key_to_bytes x key) sign_fn = Inr b"
    using assms(3) by (auto simp: sequenced_def)
  have c: "ecdsa_codec_ok x" "cose_codec_ok x" "hex_codec_ok x" "sig_structure_ok x" "wire_codec_ok x" "prehash_ok x" "hex_length_ok x"
    using assms(1) by (simp_all add: crates_ok_def)
  show "batch_wf b" using new_batch_wf [OF c(5,1) verifying_key_to_bytes_length [OF c(1)] b(2)] .
  show "cb_start_sequence b = fst (hd reqs)" "cb_end_sequence b = fst (last reqs)" using new_batch_range [OF c(2) b] by simp_all
  obtain sb where sb: "to_signed_batch x b = Inr sb" "verify_all_signed x sb = Inr ()" "map request_of (sb_messages sb) = reqs"
    "\<forall>sm \<in> set (sb_messages sb). sm_signer sm = ''0x'' @ hex_encode x (verifying_key_to_bytes x key)"
    using sequenced_batch_converts [OF c(1-6) assms(2) b] by blast
  then have "\<forall>m \<in> set (sb_messages sb). verify_signature x m = Inr ()"
    by (auto simp: verify_all_signed_def bind_r_eq_Inr verify_each_Inr)
  with sb verifier_from_reported_key [OF c(3,7,1)] sequenced_message_accepted [OF c(3,7,1)]
  show "\<exists>sb v. to_signed_batch x b = Inr sb \<and> map request_of (sb_messages sb) = reqs
       \<and> verifier_from_hex x (''0x'' @ hex_encode x (verifying_key_to_bytes x key)) = Inr v
       \<and> (\<forall>m \<in> set (sb_messages sb). verify_message x v m = Inr ())" by blast
qed

lemma published_stored:
  assumes "\<forall>b \<in> set bs. local_good x eng b" and "distinct (map cb_start_sequence bs)"
    and "publish_all (local_publish x eng) bs (new_local_transport backend []) = (st, Inr mds)" and "b \<in> set bs"
  shows "\<exists>c u. get_batch_compressed st (cb_start_sequence b) = Some c \<and> from_cbor_zstd x c = Inr b \<and> stored_of c u b \<in> set (stored_values st)"
proof -
  obtain c where c: "get_batch_compressed st (cb_start_sequence b) = Some c" "from_cbor_zstd x c = Inr b"
    using publish_all_new [OF assms]
    by (auto simp: local_fetch_def bind_r_eq_Inr map_err_eq_Inr split: option.splits)
  obtain s where s: "s \<in> set (stored_values st)" "sd_compressed_data s = c" using compressed_in_values [OF c(1)] by blast
  have "stored_from x [] (new_local_transport backend [])"
    by (simp add: stored_from_def set_stored_values new_local_transport_def split: local_storage_backend.splits)
  from publish_all_stored [OF this, of bs bs eng] assms(3) have "stored_from x bs st" by simp
  with s obtain a u where a: "a \<in> set bs" "s = stored_of c u a" "to_cbor_zstd x a = Inr c"
    by (force simp: stored_from_def)
  then have "a = b" using c(2) cbor_zstd_roundtrip_aux [of x a c] assms(1) by (auto simp: local_good_def)
  with a(2) s(1) c show ?thesis by blast
qed

text \<open>C1: From the sequencer to the validator. Requests that the sequencer signed in order, batched under its key and published to
  its local storage, in memory or SQLite, arrive: a fetcher that reaches the storage routes, with no more failures in a row than
  it retries, lists the range of the batch and fetches, under the number of its first message, a batch of exactly these
  requests, and a verifier configured with the key that the sequencer reports accepts each of its messages.\<close>

theorem published_batch_reaches_validator:
  assumes "crates_ok x" and "signer_ok x key sign_fn" and "engine_ok eng" and "json_ok js je"
    and "\<forall>b \<in> set bs. \<exists>reqs. sequenced x key sign_fn reqs b" and "distinct (map cb_start_sequence bs)"
    and "publish_all (local_publish x eng) bs (new_local_transport backend []) = (st, Inr mds)"
    and "reaches h ask (storage_routes x eng je st)"
    and "b \<in> set bs" and "sequenced x key sign_fn reqs b"
  shows "\<exists>infos sb v. http_list_batches js ask h = Inr infos
     \<and> (\<exists>i \<in> set infos. bi_start_sequence i = fst (hd reqs) \<and> bi_end_sequence i = fst (last reqs) \<and> http_get_batch_by_path x ask h (bi_path i) = Inr (Some sb))
     \<and> http_get_batch x ask h (fst (hd reqs)) = Inr (Some sb) \<and> map request_of (sb_messages sb) = reqs
     \<and> verifier_from_hex x (''0x'' @ hex_encode x (verifying_key_to_bytes x key)) = Inr v
     \<and> (\<forall>m \<in> set (sb_messages sb). verify_message x v m = Inr ())"
proof -
  have "\<forall>b \<in> set bs. local_good x eng b"
    using assms(1,3,5) sequenced_accepted(1) [OF assms(1,2)] by (auto simp: local_good_def crates_ok_def)
  from published_stored [OF this assms(6,7,9)] obtain c u where
    c: "get_batch_compressed st (cb_start_sequence b) = Some c" "from_cbor_zstd x c = Inr b" "stored_of c u b \<in> set (stored_values st)" by blast
  note acc = sequenced_accepted [OF assms(1,2,10)]
  obtain sb v where sb: "to_signed_batch x b = Inr sb" "map request_of (sb_messages sb) = reqs"
    "verifier_from_hex x (''0x'' @ hex_encode x (verifying_key_to_bytes x key)) = Inr v"
    "\<forall>m \<in> set (sb_messages sb). verify_message x v m = Inr ()" using acc(4) by blast
  have get: "http_get_batch x ask h (fst (hd reqs)) = Inr (Some sb)"
    using served_batch [OF assms(8) c(1,2) sb(1)] by (simp add: acc(2))
  then have "http_get_batch_by_path x ask h (show_u64 (fst (hd reqs))) = Inr (Some sb)"
    by (simp add: http_get_batch_by_path_def)
  with get sb(2-4) served_listing [OF assms(8,4)] c(3) acc(2,3) show ?thesis
    by (intro exI [of _ "map (\<lambda>s. new_batch_info (sd_start_sequence s) (sd_end_sequence s) (show_u64 (sd_start_sequence s))) (stored_values st)"]
        exI [of _ sb] exI [of _ v]) (force simp: new_batch_info_def)
qed

section \<open>Witnesses\<close>

fun demo_read_ranges :: "nat \<Rightarrow> bytes \<Rightarrow> (u64 \<times> u64) list" where
  "demo_read_ranges 0 b = []"
| "demo_read_ranges (Suc n) b =
     (if b = [] then [] else (from_be_bytes (take 8 b), from_be_bytes (take 8 (drop 8 b))) # demo_read_ranges n (drop 16 b))"

definition demo_je :: json_encoders where
  "demo_je = \<lparr>je_message = (\<lambda>m. []), je_latest = (\<lambda>q. case q of None \<Rightarrow> [] | Some n \<Rightarrow> to_be_bytes n),
     je_batches = (\<lambda>bs. concat (map (\<lambda>(s, e). to_be_bytes s @ to_be_bytes e) bs))\<rparr>"

definition demo_js :: json_decoders where
  "demo_js = \<lparr>jd_message = (\<lambda>b. Inl []), jd_latest = (\<lambda>b. Inr (if b = [] then None else Some (from_be_bytes b))),
     jd_batches = (\<lambda>b. Inr (demo_read_ranges (length b) b))\<rparr>"

lemma demo_ranges: "length bs \<le> n \<Longrightarrow> demo_read_ranges n (concat (map (\<lambda>(s, e). to_be_bytes s @ to_be_bytes e) bs)) = bs"
proof (induction bs arbitrary: n)
  case Nil
  show ?case by (cases n) simp_all
next
  case (Cons b bs)
  obtain m where "n = Suc m" using Cons.prems by (cases n) simp_all
  moreover have "to_be_bytes (fst b) \<noteq> []" using length_to_be_bytes [of "fst b"] by fastforce
  ultimately show ?case using Cons by (cases b) simp
qed

lemma demo_json: "json_ok demo_js demo_je"
proof -
  have "length bs \<le> length (concat (map (\<lambda>(s, e). to_be_bytes s @ to_be_bytes e) bs))" for bs by (induction bs) auto
  moreover have "to_be_bytes n \<noteq> []" for n using length_to_be_bytes [of n] by fastforce
  ultimately show ?thesis by (simp add: json_ok_def demo_js_def demo_je_def demo_ranges split: option.splits)
qed

definition demo_fetcher :: http_fetcher where "demo_fetcher = new_http_fetcher ''http://s/''"

text \<open>The first attempt of every request fails.\<close>

definition demo_ask :: "storage_inner \<Rightarrow> network_get" where
  "demo_ask st i url =
     (if i = 0 then Inl \<lparr>re_timeout = True, re_connect = False, re_request = False, re_text = ''timeout''\<rparr>
      else case strip_prefix (ht_base_url demo_fetcher @ ''/storage'') url of
             None \<Rightarrow> Inr (reply_status 404 ''404 Not Found'')
           | Some path \<Rightarrow> Inr (storage_routes demo_ext demo_engine demo_je st path))"

lemma demo_reaches: "reaches demo_fetcher (demo_ask st) (storage_routes demo_ext demo_engine demo_je st)"
  unfolding reaches_def
proof
  fix path
  have "strip_prefix (ht_base_url demo_fetcher @ ''/storage'') (ht_base_url demo_fetcher @ ''/storage'' @ path) = Some path"
    by (simp only: strip_prefix_append flip: append_assoc)
  moreover have "1 \<le> ht_max_retries demo_fetcher"
    by (simp add: demo_fetcher_def new_http_fetcher_def http_with_config_def DEFAULT_MAX_RETRIES_def)
  ultimately show "\<exists>k \<le> ht_max_retries demo_fetcher. (\<forall>i < k. \<exists>e. demo_ask st i (ht_base_url demo_fetcher @ ''/storage'' @ path) = Inl e)
      \<and> demo_ask st k (ht_base_url demo_fetcher @ ''/storage'' @ path) = Inr (storage_routes demo_ext demo_engine demo_je st path)"
    by (intro exI [of _ 1]) (simp only: demo_ask_def option.case, simp)
qed

lemma demo_crates: "crates_ok demo_ext"
  by (simp add: crates_ok_def demo_ecdsa demo_cose demo_hex demo_sig_structure demo_wire demo_prehash demo_hex_length)

lemma demo_sequenced: "sequenced demo_ext True (demo_sign True) [(5, 7, Changeset, [1, 2])] demo_batch"
  unfolding sequenced_def using demo_requests demo_new_batch by blast

lemma demo_batch_published:
  "\<exists>st mds. publish_all (local_publish demo_ext demo_engine) [demo_batch] (new_local_transport InMemory []) = (st, Inr mds)"
proof -
  obtain c where c: "to_cbor_zstd demo_ext demo_batch = Inr c" using demo_to_cbor_zstd by blast
  then obtain u where "to_cbor demo_ext demo_batch = Inr u" by (auto simp: to_cbor_zstd_def bind_r_eq_Inr)
  with c show ?thesis by (simp add: local_publish_def new_local_transport_def Let_def)
qed

theorem published_batch_reaches_validator_witness:
  "\<exists>st mds sb. publish_all (local_publish demo_ext demo_engine) [demo_batch] (new_local_transport InMemory []) = (st, Inr mds)
     \<and> http_get_batch demo_ext (demo_ask st) demo_fetcher 5 = Inr (Some sb) \<and> map request_of (sb_messages sb) = [(5, 7, Changeset, [1, 2])]"
proof -
  obtain st mds where st: "publish_all (local_publish demo_ext demo_engine) [demo_batch] (new_local_transport InMemory []) = (st, Inr mds)"
    using demo_batch_published by blast
  have eng: "engine_ok demo_engine" by (simp add: engine_ok_def demo_engine_def)
  have bs: "\<forall>b \<in> set [demo_batch]. \<exists>reqs. sequenced demo_ext True (demo_sign True) reqs b" using demo_sequenced by auto
  from published_batch_reaches_validator [OF demo_crates demo_signer eng demo_json bs _ st demo_reaches _ demo_sequenced] st
  show ?thesis by (auto simp del: publish_all.simps)
qed

theorem permanent_errors_retried_witness:
  "execute_with_retry demo_fetcher (\<lambda>i. Inl (OtherError ''bad'') :: fetch_error + nat) = Inl ''bad''
   \<and> fst (attempt_loop (\<lambda>i. Inl (OtherError ''bad'') :: fetch_error + nat) (ht_max_retries demo_fetcher) 100 0) = []"
  by (rule permanent_errors_retried [where e = "\<lambda>i. ''bad''"]) simp


end
