(* ===== verification/Gcs.thy ===== *)
theory Gcs
  imports Object_Storage Http_Fetcher
begin

text \<open>
  Batches in the object storage: the sequencer's transport \<open>crates/synddb-sequencer/src/transport/gcs.rs\<close>, the validator's
  fetcher \<open>crates/synddb-validator/src/sync/providers/gcs.rs\<close>, and the way of a batch from the one to the other. Operations that
  list objects are \<open>None\<close> when the listing never ends.
\<close>

section \<open>Listing\<close>

text \<open>\<open>rsplit('/').next()\<close>\<close>

definition last_segment :: "string \<Rightarrow> string" where
  "last_segment s = rev (takeWhile (\<lambda>c. c \<noteq> CHR ''/'') (rev s))"

definition parse_batch_objects :: "string list \<Rightarrow> (u64 \<times> u64 \<times> string) list" where
  "parse_batch_objects names =
     sort_key fst (List.map_filter (\<lambda>name. map_option (\<lambda>(s, e). (s, e, name)) (parse_batch_filename (last_segment name))) names)"

definition batches_prefix :: "storage_client \<Rightarrow> string" where
  "batches_prefix c = sc_prefix c @ ''/batches/''"

section \<open>The transport\<close>

definition new_gcs_transport :: "string option \<Rightarrow> string option \<Rightarrow> gcs_config \<Rightarrow> transport_error + storage_client" where
  "new_gcs_transport storage_build control_build config =
     map_err (\<lambda>e. TransportConfig (show_storage_error e)) (new_storage_client storage_build control_build config)"

definition gcs_batch_path :: "storage_client \<Rightarrow> u64 \<Rightarrow> u64 \<Rightarrow> string" where
  "gcs_batch_path c start_sequence end_sequence = batches_prefix c @ format_batch_filename start_sequence end_sequence"

definition gcs_upload :: "'s gcs_api \<Rightarrow> storage_client \<Rightarrow> string \<Rightarrow> bytes \<Rightarrow> 's \<Rightarrow> 's \<times> (transport_error + unit)" where
  "gcs_upload api c path data s =
     (case storage_write api c path data s of (s', r) \<Rightarrow> (s', map_err (\<lambda>e. Storage (show_storage_error e)) r))"

definition gcs_download :: "'s gcs_api \<Rightarrow> storage_client \<Rightarrow> string \<Rightarrow> 's \<Rightarrow> transport_error + bytes option" where
  "gcs_download api c path s = map_err (\<lambda>e. Storage (show_storage_error e)) (storage_read api c path s)"

definition list_batch_files :: "'s gcs_api \<Rightarrow> storage_client \<Rightarrow> 's \<Rightarrow> (transport_error + (u64 \<times> u64 \<times> string) list) option" where
  "list_batch_files api c s =
     map_option (\<lambda>r. bind_r (map_err (\<lambda>e. Storage (show_storage_error e)) r) (\<lambda>objects. Inr (parse_batch_objects objects)))
       (storage_list api c (batches_prefix c) s)"

definition gcs_find_batch_containing :: "'s gcs_api \<Rightarrow> storage_client \<Rightarrow> u64 \<Rightarrow> 's \<Rightarrow> (transport_error + string option) option" where
  "gcs_find_batch_containing api c sequence s =
     map_option (\<lambda>r. bind_r r (\<lambda>batches.
       Inr (map_option (\<lambda>(start, end, path). path) (find (\<lambda>(start, end, path). sequence \<ge> start \<and> sequence \<le> end) batches))))
     (list_batch_files api c s)"

definition gcs_publish :: "('vk, 'sg) ext \<Rightarrow> 's gcs_api \<Rightarrow> storage_client \<Rightarrow> cbor_batch \<Rightarrow> 's \<Rightarrow> 's \<times> (transport_error + publish_metadata)" where
  "gcs_publish x api c batch s =
     (let path = gcs_batch_path c (cb_start_sequence batch) (cb_end_sequence batch)
      in case map_err transport_error_from_cbor (to_cbor x batch) of
           Inl e \<Rightarrow> (s, Inl e)
         | Inr uncompressed \<Rightarrow>
             (case map_err transport_error_from_cbor (to_cbor_zstd x batch) of
                Inl e \<Rightarrow> (s, Inl e)
              | Inr compressed \<Rightarrow>
                  (case gcs_upload api c path compressed s of
                     (s', Inl e) \<Rightarrow> (s', Inl e)
                   | (s', Inr _) \<Rightarrow>
                       (s', Inr \<lparr>md_reference = ''gs://'' @ sc_bucket c @ ''/'' @ path, md_content_hash = cb_content_hash batch,
                                md_compressed_bytes = length compressed, md_uncompressed_bytes = length uncompressed\<rparr>))))"

definition gcs_fetch :: "('vk, 'sg) ext \<Rightarrow> 's gcs_api \<Rightarrow> storage_client \<Rightarrow> 's \<Rightarrow> u64 \<Rightarrow> (transport_error + cbor_batch option) option" where
  "gcs_fetch x api c s start_sequence =
     map_option (\<lambda>r. bind_r r (\<lambda>batches.
       case find (\<lambda>(start, end, path). start = start_sequence) batches of
         None \<Rightarrow> Inr None
       | Some (start, end, path) \<Rightarrow>
           bind_r (gcs_download api c path s) (\<lambda>data.
           (case data of
              None \<Rightarrow> Inr None
            | Some d \<Rightarrow> bind_r (map_err transport_error_from_cbor (from_cbor_zstd x d)) (\<lambda>batch. Inr (Some batch))))))
     (list_batch_files api c s)"

definition gcs_list_batches :: "'s gcs_api \<Rightarrow> storage_client \<Rightarrow> 's \<Rightarrow> (transport_error + batch_info list) option" where
  "gcs_list_batches api c s =
     map_option (\<lambda>r. bind_r r (\<lambda>files.
       Inr (map (\<lambda>(start, end, path). new_batch_info start end (''gs://'' @ sc_bucket c @ ''/'' @ path)) files)))
     (list_batch_files api c s)"

definition gcs_get_latest_sequence :: "'s gcs_api \<Rightarrow> storage_client \<Rightarrow> 's \<Rightarrow> (transport_error + u64 option) option" where
  "gcs_get_latest_sequence api c s =
     map_option (\<lambda>r. bind_r r (\<lambda>batches. Inr (max_option (map (\<lambda>(start, end, path). end) batches)))) (list_batch_files api c s)"

definition gcs_get_message :: "('vk, 'sg) ext \<Rightarrow> 's gcs_api \<Rightarrow> storage_client \<Rightarrow> u64 \<Rightarrow> 's \<Rightarrow> (transport_error + cbor_signed_message option) option" where
  "gcs_get_message x api c sequence s =
     map_option (\<lambda>r. bind_r r (\<lambda>found.
       case found of
         None \<Rightarrow> Inr None
       | Some path \<Rightarrow>
           bind_r (gcs_download api c path s) (\<lambda>data.
           (case data of
              None \<Rightarrow> Inr None
            | Some d \<Rightarrow>
                bind_r (map_err transport_error_from_cbor (from_cbor_zstd x d)) (\<lambda>batch.
                Inr (find (\<lambda>m. result_ok (message_sequence x m) = Some sequence) (cb_messages batch)))))))
     (gcs_find_batch_containing api c sequence s)"

section \<open>The fetcher\<close>

definition gcs_fetcher_from_config :: "string option \<Rightarrow> string option \<Rightarrow> gcs_config \<Rightarrow> string + storage_client" where
  "gcs_fetcher_from_config storage_build control_build config =
     map_err (\<lambda>_. ''Failed to create storage client'') (new_storage_client storage_build control_build config)"

definition new_gcs_fetcher :: "string option \<Rightarrow> string option \<Rightarrow> string \<Rightarrow> string \<Rightarrow> string option \<Rightarrow> string + storage_client" where
  "new_gcs_fetcher storage_build control_build bucket prefix emulator_host =
     gcs_fetcher_from_config storage_build control_build
       (let config = gcs_with_prefix prefix (new_gcs_config bucket)
        in case emulator_host of None \<Rightarrow> config | Some host \<Rightarrow> gcs_with_emulator_host host config)"

definition fetcher_download :: "'s gcs_api \<Rightarrow> storage_client \<Rightarrow> string \<Rightarrow> 's \<Rightarrow> string + bytes option" where
  "fetcher_download api c path s = map_err (\<lambda>_. ''Failed to download from GCS'') (storage_read api c path s)"

definition fetcher_get_batch_by_path :: "('vk, 'sg) ext \<Rightarrow> 's gcs_api \<Rightarrow> storage_client \<Rightarrow> 's \<Rightarrow> string \<Rightarrow> string + signed_batch option" where
  "fetcher_get_batch_by_path x api c s path =
     bind_r (fetcher_download api c path s) (\<lambda>data.
     (case data of
        None \<Rightarrow> Inr None
      | Some d \<Rightarrow>
          bind_r (map_err (\<lambda>_. ''Failed to decompress/parse CBOR batch at '' @ path) (from_cbor_zstd x d)) (\<lambda>cbor_batch.
          bind_r (map_err (\<lambda>_. ''Failed to convert CBOR batch at '' @ path) (to_signed_batch x cbor_batch)) (\<lambda>batch.
          Inr (Some batch)))))"

definition fetcher_list_batches :: "'s gcs_api \<Rightarrow> storage_client \<Rightarrow> 's \<Rightarrow> (string + batch_info list) option" where
  "fetcher_list_batches api c s =
     map_option (\<lambda>r. bind_r (map_err (\<lambda>_. ''Failed to list batch objects'') r) (\<lambda>objects.
       Inr (map (\<lambda>(start, end, name). new_batch_info start end name) (parse_batch_objects objects))))
     (storage_list api c (batches_prefix c) s)"

definition fetcher_find_batch_containing :: "('vk, 'sg) ext \<Rightarrow> 's gcs_api \<Rightarrow> storage_client \<Rightarrow> u64 \<Rightarrow> 's \<Rightarrow> (string + signed_batch option) option" where
  "fetcher_find_batch_containing x api c sequence s =
     map_option (\<lambda>r. bind_r r (\<lambda>batches.
       case find (\<lambda>info. batch_contains info sequence) batches of
         None \<Rightarrow> Inr None
       | Some info \<Rightarrow> fetcher_get_batch_by_path x api c s (bi_path info)))
     (fetcher_list_batches api c s)"

definition fetcher_get :: "('vk, 'sg) ext \<Rightarrow> 's gcs_api \<Rightarrow> storage_client \<Rightarrow> u64 \<Rightarrow> 's \<Rightarrow> (string + signed_message option) option" where
  "fetcher_get x api c sequence s =
     map_option (\<lambda>r. bind_r r (\<lambda>found.
       Inr (case found of None \<Rightarrow> None | Some batch \<Rightarrow> find (\<lambda>m. sm_sequence m = sequence) (sb_messages batch))))
     (fetcher_find_batch_containing x api c sequence s)"

definition fetcher_get_latest_sequence :: "'s gcs_api \<Rightarrow> storage_client \<Rightarrow> 's \<Rightarrow> (string + u64 option) option" where
  "fetcher_get_latest_sequence api c s =
     map_option (\<lambda>r. bind_r r (\<lambda>batches. Inr (max_option (map bi_end_sequence batches)))) (fetcher_list_batches api c s)"

definition fetcher_get_batch :: "('vk, 'sg) ext \<Rightarrow> 's gcs_api \<Rightarrow> storage_client \<Rightarrow> 's \<Rightarrow> u64 \<Rightarrow> string + signed_batch option" where
  "fetcher_get_batch x api c s start_sequence =
     bind_r (map_err (\<lambda>_. ''Failed to list batch objects'')
        (storage_list_one api c (batches_prefix c @ zero_pad 12 (show_u64 start_sequence) @ ''_'') s)) (\<lambda>obj_info.
     (case obj_info of None \<Rightarrow> Inr None | Some name \<Rightarrow> fetcher_get_batch_by_path x api c s name))"

section \<open>Names of batch objects\<close>

lemma takeWhile_stop: "\<forall>y \<in> set xs. P y \<Longrightarrow> \<not> P z \<Longrightarrow> takeWhile P (xs @ z # zs) = xs"
  by (induction xs) auto

lemma last_segment_append: "CHR ''/'' \<notin> set f \<Longrightarrow> last_segment (p @ CHR ''/'' # f) = f"
  using takeWhile_stop [of "rev f" "\<lambda>c. c \<noteq> CHR ''/''" "CHR ''/''" "rev p"] by (fastforce simp: last_segment_def)

lemma filename_no_slash: "CHR ''/'' \<notin> set (format_batch_filename s e)"
proof -
  have "list_all is_ascii_digit (zero_pad 12 (show_u64 w))" for w :: u64
    by (simp add: list_all_zero_pad show_u64_def show_nat_digits)
  moreover have "\<not> is_ascii_digit (CHR ''/'')" by code_simp
  ultimately have "CHR ''/'' \<notin> set (zero_pad 12 (show_u64 w))" for w :: u64
    unfolding list_all_iff by blast
  then show ?thesis by (simp add: format_batch_filename_def)
qed

definition object_range :: "string \<Rightarrow> (u64 \<times> u64) option" where
  "object_range name = parse_batch_filename (last_segment name)"

lemma range_of_path [simp]: "object_range (gcs_batch_path c s e) = Some (s, e)"
proof -
  have "gcs_batch_path c s e = (sc_prefix c @ ''/batches'') @ CHR ''/'' # format_batch_filename s e"
    by (simp add: gcs_batch_path_def batches_prefix_def)
  then have "last_segment (gcs_batch_path c s e) = format_batch_filename s e"
    by (simp only: last_segment_append [OF filename_no_slash])
  then show ?thesis by (simp add: object_range_def batch_filename_roundtrip)
qed

lemma path_prefix [simp]: "starts_with (batches_prefix c) (gcs_batch_path c s e)"
  by (simp add: gcs_batch_path_def starts_with_def)

text \<open>The names that carry a range starting at a number, in the order of the listing.\<close>

definition named :: "u64 \<Rightarrow> string list \<Rightarrow> string list" where
  "named k names = filter (\<lambda>n. map_option fst (object_range n) = Some k) names"

lemma find_filter: "find P xs = (case filter P xs of [] \<Rightarrow> None | y # ys \<Rightarrow> Some y)"
  by (induction xs) auto

lemma set_parse_batch_objects: "(s, e, n) \<in> set (parse_batch_objects names) \<longleftrightarrow> n \<in> set names \<and> object_range n = Some (s, e)"
  by (force simp: parse_batch_objects_def object_range_def List.map_filter_def)

lemma filter_parsed:
  "map (\<lambda>(s, e, n). n) (filter (\<lambda>t. fst t = k) (List.map_filter (\<lambda>n. map_option (\<lambda>(s, e). (s, e, n)) (object_range n)) names)) = named k names"
  by (induction names) (auto simp: named_def List.map_filter_simps split: option.splits)

lemma find_named:
  "map_option (\<lambda>(s, e, n). n) (find (\<lambda>(start, end, path). start = k) (parse_batch_objects names))
     = (case named k names of [] \<Rightarrow> None | n # ns \<Rightarrow> Some n)"
proof -
  let ?xs = "List.map_filter (\<lambda>n. map_option (\<lambda>(s, e). (s, e, n)) (object_range n)) names"
  have "(\<lambda>(start :: u64, end :: u64, path :: string). start = k) = (\<lambda>t. fst t = k)" by auto
  then have "filter (\<lambda>(start, end, path). start = k) (parse_batch_objects names) = filter (\<lambda>t. fst t = k) ?xs"
    using sort_key_stable [of fst k ?xs] by (simp only: parse_batch_objects_def object_range_def)
  then show ?thesis using filter_parsed [of k names, symmetric]
    by (cases "filter (\<lambda>t. fst t = k) ?xs") (auto simp: find_filter)
qed

section \<open>The transport on a storage that behaves\<close>

lemma list_batch_files_ok:
  "object_store_ok api c objects \<Longrightarrow> list_batch_files api c s = Some (Inr (parse_batch_objects (names_under (batches_prefix c) (objects s))))"
  by (simp add: list_batch_files_def storage_list_ok)

definition fetch_object :: "('vk, 'sg) ext \<Rightarrow> bytes option \<Rightarrow> transport_error + cbor_batch option" where
  "fetch_object x data = (case data of None \<Rightarrow> Inr None | Some d \<Rightarrow> bind_r (map_err transport_error_from_cbor (from_cbor_zstd x d)) (\<lambda>b. Inr (Some b)))"

lemma gcs_fetch_ok:
  assumes "object_store_ok api c objects"
  shows "gcs_fetch x api c s k = Some (case named k (names_under (batches_prefix c) (objects s)) of [] \<Rightarrow> Inr None | n # ns \<Rightarrow> fetch_object x (objects s n))"
  using find_named [of k "names_under (batches_prefix c) (objects s)"]
  by (auto simp: gcs_fetch_def list_batch_files_ok [OF assms] gcs_download_def storage_read_ok [OF assms] fetch_object_def split: option.splits list.splits)

lemma fetch_object_None: "fetch_object x data = Inr None \<longleftrightarrow> data = None"
  by (auto simp: fetch_object_def bind_r_eq_Inr split: option.splits)

lemma gcs_publish_objects:
  assumes "object_store_ok api c objects"
  shows "objects (fst (gcs_publish x api c b s)) = objects s \<and> (\<forall>md. snd (gcs_publish x api c b s) \<noteq> Inr md)
     \<or> (\<exists>d. to_cbor_zstd x b = Inr d \<and> objects (fst (gcs_publish x api c b s)) = (objects s)(gcs_batch_path c (cb_start_sequence b) (cb_end_sequence b) \<mapsto> d))"
proof (cases "to_cbor x b")
  case (Inr u)
  show ?thesis
  proof (cases "to_cbor_zstd x b")
    case d: (Inr d)
    let ?p = "gcs_batch_path c (cb_start_sequence b) (cb_end_sequence b)"
    obtain s' r where w: "storage_write api c ?p d s = (s', r)" by fastforce
    have "fst (gcs_publish x api c b s) = s'" "r \<noteq> Inr () \<Longrightarrow> \<forall>md. snd (gcs_publish x api c b s) \<noteq> Inr md"
      using Inr d w by (cases r; simp add: gcs_publish_def gcs_upload_def Let_def)+
    with storage_write_ok [OF assms w] d show ?thesis by auto
  qed (simp add: gcs_publish_def Inr Let_def)
qed (simp add: gcs_publish_def Let_def)

lemma names_under_update:
  assumes "finite (dom objs)" "starts_with prefix p"
  shows "names_under prefix (objs(p \<mapsto> d)) = (if p \<in> dom objs then names_under prefix objs else insort p (names_under prefix objs))"
proof (cases "p \<in> dom objs")
  case True
  then have "insert p (dom objs) = dom objs" by blast
  with True show ?thesis by (simp add: names_under_def)
next
  case False
  then have "dom (objs(p \<mapsto> d)) = insert p (dom objs)" "sorted_list_of_set (insert p (dom objs)) = insort p (sorted_list_of_set (dom objs))"
    using assms(1) by simp_all
  with False assms(2) show ?thesis by (simp add: names_under_def filter_insort)
qed

lemma named_update:
  assumes "finite (dom objs)" "object_range p = Some (s, e)" "starts_with prefix p"
  shows "k \<noteq> s \<Longrightarrow> named k (names_under prefix (objs(p \<mapsto> d))) = named k (names_under prefix objs)"
    and "named s (names_under prefix objs) = [] \<Longrightarrow> named s (names_under prefix (objs(p \<mapsto> d))) = [p]"
proof -
  show "k \<noteq> s \<Longrightarrow> named k (names_under prefix (objs(p \<mapsto> d))) = named k (names_under prefix objs)"
    using assms by (simp add: names_under_update named_def filter_insort_triv)
  assume none: "named s (names_under prefix objs) = []"
  then have "p \<notin> dom objs"
    using assms by (auto simp: named_def names_under_def filter_empty_conv)
  moreover have "sorted (names_under prefix objs)" by (simp add: names_under_def sorted_filter [where f = id, simplified])
  ultimately show "named s (names_under prefix (objs(p \<mapsto> d))) = [p]"
    using assms none by (simp add: names_under_update named_def filter_insort [where f = "\<lambda>x. x"])
qed

interpretation gcs: transport "gcs_publish x api c" "\<lambda>s k. the (gcs_fetch x api c s k)"
    "\<lambda>b. wire_codec_ok x \<and> batch_wf b" "\<lambda>s. object_store_ok api c objects"
  for x :: "('vk, 'sg) ext" and api c objects
proof
  fix s b k md
  assume ok: "object_store_ok api c objects"
  let ?p = "gcs_batch_path c (cb_start_sequence b) (cb_end_sequence b)" and ?s = "fst (gcs_publish x api c b s)"
  note fin = object_store_okD(1) [OF ok, of s] and fetch = gcs_fetch_ok [OF ok]
  note upd = named_update [OF fin range_of_path path_prefix]
  {
    assume k: "k \<noteq> cb_start_sequence b"
    have same: "objects ?s n = objects s n" if "named k names = n # ns" for n ns names
    proof -
      have "n \<in> set (named k names)" by (simp add: that)
      then have "n \<noteq> ?p" using k by (auto simp: named_def)
      then show ?thesis using gcs_publish_objects [OF ok, of x b s] by auto
    qed
    have "named k (names_under (batches_prefix c) (objects ?s)) = named k (names_under (batches_prefix c) (objects s))"
      using gcs_publish_objects [OF ok, of x b s] upd(1) [OF k] by auto
    then show "the (gcs_fetch x api c ?s k) = the (gcs_fetch x api c s k)"
      unfolding fetch by (auto simp: same split: list.splits)
  }
  assume good: "wire_codec_ok x \<and> batch_wf b" and none: "the (gcs_fetch x api c s (cb_start_sequence b)) = Inr None"
    and md: "snd (gcs_publish x api c b s) = Inr md"
  from gcs_publish_objects [OF ok, of x b s] md obtain d where d: "to_cbor_zstd x b = Inr d" "objects ?s = (objects s)(?p \<mapsto> d)" by auto
  have "named (cb_start_sequence b) (names_under (batches_prefix c) (objects s)) = []"
  proof (cases "named (cb_start_sequence b) (names_under (batches_prefix c) (objects s))")
    case (Cons n ns)
    then have "n \<in> set (named (cb_start_sequence b) (names_under (batches_prefix c) (objects s)))" by simp
    then have "n \<in> dom (objects s)" using fin by (auto simp: named_def names_under_def)
    with none Cons show ?thesis by (auto simp: fetch fetch_object_None)
  qed simp
  from upd(2) [OF this] d cbor_zstd_roundtrip_aux [OF _ _ d(1)] good
  show "the (gcs_fetch x api c ?s (cb_start_sequence b)) = Inr (Some b)"
    by (simp add: fetch fetch_object_def)
qed simp

text \<open>C23: Batches published to the object storage under distinct start sequences that no stored object has can be fetched back
  unchanged, however many follow and however the service cuts its listings and objects into pages and chunks; the fetch ends.\<close>

theorem gcs_batches_fetchable:
  assumes "object_store_ok api c objects" and "wire_codec_ok x" and "\<forall>b \<in> set bs. batch_wf b" and "distinct (map cb_start_sequence bs)"
    and "\<forall>b \<in> set bs. gcs_fetch x api c s (cb_start_sequence b) = Some (Inr None)"
    and "publish_all (gcs_publish x api c) bs s = (s', Inr mds)" and "b \<in> set bs"
  shows "gcs_fetch x api c s' (cb_start_sequence b) = Some (Inr (Some b))"
proof -
  have "the (gcs_fetch x api c (fst (publish_all (gcs_publish x api c) bs s)) (cb_start_sequence b)) = Inr (Some b)"
    by (rule gcs.publish_all_fetch [OF assms(1) _ assms(4)]) (use assms in auto)
  with assms(6) show ?thesis by (simp add: gcs_fetch_ok [OF assms(1)])
qed

section \<open>The fetcher on a storage that behaves\<close>

text \<open>Every batch object is a batch that converts and has the range of its name, and no two start at the same number.\<close>

definition batches_ok :: "('vk, 'sg) ext \<Rightarrow> storage_client \<Rightarrow> (string \<rightharpoonup> bytes) \<Rightarrow> bool" where
  "batches_ok x c objs \<longleftrightarrow>
     (\<forall>n \<in> set (names_under (batches_prefix c) objs). \<forall>s e. object_range n = Some (s, e) \<longrightarrow>
        (\<exists>d b sb. objs n = Some d \<and> from_cbor_zstd x d = Inr b \<and> to_signed_batch x b = Inr sb
           \<and> sb_start_sequence sb = s \<and> sb_end_sequence sb = e))
   \<and> distinct (map fst (parse_batch_objects (names_under (batches_prefix c) objs)))"

lemma fetcher_list_ok:
  "object_store_ok api c objects \<Longrightarrow> fetcher_list_batches api c s =
     Some (Inr (map (\<lambda>(start, end, name). new_batch_info start end name) (parse_batch_objects (names_under (batches_prefix c) (objects s)))))"
  by (simp add: fetcher_list_batches_def storage_list_ok)

lemma fetcher_by_path_ok:
  assumes "object_store_ok api c objects" "objects s n = Some d" "from_cbor_zstd x d = Inr b" "to_signed_batch x b = Inr sb"
  shows "fetcher_get_batch_by_path x api c s n = Inr (Some sb)"
  using assms by (simp add: fetcher_get_batch_by_path_def fetcher_download_def storage_read_ok)

interpretation gcs_fetcher: batch_storage "\<lambda>s. the (fetcher_list_batches api c s)" "fetcher_get_batch_by_path x api c"
    "\<lambda>s. object_store_ok api c objects \<and> batches_ok x c (objects s)"
  for x :: "('vk, 'sg) ext" and api c objects
proof
  fix s bs
  assume v: "object_store_ok api c objects \<and> batches_ok x c (objects s)" and "the (fetcher_list_batches api c s) = Inr bs"
  let ?fs = "parse_batch_objects (names_under (batches_prefix c) (objects s))"
  have bs: "bs = map (\<lambda>(start, end, name). new_batch_info start end name) ?fs"
    using \<open>the _ = _\<close> fetcher_list_ok [of api c objects s] v by simp
  have keys: "map bi_start_sequence bs = map fst ?fs" by (auto simp: bs new_batch_info_def split_beta)
  have "sorted (map fst ?fs)" by (simp add: parse_batch_objects_def)
  then have "sorted_wrt (<) (map bi_start_sequence bs)"
    using v unfolding keys batches_ok_def by (simp add: strict_sorted_iff)
  then show "sorted_wrt (\<lambda>a b. bi_start_sequence a < bi_start_sequence b) bs" by (simp add: sorted_wrt_map)
  fix b assume "b \<in> set bs"
  then obtain st e n where b: "(st, e, n) \<in> set ?fs" "b = new_batch_info st e n" by (auto simp: bs)
  then have "n \<in> set (names_under (batches_prefix c) (objects s))" "object_range n = Some (st, e)"
    by (simp_all add: set_parse_batch_objects)
  then obtain d cb sb where "objects s n = Some d" "from_cbor_zstd x d = Inr cb" "to_signed_batch x cb = Inr sb"
    "sb_start_sequence sb = st" "sb_end_sequence sb = e" using v unfolding batches_ok_def by blast
  with v b(2) fetcher_by_path_ok [of api c objects s n d x cb sb]
  show "\<exists>sb. fetcher_get_batch_by_path x api c s (bi_path b) = Inr (Some sb) \<and> sb_start_sequence sb = bi_start_sequence b
      \<and> sb_end_sequence sb = bi_end_sequence b" by (simp add: new_batch_info_def)
qed

section \<open>From the transport to the fetcher\<close>

abbreviation path_of :: "storage_client \<Rightarrow> cbor_batch \<Rightarrow> string" where
  "path_of c b \<equiv> gcs_batch_path c (cb_start_sequence b) (cb_end_sequence b)"

lemma path_of_eq: "path_of c a = path_of c b \<Longrightarrow> cb_start_sequence a = cb_start_sequence b"
  by (drule arg_cong [of _ _ object_range]) simp

lemma gcs_publish_all_objects:
  assumes "object_store_ok api c objects" "distinct (map cb_start_sequence bs)" "publish_all (gcs_publish x api c) bs s = (s', Inr mds)"
  shows "(\<forall>b \<in> set bs. \<exists>d. to_cbor_zstd x b = Inr d \<and> objects s' (path_of c b) = Some d)
     \<and> (\<forall>p. p \<notin> path_of c ` set bs \<longrightarrow> objects s' p = objects s p)"
  using assms(2,3)
proof (induction bs arbitrary: s mds)
  case (Cons b bs)
  let ?s = "fst (gcs_publish x api c b s)"
  obtain md mds' where md: "snd (gcs_publish x api c b s) = Inr md" and rest: "publish_all (gcs_publish x api c) bs ?s = (s', Inr mds')"
    using Cons.prems(2) by (auto simp: split_beta Let_def bind_r_eq_Inr split: sum.splits) (metis prod.collapse)
  obtain d where d: "to_cbor_zstd x b = Inr d" "objects ?s = (objects s)(path_of c b \<mapsto> d)"
    using gcs_publish_objects [OF assms(1), of x b s] md by auto
  have "path_of c b \<notin> path_of c ` set bs" using Cons.prems(1) path_of_eq by fastforce
  with Cons.IH [OF _ rest] Cons.prems(1) d show ?case by auto
qed simp

text \<open>C25: From the sequencer to the validator through the object storage. Requests that the sequencer signed in order, batched under its key
  and published, under distinct start sequences, arrive: the fetcher lists each batch with its range under the path it was
  published to, and fetches from there a batch of exactly these requests, each of whose messages a verifier configured
  with the sequencer's key accepts.\<close>

theorem gcs_batch_reaches_validator:
  assumes "crates_ok x" and "signer_ok x key sign_fn" and "object_store_ok api c objects"
    and "distinct (map cb_start_sequence bs)" and "publish_all (gcs_publish x api c) bs s = (s', Inr mds)"
    and "b \<in> set bs" and "sequenced x key sign_fn reqs b"
  shows "\<exists>infos sb v. fetcher_list_batches api c s' = Some (Inr infos)
     \<and> new_batch_info (fst (hd reqs)) (fst (last reqs)) (gcs_batch_path c (fst (hd reqs)) (fst (last reqs))) \<in> set infos
     \<and> fetcher_get_batch_by_path x api c s' (gcs_batch_path c (fst (hd reqs)) (fst (last reqs))) = Inr (Some sb)
     \<and> map request_of (sb_messages sb) = reqs
     \<and> verifier_from_hex x (''0x'' @ hex_encode x (verifying_key_to_bytes x key)) = Inr v
     \<and> (\<forall>m \<in> set (sb_messages sb). verify_message x v m = Inr ())"
proof -
  note acc = sequenced_accepted [OF assms(1,2,7)]
  obtain sb v where sb: "to_signed_batch x b = Inr sb" "map request_of (sb_messages sb) = reqs"
    "verifier_from_hex x (''0x'' @ hex_encode x (verifying_key_to_bytes x key)) = Inr v"
    "\<forall>m \<in> set (sb_messages sb). verify_message x v m = Inr ()" using acc(4) by blast
  let ?p = "gcs_batch_path c (fst (hd reqs)) (fst (last reqs))"
  have "\<exists>d. to_cbor_zstd x b = Inr d \<and> objects s' (path_of c b) = Some d"
    using conjunct1 [OF gcs_publish_all_objects [OF assms(3-5)]] assms(6) by blast
  then obtain d where d: "to_cbor_zstd x b = Inr d" "objects s' ?p = Some d" unfolding acc(2,3) by blast
  have wire: "wire_codec_ok x" using assms(1) by (simp add: crates_ok_def)
  have get: "fetcher_get_batch_by_path x api c s' ?p = Inr (Some sb)"
    by (rule fetcher_by_path_ok [OF assms(3) d(2) cbor_zstd_roundtrip_aux [OF wire acc(1) d(1)] sb(1)])
  have "?p \<in> set (names_under (batches_prefix c) (objects s'))"
    using d(2) object_store_okD(1) [OF assms(3), of s'] by (auto simp: names_under_def)
  then have "(fst (hd reqs), fst (last reqs), ?p) \<in> set (parse_batch_objects (names_under (batches_prefix c) (objects s')))"
    by (simp add: set_parse_batch_objects)
  then have "new_batch_info (fst (hd reqs)) (fst (last reqs)) ?p
      \<in> set (map (\<lambda>(start, end, name). new_batch_info start end name) (parse_batch_objects (names_under (batches_prefix c) (objects s'))))"
    by force
  with get sb fetcher_list_ok [OF assms(3), of s'] show ?thesis by blast
qed

section \<open>Witnesses\<close>

lemma demo_gcs_published:
  "\<exists>s' mds. publish_all (gcs_publish demo_ext demo_api demo_storage) [demo_batch] [] = (s', Inr mds)"
proof -
  obtain d where d: "to_cbor_zstd demo_ext demo_batch = Inr d" using demo_to_cbor_zstd by blast
  then obtain u where "to_cbor demo_ext demo_batch = Inr u" by (auto simp: to_cbor_zstd_def bind_r_eq_Inr)
  with d show ?thesis by (simp add: gcs_publish_def gcs_upload_def storage_write_def demo_api_def Let_def)
qed

theorem gcs_batches_fetchable_witness:
  "\<exists>s' mds. publish_all (gcs_publish demo_ext demo_api demo_storage) [demo_batch] [] = (s', Inr mds)
     \<and> gcs_fetch demo_ext demo_api demo_storage s' (cb_start_sequence demo_batch) = Some (Inr (Some demo_batch))"
proof -
  obtain s' mds where s': "publish_all (gcs_publish demo_ext demo_api demo_storage) [demo_batch] [] = (s', Inr mds)"
    using demo_gcs_published by blast
  have wf: "\<forall>b \<in> set [demo_batch]. batch_wf b"
    using sequenced_accepted(1) [OF demo_crates demo_signer demo_sequenced] by simp
  have none: "\<forall>b \<in> set [demo_batch]. gcs_fetch demo_ext demo_api demo_storage [] (cb_start_sequence b) = Some (Inr None)"
    by (simp add: gcs_fetch_ok [OF demo_object_store] names_under_def named_def)
  from gcs_batches_fetchable [OF demo_object_store demo_wire wf _ none s', of demo_batch] s' show ?thesis
    by (auto simp del: publish_all.simps)
qed

theorem gcs_batch_reaches_validator_witness:
  "\<exists>s' mds sb. publish_all (gcs_publish demo_ext demo_api demo_storage) [demo_batch] [] = (s', Inr mds)
     \<and> fetcher_get_batch_by_path demo_ext demo_api demo_storage s' (gcs_batch_path demo_storage 5 5) = Inr (Some sb)
     \<and> map request_of (sb_messages sb) = [(5, 7, Changeset, [1, 2])]"
proof -
  obtain s' mds where s': "publish_all (gcs_publish demo_ext demo_api demo_storage) [demo_batch] [] = (s', Inr mds)"
    using demo_gcs_published by blast
  from gcs_batch_reaches_validator [OF demo_crates demo_signer demo_object_store _ s' _ demo_sequenced] s' show ?thesis
    by (auto simp del: publish_all.simps)
qed

end
