(* ===== verification/Proof_Service.thy ===== *)
theory Proof_Service
  imports Bootstrap
begin

text \<open>
  The proof service, \<open>crates/proof-service/src\<close>: its key cache and prover (\<open>prover.rs\<close>) and its handlers (\<open>main.rs\<close>), and how the
  bootstrap client of \<open>Proof_Client\<close> reads its answers. The zkVM is a parameter; the guest program it runs is the one of
  \<open>Stylus_Verifier\<close>.
\<close>

section \<open>The key cache\<close>

text \<open>Times of the monotonic clock are in milliseconds.\<close>

record cached_keys =
  cx_keys :: "jwk_key list"
  cx_fetched_at :: nat

record key_cache =
  kc_keys :: "cached_keys option"
  kc_discovery_url :: string
  kc_cache_ttl_secs :: nat

definition new_key_cache :: "string \<Rightarrow> nat \<Rightarrow> key_cache" where
  "new_key_cache discovery_url cache_ttl_secs = \<lparr>kc_keys = None, kc_discovery_url = discovery_url, kc_cache_ttl_secs = cache_ttl_secs\<rparr>"

record key_net =
  kn_now :: nat
  kn_fetched :: nat
  kn_get :: "string \<Rightarrow> http_reply"
  kn_discovery :: "string \<Rightarrow> string + string"
  kn_jwks :: "string \<Rightarrow> string + jwk_key list"

text \<open>\<open>send().await.context(..)?.json().await.context(..)?\<close>: the status of the response is not looked at.\<close>

definition get_json :: "(string \<Rightarrow> http_reply) \<Rightarrow> (string \<Rightarrow> string + 'a) \<Rightarrow> string \<Rightarrow> string \<Rightarrow> string \<Rightarrow> string + 'a" where
  "get_json get parse url fetch_context parse_context =
     bind_r (map_err (\<lambda>_. fetch_context) (get url)) (\<lambda>response. map_err (\<lambda>_. parse_context) (Proof_Client.response_json parse response))"

definition fetch_keys :: "key_net \<Rightarrow> key_cache \<Rightarrow> key_cache \<times> (string + jwk_key list)" where
  "fetch_keys net c =
     (case bind_r (get_json (kn_get net) (kn_discovery net) (kc_discovery_url c)
             ''Failed to fetch OIDC discovery document'' ''Failed to parse OIDC discovery document'') (\<lambda>jwks_uri.
           get_json (kn_get net) (kn_jwks net) jwks_uri ''Failed to fetch JWKS'' ''Failed to parse JWKS'') of
        Inl e \<Rightarrow> (c, Inl e)
      | Inr keys \<Rightarrow> (c\<lparr>kc_keys := Some \<lparr>cx_keys = keys, cx_fetched_at = kn_fetched net\<rparr>\<rparr>, Inr keys))"

definition get_keys :: "key_net \<Rightarrow> key_cache \<Rightarrow> key_cache \<times> (string + jwk_key list)" where
  "get_keys net c =
     (case kc_keys c of
        Some entry \<Rightarrow>
          if (kn_now net - cx_fetched_at entry) div 1000 < kc_cache_ttl_secs c then (c, Inr (cx_keys entry)) else fetch_keys net c
      | None \<Rightarrow> fetch_keys net c)"

definition get_jwk :: "key_net \<Rightarrow> string \<Rightarrow> key_cache \<Rightarrow> key_cache \<times> (string + jwk_key)" where
  "get_jwk net kid c =
     (case get_keys net c of
        (c', r) \<Rightarrow> (c', bind_r r (\<lambda>keys. ok_or (''JWK not found for kid: '' @ kid) (find (\<lambda>k. jk_kid k = kid) keys))))"

section \<open>The prover\<close>

definition get_jwt_kid :: "gcp_crates \<Rightarrow> string \<Rightarrow> string + string" where
  "get_jwt_kid g jwt_token =
     map_err (\<lambda>e. ''Failed to extract kid from JWT: '' @ [CHR 0x22] @ e @ [CHR 0x22]) (extract_kid_from_jwt g (str_bytes jwt_token))"

text \<open>
  The zkVM: which steps of building the executor's environment fail, running the program on its inputs, checking the receipt
  against the program, and reading the receipt. \<open>zk_decode\<close> is alloy's validating ABI decoder.\<close>

record 'r zkvm =
  zk_fails :: "nat \<Rightarrow> bool"
  zk_prove :: "bytes \<Rightarrow> jwk_key \<Rightarrow> string \<Rightarrow> bytes \<Rightarrow> bytes \<Rightarrow> 'r option"
  zk_verify :: "'r \<Rightarrow> bool"
  zk_journal :: "'r \<Rightarrow> bytes"
  zk_seal :: "'r \<Rightarrow> bytes option"
  zk_decode :: "bytes \<Rightarrow> string + public_values"
  zk_program_id :: "32 word list"

definition env_contexts :: "string list" where
  "env_contexts =
     [''Failed to write JWT token'', ''Failed to write JWK'', ''Failed to write audience'', ''Failed to write EVM public key'',
      ''Failed to write image signature'', ''Failed to build executor environment'']"

definition prover_generate_proof :: "'r zkvm \<Rightarrow> string \<Rightarrow> jwk_key \<Rightarrow> string \<Rightarrow> bytes \<Rightarrow> bytes \<Rightarrow> string + (bytes \<times> bytes)" where
  "prover_generate_proof z jwt_token jwk expected_audience evm_public_key image_signature =
     (case find (zk_fails z) [0..<6] of
        Some i \<Rightarrow> Inl (env_contexts ! i)
      | None \<Rightarrow>
          bind_r (ok_or ''RISC Zero proof generation failed'' (zk_prove z (str_bytes jwt_token) jwk expected_audience evm_public_key image_signature)) (\<lambda>receipt.
          if \<not> zk_verify z receipt then Inl ''Local proof verification failed''
          else bind_r (ok_or ''Failed to encode seal for on-chain verification'' (zk_seal z receipt)) (\<lambda>seal.
               Inr (zk_journal z receipt, seal))))"

definition decode_public_values :: "'r zkvm \<Rightarrow> bytes \<Rightarrow> string + public_values" where
  "decode_public_values z output = map_err (\<lambda>e. ''Failed to decode public values: '' @ e) (zk_decode z output)"

definition u32_le_bytes :: "32 word \<Rightarrow> bytes" where
  "u32_le_bytes w = map (\<lambda>i. ucast (drop_bit (8 * i) w)) [0..<4]"

definition risc0_image_id_bytes32 :: "'r zkvm \<Rightarrow> bytes" where
  "risc0_image_id_bytes32 z = concat (map u32_le_bytes (zk_program_id z))"

section \<open>The handlers\<close>

definition service_generate_proof ::
  "('vk, 'sg) ext \<Rightarrow> alloy \<Rightarrow> gcp_crates \<Rightarrow> 'r zkvm \<Rightarrow> key_net \<Rightarrow> proof_request \<Rightarrow> key_cache \<Rightarrow> key_cache \<times> (string + proof_response)" where
  "service_generate_proof x al g z net request c =
     (case bind_r (map_err (\<lambda>e. ''Invalid EVM public key hex: '' @ e) (hex_decode x (trim_start_0x (pq_evm_public_key request)))) (\<lambda>evm_public_key.
           if length evm_public_key \<noteq> 64 then Inl ''EVM public key must be exactly 64 bytes''
           else bind_r (map_err (\<lambda>e. ''Invalid image signature hex: '' @ e) (hex_decode x (trim_start_0x (pq_image_signature request)))) (\<lambda>image_signature.
           if length image_signature \<noteq> 65
           then Inl (''Image signature must be exactly 65 bytes (r || s || v), got '' @ show_nat (length image_signature))
           else bind_r (get_jwt_kid g (pq_jwt_token request)) (\<lambda>kid. Inr (evm_public_key, image_signature, kid)))) of
        Inl e \<Rightarrow> (c, Inl e)
      | Inr (evm_public_key, image_signature, kid) \<Rightarrow>
          (case get_jwk net kid c of
             (c', r) \<Rightarrow>
               (c', bind_r r (\<lambda>jwk.
                    bind_r (prover_generate_proof z (pq_jwt_token request) jwk (pq_expected_audience request) evm_public_key image_signature) (\<lambda>(public_values, proof_bytes).
                    bind_r (decode_public_values z public_values) (\<lambda>decoded.
                    Inr \<lparr>ps_public_values = ''0x'' @ hex_encode x public_values, ps_proof_bytes = ''0x'' @ hex_encode x proof_bytes,
                         ps_tee_address = al_show_address al (pv_tee_signing_key decoded)\<rparr>))))))"

definition is_permanent_error :: "string \<Rightarrow> bool" where
  "is_permanent_error error_msg =
     (let error_lower = str_lower error_msg
      in if str_contains error_lower ''invalid'' \<and> str_contains error_lower ''key'' then True
         else if str_contains error_lower ''invalid'' \<and> str_contains error_lower ''signature'' then True
         else if str_contains error_lower ''jwt'' \<and> str_contains error_lower ''expired'' then True
         else if str_contains error_lower ''jwk not found'' then True
         else if str_contains error_lower ''invalid gcp'' then True
         else False)"

text \<open>The body of a reply of the handler, before serde writes it.\<close>

datatype prove_reply = ProveResponse proof_response | ProveError string "string option" "bool option"

definition prove_handler ::
  "('vk, 'sg) ext \<Rightarrow> alloy \<Rightarrow> gcp_crates \<Rightarrow> 'r zkvm \<Rightarrow> key_net \<Rightarrow> proof_request \<Rightarrow> key_cache \<Rightarrow> key_cache \<times> nat \<times> prove_reply" where
  "prove_handler x al g z net request c =
     (case service_generate_proof x al g z net request c of
        (c', Inr response) \<Rightarrow> (c', 200, ProveResponse response)
      | (c', Inl e) \<Rightarrow>
          (let is_permanent = is_permanent_error e
           in (c', if is_permanent then 400 else 503, ProveError ''Proof generation failed'' (Some e) (Some is_permanent))))"

definition image_id_handler :: "('vk, 'sg) ext \<Rightarrow> 'r zkvm \<Rightarrow> string" where
  "image_id_handler x z = ''0x'' @ hex_encode x (risc0_image_id_bytes32 z)"

definition service_health_handler :: string where
  "service_health_handler = ''ready''"

section \<open>Soundness\<close>

text \<open>
  What the service relies on: a receipt that verifies is one of a run of the guest program on the given inputs, its journal is the
  ABI form of the values that the program committed, the decoder inverts the encoder on values of the right lengths, and the hash
  has 32 bytes.\<close>

definition zkvm_sound :: "('vk, 'sg) ext \<Rightarrow> gcp_crates \<Rightarrow> boot_crates \<Rightarrow> 'r zkvm \<Rightarrow> bool" where
  "zkvm_sound x g bt z \<longleftrightarrow>
     (\<forall>jwt jwk aud pk sig r. zk_prove z jwt jwk aud pk sig = Some r \<and> zk_verify z r \<longrightarrow>
        (\<exists>pv. guest_main g (keccak256 x) jwt jwk aud pk sig = Some pv \<and> zk_journal z r = abi_encode_values bt pv))
   \<and> (\<forall>pv. pv_wf pv \<longrightarrow> zk_decode z (abi_encode_values bt pv) = Inr pv) \<and> (\<forall>bs. length (keccak256 x bs) = 32)"

lemma prover_sound:
  assumes "zkvm_sound x g bt z" "prover_generate_proof z jwt jwk aud pk sig = Inr (journal, seal)"
  shows "\<exists>pv. guest_main g (keccak256 x) (str_bytes jwt) jwk aud pk sig = Some pv \<and> journal = abi_encode_values bt pv"
  using assms by (fastforce simp: prover_generate_proof_def zkvm_sound_def bind_r_eq_Inr ok_or_eq_Inr split: option.splits if_splits)

lemma guest_key: "guest_main g keccak jwt jwk aud pk sig = Some pv \<Longrightarrow> pv_tee_signing_key pv = drop 12 (keccak pk)"
  by (auto simp: guest_main_def split: if_splits sum.splits option.splits)

lemma guest_wf: "guest_main g keccak jwt jwk aud pk sig = Some pv \<Longrightarrow> (\<forall>bs. length (keccak bs) = 32) \<Longrightarrow> pv_wf pv"
  by (auto simp: guest_main_def parse_image_signature_def pv_wf_def split: if_splits sum.splits option.splits)

text \<open>What a proof answered by the service establishes about the request.\<close>

definition proof_valid :: "('vk, 'sg) ext \<Rightarrow> alloy \<Rightarrow> gcp_crates \<Rightarrow> boot_crates \<Rightarrow> jwk_key list \<Rightarrow> string \<Rightarrow> string \<Rightarrow> bytes \<Rightarrow> bytes \<Rightarrow> proof_response \<Rightarrow> bool" where
  "proof_valid x al g bt keys jwt aud pk sig response \<longleftrightarrow>
     (\<exists>jwk pv. jwk \<in> set keys \<and> extract_kid_from_jwt g (str_bytes jwt) = Inr (jk_kid jwk)
        \<and> guest_main g (keccak256 x) (str_bytes jwt) jwk aud pk sig = Some pv
        \<and> ps_public_values response = ''0x'' @ hex_encode x (abi_encode_values bt pv)
        \<and> ps_tee_address response = al_show_address al (drop 12 (keccak256 x pk)))"

lemma service_sound:
  assumes "zkvm_sound x g bt z" "service_generate_proof x al g z net request c = (c', Inr response)"
  shows "\<exists>pk sig keys. hex_decode x (trim_start_0x (pq_evm_public_key request)) = Inr pk \<and> length pk = 64
     \<and> hex_decode x (trim_start_0x (pq_image_signature request)) = Inr sig \<and> snd (get_keys net c) = Inr keys
     \<and> proof_valid x al g bt keys (pq_jwt_token request) (pq_expected_audience request) pk sig response"
proof -
  obtain pk sig kid where in1: "hex_decode x (trim_start_0x (pq_evm_public_key request)) = Inr pk" "length pk = 64"
    "hex_decode x (trim_start_0x (pq_image_signature request)) = Inr sig" "get_jwt_kid g (pq_jwt_token request) = Inr kid"
    and out: "(case get_jwk net kid c of
             (c', r) \<Rightarrow>
               (c', bind_r r (\<lambda>jwk.
                    bind_r (prover_generate_proof z (pq_jwt_token request) jwk (pq_expected_audience request) pk sig) (\<lambda>(public_values, proof_bytes).
                    bind_r (decode_public_values z public_values) (\<lambda>decoded.
                    Inr \<lparr>ps_public_values = ''0x'' @ hex_encode x public_values, ps_proof_bytes = ''0x'' @ hex_encode x proof_bytes,
                         ps_tee_address = al_show_address al (pv_tee_signing_key decoded)\<rparr>))))) = (c', Inr response)"
    using assms(2) unfolding service_generate_proof_def
    by (auto simp: bind_r_eq_Inr map_err_eq_Inr split: sum.splits if_splits)
  obtain jwk journal seal decoded where jwk: "snd (get_jwk net kid c) = Inr jwk"
    and run: "prover_generate_proof z (pq_jwt_token request) jwk (pq_expected_audience request) pk sig = Inr (journal, seal)"
    and dec: "zk_decode z journal = Inr decoded"
    and resp: "response = \<lparr>ps_public_values = ''0x'' @ hex_encode x journal, ps_proof_bytes = ''0x'' @ hex_encode x seal,
                         ps_tee_address = al_show_address al (pv_tee_signing_key decoded)\<rparr>"
    using out by (auto simp: bind_r_eq_Inr map_err_eq_Inr decode_public_values_def split: prod.splits)
  obtain pv where pv: "guest_main g (keccak256 x) (str_bytes (pq_jwt_token request)) jwk (pq_expected_audience request) pk sig = Some pv"
    "journal = abi_encode_values bt pv" using prover_sound [OF assms(1) run] by blast
  have "pv_wf pv" using guest_wf [OF pv(1)] assms(1) by (simp add: zkvm_sound_def)
  then have "decoded = pv" using dec pv(2) assms(1) by (simp add: zkvm_sound_def)
  moreover obtain keys where "snd (get_keys net c) = Inr keys" "find (\<lambda>k. jk_kid k = kid) keys = Some jwk"
    using jwk by (auto simp: get_jwk_def bind_r_eq_Inr ok_or_eq_Inr split: prod.splits)
  moreover from this(2) have "jwk \<in> set keys" "jk_kid jwk = kid" by (auto simp: find_Some_iff)
  moreover have "extract_kid_from_jwt g (str_bytes (pq_jwt_token request)) = Inr kid" using in1(4) by (simp add: get_jwt_kid_def map_err_eq_Inr)
  ultimately show ?thesis using in1(1-3) pv resp guest_key [OF pv(1)] unfolding proof_valid_def by fastforce
qed

text \<open>The reply on the wire: serde's text of the body, and the status line.\<close>

fun service_reply :: "(prove_reply \<Rightarrow> string) \<Rightarrow> key_cache \<times> nat \<times> prove_reply \<Rightarrow> http_reply" where
  "service_reply write (_, status, reply) =
     Inr \<lparr>hr_status = status,
          hr_status_text = (if status = 200 then ''200 OK'' else if status = 400 then ''400 Bad Request'' else ''503 Service Unavailable''),
          hr_body = Inr (write reply)\<rparr>"

text \<open>C17: What the bootstrap client gets from the proof service. When the service's handler answers the client's request and the client
  reads the answer back, a proof that the client accepts is one of a run of the guest program that verified the client's own token,
  under the key that the token names among the keys the service holds, for the client's audience and signature; its public
  values are those of that run, and the address it reports is that of the client's key.\<close>

theorem service_proof_for_client:
  assumes "zkvm_sound x g bt z" and "hex_codec_ok x" and "\<forall>bs. trim_start_0x (''0x'' @ hex_encode x bs) = hex_encode x bs"
    and "pc_prover_mode pc = ServiceMode"
    and "\<forall>url auth request. pi_prove io url auth request = service_reply write (prove_handler x al g z net request c)"
    and "\<forall>r. jb_proof_response bt (write (ProveResponse r)) = Inr r"
    and "generate_proof x al bt io pc jwt aud pk sig = Inr response"
  shows "\<exists>keys. snd (get_keys net c) = Inr keys \<and> proof_valid x al g bt keys jwt aud pk sig response"
proof -
  let ?q = "\<lparr>pq_jwt_token = jwt, pq_expected_audience = aud, pq_evm_public_key = ''0x'' @ hex_encode x pk, pq_image_signature = ''0x'' @ hex_encode x sig\<rparr>"
  obtain identity r where r: "pi_prove io (pc_service_url pc @ ''/prove'') (''Bearer '' @ identity) ?q = Inr r" "hr_success r"
    "Proof_Client.response_json (jb_proof_response bt) r = Inr response"
    using assms(4,7) by (auto simp: generate_proof_def Let_def bind_r_eq_Inr map_err_eq_Inr split: if_splits)
  have reply: "service_reply write (prove_handler x al g z net ?q c) = Inr r" using assms(5) r(1) by (simp only:)
  obtain c' res where s: "service_generate_proof x al g z net ?q c = (c', res)" by fastforce
  show ?thesis
  proof (cases res)
    case (Inl e)
    have "hr_status r = (if is_permanent_error e then 400 else 503)"
      using reply unfolding prove_handler_def s Inl by (auto simp: Let_def)
    with r(2) show ?thesis by (simp add: hr_success_def split: if_splits)
  next
    case (Inr response')
    have "hr_body r = Inr (write (ProveResponse response'))" using reply unfolding prove_handler_def s Inr by auto
    then have "response' = response" using r(3) assms(6) by (simp add: Proof_Client.response_json_def)
    with s Inr have gen: "service_generate_proof x al g z net ?q c = (c', Inr response)" by simp
    from service_sound [OF assms(1) gen] assms(2,3) show ?thesis by (auto simp: hex_codec_ok_def)
  qed
qed

text \<open>An instance: a zkVM that runs the guest program, and a cache that holds the key of the token.\<close>

definition demo_zkvm :: "public_values zkvm" where
  "demo_zkvm = \<lparr>zk_fails = (\<lambda>_. False), zk_prove = guest_main (demo_gcp None) (keccak256 demo_stylus_ext), zk_verify = (\<lambda>_. True),
     zk_journal = abi_layout, zk_seal = (\<lambda>_. Some []), zk_decode = (\<lambda>bs. ok_or ''abi'' (abi_read bs)), zk_program_id = replicate 8 0\<rparr>"

definition demo_cache :: key_cache where
  "demo_cache = \<lparr>kc_keys = Some \<lparr>cx_keys = [demo_jwk], cx_fetched_at = 0\<rparr>, kc_discovery_url = ''d'', kc_cache_ttl_secs = 3600\<rparr>"

definition demo_net :: key_net where
  "demo_net = \<lparr>kn_now = 5000, kn_fetched = 5000, kn_get = (\<lambda>_. Inl (SendTimeout [])), kn_discovery = (\<lambda>_. Inl []), kn_jwks = (\<lambda>_. Inl [])\<rparr>"

fun demo_write :: "prove_reply \<Rightarrow> string" where
  "demo_write (ProveResponse r) =
     bytes_str (mark_bytes (str_bytes (ps_public_values r)) @ mark_bytes (str_bytes (ps_proof_bytes r)) @ mark_bytes (str_bytes (ps_tee_address r)))"
| "demo_write (ProveError e _ _) = e"

definition demo_read :: "string \<Rightarrow> string + proof_response" where
  "demo_read s =
     (let (a, r1) = unmark_bytes (str_bytes s); (b, r2) = unmark_bytes r1; (d, r3) = unmark_bytes r2
      in Inr \<lparr>ps_public_values = bytes_str a, ps_proof_bytes = bytes_str b, ps_tee_address = bytes_str d\<rparr>)"

definition demo_service_crates :: boot_crates where
  "demo_service_crates = demo_stylus_crates\<lparr>jb_proof_response := demo_read\<rparr>"

definition demo_service_io :: proof_io where
  "demo_service_io = \<lparr>pi_metadata = (\<lambda>_. demo_reply ''t''),
     pi_prove = (\<lambda>_ _ request. service_reply demo_write (prove_handler demo_stylus_ext demo_alloy (demo_gcp None) demo_zkvm demo_net request demo_cache)),
     pi_health = (\<lambda>_ _. demo_reply ''h''), pi_jwks = (\<lambda>_. demo_reply ''k'')\<rparr>"

definition demo_service_client :: proof_client where
  "demo_service_client = demo_stylus_client\<lparr>pc_prover_mode := ServiceMode\<rparr>"

lemma demo_zkvm_sound: "zkvm_sound demo_stylus_ext (demo_gcp None) demo_service_crates demo_zkvm"
  by (simp add: zkvm_sound_def demo_zkvm_def demo_service_crates_def demo_stylus_crates_def abi_read_layout ok_or_def)
    (simp add: demo_stylus_ext_def)

lemma demo_read_write: "demo_read (demo_write (ProveResponse r)) = Inr r"
  by (simp add: demo_read_def)

lemma demo_guest:
  "\<exists>pv. guest_main (demo_gcp None) (keccak256 demo_stylus_ext) (str_bytes demo_token) demo_jwk ''seq'' (replicate 64 2) (replicate 65 1) = Some pv"
proof -
  have "verify_attestation (demo_gcp None) (str_bytes demo_token) demo_jwk (Some ''seq'') None =
    Inr \<lparr>vr_signing_key_id = ''k'', vr_validity_window_start = 0, vr_validity_window_end = 100, vr_image_digest = [],
         vr_secboot = True, vr_audience = ''seq'', vr_nonce = None, vr_dbgstat = [], vr_hwmodel = []\<rparr>"
    by code_simp
  then show ?thesis by (simp add: guest_main_def parse_image_signature_def)
qed

lemma demo_service_trim: "trim_start_0x (''0x'' @ hex_encode demo_stylus_ext bs) = hex_encode demo_stylus_ext bs"
  using trim_start_demo_hex [of bs] by (simp add: demo_stylus_ext_def trim_start_0x.simps)

lemma demo_hex_ok: "hex_codec_ok demo_stylus_ext"
  by (simp add: hex_codec_ok_def demo_stylus_ext_def demo_hex_roundtrip)

lemma demo_service_proof:
  "\<exists>response. generate_proof demo_stylus_ext demo_alloy demo_service_crates demo_service_io demo_service_client demo_token ''seq'' (replicate 64 2)
     (replicate 65 1) = Inr response"
proof -
  let ?q = "\<lparr>pq_jwt_token = demo_token, pq_expected_audience = ''seq'', pq_evm_public_key = ''0x'' @ hex_encode demo_stylus_ext (replicate 64 2),
     pq_image_signature = ''0x'' @ hex_encode demo_stylus_ext (replicate 65 1)\<rparr>"
  obtain pv where pv: "guest_main (demo_gcp None) (keccak256 demo_stylus_ext) (str_bytes demo_token) demo_jwk ''seq'' (replicate 64 2) (replicate 65 1) = Some pv"
    using demo_guest by blast
  have kid: "get_jwt_kid (demo_gcp None) demo_token = Inr ''k''" by code_simp
  have jwk: "get_jwk demo_net ''k'' demo_cache = (demo_cache, Inr demo_jwk)"
    by (simp add: get_jwk_def get_keys_def demo_cache_def demo_net_def demo_jwk_def ok_or_def)
  have wf: "pv_wf pv" by (rule guest_wf [OF pv]) (simp add: demo_stylus_ext_def)
  have run: "prover_generate_proof demo_zkvm demo_token demo_jwk ''seq'' (replicate 64 2) (replicate 65 1) = Inr (abi_layout pv, [])"
  proof -
    have "find (zk_fails demo_zkvm) [0..<6] = None" by (simp add: find_None_iff demo_zkvm_def)
    then show ?thesis using pv by (simp add: prover_generate_proof_def, simp add: demo_zkvm_def ok_or_def)
  qed
  have dec: "decode_public_values demo_zkvm (abi_layout pv) = Inr pv"
    using wf by (simp add: decode_public_values_def demo_zkvm_def abi_read_layout ok_or_def)
  have hex: "hex_decode demo_stylus_ext (hex_encode demo_stylus_ext bs) = Inr bs" for bs using demo_hex_ok by (simp add: hex_codec_ok_def)
  obtain resp where "service_generate_proof demo_stylus_ext demo_alloy (demo_gcp None) demo_zkvm demo_net ?q demo_cache = (demo_cache, Inr resp)"
    unfolding service_generate_proof_def proof_request.simps demo_service_trim hex kid by (simp add: jwk run dec)
  then have "pi_prove demo_service_io url auth ?q = service_reply demo_write (demo_cache, 200, ProveResponse resp)" for url auth
    unfolding demo_service_io_def proof_io.simps prove_handler_def by (simp only: prod.case sum.case)
  then obtain r where r: "\<And>url auth. pi_prove demo_service_io url auth ?q = Inr r" "hr_success r"
    "hr_body r = Inr (demo_write (ProveResponse resp))"
    by (auto simp: hr_success_def)
  have "proof_identity_token demo_service_io url = Inr ''t''" for url
    by (simp add: proof_identity_token_def identity_token_def demo_service_io_def demo_reply_def hr_success_def)
  moreover have "jb_proof_response demo_service_crates = demo_read" "pc_prover_mode demo_service_client = ServiceMode"
    by (simp_all add: demo_service_crates_def demo_service_client_def)
  ultimately have "generate_proof demo_stylus_ext demo_alloy demo_service_crates demo_service_io demo_service_client demo_token ''seq'' (replicate 64 2)
     (replicate 65 1) = Inr resp"
    unfolding generate_proof_def Let_def r(1) by (simp add: r(2,3) Proof_Client.response_json_def demo_read_write del: demo_write.simps)
  then show ?thesis by blast
qed

theorem service_proof_for_client_witness:
  "\<exists>response. generate_proof demo_stylus_ext demo_alloy demo_service_crates demo_service_io demo_service_client demo_token ''seq'' (replicate 64 2)
     (replicate 65 1) = Inr response
   \<and> proof_valid demo_stylus_ext demo_alloy (demo_gcp None) demo_service_crates [demo_jwk] demo_token ''seq'' (replicate 64 2) (replicate 65 1) response"
proof -
  obtain response where g: "generate_proof demo_stylus_ext demo_alloy demo_service_crates demo_service_io demo_service_client demo_token ''seq''
     (replicate 64 2) (replicate 65 1) = Inr response" using demo_service_proof by blast
  have "snd (get_keys demo_net demo_cache) = Inr [demo_jwk]" by (simp add: get_keys_def demo_net_def demo_cache_def)
  then show ?thesis
    using service_proof_for_client [OF demo_zkvm_sound demo_hex_ok, of demo_service_client demo_service_io demo_write demo_alloy demo_net demo_cache
        demo_token "''seq''" "replicate 64 2" "replicate 65 1" response] g
    by (auto simp: demo_service_trim demo_service_client_def demo_service_io_def demo_service_crates_def demo_read_write simp del: demo_write.simps append.simps)
qed

section \<open>Errors\<close>

lemma permanent_no: "\<not> is_permanent_error ''RISC Zero proof generation failed''" "\<not> is_permanent_error ''EVM public key must be exactly 64 bytes''"
  "is_permanent_error ''Invalid EVM public key hex: ''"
  by code_simp+

text \<open>A token that the guest program rejects, because it is expired, not signed by the key or for another audience, is answered as a transient
  error: the proof cannot be made, the reply has the status 503, and the error that the client makes of it is retryable, so the
  client asks for the same proof again.\<close>

theorem rejected_token_retried:
  assumes "zk_prove z (str_bytes jwt) jwk aud pk sig = None" and "\<forall>i < 6. \<not> zk_fails z i"
    and "hex_decode x (trim_start_0x pk_hex) = Inr pk" "length pk = 64" "hex_decode x (trim_start_0x sig_hex) = Inr sig" "length sig = 65"
    and "get_jwt_kid g jwt = Inr kid" and "get_jwk net kid c = (c', Inr jwk)"
  shows "\<exists>e. prove_handler x al g z net \<lparr>pq_jwt_token = jwt, pq_expected_audience = aud, pq_evm_public_key = pk_hex, pq_image_signature = sig_hex\<rparr> c
      = (c', 503, ProveError ''Proof generation failed'' (Some e) (Some False))
     \<and> is_retryable (ProofGenerationFailed (''HTTP '' @ status @ '': '' @ body))"
proof -
  have "find (zk_fails z) [0..<6] = None" using assms(2) by (simp add: find_None_iff)
  then have "service_generate_proof x al g z net \<lparr>pq_jwt_token = jwt, pq_expected_audience = aud, pq_evm_public_key = pk_hex, pq_image_signature = sig_hex\<rparr> c
      = (c', Inl ''RISC Zero proof generation failed'')"
    using assms(1,3-8) by (simp add: service_generate_proof_def prover_generate_proof_def)
  then show ?thesis using permanent_no(1) by (simp add: prove_handler_def Let_def)
qed

lemma str_lower_append_ascii: "\<forall>c \<in> set u. (of_char c :: nat) < 128 \<Longrightarrow> str_lower (u @ v) = str_lower u @ str_lower v"
proof (induction u)
  case (Cons c u)
  then have "c \<noteq> CHR 0xE2" by auto
  with Cons show ?case by simp
qed simp

text \<open>A key that Google has published after the service last fetched the keys is refused for good: while the cache is fresh, a token under a
  key that is not in it is answered with the status 400, which the client does not retry, whatever the key server would answer.\<close>

theorem rotated_key_refused:
  assumes "kc_keys c = Some entry" "(kn_now net - cx_fetched_at entry) div 1000 < kc_cache_ttl_secs c"
    and "find (\<lambda>k. jk_kid k = kid) (cx_keys entry) = None"
    and "hex_decode x (trim_start_0x pk_hex) = Inr pk" "length pk = 64" "hex_decode x (trim_start_0x sig_hex) = Inr sig" "length sig = 65"
    and "get_jwt_kid g jwt = Inr kid"
  shows "prove_handler x al g z net \<lparr>pq_jwt_token = jwt, pq_expected_audience = aud, pq_evm_public_key = pk_hex, pq_image_signature = sig_hex\<rparr> c
      = (c, 400, ProveError ''Proof generation failed'' (Some (''JWK not found for kid: '' @ kid)) (Some True))
     \<and> \<not> is_retryable (ProofGenerationPermanent body)"
proof -
  have keys: "get_jwk net kid c = (c, Inl (''JWK not found for kid: '' @ kid))"
    using assms(1-3) by (simp add: get_jwk_def get_keys_def)
  have "str_lower (''JWK not found for kid: '' @ kid) = str_lower ''JWK not found for kid: '' @ str_lower kid"
    by (rule str_lower_append_ascii) simp
  moreover have "str_lower ''JWK not found for kid: '' = [] @ ''jwk not found'' @ '' for kid: ''" by code_simp
  ultimately have "str_contains (str_lower (''JWK not found for kid: '' @ kid)) ''jwk not found''"
    unfolding str_contains_iff by (metis append.assoc)
  then have "is_permanent_error (''JWK not found for kid: '' @ kid)" by (simp only: is_permanent_error_def Let_def if_True if_cancel)
  moreover have "service_generate_proof x al g z net \<lparr>pq_jwt_token = jwt, pq_expected_audience = aud, pq_evm_public_key = pk_hex, pq_image_signature = sig_hex\<rparr> c
      = (c, Inl (''JWK not found for kid: '' @ kid))"
    using assms(4-8) keys by (simp add: service_generate_proof_def)
  ultimately show ?thesis by (simp only: prove_handler_def Let_def prod.case sum.case if_True) simp
qed

text \<open>The image id is 32 bytes: eight words in little-endian order.\<close>

lemma image_id_length: "length (zk_program_id z) = 8 \<Longrightarrow> length (risc0_image_id_bytes32 z) = 32"
proof -
  have "length (concat (map u32_le_bytes ws)) = 4 * length ws" for ws by (induction ws) (simp_all add: u32_le_bytes_def)
  then show "length (zk_program_id z) = 8 \<Longrightarrow> ?thesis" by (simp add: risc0_image_id_bytes32_def)
qed

end
