(* ===== verification/Spec2Isabelle.thy ===== *)
theory Spec2Isabelle
  imports Message_Api Sequencer_Http Client_Ffi Gcs Proof_Service
begin

text \<open>
  SyndDB replicates a SQLite database through a sequencer: an application sends changesets, snapshots and withdrawals to
  the sequencer, which gives each message a sequence number, signs it, and publishes signed batches to storage; validators
  fetch the batches, verify every signature, apply the messages to a replica, and sign withdrawals for the Bridge contract.
  Keys are registered on chain after an attestation of the enclave they live in, and deposits come back from the chain
  to the application. This development models these programs function by function and proves what makes them correct.

  \<^bold>\<open>The parts and how they interact.\<close>

  \<^item> Sequencer (\<open>crates/synddb-sequencer\<close>). \<open>Sequencer_Http\<close> models the handlers of \<open>http_api.rs\<close> with the request
    and error types; each accepted request takes one number from \<open>Inbox\<close> (\<open>inbox.rs\<close> and the key manager), which signs
    the message; \<open>Batcher\<close> (\<open>batcher.rs\<close>) collects signed messages and flushes batches through \<open>Transport\<close>
    (\<open>transport/\<close>: traits, local and memory backends and their HTTP routes) or \<open>Gcs\<close> (\<open>transport/gcs.rs\<close>, over
    \<open>Object_Storage\<close>, the storage client of \<open>crates/synddb-storage\<close>). \<open>Message_Queue\<close>, \<open>Outbound\<close> and
    \<open>Message_Api\<close> (\<open>messages/\<close>) are the inbound queue, the tracking of outbound messages, and their HTTP routes.
    \<open>Attestation\<close> (\<open>attestation.rs\<close>) is the token check with its key caches.
  \<^item> Shared types (\<open>crates/synddb-shared\<close>). \<open>Cose\<close> and \<open>Cbor_Batch\<close> (\<open>types/cbor/\<close>) are the signed messages and
    batches of the wire format, \<open>Signed_Message\<close> (\<open>types/message.rs\<close>) the validator's view of them, \<open>Batch_Info\<close>
    (\<open>types/batch.rs\<close>) names and metadata, \<open>Payloads\<close> (\<open>types/payloads.rs\<close>) the requests, \<open>Event_Signature\<close>
    (\<open>parse.rs\<close>) the value parsers of the configurations.
  \<^item> Validator (\<open>crates/synddb-validator\<close>). \<open>Fetcher\<close> and \<open>Batch_Index\<close> (\<open>sync/\<close>) find batches in storage,
    \<open>Http_Fetcher\<close> (\<open>sync/providers/http.rs\<close>) asks the sequencer for them with retries and \<open>Gcs\<close>
    (\<open>sync/providers/gcs.rs\<close>) reads them from the object storage,
    \<open>Verifier\<close> (\<open>sync/verifier.rs\<close>) checks signatures, \<open>Rules\<close>, \<open>Applier\<close> and \<open>Audit_Trail\<close> (\<open>rules/\<close>,
    \<open>apply/\<close>) apply changesets and record what could not be applied, \<open>State_Store\<close> (\<open>state/store.rs\<close>) keeps the
    progress, \<open>Validator\<close> (\<open>validator.rs\<close>) composes them into the sync operations, and \<open>Bridge_Signer\<close>
    (\<open>bridge/\<close>, HTTP handlers, the loop of \<open>main.rs\<close>) signs withdrawals and serves the signatures.
  \<^item> Attestation and keys. \<open>Gcp_Attestation\<close> (\<open>crates/gcp-attestation\<close>) parses and verifies tokens, \<open>Stylus_Json\<close>
    and \<open>Stylus_Verifier\<close> (\<open>contracts/stylus/attestation-verifier\<close>) are the on-chain verifier, \<open>Attestation_Client\<close>
    (\<open>crates/synddb-client/src/attestation.rs\<close>) fetches tokens, \<open>Proof_Client\<close> and \<open>Bootstrap\<close>
    (\<open>crates/synddb-bootstrap\<close>) prove and register a key, \<open>Proof_Service\<close> (\<open>crates/proof-service\<close>) makes the proofs, \<open>Relayer\<close> (\<open>crates/synddb-relayer\<close>) submits registrations
    and withdrawals for them.
  \<^item> Client library (\<open>crates/synddb-client\<close>). \<open>Client_Session\<close> (\<open>session.rs\<close>) captures committed changes and puts changesets and
    snapshots into bounded channels; \<open>Client_Sender\<close> (\<open>sender.rs\<close>, \<open>snapshot_sender.rs\<close>) are the two threads that take
    them from there, post them to the sequencer with the retries of \<open>Client_Recovery\<close> (\<open>retry.rs\<close>, \<open>stats.rs\<close>,
    \<open>recovery.rs\<close>) and save what failed; \<open>Client\<close> (\<open>lib.rs\<close>, \<open>config.rs\<close>, \<open>ddl_recovery.rs\<close>) is the handle
    with its transactions, snapshots and schema changes, and \<open>Client_Ffi\<close> (\<open>ffi.rs\<close>) the C interface over it: memory is a
    map from addresses to handles, and the use of a freed handle has no result.
  \<^item> Chain events. \<open>Eth_Client\<close>, \<open>Event_Store\<close> and \<open>Chain_Monitor\<close> (\<open>crates/synddb-chain-monitor\<close>) follow the
    events of a contract, and \<open>Deposits\<close> (\<open>crates/synddb-client/src/chain_handler.rs\<close>,
    \<open>chain_monitor_integration/active.rs\<close>) brings deposits into the application's database.

  \<^bold>\<open>How the code is modelled.\<close> \<open>Prelude\<close> holds the machine types (a \<open>u64\<close> is a 64-bit word and wraps around, as in the
  release profile), the \<open>Result\<close> monad as a sum type and the locale \<open>machine\<close> of step functions with an invariant;
  \<open>Rust_Std\<close> what the sources use of the standard library, \<open>Btree_Map\<close> the ordered map, and \<open>Web\<close> replies of HTTP
  services, retries and receipts. A struct is a record, an enum a datatype, a \<open>Result\<close> or panic a value; mutable state is passed
  explicitly and returned. What happens outside the process (a statement of the database engine, an answer of a
  node or service, the clock, the state of a lock) is an argument, so a theorem about all arguments covers every failure.
  Concurrency is interleaving: of requests that share the sequence counter, of the batcher's events, and of the monitor's
  thread with the application's.

  \<^bold>\<open>Code that is not in the repository\<close> (hashes, signatures, CBOR and compression, alloy, SQLite's session extension, GCP)
  is a parameter: the record \<open>ext\<close> of \<open>Crates\<close> and the records of the single theories. Theorems name what they rely on
  (a codec decodes what it encodes, a signature verifies under its key, the ABI decoder inverts the encoder, a node
  answers truthfully). \<open>Crates_Model\<close> and the \<open>demo_\<close> definitions are concrete executable instances in which these
  hypotheses hold; each theorem with hypotheses has a witness there.

  \<^bold>\<open>What the theorems show.\<close>

  \<^item> Sequencing: numbers are handed out once and in order under every interleaving of requests, a batch contains exactly
    the messages given to it, nothing is lost or doubled between inbox, batcher and storage, and stored batches can be
    fetched and are accepted by the validator's verifier, end to end over the sequencer's HTTP interface and over the object storage.
  \<^item> Client: while the channel has room every committed change is captured once and in order; a changeset the sender took is
    buffered, accepted by the sequencer or in the recovery database; the marker of a schema change stands until a snapshot
    was made; no call of the handle panics, and none of the C interface touches freed memory when its protocol is kept.
  \<^item> Validation: verification accepts only messages signed by the configured key over exactly their content; a message is
    applied entirely or not at all; syncing by batches equals syncing message by message; syncing to the head returns;
    the audit chain is accepted exactly when it is intact; withdrawals of synced messages are signed.
  \<^item> Attestation: a token passes exactly when all the listed checks hold, off chain and on chain; a successful bootstrap has
    registered the key it returns; a proof that the bootstrap client accepts from the proof service is one of a run of the guest
    program on its own token, key and signature; the relayer submits only what its configuration allows, with the bytes requested.
  \<^item> Chain events: a split query returns exactly the logs of its range and ends; polling reaches the head and misses no
    acceptable event; marked deposits are in the channel or the table while the process lives.
  \<^item> Errors: theorems that state where the code does less than it says (allowlists that allow everything, events that are
    not retried, deposits that a restart loses, rejected messages recorded as synced, keys not bound to a token, changes lost
    by a full or closed channel or by \<open>shutdown\<close>, permanent errors that are retried, a schema change through the C interface
    that nothing protects).

  \<^bold>\<open>Locales.\<close> The interfaces are locales with interpretations on the model: \<open>machine\<close> for operations that keep an
  invariant and \<open>monotone_machine\<close> for those that also only move forward, \<open>transport\<close> for what the batcher relies on in a
  publishing backend (interpreted on the memory, SQLite and object storage backends), \<open>batch_storage\<close> for what the validator relies on in a
  fetcher (interpreted on the mock, HTTP and object storage fetchers), and \<open>event_handler\<close> for what the chain
  monitor relies on in its handler; the clients' lemmas are proved inside them and reached through the interpretations.

  \<^bold>\<open>Bounds and fuel.\<close> Loops that end by construction are total functions with a measure. Loops that depend on the outside
  world take fuel, and a theorem says how much is enough: syncing to the head takes one unit per stored message,
  waiting for a receipt one poll per two seconds of the timeout, a log query one level per block of its range
  (the window of a poll is 100 blocks, so 101), the retry loops their number of attempts. Requests that the code repeats for ever
  (\<open>request_loop\<close>) return with the first success, if there is one.

  \<^bold>\<open>Not modelled.\<close> Process entry points and clap definitions (wiring; the loop of the validator's \<open>main.rs\<close> is), telemetry, metrics
  and runtime set-up, and the JSON view of \<open>types/cbor/debug.rs\<close>, which no other part reads; the build script of the proof service and
  the RISC Zero host (the prover is a parameter of \<open>Proof_Service\<close>); the Arweave transport, a stub; the Solidity contracts; the
  fuzzers, benchmarks, end-to-end tests and example applications, which exercise the system from outside.
\<close>

end
